(* ===== verification/Prelude.thy ===== *)
theory Prelude
  imports Main "HOL-Library.Word"
begin

text \<open>
  Shared vocabulary of the development: the machine integer types, the error results of
  Rust's \<open>Result\<close>, the state-and-error operations of handlers that mutate their environment,
  big-endian byte strings, and the part of \<open>core::str\<close> the program uses (UTF-8 validation and
  counting of code points). The lemmas here are about these generic notions only.
\<close>

unbundle bit_operations_syntax

type_synonym u8 = "8 word"
type_synonym u16 = "16 word"
type_synonym u32 = "32 word"
type_synonym u64 = "64 word"
type_synonym bytes = "8 word list"

named_theorems step_defs \<open>definitions that unfold one operation of a component\<close>

section \<open>Results\<close>

text \<open>\<open>Result<T, E>\<close> is \<open>'e + 't\<close> with \<open>Inl\<close> for \<open>Err\<close>; \<open>?\<close> is \<open>rbind\<close>.\<close>

fun rbind :: "'e + 'a \<Rightarrow> ('a \<Rightarrow> 'e + 'b) \<Rightarrow> 'e + 'b" where
  "rbind (Inl e) f = Inl e"
| "rbind (Inr x) f = f x"

lemma rbind_cong [fundef_cong]:
  "r = r' \<Longrightarrow> (\<And>x. r' = Inr x \<Longrightarrow> f x = f' x) \<Longrightarrow> rbind r f = rbind r' f'"
  by (cases r') auto

lemma rbind_Inr_iff: "rbind r f = Inr y \<longleftrightarrow> (\<exists>x. r = Inr x \<and> f x = Inr y)"
  by (cases r) auto

lemma rbind_Inl_iff: "rbind r f = Inl e \<longleftrightarrow> r = Inl e \<or> (\<exists>x. r = Inr x \<and> f x = Inl e)"
  by (cases r) auto

lemma rbind_assoc: "rbind (rbind r f) g = rbind r (\<lambda>x. rbind (f x) g)"
  by (cases r) auto

definition ok_or :: "'a option \<Rightarrow> 'e \<Rightarrow> 'e + 'a" where
  "ok_or x e = (case x of None \<Rightarrow> Inl e | Some y \<Rightarrow> Inr y)"

lemma ok_or_simps [simp]: "ok_or None e = Inl e" "ok_or (Some y) e = Inr y"
  by (simp_all add: ok_or_def)

definition is_ok :: "'e + 'a \<Rightarrow> bool" where
  "is_ok r = (case r of Inl _ \<Rightarrow> False | Inr _ \<Rightarrow> True)"

lemma is_ok_simps [simp]: "\<not> is_ok (Inl e)" "is_ok (Inr x)"
  by (simp_all add: is_ok_def)

lemma is_ok_iff: "is_ok r \<longleftrightarrow> (\<exists>x. r = Inr x)"
  by (cases r) auto

section \<open>State and errors\<close>

text \<open>
  A handler that takes \<open>&mut\<close> state keeps what it wrote when it returns an error, so a
  stateful fallible operation is a function from the state to the result and the new state.
\<close>

type_synonym ('s, 'e, 'a) op = "'s \<Rightarrow> ('e + 'a) \<times> 's"

definition sret :: "'a \<Rightarrow> ('s, 'e, 'a) op" where
  "sret x = (\<lambda>s. (Inr x, s))"

definition sfail :: "'e \<Rightarrow> ('s, 'e, 'a) op" where
  "sfail e = (\<lambda>s. (Inl e, s))"

definition sbind :: "('s, 'e, 'a) op \<Rightarrow> ('a \<Rightarrow> ('s, 'e, 'b) op) \<Rightarrow> ('s, 'e, 'b) op" where
  "sbind m f = (\<lambda>s. case m s of (Inl e, s') \<Rightarrow> (Inl e, s') | (Inr x, s') \<Rightarrow> f x s')"

definition slift :: "('s \<Rightarrow> 'e + 'a) \<Rightarrow> ('s, 'e, 'a) op" where
  "slift f = (\<lambda>s. (f s, s))"

definition supdate :: "('s \<Rightarrow> 's) \<Rightarrow> ('s, 'e, unit) op" where
  "supdate f = (\<lambda>s. (Inr (), f s))"

lemma op_simps [simp]:
  "sret x s = (Inr x, s)"
  "sfail e s = (Inl e, s)"
  "slift f s = (f s, s)"
  "supdate g s = (Inr (), g s)"
  by (simp_all add: sret_def sfail_def slift_def supdate_def)

lemma sbind_simps [simp]:
  "m s = (Inl e, s') \<Longrightarrow> sbind m f s = (Inl e, s')"
  "m s = (Inr x, s') \<Longrightarrow> sbind m f s = f x s'"
  by (simp_all add: sbind_def)

lemma sbind_Inr_iff:
  "sbind m f s = (Inr y, s'') \<longleftrightarrow> (\<exists>x s'. m s = (Inr x, s') \<and> f x s' = (Inr y, s''))"
  by (auto simp: sbind_def split: prod.splits sum.splits)

lemma sbind_split:
  "P (sbind m f s) \<longleftrightarrow>
     (\<forall>e s'. m s = (Inl e, s') \<longrightarrow> P (Inl e, s')) \<and>
     (\<forall>x s'. m s = (Inr x, s') \<longrightarrow> P (f x s'))"
  by (auto simp: sbind_def split: prod.splits sum.splits)

lemma sbind_split_asm:
  "P (sbind m f s) \<longleftrightarrow>
     \<not> ((\<exists>e s'. m s = (Inl e, s') \<and> \<not> P (Inl e, s')) \<or>
        (\<exists>x s'. m s = (Inr x, s') \<and> \<not> P (f x s')))"
  by (auto simp: sbind_def split: prod.splits sum.splits)

section \<open>Big-endian byte strings\<close>

lemma unat_u8_less: "unat (b :: u8) < 256"
  using unsigned_less [of b, where 'a = nat] by simp

text \<open>
  \<open>be_bytes n w\<close> is the loop \<open>for i in (0..n).rev() { push((w >> (i * 8)) as u8) }\<close>, and
  \<open>be_val\<close> the loop \<open>for b in bytes { v <<= 8; v += b as u64 }\<close>.
\<close>

definition be_bytes :: "nat \<Rightarrow> 'a::len word \<Rightarrow> bytes" where
  "be_bytes n w = map (\<lambda>i. ucast (drop_bit (i * 8) w)) (rev [0..<n])"

definition be_val :: "bytes \<Rightarrow> u64" where
  "be_val bs = foldl (\<lambda>v b. push_bit 8 v + ucast b) 0 bs"

definition be_nat :: "bytes \<Rightarrow> nat" where
  "be_nat bs = foldl (\<lambda>v b. v * 256 + unat b) 0 bs"

lemma be_bytes_0 [simp]: "be_bytes 0 w = []"
  by (simp add: be_bytes_def)

lemma be_bytes_Suc: "be_bytes (Suc n) w = ucast (drop_bit (n * 8) w) # be_bytes n w"
  by (simp add: be_bytes_def)

lemma length_be_bytes [simp]: "length (be_bytes n w) = n"
  by (simp add: be_bytes_def)

lemma be_nat_Nil [simp]: "be_nat [] = 0"
  by (simp add: be_nat_def)

lemma be_nat_snoc: "be_nat (bs @ [b]) = be_nat bs * 256 + unat b"
  by (simp add: be_nat_def)

lemma be_nat_append: "be_nat (xs @ ys) = be_nat xs * 256 ^ length ys + be_nat ys"
  by (induction ys rule: rev_induct)
     (simp_all add: be_nat_snoc algebra_simps flip: append_assoc)

lemma be_nat_Cons: "be_nat (b # bs) = unat b * 256 ^ length bs + be_nat bs"
  using be_nat_append [of "[b]" bs] be_nat_snoc [of "[]" b] by simp

lemma be_nat_less: "be_nat bs < 256 ^ length bs"
proof (induction bs rule: rev_induct)
  case Nil
  then show ?case by simp
next
  case (snoc b bs)
  have "unat b < 256"
    using unsigned_less [of b] by simp
  with snoc have "be_nat bs * 256 + unat b < (be_nat bs + 1) * 256"
    by simp
  also have "\<dots> \<le> 256 ^ length bs * 256"
    using snoc by (intro mult_right_mono) auto
  finally show ?case
    by (simp add: be_nat_snoc mult.commute)
qed

lemma be_nat_be_bytes: "be_nat (be_bytes n w) = unat w mod 256 ^ n"
proof (induction n)
  case 0
  then show ?case by simp
next
  case (Suc n)
  have pow: "(2::nat) ^ (n * 8) = 256 ^ n"
    by (simp add: mult.commute [of n] power_mult)
  have "unat (ucast (drop_bit (n * 8) w) :: u8) = take_bit 8 (drop_bit (n * 8) (unat w))"
    by (simp add: unsigned_ucast_eq unat_drop_bit_eq)
  also have "\<dots> = unat w div 256 ^ n mod 256"
    by (simp add: take_bit_eq_mod drop_bit_eq_div pow)
  finally have "unat (ucast (drop_bit (n * 8) w) :: u8) = unat w div 256 ^ n mod 256" .
  then have "be_nat (be_bytes (Suc n) w) = (unat w div 256 ^ n mod 256) * 256 ^ n + unat w mod 256 ^ n"
    by (simp add: be_bytes_Suc be_nat_Cons Suc)
  also have "\<dots> = unat w mod 256 ^ Suc n"
    using mod_mult2_eq [of "unat w" "256 ^ n" 256]
    by (simp only: power_Suc2 mult.commute add.commute)
  finally show ?case .
qed

lemma be_nat_inj:
  "length xs = length ys \<Longrightarrow> be_nat xs = be_nat ys \<Longrightarrow> xs = ys"
proof (induction xs arbitrary: ys rule: rev_induct)
  case Nil
  then show ?case by simp
next
  case (snoc x xs)
  then obtain zs z where ys: "ys = zs @ [z]" and len: "length xs = length zs"
    by (cases ys rule: rev_cases) auto
  have lt: "unat x < 256" "unat z < 256"
    using unsigned_less [of x] unsigned_less [of z] by simp_all
  from snoc.prems ys have eq: "be_nat xs * 256 + unat x = be_nat zs * 256 + unat z"
    by (simp add: be_nat_snoc)
  have "be_nat xs = be_nat zs"
    using arg_cong [OF eq, of "\<lambda>k. k div 256"] lt by simp
  moreover have "unat x = unat z"
    using arg_cong [OF eq, of "\<lambda>k. k mod 256"] lt by simp
  ultimately
  show ?case
    using snoc.IH len ys by (simp add: word_unat_eq_iff)
qed

lemma be_val_snoc: "be_val (bs @ [b]) = push_bit 8 (be_val bs) + ucast b"
  by (simp add: be_val_def)

lemma unat_be_val: "length bs \<le> 8 \<Longrightarrow> unat (be_val bs) = be_nat bs"
proof (induction bs rule: rev_induct)
  case Nil
  then show ?case by (simp add: be_val_def be_nat_def)
next
  case (snoc b bs)
  have "be_nat (bs @ [b]) < 256 ^ length (bs @ [b])"
    by (rule be_nat_less)
  also have "\<dots> \<le> 256 ^ 8"
    using snoc.prems by (intro power_increasing) auto
  finally have bound: "be_nat bs * 256 + unat b < 2 ^ 64"
    by (simp add: be_nat_snoc)
  have "push_bit 8 (be_val bs) = be_val bs * 256"
    by (simp add: push_bit_eq_mult)
  moreover have "unat (be_val bs * 256) = be_nat bs * 256"
    using bound snoc by (subst unat_mult_lem [THEN iffD1]) auto
  moreover have "unat (ucast b :: u64) = unat b"
    using less_le_trans [OF unsigned_less [of b], of "2 ^ 64"]
    by (simp add: unsigned_ucast_eq take_bit_nat_eq_self_iff)
  ultimately show ?case
    using bound by (simp add: be_val_snoc be_nat_snoc unat_add_lem [THEN iffD1])
qed

lemma be_val_be_bytes:
  assumes "n \<le> 8" and "unat (w :: u64) < 256 ^ n"
  shows "be_val (be_bytes n w) = w"
  using assms by (simp add: word_unat_eq_iff unat_be_val be_nat_be_bytes)

lemma be_bytes_be_val:
  assumes "length bs \<le> 8"
  shows "be_bytes (length bs) (be_val bs) = bs"
  using assms be_nat_less [of bs]
  by (intro be_nat_inj) (simp_all add: be_nat_be_bytes unat_be_val)

section \<open>UTF-8\<close>

text \<open>
  \<open>core::str::from_utf8\<close> accepts the well-formed byte sequences of the Unicode standard
  (table 3-7). \<open>utf8_count bs\<close> is the number of code points (\<open>chars().count()\<close>) of a
  well-formed sequence and \<open>None\<close> for an ill-formed one.
\<close>

definition utf8_cont :: "u8 \<Rightarrow> bool" where
  "utf8_cont b = (0x80 \<le> b \<and> b \<le> 0xBF)"

definition utf8_second :: "u8 \<Rightarrow> u8 \<Rightarrow> bool" where
  "utf8_second b c =
     (if b = 0xE0 then 0xA0 \<le> c \<and> c \<le> 0xBF
      else if b = 0xED then 0x80 \<le> c \<and> c \<le> 0x9F
      else if b = 0xF0 then 0x90 \<le> c \<and> c \<le> 0xBF
      else if b = 0xF4 then 0x80 \<le> c \<and> c \<le> 0x8F
      else utf8_cont c)"

fun utf8_count :: "bytes \<Rightarrow> nat option" where
  "utf8_count [] = Some 0"
| "utf8_count (b # bs) =
     (if b < 0x80 then map_option Suc (utf8_count bs)
      else if 0xC2 \<le> b \<and> b \<le> 0xDF then
        (case bs of
           c1 # r \<Rightarrow> if utf8_cont c1 then map_option Suc (utf8_count r) else None
         | _ \<Rightarrow> None)
      else if 0xE0 \<le> b \<and> b \<le> 0xEF then
        (case bs of
           c1 # c2 # r \<Rightarrow>
             if utf8_second b c1 \<and> utf8_cont c2 then map_option Suc (utf8_count r) else None
         | _ \<Rightarrow> None)
      else if 0xF0 \<le> b \<and> b \<le> 0xF4 then
        (case bs of
           c1 # c2 # c3 # r \<Rightarrow>
             if utf8_second b c1 \<and> utf8_cont c2 \<and> utf8_cont c3
             then map_option Suc (utf8_count r) else None
         | _ \<Rightarrow> None)
      else None)"

definition utf8_valid :: "bytes \<Rightarrow> bool" where
  "utf8_valid bs = (utf8_count bs \<noteq> None)"

lemma utf8_count_le: "utf8_count bs = Some n \<Longrightarrow> n \<le> length bs"
proof (induction bs arbitrary: n rule: utf8_count.induct)
  case 1
  then show ?case by simp
next
  case (2 b bs)
  then show ?case
    by (fastforce split: if_splits list.splits)
qed

section \<open>Prefix codecs\<close>

text \<open>
  The contract of a self-delimiting format: \<open>dec\<close> gives back an encoded value with the bytes
  after it, and accepts nothing but encodings of the values \<open>ok\<close> describes.
\<close>

locale prefix_codec =
  fixes enc :: "'v \<Rightarrow> bytes"
    and dec :: "bytes \<Rightarrow> 'e + 'v \<times> bytes"
    and ok :: "'v \<Rightarrow> bool"
  assumes dec_enc: "ok v \<Longrightarrow> dec (enc v @ r) = Inr (v, r)"
    and dec_sound: "dec bs = Inr (v, r) \<Longrightarrow> ok v \<and> bs = enc v @ r"
begin

lemma dec_iff: "dec bs = Inr (v, r) \<longleftrightarrow> ok v \<and> bs = enc v @ r"
  by (auto simp: dec_enc dest: dec_sound)

lemma prefix_free: "ok v \<Longrightarrow> ok w \<Longrightarrow> enc v @ r = enc w @ s \<Longrightarrow> v = w \<and> r = s"
  by (metis dec_enc prod.inject sum.inject(2))

lemma enc_inject: "ok v \<Longrightarrow> ok w \<Longrightarrow> enc v = enc w \<longleftrightarrow> v = w"
  by (metis prefix_free)

lemma dec_unique: "dec (bs @ r) = Inr (v, r) \<Longrightarrow> dec (bs' @ s) = Inr (v, s) \<Longrightarrow> bs = bs'"
  by (auto simp: dec_iff)

lemma dec_extend: "dec bs = Inr (v, r) \<Longrightarrow> dec (bs @ s) = Inr (v, r @ s)"
  by (auto simp: dec_iff)

end

end
