(* ===== verification/Cbor_Values.thy ===== *)
theory Cbor_Values
  imports Prelude
begin

text \<open>
  The CBOR data model of \<open>libraries/cbor/src/values.rs\<close>: the type \<open>Value\<close>, its constructors from
  Rust values and the canonical order \<open>impl Ord for Value\<close>. The order is proved total, so
  \<open>cvalue\<close> is an instance of \<open>linorder\<close>, which is what \<open>sort_by\<close>, the key check of the
  reader and \<open>destructure_cbor_map!\<close> rely on.
\<close>

section \<open>Values\<close>

text \<open>\<open>Negative\<close> holds the bits of an \<open>i64\<close>; a \<open>String\<close> is its UTF-8 bytes.\<close>

datatype simple_value = FalseValue | TrueValue | NullValue | Undefined

datatype cvalue =
    Unsigned u64
  | Negative u64
  | ByteString bytes
  | TextString bytes
  | Array "cvalue list"
  | Map "(cvalue \<times> cvalue) list"
  | Tag u64 cvalue
  | Simple simple_value

definition simple_code :: "simple_value \<Rightarrow> u64" where
  "simple_code s = (case s of FalseValue \<Rightarrow> 20 | TrueValue \<Rightarrow> 21 | NullValue \<Rightarrow> 22 | Undefined \<Rightarrow> 23)"

definition from_integer :: "u64 \<Rightarrow> simple_value option" where
  "from_integer n =
     (if n = 20 then Some FalseValue
      else if n = 21 then Some TrueValue
      else if n = 22 then Some NullValue
      else if n = 23 then Some Undefined
      else None)"

text \<open>\<open>Value::integer\<close> and \<open>From<i64>\<close>: a non-negative \<open>i64\<close> is an \<open>Unsigned\<close>.\<close>

definition integer_value :: "u64 \<Rightarrow> cvalue" where
  "integer_value i = (if 0 \<le> sint i then Unsigned i else Negative i)"

definition from_i32 :: "u32 \<Rightarrow> cvalue" where
  "from_i32 i = integer_value (scast i)"

definition bool_value :: "bool \<Rightarrow> cvalue" where
  "bool_value b = (if b then Simple TrueValue else Simple FalseValue)"

fun type_label :: "cvalue \<Rightarrow> u8" where
  "type_label (Unsigned _) = 0"
| "type_label (Negative _) = 1"
| "type_label (ByteString _) = 2"
| "type_label (TextString _) = 3"
| "type_label (Array _) = 4"
| "type_label (Map _) = 5"
| "type_label (Tag _ _) = 6"
| "type_label (Simple _) = 7"

lemma type_label_less: "type_label v < 8"
  by (cases v) simp_all

lemma simple_code_less: "simple_code s < 24"
  by (cases s) (simp_all add: simple_code_def)

lemma from_integer_simple_code [simp]: "from_integer (simple_code s) = Some s"
  by (cases s) (simp_all add: simple_code_def from_integer_def)

lemma from_integer_Some: "from_integer n = Some s \<longleftrightarrow> n = simple_code s"
  by (cases s) (auto simp: simple_code_def from_integer_def)

section \<open>The canonical order\<close>

datatype ordering = Less | Equal | Greater

fun reverse_ord :: "ordering \<Rightarrow> ordering" where
  "reverse_ord Less = Greater"
| "reverse_ord Equal = Equal"
| "reverse_ord Greater = Less"

fun ord_then :: "ordering \<Rightarrow> ordering \<Rightarrow> ordering" where
  "ord_then Equal o2 = o2"
| "ord_then o1 o2 = o1"

definition cmp_of :: "'a::linorder \<Rightarrow> 'a \<Rightarrow> ordering" where
  "cmp_of x y = (if x < y then Less else if x = y then Equal else Greater)"

text \<open>Slices and strings compare lexicographically, a proper prefix being smaller.\<close>

fun lex_cmp :: "'a::linorder list \<Rightarrow> 'a list \<Rightarrow> ordering" where
  "lex_cmp [] [] = Equal"
| "lex_cmp [] (_ # _) = Less"
| "lex_cmp (_ # _) [] = Greater"
| "lex_cmp (x # xs) (y # ys) = ord_then (cmp_of x y) (lex_cmp xs ys)"

definition simple_cmp :: "simple_value \<Rightarrow> simple_value \<Rightarrow> ordering" where
  "simple_cmp s t = cmp_of (simple_code s) (simple_code t)"

text \<open>
  \<open>list_cmp\<close> and \<open>pairs_cmp\<close> are the two \<open>zip\<close> loops of \<open>cmp\<close>, which stop at the first element
  that is not \<open>Equal\<close>. The last case of \<open>value_cmp\<close> is the \<open>unreachable!()\<close> arm: both values
  have the same type label there, so no pair of values reaches it.
\<close>

function (sequential) value_cmp :: "cvalue \<Rightarrow> cvalue \<Rightarrow> ordering"
  and list_cmp :: "cvalue list \<Rightarrow> cvalue list \<Rightarrow> ordering"
  and pairs_cmp :: "(cvalue \<times> cvalue) list \<Rightarrow> (cvalue \<times> cvalue) list \<Rightarrow> ordering" where
  "value_cmp x y =
     (if type_label x \<noteq> type_label y then cmp_of (type_label x) (type_label y)
      else case (x, y) of
        (Unsigned u1, Unsigned u2) \<Rightarrow> cmp_of u1 u2
      | (Negative n1, Negative n2) \<Rightarrow> reverse_ord (cmp_of (sint n1) (sint n2))
      | (ByteString b1, ByteString b2) \<Rightarrow> ord_then (cmp_of (length b1) (length b2)) (lex_cmp b1 b2)
      | (TextString t1, TextString t2) \<Rightarrow> ord_then (cmp_of (length t1) (length t2)) (lex_cmp t1 t2)
      | (Array a1, Array a2) \<Rightarrow>
          (if length a1 \<noteq> length a2 then cmp_of (length a1) (length a2) else list_cmp a1 a2)
      | (Map m1, Map m2) \<Rightarrow>
          (if length m1 \<noteq> length m2 then cmp_of (length m1) (length m2) else pairs_cmp m1 m2)
      | (Tag t1 v1, Tag t2 v2) \<Rightarrow> ord_then (cmp_of t1 t2) (value_cmp v1 v2)
      | (Simple s1, Simple s2) \<Rightarrow> simple_cmp s1 s2
      | _ \<Rightarrow> Equal)"
| "list_cmp (e1 # a1) (e2 # a2) = ord_then (value_cmp e1 e2) (list_cmp a1 a2)"
| "list_cmp _ _ = Equal"
| "pairs_cmp ((k1, v1) # m1) ((k2, v2) # m2) =
     ord_then (ord_then (value_cmp k1 k2) (value_cmp v1 v2)) (pairs_cmp m1 m2)"
| "pairs_cmp _ _ = Equal"
  by pat_completeness auto
termination
  by (relation "measure (case_sum (\<lambda>(x, _). 2 * size x)
       (case_sum (\<lambda>(a, _). 2 * size_list size a + 1)
                 (\<lambda>(m, _). 2 * size_list (size_prod size size) m + 1)))") auto

declare value_cmp.simps [simp del]

lemma value_cmp_simps [simp]:
  "value_cmp (Unsigned u1) (Unsigned u2) = cmp_of u1 u2"
  "value_cmp (Negative n1) (Negative n2) = reverse_ord (cmp_of (sint n1) (sint n2))"
  "value_cmp (ByteString b1) (ByteString b2) = ord_then (cmp_of (length b1) (length b2)) (lex_cmp b1 b2)"
  "value_cmp (TextString b1) (TextString b2) = ord_then (cmp_of (length b1) (length b2)) (lex_cmp b1 b2)"
  "value_cmp (Array a1) (Array a2) =
     (if length a1 \<noteq> length a2 then cmp_of (length a1) (length a2) else list_cmp a1 a2)"
  "value_cmp (Map m1) (Map m2) =
     (if length m1 \<noteq> length m2 then cmp_of (length m1) (length m2) else pairs_cmp m1 m2)"
  "value_cmp (Tag t1 v1) (Tag t2 v2) = ord_then (cmp_of t1 t2) (value_cmp v1 v2)"
  "value_cmp (Simple s1) (Simple s2) = simple_cmp s1 s2"
  by (subst value_cmp.simps, simp)+

lemma value_cmp_label:
  "type_label x \<noteq> type_label y \<Longrightarrow> value_cmp x y = cmp_of (type_label x) (type_label y)"
  by (subst value_cmp.simps) simp

lemma same_type_label:
  assumes "type_label x = type_label y"
  obtains (Unsigned) u1 u2 where "x = Unsigned u1" "y = Unsigned u2"
  | (Negative) n1 n2 where "x = Negative n1" "y = Negative n2"
  | (ByteString) b1 b2 where "x = ByteString b1" "y = ByteString b2"
  | (TextString) t1 t2 where "x = TextString t1" "y = TextString t2"
  | (Array) a1 a2 where "x = Array a1" "y = Array a2"
  | (Map) m1 m2 where "x = Map m1" "y = Map m2"
  | (Tag) t1 v1 t2 v2 where "x = Tag t1 v1" "y = Tag t2 v2"
  | (Simple) s1 s2 where "x = Simple s1" "y = Simple s2"
  using assms by (cases x; cases y) simp_all

lemma ord_then_assoc: "ord_then (ord_then a b) c = ord_then a (ord_then b c)"
  by (cases a; cases b) simp_all

lemma ord_then_Equal [simp]: "ord_then a Equal = a"
  by (cases a) simp_all

lemma ord_then_neq: "a \<noteq> Equal \<Longrightarrow> ord_then a b = a"
  by (cases a) simp_all

lemma ord_then_eq_Equal [simp]: "ord_then a b = Equal \<longleftrightarrow> a = Equal \<and> b = Equal"
  by (cases a) simp_all

lemma reverse_ord_eq_Equal [simp]: "reverse_ord a = Equal \<longleftrightarrow> a = Equal"
  by (cases a) simp_all

lemma cmp_of_eqs [simp]:
  "cmp_of x y = Equal \<longleftrightarrow> x = y"
  "cmp_of x y = Less \<longleftrightarrow> x < y"
  "cmp_of x y = Greater \<longleftrightarrow> y < x"
  by (auto simp: cmp_of_def)

lemma cmp_of_refl [simp]: "cmp_of x x = Equal"
  by simp

lemma reverse_cmp_of: "reverse_ord (cmp_of x y) = cmp_of y x"
  by (auto simp: cmp_of_def)

section \<open>The order is total\<close>

text \<open>
  Every value has a \<open>rank\<close>, a list of integers that starts with its type and its length, so that
  no rank is a proper prefix of another; comparing two values is comparing their ranks.
\<close>

fun rank :: "cvalue \<Rightarrow> int list" where
  "rank (Unsigned u) = [0, uint u]"
| "rank (Negative n) = [1, - sint n]"
| "rank (ByteString b) = 2 # int (length b) # map uint b"
| "rank (TextString t) = 3 # int (length t) # map uint t"
| "rank (Array a) = 4 # int (length a) # concat (map rank a)"
| "rank (Map m) = 5 # int (length m) # concat (map (\<lambda>(k, v). rank k @ rank v) m)"
| "rank (Tag t v) = 6 # uint t # rank v"
| "rank (Simple s) = [7, uint (simple_code s)]"

lemma cmp_of_uint: "cmp_of (uint u) (uint v) = cmp_of u v"
  by (simp add: cmp_of_def word_less_def word_uint_eq_iff)

lemma cmp_of_int: "cmp_of (int u) (int v) = cmp_of u v"
  by (simp add: cmp_of_def)

lemma cmp_of_uminus: "cmp_of (- a) (- b :: int) = reverse_ord (cmp_of a b)"
  by (simp add: cmp_of_def)

lemma lex_cmp_map_uint:
  "length xs = length ys \<Longrightarrow>
     lex_cmp (map uint xs @ r) (map uint ys @ s) = ord_then (lex_cmp xs ys) (lex_cmp r s)"
  by (induction xs ys rule: list_induct2) (simp_all add: cmp_of_uint ord_then_assoc)

lemma lex_cmp_sized:
  assumes "length xs = length ys \<Longrightarrow> lex_cmp xs' ys' = ord_then a b"
  shows "lex_cmp (int (length xs) # xs') (int (length ys) # ys') =
     (if length xs \<noteq> length ys then cmp_of (length xs) (length ys) else ord_then a b)"
  using assms by (auto simp: cmp_of_int cmp_of_def)

definition label_rank :: "cvalue \<Rightarrow> int" where
  "label_rank v = uint (type_label v)"

lemma rank_label: "rank v = label_rank v # tl (rank v)"
  by (cases v) (simp_all add: label_rank_def)

lemma lex_cmp_rank_label:
  assumes "type_label x \<noteq> type_label y"
  shows "lex_cmp (rank x @ r) (rank y @ s) = cmp_of (type_label x) (type_label y)"
proof -
  have "cmp_of (type_label x) (type_label y) \<noteq> Equal"
    using assms by simp
  then show ?thesis
    by (subst rank_label [of x], subst rank_label [of y], cases "cmp_of (type_label x) (type_label y)")
       (simp_all add: label_rank_def cmp_of_uint flip: cmp_of_eqs(2,3))
qed

lemma lex_cmp_rank:
  "lex_cmp (rank x @ r) (rank y @ s) = ord_then (value_cmp x y) (lex_cmp r s)"
  "length a1 = length a2 \<Longrightarrow>
     lex_cmp (concat (map rank a1) @ r) (concat (map rank a2) @ s) = ord_then (list_cmp a1 a2) (lex_cmp r s)"
  "length m1 = length m2 \<Longrightarrow>
     lex_cmp (concat (map (\<lambda>(k, v). rank k @ rank v) m1) @ r)
             (concat (map (\<lambda>(k, v). rank k @ rank v) m2) @ s) = ord_then (pairs_cmp m1 m2) (lex_cmp r s)"
proof (induction x y and a1 a2 and m1 m2 arbitrary: r s and r s and r s
    rule: value_cmp_list_cmp_pairs_cmp.induct)
  case (1 x y)
  show ?case
  proof (cases "type_label x = type_label y")
    case False
    then show ?thesis
      by (simp add: lex_cmp_rank_label value_cmp_label ord_then_neq)
  next
    case True
    then show ?thesis
    proof (cases rule: same_type_label)
      case (Array a1 a2)
      with 1 show ?thesis
        by (cases "length a1 = length a2")
           (simp_all add: cmp_of_int ord_then_neq)
    next
      case (Map m1 m2)
      with 1 show ?thesis
        by (cases "length m1 = length m2")
           (simp_all add: cmp_of_int ord_then_neq)
    next
      case (ByteString b1 b2)
      then show ?thesis
        by (cases "length b1 = length b2")
           (simp_all add: cmp_of_int ord_then_neq lex_cmp_map_uint)
    next
      case (TextString b1 b2)
      then show ?thesis
        by (cases "length b1 = length b2")
           (simp_all add: cmp_of_int ord_then_neq lex_cmp_map_uint)
    next
      case (Tag t1 v1 t2 v2)
      with 1 show ?thesis by (simp add: cmp_of_uint ord_then_assoc)
    qed (simp_all add: cmp_of_uint cmp_of_uminus simple_cmp_def)
  qed
qed (simp_all add: ord_then_assoc)

lemma value_cmp_rank: "value_cmp x y = lex_cmp (rank x) (rank y)"
  using lex_cmp_rank(1) [of x "[]" y "[]"] by simp

lemma lex_cmp_refl [simp]: "lex_cmp xs xs = Equal"
  by (induction xs) simp_all

lemma lex_cmp_eq_Equal: "lex_cmp xs ys = Equal \<longleftrightarrow> xs = ys"
  by (induction xs ys rule: lex_cmp.induct) simp_all

lemma reverse_ord_then: "reverse_ord (ord_then a b) = ord_then (reverse_ord a) (reverse_ord b)"
  by (cases a) simp_all

lemma reverse_lex_cmp: "reverse_ord (lex_cmp xs ys) = lex_cmp ys xs"
  by (induction xs ys rule: lex_cmp.induct) (simp_all add: reverse_ord_then reverse_cmp_of)

lemma lex_cmp_Cons_Less:
  "lex_cmp (x # xs) (y # ys) = Less \<longleftrightarrow> x < y \<or> x = y \<and> lex_cmp xs ys = Less"
  by (cases "cmp_of x y") (auto dest: sym simp flip: cmp_of_eqs)

lemma lex_cmp_Less_trans: "lex_cmp xs ys = Less \<Longrightarrow> lex_cmp ys zs = Less \<Longrightarrow> lex_cmp xs zs = Less"
proof (induction xs ys arbitrary: zs rule: lex_cmp.induct)
  case (2 y ys)
  then show ?case by (cases zs) simp_all
next
  case (4 x xs y ys)
  then show ?case
    by (cases zs) (auto simp: lex_cmp_Cons_Less simp del: lex_cmp.simps(4) intro: less_trans)
qed simp_all

lemma value_cmp_Equal_imp:
  "value_cmp x y = Equal \<Longrightarrow> x = y"
  "length a1 = length a2 \<Longrightarrow> list_cmp a1 a2 = Equal \<Longrightarrow> a1 = a2"
  "length m1 = length m2 \<Longrightarrow> pairs_cmp m1 m2 = Equal \<Longrightarrow> m1 = m2"
proof (induction x y and a1 a2 and m1 m2 rule: value_cmp_list_cmp_pairs_cmp.induct)
  case (1 x y)
  have "type_label x = type_label y"
    using 1(4) value_cmp_label [of x y] by fastforce
  then show ?case
  proof (cases rule: same_type_label)
    case (Array a1 a2)
    with 1(4) have "length a1 = length a2" "list_cmp a1 a2 = Equal" by (simp_all split: if_splits)
    with 1(1) Array show ?thesis by simp
  next
    case (Map m1 m2)
    with 1(4) have "length m1 = length m2" "pairs_cmp m1 m2 = Equal" by (simp_all split: if_splits)
    with 1(2) Map show ?thesis by simp
  next
    case (Tag t1 v1 t2 v2)
    with 1(4) have "t1 = t2" "value_cmp v1 v2 = Equal" by simp_all
    with 1(3) Tag show ?thesis by simp
  next
    case (Simple s1 s2)
    with 1(4) have "simple_code s1 = simple_code s2" by (simp add: simple_cmp_def)
    then have "from_integer (simple_code s1) = from_integer (simple_code s2)" by (rule arg_cong)
    with Simple show ?thesis by simp
  qed (use 1(4) in \<open>simp_all add: lex_cmp_eq_Equal signed_word_eqI\<close>)
qed auto

lemma value_cmp_refl [simp]: "value_cmp x x = Equal"
  by (simp add: value_cmp_rank)

lemma value_cmp_eq_Equal: "value_cmp x y = Equal \<longleftrightarrow> x = y"
  by (auto dest: value_cmp_Equal_imp)

instantiation cvalue :: linorder
begin

definition less_eq_cvalue :: "cvalue \<Rightarrow> cvalue \<Rightarrow> bool" where
  "less_eq_cvalue x y = (value_cmp x y \<noteq> Greater)"

definition less_cvalue :: "cvalue \<Rightarrow> cvalue \<Rightarrow> bool" where
  "less_cvalue x y = (value_cmp x y = Less)"

instance
proof
  have rev: "value_cmp y x = reverse_ord (value_cmp x y)" for x y
    by (simp add: value_cmp_rank reverse_lex_cmp)
  have less: "x < y \<longleftrightarrow> value_cmp x y = Less" for x y :: cvalue
    by (simp add: less_cvalue_def)
  have le: "x \<le> y \<longleftrightarrow> x < y \<or> x = y" for x y :: cvalue
    using value_cmp_eq_Equal [of x y]
    by (cases "value_cmp x y") (auto simp: less_eq_cvalue_def less_cvalue_def value_cmp_eq_Equal)
  have trans: "x < y \<Longrightarrow> y < z \<Longrightarrow> x < z" for x y z :: cvalue
    by (simp add: less value_cmp_rank lex_cmp_Less_trans)
  fix x y z :: cvalue
  show "x < y \<longleftrightarrow> x \<le> y \<and> \<not> y \<le> x"
    unfolding less_eq_cvalue_def less_cvalue_def rev [of x y] by (cases "value_cmp y x") simp_all
  show "x \<le> x" by (simp add: le)
  show "x \<le> y \<Longrightarrow> y \<le> z \<Longrightarrow> x \<le> z"
    using trans by (auto simp: le)
  show "x \<le> y \<Longrightarrow> y \<le> x \<Longrightarrow> x = y"
    unfolding less_eq_cvalue_def rev [of x y]
    by (cases "value_cmp y x") (simp_all add: value_cmp_eq_Equal)
  show "x \<le> y \<or> y \<le> x"
    unfolding less_eq_cvalue_def rev [of x y] by (cases "value_cmp y x") simp_all
qed

end

lemma value_cmp_cases:
  "value_cmp x y = Less \<longleftrightarrow> x < y"
  "value_cmp x y = Equal \<longleftrightarrow> x = y"
  "value_cmp x y = Greater \<longleftrightarrow> y < x"
proof -
  show "value_cmp x y = Less \<longleftrightarrow> x < y" by (simp add: less_cvalue_def)
  show "value_cmp x y = Equal \<longleftrightarrow> x = y" by (rule value_cmp_eq_Equal)
  show "value_cmp x y = Greater \<longleftrightarrow> y < x"
    by (simp add: not_le [symmetric] less_eq_cvalue_def)
qed

lemma value_cmp_cmp_of: "value_cmp x y = cmp_of x y"
  by (cases "value_cmp x y") (auto simp: value_cmp_cases cmp_of_def)

lemma Unsigned_less_iff [simp]: "Unsigned a < Unsigned b \<longleftrightarrow> a < b"
  by (simp add: less_cvalue_def)

end
