(* ===== verification/Cbor_Writer.thy ===== *)
theory Cbor_Writer
  imports Cbor_Values "HOL-Library.Multiset"
begin

text \<open>
  The serializer of \<open>libraries/cbor/src/writer.rs\<close>. \<open>encode_cbor\<close> appends to the output vector
  as the code does, so an error leaves the bytes written so far. It is proved to implement
  \<open>enc\<close>, the encoding of a value whose maps are in order: it succeeds exactly on values that are
  not nested too deeply and have no repeated map key, and then it appends the encoding of the
  value with every map sorted.
\<close>

datatype encoder_error = WriteTooMuchNesting | DuplicateMapKey

text \<open>An \<open>Option<i8>\<close> nesting bound; \<open>d - 1\<close> is computed for \<open>d \<ge> 0\<close> only, so it never wraps.\<close>

type_synonym depth = "int option"

definition depth_exhausted :: "depth \<Rightarrow> bool" where
  "depth_exhausted d = (case d of None \<Rightarrow> False | Some n \<Rightarrow> n < 0)"

definition deeper :: "depth \<Rightarrow> depth" where
  "deeper d = map_option (\<lambda>n. n - 1) d"

definition start_item :: "u8 \<Rightarrow> u64 \<Rightarrow> bytes \<Rightarrow> bytes" where
  "start_item label sz out =
     (let (first_byte, shift) =
        (if sz \<le> 23 then (ucast sz, 0)
         else if sz \<le> 0xFF then (24, 1)
         else if sz \<le> 0xFFFF then (25, 2)
         else if sz \<le> 0xFFFFFFFF then (26, 4)
         else (27, 8))
      in out @ [first_byte OR push_bit 5 label] @ be_bytes shift sz)"

text \<open>\<open>Vec::dedup_by\<close> on the keys: an entry goes when its key equals that of the last one kept.\<close>

fun dedup_keys :: "('k \<times> 'v) list \<Rightarrow> ('k \<times> 'v) list" where
  "dedup_keys (x # y # r) =
     (if fst y = fst x then dedup_keys (x # r) else x # dedup_keys (y # r))"
| "dedup_keys xs = xs"

lemma length_dedup_keys_le: "length (dedup_keys xs) \<le> length xs"
  by (induction xs rule: dedup_keys.induct) auto

lemma size_list_dedup_keys: "size_list f (dedup_keys xs) \<le> size_list f xs"
  by (induction xs rule: dedup_keys.induct) auto

lemma dedup_keys_id:
  "length (dedup_keys xs) = length xs \<longleftrightarrow> distinct_adj (map fst xs)"
proof (induction xs rule: dedup_keys.induct)
  case (1 x y r)
  then show ?case
    using length_dedup_keys_le [of "x # r"] by (cases r) auto
qed auto

lemma dedup_keys_distinct_adj: "distinct_adj (map fst xs) \<Longrightarrow> dedup_keys xs = xs"
  by (induction xs rule: dedup_keys.induct) auto

lemma size_list_insort_key: "size_list f (insort_key k x xs) = size_list f (x # xs)"
  by (induction xs) auto

lemma size_list_sort_key: "size_list f (sort_key k xs) = size_list f xs"
  by (induction xs) (simp_all add: size_list_insort_key sort_key_def)

lemma size_list_dedup_sort:
  "size_list f (dedup_keys (sort_key k xs)) \<le> size_list f xs"
  using size_list_dedup_keys [of f "sort_key k xs"] by (simp add: size_list_sort_key)

text \<open>
  \<open>sort_by(|a, b| a.0.cmp(&b.0))\<close> is the stable sort by key, in the order of \<open>Value\<close>. A signed
  integer wraps in \<open>-(negative + 1) as u64\<close>; no \<open>Negative\<close> that the reader or \<open>Value::integer\<close>
  builds is at the bound where a debug build would panic.
\<close>

function encode_cbor :: "cvalue \<Rightarrow> depth \<Rightarrow> bytes \<Rightarrow> (encoder_error + unit) \<times> bytes"
  and encode_seq :: "cvalue list \<Rightarrow> depth \<Rightarrow> bytes \<Rightarrow> (encoder_error + unit) \<times> bytes"
  and encode_pairs :: "(cvalue \<times> cvalue) list \<Rightarrow> depth \<Rightarrow> bytes \<Rightarrow> (encoder_error + unit) \<times> bytes" where
  "encode_cbor v d out =
     (if depth_exhausted d then (Inl WriteTooMuchNesting, out)
      else case v of
        Unsigned u \<Rightarrow> (Inr (), start_item (type_label v) u out)
      | Negative n \<Rightarrow> (Inr (), start_item (type_label v) (- (n + 1)) out)
      | ByteString b \<Rightarrow> (Inr (), start_item (type_label v) (of_nat (length b)) out @ b)
      | TextString t \<Rightarrow> (Inr (), start_item (type_label v) (of_nat (length t)) out @ t)
      | Array a \<Rightarrow> encode_seq a (deeper d) (start_item (type_label v) (of_nat (length a)) out)
      | Map m \<Rightarrow>
          (let sorted = sort_key fst m; deduped = dedup_keys sorted
           in if length sorted \<noteq> length deduped then (Inl DuplicateMapKey, out)
              else encode_pairs deduped (deeper d)
                     (start_item (type_label v) (of_nat (length sorted)) out))
      | Tag t inner \<Rightarrow> encode_cbor inner (deeper d) (start_item (type_label v) t out)
      | Simple s \<Rightarrow> (Inr (), start_item (type_label v) (simple_code s) out))"
| "encode_seq [] d out = (Inr (), out)"
| "encode_seq (e # es) d out =
     (case encode_cbor e d out of
        (Inl err, out1) \<Rightarrow> (Inl err, out1)
      | (Inr _, out1) \<Rightarrow> encode_seq es d out1)"
| "encode_pairs [] d out = (Inr (), out)"
| "encode_pairs ((k, v) # m) d out =
     (case encode_cbor k d out of
        (Inl err, out1) \<Rightarrow> (Inl err, out1)
      | (Inr _, out1) \<Rightarrow>
          (case encode_cbor v d out1 of
             (Inl err, out2) \<Rightarrow> (Inl err, out2)
           | (Inr _, out2) \<Rightarrow> encode_pairs m d out2))"
  by pat_completeness auto
termination
  by (relation "measure (case_sum (\<lambda>(v, _). 2 * size v)
       (case_sum (\<lambda>(a, _). 2 * size_list size a + 1)
                 (\<lambda>(m, _). 2 * size_list (size_prod size size) m + 1)))")
     (use size_list_dedup_sort in \<open>auto simp: less_Suc_eq_le\<close>)

declare encode_cbor.simps [simp del]

definition write_nested :: "cvalue \<Rightarrow> bytes \<Rightarrow> depth \<Rightarrow> (encoder_error + unit) \<times> bytes" where
  "write_nested v out max_nest = encode_cbor v max_nest out"

definition cbor_write :: "cvalue \<Rightarrow> bytes \<Rightarrow> (encoder_error + unit) \<times> bytes" where
  "cbor_write v out = write_nested v out (Some 127)"

section \<open>The encoding as a function\<close>

definition head :: "u8 \<Rightarrow> u64 \<Rightarrow> bytes" where
  "head label sz = start_item label sz []"

lemma start_item_head: "start_item label sz out = out @ head label sz"
  by (simp add: head_def start_item_def Let_def split: prod.split)

fun enc :: "cvalue \<Rightarrow> bytes" where
  "enc (Unsigned u) = head 0 u"
| "enc (Negative n) = head 1 (- (n + 1))"
| "enc (ByteString b) = head 2 (of_nat (length b)) @ b"
| "enc (TextString t) = head 3 (of_nat (length t)) @ t"
| "enc (Array a) = head 4 (of_nat (length a)) @ concat (map enc a)"
| "enc (Map m) = head 5 (of_nat (length m)) @ concat (map (\<lambda>(k, v). enc k @ enc v) m)"
| "enc (Tag t v) = head 6 t @ enc v"
| "enc (Simple s) = head 7 (simple_code s)"

abbreviation enc_pairs :: "(cvalue \<times> cvalue) list \<Rightarrow> bytes" where
  "enc_pairs m \<equiv> concat (map (\<lambda>(k, v). enc k @ enc v) m)"

text \<open>Every map sorted by its keys, at every level.\<close>

function sort_maps :: "cvalue \<Rightarrow> cvalue" where
  "sort_maps (Array a) = Array (map sort_maps a)"
| "sort_maps (Map m) = Map (map (\<lambda>(k, v). (sort_maps k, sort_maps v)) (sort_key fst m))"
| "sort_maps (Tag t v) = Tag t (sort_maps v)"
| "sort_maps (Unsigned u) = Unsigned u"
| "sort_maps (Negative n) = Negative n"
| "sort_maps (ByteString b) = ByteString b"
| "sort_maps (TextString t) = TextString t"
| "sort_maps (Simple s) = Simple s"
  by pat_completeness auto
termination
proof (relation "measure size", goal_cases)
  case (2 a x)
  then have "size x \<le> size_list size a"
    by (intro size_list_estimation') auto
  then show ?case by simp
next
  case (3 m p k v)
  then have "size_prod size size p \<le> size_list (size_prod size size) m"
    by (intro size_list_estimation') auto
  with 3 show ?case by auto
next
  case (4 m p k v)
  then have "size_prod size size p \<le> size_list (size_prod size size) m"
    by (intro size_list_estimation') auto
  with 4 show ?case by auto
qed auto

text \<open>Nesting depth, and absence of repeated keys at every level.\<close>

fun nest :: "cvalue \<Rightarrow> nat" where
  "nest (Array a) = foldr max (map (\<lambda>e. Suc (nest e)) a) 0"
| "nest (Map m) = foldr max (map (\<lambda>(k, v). Suc (max (nest k) (nest v))) m) 0"
| "nest (Tag t v) = Suc (nest v)"
| "nest _ = 0"

fun unique_keys :: "cvalue \<Rightarrow> bool" where
  "unique_keys (Array a) = list_all unique_keys a"
| "unique_keys (Map m) =
     (distinct (map fst m) \<and> list_all (\<lambda>(k, v). unique_keys k \<and> unique_keys v) m)"
| "unique_keys (Tag t v) = unique_keys v"
| "unique_keys _ = True"

definition fits :: "depth \<Rightarrow> nat \<Rightarrow> bool" where
  "fits d n = (case d of None \<Rightarrow> True | Some k \<Rightarrow> int n \<le> k)"

lemma fits_0 [simp]: "fits d 0 \<longleftrightarrow> \<not> depth_exhausted d"
  by (auto simp: fits_def depth_exhausted_def split: option.splits)

lemma fits_Suc [simp]: "fits d (Suc n) \<longleftrightarrow> \<not> depth_exhausted d \<and> fits (deeper d) n"
  by (auto simp: fits_def depth_exhausted_def deeper_def split: option.splits)

lemma fits_max [simp]: "fits d (max a b) \<longleftrightarrow> fits d a \<and> fits d b"
  by (auto simp: fits_def split: option.splits)

lemma fits_foldr_max:
  "fits d (foldr max ns 0) \<longleftrightarrow> \<not> depth_exhausted d \<and> (\<forall>n \<in> set ns. fits d n)"
  by (induction ns) auto

lemma fits_exhausted: "depth_exhausted d \<Longrightarrow> \<not> fits d n"
  by (auto simp: fits_def depth_exhausted_def split: option.splits)

lemma fits_mono: "fits d n \<Longrightarrow> m \<le> n \<Longrightarrow> fits d m"
  by (auto simp: fits_def split: option.splits)

lemma sorted_distinct_adj: "sorted xs \<Longrightarrow> distinct_adj xs \<longleftrightarrow> distinct (xs :: 'a::linorder list)"
proof (induction xs)
  case (Cons x xs)
  then show ?case
  proof (cases xs)
    case (Cons y ys)
    with Cons.IH Cons.prems show ?thesis
      by (auto dest: antisym)
  qed simp
qed simp

lemma dedup_sort_key:
  "length (sort_key fst m) = length (dedup_keys (sort_key fst m)) \<longleftrightarrow> distinct (map fst m)"
proof -
  have "mset (map fst (sort_key fst m)) = mset (map fst m)"
    by simp
  then have "distinct (map fst (sort_key fst m)) \<longleftrightarrow> distinct (map fst m)"
    by (metis mset_eq_imp_distinct_iff)
  then show ?thesis
    using dedup_keys_id [of "sort_key fst m"] sorted_distinct_adj [of "map fst (sort_key fst m)"]
    by auto
qed

lemma encode_cbor_leaf:
  assumes "\<not> depth_exhausted d"
  shows "encode_cbor (Unsigned u) d out = (Inr (), start_item 0 u out)"
    and "encode_cbor (Negative n) d out = (Inr (), start_item 1 (- (n + 1)) out)"
    and "encode_cbor (ByteString b) d out = (Inr (), start_item 2 (of_nat (length b)) out @ b)"
    and "encode_cbor (TextString b) d out = (Inr (), start_item 3 (of_nat (length b)) out @ b)"
    and "encode_cbor (Simple s) d out = (Inr (), start_item 7 (simple_code s) out)"
  using assms by (subst encode_cbor.simps, simp)+

lemma encode_ok_iff:
  "encode_cbor v d out = (Inr (), out') \<longleftrightarrow>
     fits d (nest v) \<and> unique_keys v \<and> out' = out @ enc (sort_maps v)"
  "encode_seq a d out = (Inr (), out') \<longleftrightarrow>
     (\<forall>e \<in> set a. fits d (nest e) \<and> unique_keys e) \<and> out' = out @ concat (map enc (map sort_maps a))"
  "encode_pairs m d out = (Inr (), out') \<longleftrightarrow>
     (\<forall>(k, v) \<in> set m. fits d (nest k) \<and> unique_keys k \<and> fits d (nest v) \<and> unique_keys v) \<and>
     out' = out @ enc_pairs (map (\<lambda>(k, v). (sort_maps k, sort_maps v)) m)"
proof (induction v d out and a d out and m d out arbitrary: out' and out' and out'
    rule: encode_cbor_encode_seq_encode_pairs.induct)
  case (1 v d out)
  show ?case
  proof (cases "depth_exhausted d")
    case True
    then show ?thesis by (subst encode_cbor.simps) (simp add: fits_exhausted)
  next
    case False
    show ?thesis
    proof (cases v)
      case (Array a)
      with False 1(1) show ?thesis
        by (subst encode_cbor.simps)
           (auto simp: fits_foldr_max list_all_iff start_item_head)
    next
      case (Map m)
      show ?thesis
      proof (cases "distinct (map fst m)")
        case True
        then have d: "dedup_keys (sort_key fst m) = sort_key fst m"
          by (intro dedup_keys_distinct_adj) (metis dedup_keys_id dedup_sort_key)
        have IH: "encode_pairs (sort_key fst m) (deeper d) (out @ head 5 (of_nat (length m))) = (Inr (), out')
           \<longleftrightarrow> (\<forall>(k, v) \<in> set m. fits (deeper d) (nest k) \<and> unique_keys k \<and>
                 fits (deeper d) (nest v) \<and> unique_keys v) \<and>
               out' = (out @ head 5 (of_nat (length m))) @
                 enc_pairs (map (\<lambda>(k, v). (sort_maps k, sort_maps v)) (sort_key fst m))" for out'
          using 1(2) [OF False Map refl refl] d Map by (simp add: start_item_head)
        show ?thesis
          using False True d Map IH by (subst encode_cbor.simps)
            (auto simp: Let_def fits_foldr_max list_all_iff start_item_head split: prod.splits)
      next
        case False
        then show ?thesis
          using \<open>\<not> depth_exhausted d\<close> Map dedup_sort_key [of m]
          by (subst encode_cbor.simps) (simp add: Let_def)
      qed
    next
      case (Tag t w)
      with False 1(3) show ?thesis
        by (subst encode_cbor.simps) (auto simp: start_item_head)
    qed (use False in \<open>auto simp: encode_cbor_leaf start_item_head\<close>)
  qed
next
  case (3 e es d out)
  show ?case
  proof (cases "fits d (nest e) \<and> unique_keys e")
    case True
    then have "encode_cbor e d out = (Inr (), out @ enc (sort_maps e))"
      using 3(1) by blast
    with 3(2) [OF this [symmetric] refl] True show ?thesis by simp
  next
    case False
    then have "\<nexists>o1. encode_cbor e d out = (Inr (), o1)"
      using 3(1) by blast
    with False show ?thesis by (auto split: prod.splits sum.splits)
  qed
next
  case (5 k v m d out)
  show ?case
  proof (cases "fits d (nest k) \<and> unique_keys k")
    case True
    then have k: "encode_cbor k d out = (Inr (), out @ enc (sort_maps k))"
      using 5(1) by blast
    show ?thesis
    proof (cases "fits d (nest v) \<and> unique_keys v")
      case v: True
      then have "encode_cbor v d (out @ enc (sort_maps k)) =
          (Inr (), (out @ enc (sort_maps k)) @ enc (sort_maps v))"
        using 5(2) [OF k [symmetric] refl] by blast
      with 5(3) [OF k [symmetric] refl this [symmetric] refl] True v k show ?thesis by simp
    next
      case False
      then have "\<nexists>o1. encode_cbor v d (out @ enc (sort_maps k)) = (Inr (), o1)"
        using 5(2) [OF k [symmetric] refl] by blast
      with False k show ?thesis by (auto split: prod.splits sum.splits)
    qed
  next
    case False
    then have "\<nexists>o1. encode_cbor k d out = (Inr (), o1)"
      using 5(1) by blast
    with False show ?thesis by (auto split: prod.splits sum.splits)
  qed
qed auto

end
