(* ===== verification/Cbor_Reader.thy ===== *)
theory Cbor_Reader
  imports Cbor_Writer
begin

text \<open>
  The deserializer of \<open>libraries/cbor/src/reader.rs\<close>. A \<open>Reader\<close> is the list of remaining bytes,
  and each operation returns the bytes it leaves. Two cast lengths to \<open>usize\<close>
  (\<open>size_value as usize\<close>), which keeps only the low bits on the 32-bit badge: the pointer width
  is the parameter \<open>ub\<close> (32 on the device, 64 in a hosted build).
\<close>

datatype decoder_error =
    UnsupportedMajorType
  | UnknownAdditionalInfo
  | IncompleteCborData
  | ReadTooMuchNesting
  | InvalidUtf8
  | ExtraneousData
  | OutOfOrderKey
  | NonMinimalCborEncoding
  | UnsupportedSimpleValue
  | UnsupportedFloatingPointValue
  | OutOfRangeIntegerValue

definition usize_of_u64 :: "nat \<Rightarrow> u64 \<Rightarrow> nat" where
  "usize_of_u64 ub n = unat n mod 2 ^ ub"

definition read_bytes :: "nat \<Rightarrow> bytes \<Rightarrow> (bytes \<times> bytes) option" where
  "read_bytes n bs = (if n > length bs then None else Some (take n bs, drop n bs))"

definition additional_bytes_num :: "u8 \<Rightarrow> nat option" where
  "additional_bytes_num info =
     (if info = 24 then Some 1
      else if info = 25 then Some 2
      else if info = 26 then Some 4
      else if info = 27 then Some 8
      else None)"

definition non_minimal :: "nat \<Rightarrow> u64 \<Rightarrow> bool" where
  "non_minimal n sz = (n = 1 \<and> sz < 24 \<or> sz < push_bit (8 * (n div 2)) 1)"

definition read_variadic_length_integer :: "u8 \<Rightarrow> bytes \<Rightarrow> decoder_error + u64 \<times> bytes" where
  "read_variadic_length_integer info bs =
     (if info \<le> 23 then Inr (ucast info, bs)
      else case additional_bytes_num info of
             None \<Rightarrow> Inl UnknownAdditionalInfo
           | Some n \<Rightarrow>
               (case read_bytes n bs of
                  None \<Rightarrow> Inl IncompleteCborData
                | Some (left, right) \<Rightarrow>
                    if non_minimal n (be_val left) then Inl NonMinimalCborEncoding
                    else Inr (be_val left, right)))"

definition decode_value_to_negative :: "u64 \<Rightarrow> decoder_error + cvalue" where
  "decode_value_to_negative sz =
     (if sint sz < 0 then Inl OutOfRangeIntegerValue else Inr (Negative (- sz - 1)))"

definition read_byte_string_content :: "nat \<Rightarrow> u64 \<Rightarrow> bytes \<Rightarrow> decoder_error + cvalue \<times> bytes" where
  "read_byte_string_content ub sz bs =
     (case read_bytes (usize_of_u64 ub sz) bs of
        None \<Rightarrow> Inl IncompleteCborData
      | Some (left, right) \<Rightarrow> Inr (ByteString left, right))"

definition read_text_string_content :: "nat \<Rightarrow> u64 \<Rightarrow> bytes \<Rightarrow> decoder_error + cvalue \<times> bytes" where
  "read_text_string_content ub sz bs =
     (case read_bytes (usize_of_u64 ub sz) bs of
        None \<Rightarrow> Inl IncompleteCborData
      | Some (left, right) \<Rightarrow>
          if utf8_valid left then Inr (TextString left, right) else Inl InvalidUtf8)"

definition decode_to_simple_value :: "u64 \<Rightarrow> u8 \<Rightarrow> decoder_error + cvalue" where
  "decode_to_simple_value sz info =
     (if info > 23 \<and> info \<noteq> 24 then Inl UnsupportedFloatingPointValue
      else case from_integer sz of
             Some s \<Rightarrow> Inr (Simple s)
           | None \<Rightarrow> Inl UnsupportedSimpleValue)"

lemma length_read_bytes:
  "read_bytes n bs = Some (left, right) \<Longrightarrow> bs = left @ right \<and> length left = n"
  by (auto simp: read_bytes_def split: if_splits)

lemma read_bytes_append: "read_bytes n (xs @ ys) = Some (xs, ys)" if "length xs = n"
  using that by (simp add: read_bytes_def)

lemma read_variadic_length:
  "read_variadic_length_integer info bs = Inr (sz, r) \<Longrightarrow> length r \<le> length bs"
  by (auto simp: read_variadic_length_integer_def Let_def dest!: length_read_bytes
      split: if_splits option.splits)

lemma read_string_length:
  "read_byte_string_content ub sz bs = Inr (v, r) \<Longrightarrow> length r \<le> length bs"
  "read_text_string_content ub sz bs = Inr (v, r) \<Longrightarrow> length r \<le> length bs"
  by (auto simp: read_byte_string_content_def read_text_string_content_def dest!: length_read_bytes
      split: if_splits option.splits)

text \<open>
  \<open>read_array\<close> and \<open>read_map\<close> are the \<open>for _ in 0..size_value\<close> loops; \<open>prev\<close> is the key of
  \<open>value_map.last()\<close>. Every item consumes at least a byte, so the recursion ends.
\<close>

function (sequential) decode_item :: "nat \<Rightarrow> depth \<Rightarrow> bytes \<Rightarrow> decoder_error + cvalue \<times> bytes"
  and read_array :: "nat \<Rightarrow> nat \<Rightarrow> depth \<Rightarrow> bytes \<Rightarrow> decoder_error + cvalue list \<times> bytes"
  and read_map :: "nat \<Rightarrow> nat \<Rightarrow> cvalue option \<Rightarrow> depth \<Rightarrow> bytes \<Rightarrow>
        decoder_error + (cvalue \<times> cvalue) list \<times> bytes" where
  "decode_item ub d bs =
     (if depth_exhausted d then Inl ReadTooMuchNesting
      else case bs of
        [] \<Rightarrow> Inl IncompleteCborData
      | first_byte # bs1 \<Rightarrow>
          let major = drop_bit 5 first_byte; info = first_byte AND 0x1F
          in rbind (read_variadic_length_integer info bs1) (\<lambda>(sz, bs2).
               if major = 0 then Inr (Unsigned sz, bs2)
               else if major = 1 then rbind (decode_value_to_negative sz) (\<lambda>v. Inr (v, bs2))
               else if major = 2 then read_byte_string_content ub sz bs2
               else if major = 3 then read_text_string_content ub sz bs2
               else if major = 4 then
                 rbind (read_array ub (unat sz) d bs2) (\<lambda>(vs, bs3). Inr (Array vs, bs3))
               else if major = 5 then
                 rbind (read_map ub (unat sz) None d bs2) (\<lambda>(m, bs3). Inr (Map m, bs3))
               else if major = 6 then
                 rbind (decode_item ub (deeper d) bs2) (\<lambda>(v, bs3). Inr (Tag sz v, bs3))
               else if major = 7 then rbind (decode_to_simple_value sz info) (\<lambda>v. Inr (v, bs2))
               else Inl UnsupportedMajorType))"
| "read_array ub n d bs =
     (if n = 0 then Inr ([], bs)
      else rbind (decode_item ub (deeper d) bs) (\<lambda>(v, bs1).
             rbind (read_array ub (n - 1) d bs1) (\<lambda>(vs, bs2). Inr (v # vs, bs2))))"
| "read_map ub n prev d bs =
     (if n = 0 then Inr ([], bs)
      else rbind (decode_item ub (deeper d) bs) (\<lambda>(k, bs1).
             if (case prev of None \<Rightarrow> False | Some l \<Rightarrow> l \<ge> k) then Inl OutOfOrderKey
             else rbind (decode_item ub (deeper d) bs1) (\<lambda>(v, bs2).
               rbind (read_map ub (n - 1) (Some k) d bs2) (\<lambda>(m, bs3). Inr ((k, v) # m, bs3)))))"
  by pat_completeness auto

lemma decode_consumes:
  "decode_item_read_array_read_map_dom (Inl (ub, d, bs)) \<Longrightarrow>
     decode_item ub d bs = Inr (v, r) \<Longrightarrow> length r < length bs"
  "decode_item_read_array_read_map_dom (Inr (Inl (ub, n, d, bs))) \<Longrightarrow>
     read_array ub n d bs = Inr (vs, r) \<Longrightarrow> length r \<le> length bs"
  "decode_item_read_array_read_map_dom (Inr (Inr (ub, n, l, d, bs))) \<Longrightarrow>
     read_map ub n l d bs = Inr (m, r) \<Longrightarrow> length r \<le> length bs"
proof (induction ub d bs and ub n d bs and ub n l d bs arbitrary: v r and vs r and m r
    rule: decode_item_read_array_read_map.pinduct)
  case (1 ub d bs)
  then obtain b bs1 where bs: "bs = b # bs1" and "\<not> depth_exhausted d"
    by (auto simp: decode_item.psimps split: if_splits list.splits)
  with 1 show ?case
    by (fastforce simp: decode_item.psimps Let_def rbind_Inr_iff split: if_splits
        dest: read_variadic_length read_string_length)
next
  case (2 ub n d bs)
  then show ?case
    by (fastforce simp: read_array.psimps rbind_Inr_iff split: if_splits)
next
  case (3 ub n l d bs)
  then show ?case
    by (fastforce simp: read_map.psimps rbind_Inr_iff split: if_splits)
qed

termination decode_item
proof (relation "measure (case_sum (\<lambda>(ub, d, bs). 2 * length bs)
    (case_sum (\<lambda>(ub, n, d, bs). 2 * length bs + 1) (\<lambda>(ub, n, l, d, bs). 2 * length bs + 1)))",
    goal_cases)
  case 1
  show ?case by simp
qed (auto dest!: decode_consumes(1) read_variadic_length)

declare decode_item.simps [simp del] read_array.simps [simp del] read_map.simps [simp del]

text \<open>An item that was read took at least one byte.\<close>

lemma decode_length:
  "decode_item ub d bs = Inr (v, r) \<Longrightarrow> length r < length bs"
  "read_array ub n d bs = Inr (vs, r) \<Longrightarrow> length r \<le> length bs"
  "read_map ub n l d bs = Inr (m, r) \<Longrightarrow> length r \<le> length bs"
proof (induction ub d bs and ub n d bs and ub n l d bs arbitrary: v r and vs r and m r
    rule: decode_item_read_array_read_map.induct)
  case (1 ub d bs)
  then obtain b bs1 where "bs = b # bs1" "\<not> depth_exhausted d"
    by (auto simp: decode_item.simps [of ub d bs] split: if_splits list.splits)
  with 1 show ?case
    by (fastforce simp: decode_item.simps [of ub d "b # bs1"] Let_def rbind_Inr_iff split: if_splits
        dest: read_variadic_length read_string_length)
next
  case (2 ub n d bs)
  then show ?case
    by (fastforce simp: read_array.simps [of ub n d bs] rbind_Inr_iff split: if_splits)
next
  case (3 ub n l d bs)
  then show ?case
    by (fastforce simp: read_map.simps [of ub n l d bs] rbind_Inr_iff split: if_splits)
qed

definition read_nested :: "nat \<Rightarrow> bytes \<Rightarrow> depth \<Rightarrow> decoder_error + cvalue" where
  "read_nested ub encoded max_nest =
     rbind (decode_item ub max_nest encoded) (\<lambda>(v, rest).
       if rest \<noteq> [] then Inl ExtraneousData else Inr v)"

definition cbor_read :: "nat \<Rightarrow> bytes \<Rightarrow> decoder_error + cvalue" where
  "cbor_read ub encoded = read_nested ub encoded (Some 127)"

end
