(* ===== verification/Cbor_Codec.thy ===== *)
theory Cbor_Codec
  imports Cbor_Reader
begin

text \<open>
  Correctness of the codec: reading what the writer wrote gives the value back with its maps
  sorted, and (on a 64-bit target) every byte string the reader accepts is the one the
  writer produces for the value it returns.
\<close>

section \<open>Item heads\<close>

lemma take_bit_word_self: "unat (w :: 'a::len word) < 2 ^ n \<Longrightarrow> take_bit n w = w"
  by (simp add: word_unat_eq_iff unsigned_take_bit_eq take_bit_nat_eq_self)

lemma head_byte:
  fixes a l :: u8
  assumes "a < 32" "l < 8"
  shows "drop_bit 5 (a OR push_bit 5 l) = l" and "(a OR push_bit 5 l) AND 0x1F = a"
proof -
  have a: "take_bit 5 a = a" and l: "take_bit 3 l = l"
    using assms by (simp_all add: take_bit_word_self word_less_nat_alt)
  have m: "(0x1F :: u8) = mask 5" by (simp add: mask_eq_exp_minus_1)
  have "drop_bit 5 (take_bit 5 a OR push_bit 5 (take_bit 3 l)) = take_bit 3 l"
    by (rule bit_word_eqI) (auto simp: bit_simps)
  then show "drop_bit 5 (a OR push_bit 5 l) = l" by (simp add: a l)
  have "(take_bit 5 a OR push_bit 5 l) AND mask 5 = take_bit 5 a"
    by (rule bit_word_eqI) (auto simp: bit_simps)
  then show "(a OR push_bit 5 l) AND 0x1F = a" by (simp add: a m)
qed

lemma head_byte_split: "(b AND 0x1F) OR push_bit 5 (drop_bit 5 b) = (b :: u8)"
proof -
  have m: "(0x1F :: u8) = mask 5" by (simp add: mask_eq_exp_minus_1)
  show ?thesis
    unfolding m by (rule bit_word_eqI) (auto simp: bit_simps, metis le_add_diff_inverse not_less)
qed

lemma major_less: "drop_bit 5 (b :: u8) < 8"
proof -
  have "unat b div 32 < 8" using unat_u8_less [of b] by simp
  then show ?thesis
    by (simp add: word_less_nat_alt unat_drop_bit_eq flip: drop_bit_eq_div)
       (simp add: drop_bit_eq_div)
qed

lemma info_less: "b AND 0x1F < (32 :: u8)"
  using word_and_le1 [of b "0x1F"] by (rule le_less_trans) simp

definition info_of :: "u64 \<Rightarrow> u8" where
  "info_of sz = (if sz \<le> 23 then ucast sz else if sz \<le> 0xFF then 24 else if sz \<le> 0xFFFF then 25
     else if sz \<le> 0xFFFFFFFF then 26 else 27)"

definition shift_of :: "u64 \<Rightarrow> nat" where
  "shift_of sz = (if sz \<le> 23 then 0 else if sz \<le> 0xFF then 1 else if sz \<le> 0xFFFF then 2
     else if sz \<le> 0xFFFFFFFF then 4 else 8)"

lemma head_eq: "head label sz = (info_of sz OR push_bit 5 label) # be_bytes (shift_of sz) sz"
  by (simp add: head_def start_item_def info_of_def shift_of_def Let_def)

lemma unat_ucast_small: "unat (ucast (sz :: u64) :: u8) = unat sz" if "sz < 256"
  using that by (simp add: unsigned_ucast_eq word_less_nat_alt take_bit_nat_eq_self)

lemma info_of_less: "info_of sz < 32"
proof -
  have "unat (ucast sz :: u8) = unat sz" if "sz \<le> 23"
    using that by (intro unat_ucast_small) (simp add: word_le_nat_alt word_less_nat_alt)
  then show ?thesis
    by (auto simp: info_of_def word_less_nat_alt word_le_nat_alt)
qed

lemma head_cases:
  obtains (inline) "sz \<le> 23" "shift_of sz = 0" "info_of sz = ucast sz" "unat (info_of sz) = unat sz"
  | (longer) "additional_bytes_num (info_of sz) = Some (shift_of sz)" "\<not> info_of sz \<le> 23"
      "\<not> non_minimal (shift_of sz) sz" "shift_of sz \<le> 8" "unat sz < 256 ^ shift_of sz"
proof -
  note defs = shift_of_def info_of_def additional_bytes_num_def non_minimal_def push_bit_eq_mult
    word_le_nat_alt word_less_nat_alt
  consider "sz \<le> 23" | "\<not> sz \<le> 23" "sz \<le> 0xFF"
    | "\<not> sz \<le> 23" "\<not> sz \<le> 0xFF" "sz \<le> 0xFFFF"
    | "\<not> sz \<le> 23" "\<not> sz \<le> 0xFF" "\<not> sz \<le> 0xFFFF" "sz \<le> 0xFFFFFFFF"
    | "\<not> sz \<le> 23" "\<not> sz \<le> 0xFF" "\<not> sz \<le> 0xFFFF" "\<not> sz \<le> 0xFFFFFFFF"
    by blast
  then show thesis
  proof cases
    case 1
    then have "unat (ucast sz :: u8) = unat sz"
      by (intro unat_ucast_small) (simp add: word_le_nat_alt word_less_nat_alt)
    with 1 show thesis by (intro inline) (simp_all add: defs)
  next
    case 5
    then show thesis
      using unsigned_less [of sz, where 'a = nat] by (intro longer) (simp_all add: defs)
  qed (rule longer, simp_all add: defs)+
qed

lemma head_unique:
  assumes "additional_bytes_num info = Some n" "\<not> non_minimal n sz" "unat sz < 256 ^ n"
  shows "info_of sz = info \<and> shift_of sz = n"
  using assms
  by (auto simp: shift_of_def info_of_def additional_bytes_num_def non_minimal_def
      push_bit_eq_mult word_le_nat_alt word_less_nat_alt split: if_splits)

lemma read_head: "read_variadic_length_integer (info_of sz) (be_bytes (shift_of sz) sz @ r) = Inr (sz, r)"
proof (cases "sz \<le> 23")
  case True
  then have small: "unat (ucast sz :: u8) = unat sz"
    by (intro unat_ucast_small) (simp add: word_le_nat_alt word_less_nat_alt)
  moreover have "ucast (ucast sz :: u8) = sz"
    using True small by (simp add: word_unat_eq_iff unsigned_ucast_eq unsigned_take_bit_eq
        take_bit_nat_eq_self word_le_nat_alt)
  ultimately show ?thesis
    using True by (simp add: read_variadic_length_integer_def info_of_def shift_of_def word_le_nat_alt)
next
  case False
  show ?thesis
    using False
    by (cases rule: head_cases [of sz])
       (simp_all add: read_variadic_length_integer_def read_bytes_append be_val_be_bytes)
qed

lemma be_val_bound: "length bs \<le> 8 \<Longrightarrow> unat (be_val bs) < 256 ^ length bs"
  using be_nat_less [of bs] by (simp add: unat_be_val)

lemma read_variadic_head:
  assumes "read_variadic_length_integer info bs = Inr (sz, r)" and "info < 32"
  shows "info = info_of sz \<and> bs = be_bytes (shift_of sz) sz @ r"
proof (cases "info \<le> 23")
  case True
  then have "unat (ucast info :: u64) = unat info"
    by (simp add: unsigned_ucast_eq word_le_nat_alt unsigned_take_bit_eq take_bit_nat_eq_self)
  moreover from this have "ucast (ucast info :: u64) = info"
    using True by (simp add: word_unat_eq_iff unsigned_ucast_eq unsigned_take_bit_eq
        take_bit_nat_eq_self word_le_nat_alt)
  ultimately show ?thesis
    using assms True
    by (auto simp: read_variadic_length_integer_def info_of_def shift_of_def word_le_nat_alt)
next
  case False
  with assms(1) obtain n left where n: "additional_bytes_num info = Some n"
    and left: "bs = left @ r" "length left = n" and sz: "sz = be_val left"
    and minimal: "\<not> non_minimal n sz"
    by (auto simp: read_variadic_length_integer_def dest!: length_read_bytes
        split: if_splits option.splits)
  have "n \<le> 8"
    using n by (auto simp: additional_bytes_num_def split: if_splits)
  then have "be_bytes n sz = left" "unat sz < 256 ^ n"
    using left sz be_bytes_be_val [of left] be_val_bound [of left] by auto
  with head_unique [OF n minimal] left show ?thesis by simp
qed

lemma variadic_codec:
  "prefix_codec (\<lambda>sz. be_bytes (shift_of sz) sz) (read_variadic_length_integer info) (\<lambda>sz. info_of sz = info)"
  if "info < 32"
  using that read_head read_variadic_head by unfold_locales blast+

section \<open>Well-formed and canonical values\<close>

text \<open>
  \<open>wf_value ub v\<close>: lengths fit a \<open>u64\<close> and the \<open>usize\<close> of the reader, text is UTF-8, and a
  \<open>Negative\<close> is negative: what the types of the code and \<open>Value::integer\<close> guarantee.
  \<open>canonical v\<close>: every map is strictly sorted by key.
\<close>

fun wf_value :: "nat \<Rightarrow> cvalue \<Rightarrow> bool" where
  "wf_value ub (Unsigned u) = True"
| "wf_value ub (Negative n) = (sint n < 0)"
| "wf_value ub (ByteString b) = (length b < 2 ^ 64 \<and> length b < 2 ^ ub)"
| "wf_value ub (TextString t) = (utf8_valid t \<and> length t < 2 ^ 64 \<and> length t < 2 ^ ub)"
| "wf_value ub (Array a) = (length a < 2 ^ 64 \<and> list_all (wf_value ub) a)"
| "wf_value ub (Map m) = (length m < 2 ^ 64 \<and> list_all (\<lambda>(k, v). wf_value ub k \<and> wf_value ub v) m)"
| "wf_value ub (Tag t v) = wf_value ub v"
| "wf_value ub (Simple s) = True"

fun canonical :: "cvalue \<Rightarrow> bool" where
  "canonical (Array a) = list_all canonical a"
| "canonical (Map m) =
     (sorted_wrt (<) (map fst m) \<and> list_all (\<lambda>(k, v). canonical k \<and> canonical v) m)"
| "canonical (Tag t v) = canonical v"
| "canonical _ = True"

text \<open>The keys of every map are canonical (the values need not be).\<close>

fun canonical_keys :: "cvalue \<Rightarrow> bool" where
  "canonical_keys (Array a) = list_all canonical_keys a"
| "canonical_keys (Map m) = list_all (\<lambda>(k, v). canonical k \<and> canonical_keys v) m"
| "canonical_keys (Tag t v) = canonical_keys v"
| "canonical_keys _ = True"

lemma sorted_wrt_less_sort_key:
  assumes "sorted_wrt (<) (map fst m)"
  shows "sort_key fst m = m"
  using assms by (intro sort_key_id_if_sorted) (auto simp: strict_sorted_iff)

lemma sort_maps_canonical: "canonical v \<Longrightarrow> sort_maps v = v"
  by (induction v rule: sort_maps.induct)
     (auto simp: list_all_iff sorted_wrt_less_sort_key intro!: map_idI)

lemma canonical_unique_keys: "canonical v \<Longrightarrow> unique_keys v"
  by (induction v) (auto simp: list_all_iff strict_sorted_iff)

lemma wf_sort_maps: "wf_value ub v \<Longrightarrow> wf_value ub (sort_maps v)"
  by (induction v rule: sort_maps.induct) (auto simp: list_all_iff)

lemma fits_nest_sort_maps: "fits d (nest (sort_maps v)) \<longleftrightarrow> fits d (nest v)"
  by (induction v arbitrary: d rule: sort_maps.induct) (fastforce simp: fits_foldr_max)+

lemma canonical_sort_maps:
  "canonical_keys v \<Longrightarrow> unique_keys v \<Longrightarrow> canonical (sort_maps v)"
proof (induction v rule: sort_maps.induct)
  case (2 m)
  have keys: "map fst (map (\<lambda>(k, v). (sort_maps k, sort_maps v)) (sort_key fst m)) =
      map fst (sort_key fst m)"
    using 2(3) by (auto simp: list_all_iff sort_maps_canonical)
  have "distinct (map fst (sort_key fst m))"
    using 2(4) dedup_sort_key [of m] dedup_keys_id [of "sort_key fst m"]
      sorted_distinct_adj [of "map fst (sort_key fst m)"] by simp
  then have "sorted_wrt (<) (map fst (sort_key fst m))"
    by (simp add: strict_sorted_iff)
  moreover have "\<forall>(k, v) \<in> set m. canonical (sort_maps k) \<and> canonical (sort_maps v)"
    using 2 by (fastforce simp: list_all_iff sort_maps_canonical)
  ultimately show ?case
    using keys by (auto simp: list_all_iff simp del: map_map)
qed (auto simp: list_all_iff)

section \<open>Decoding an encoded value\<close>

text \<open>One step of the reader on an item head: dispatch on the major type.\<close>

definition decode_body :: "nat \<Rightarrow> depth \<Rightarrow> u8 \<Rightarrow> u8 \<Rightarrow> u64 \<Rightarrow> bytes \<Rightarrow> decoder_error + cvalue \<times> bytes" where
  "decode_body ub d major info sz bs =
     (if major = 0 then Inr (Unsigned sz, bs)
      else if major = 1 then rbind (decode_value_to_negative sz) (\<lambda>v. Inr (v, bs))
      else if major = 2 then read_byte_string_content ub sz bs
      else if major = 3 then read_text_string_content ub sz bs
      else if major = 4 then rbind (read_array ub (unat sz) d bs) (\<lambda>(vs, bs3). Inr (Array vs, bs3))
      else if major = 5 then rbind (read_map ub (unat sz) None d bs) (\<lambda>(m, bs3). Inr (Map m, bs3))
      else if major = 6 then rbind (decode_item ub (deeper d) bs) (\<lambda>(v, bs3). Inr (Tag sz v, bs3))
      else if major = 7 then rbind (decode_to_simple_value sz info) (\<lambda>v. Inr (v, bs))
      else Inl UnsupportedMajorType)"

lemma decode_item_Cons:
  "\<not> depth_exhausted d \<Longrightarrow> decode_item ub d (b # bs) =
     rbind (read_variadic_length_integer (b AND 0x1F) bs)
       (\<lambda>(sz, bs2). decode_body ub d (drop_bit 5 b) (b AND 0x1F) sz bs2)"
  unfolding decode_body_def by (subst decode_item.simps) (simp add: Let_def)

lemma decode_item_head:
  assumes "\<not> depth_exhausted d" "label < 8"
  shows "decode_item ub d (head label sz @ r) = decode_body ub d label (info_of sz) sz r"
  using assms info_of_less [of sz]
  by (simp add: head_eq decode_item_Cons head_byte read_head del: drop_bit_or)

lemma decode_item_sound:
  assumes "decode_item ub d bs = Inr (v, r)"
  obtains label sz bs2 where "\<not> depth_exhausted d" "label < 8" "bs = head label sz @ bs2"
    "decode_body ub d label (info_of sz) sz bs2 = Inr (v, r)"
proof -
  obtain b bs1 where bs: "bs = b # bs1" and d: "\<not> depth_exhausted d"
    using assms by (auto simp: decode_item.simps [of ub d bs] split: if_splits list.splits)
  with assms obtain sz bs2 where
    head: "read_variadic_length_integer (b AND 0x1F) bs1 = Inr (sz, bs2)" and
    body: "decode_body ub d (drop_bit 5 b) (b AND 0x1F) sz bs2 = Inr (v, r)"
    by (auto simp: decode_item_Cons rbind_Inr_iff)
  from read_variadic_head [OF head info_less]
  have h: "b AND 0x1F = info_of sz" "bs1 = be_bytes (shift_of sz) sz @ bs2" by auto
  then have "bs = head (drop_bit 5 b) sz @ bs2"
    using head_byte_split [of b] by (simp add: bs head_eq)
  with that d major_less body h(1) show thesis by metis
qed

lemma read_array_encoded:
  assumes "\<And>e r. e \<in> set a \<Longrightarrow> decode_item ub (deeper d) (enc e @ r) = Inr (e, r)"
  shows "read_array ub (length a) d (concat (map enc a) @ r) = Inr (a, r)"
  using assms
proof (induction a)
  case Nil
  then show ?case by (subst read_array.simps) simp
next
  case (Cons e a)
  then show ?case by (subst read_array.simps) simp
qed

lemma read_map_encoded:
  assumes "\<And>k v r. (k, v) \<in> set m \<Longrightarrow> decode_item ub (deeper d) (enc k @ r) = Inr (k, r) \<and>
      decode_item ub (deeper d) (enc v @ r) = Inr (v, r)"
    and "sorted_wrt (<) (case prev of None \<Rightarrow> map fst m | Some p \<Rightarrow> p # map fst m)"
  shows "read_map ub (length m) prev d (enc_pairs m @ r) = Inr (m, r)"
  using assms
proof (induction m arbitrary: prev)
  case Nil
  then show ?case by (subst read_map.simps) simp
next
  case (Cons kv m)
  obtain k v where kv: "kv = (k, v)" by fastforce
  have "read_map ub (length m) (Some k) d (enc_pairs m @ r) = Inr (m, r)"
    using Cons kv by (intro Cons.IH) (auto split: option.splits)
  moreover have "decode_item ub (deeper d) (enc k @ s) = Inr (k, s)"
    and "decode_item ub (deeper d) (enc v @ s) = Inr (v, s)" for s
    using Cons.prems(1) kv by auto
  ultimately show ?case
    using Cons.prems(2) kv by (subst read_map.simps) (auto split: option.splits)
qed

lemma unat_of_nat_u64: "n < 2 ^ 64 \<Longrightarrow> unat (of_nat n :: u64) = n"
  by (simp add: unsigned_of_nat take_bit_nat_eq_self)

lemma neg_u64: "- (n + 1) = NOT (n :: u64)"
  by (simp add: not_eq_complement)

lemma sint_not: "sint (NOT n) = - sint (n :: u64) - 1"
proof -
  have "sint (NOT n) = NOT (sint n)"
    by (rule bit_eqI) (auto simp: bit_simps min_def)
  then show ?thesis by (simp add: not_int_def)
qed

lemma decode_enc:
  "wf_value ub v \<Longrightarrow> canonical v \<Longrightarrow> fits d (nest v) \<Longrightarrow> decode_item ub d (enc v @ r) = Inr (v, r)"
proof (induction v arbitrary: d r)
  case (Negative n)
  then show ?case
    using sint_not [of n]
    by (simp add: decode_item_head decode_body_def decode_value_to_negative_def not_eq_complement)
next
  case (ByteString b)
  then show ?case
    by (simp add: decode_item_head decode_body_def read_byte_string_content_def usize_of_u64_def
        unat_of_nat_u64 read_bytes_append)
next
  case (TextString t)
  then show ?case
    by (simp add: decode_item_head decode_body_def read_text_string_content_def usize_of_u64_def
        unat_of_nat_u64 read_bytes_append)
next
  case (Array a)
  then have "read_array ub (length a) d (concat (map enc a) @ r) = Inr (a, r)"
    by (intro read_array_encoded) (auto simp: list_all_iff fits_foldr_max)
  with Array show ?case
    by (auto simp: decode_item_head decode_body_def unat_of_nat_u64 fits_foldr_max)
next
  case (Map m)
  then have "read_map ub (length m) None d (enc_pairs m @ r) = Inr (m, r)"
    by (intro read_map_encoded) (fastforce simp: list_all_iff fits_foldr_max)+
  with Map show ?case
    by (auto simp: decode_item_head decode_body_def unat_of_nat_u64 fits_foldr_max)
next
  case (Tag t v)
  then show ?case by (simp add: decode_item_head decode_body_def)
next
  case (Simple s)
  have "info_of (simple_code s) \<le> 23"
    by (cases s) (simp_all add: simple_code_def info_of_def)
  with Simple show ?case
    by (auto simp: decode_item_head decode_body_def decode_to_simple_value_def)
qed (simp add: decode_item_head decode_body_def)

section \<open>What the reader accepts\<close>

text \<open>
  On a 64-bit target the reader accepts exactly the canonical encodings: what it returns is
  canonical, fits the nesting bound, and encodes to the bytes consumed.
\<close>

definition reads :: "depth \<Rightarrow> cvalue \<Rightarrow> bool" where
  "reads d v \<longleftrightarrow> wf_value 64 v \<and> canonical v \<and> fits d (nest v)"

lemma reads_Array: "reads d (Array a) \<longleftrightarrow>
    length a < 2 ^ 64 \<and> \<not> depth_exhausted d \<and> (\<forall>e \<in> set a. reads (deeper d) e)"
  by (auto simp: reads_def list_all_iff fits_foldr_max)

lemma reads_Map: "reads d (Map m) \<longleftrightarrow>
    length m < 2 ^ 64 \<and> \<not> depth_exhausted d \<and> sorted_wrt (<) (map fst m) \<and>
    (\<forall>(k, v) \<in> set m. reads (deeper d) k \<and> reads (deeper d) v)"
  by (auto simp: reads_def list_all_iff fits_foldr_max split_beta)

lemma unat_u64_less: "unat (w :: u64) < 2 ^ 64"
  using unsigned_less [of w, where 'a = nat] by simp

lemma head_of_nat_unat [simp]: "head l (of_nat (unat sz)) = head l sz"
  by simp

lemma decode_negative_sound:
  "decode_value_to_negative sz = Inr v \<Longrightarrow> \<exists>n. v = Negative n \<and> sint n < 0 \<and> sz = - (n + 1)"
  using sint_not [of sz]
  by (auto simp: decode_value_to_negative_def not_eq_complement split: if_splits)

lemma decode_simple_sound:
  "decode_to_simple_value sz info = Inr v \<Longrightarrow> \<exists>s. v = Simple s \<and> sz = simple_code s"
  by (auto simp: decode_to_simple_value_def from_integer_Some split: if_splits option.splits)

lemma read_string_sound:
  "read_byte_string_content 64 sz bs = Inr (v, r) \<Longrightarrow>
     \<exists>b. v = ByteString b \<and> bs = b @ r \<and> length b = unat sz"
  "read_text_string_content 64 sz bs = Inr (v, r) \<Longrightarrow>
     \<exists>t. v = TextString t \<and> bs = t @ r \<and> length t = unat sz \<and> utf8_valid t"
  using unat_u64_less [of sz]
  by (auto simp: read_byte_string_content_def read_text_string_content_def usize_of_u64_def
      dest!: length_read_bytes split: option.splits if_splits)

lemma decode_body_cases:
  assumes "decode_body 64 d label info sz bs = Inr (v, r)"
  obtains (uint) "label = 0" "v = Unsigned sz" "bs = r"
  | (nint) n where "label = 1" "v = Negative n" "sint n < 0" "sz = - (n + 1)" "bs = r"
  | (bstr) b where "label = 2" "v = ByteString b" "bs = b @ r" "length b = unat sz"
  | (tstr) t where "label = 3" "v = TextString t" "bs = t @ r" "length t = unat sz" "utf8_valid t"
  | (array) a where "label = 4" "v = Array a" "read_array 64 (unat sz) d bs = Inr (a, r)"
  | (map) m where "label = 5" "v = Map m" "read_map 64 (unat sz) None d bs = Inr (m, r)"
  | (tag) w where "label = 6" "v = Tag sz w" "decode_item 64 (deeper d) bs = Inr (w, r)"
  | (simple) s where "label = 7" "v = Simple s" "sz = simple_code s" "bs = r"
  using assms
  by (auto simp: decode_body_def rbind_Inr_iff split: if_splits
      dest!: decode_negative_sound decode_simple_sound read_string_sound)

definition item_sound :: "nat \<Rightarrow> bool" where
  "item_sound N \<longleftrightarrow> (\<forall>d bs v r. length bs \<le> N \<longrightarrow> decode_item 64 d bs = Inr (v, r) \<longrightarrow>
     reads d v \<and> bs = enc v @ r)"

lemma item_soundD:
  assumes "item_sound N" "length bs \<le> N" "decode_item 64 d bs = Inr (v, r)"
  shows "reads d v" "bs = enc v @ r" "length r < length bs"
  using assms decode_length(1) [of 64 d bs v r] by (auto simp: item_sound_def)

lemma read_array_sound:
  assumes "item_sound N" "length bs \<le> N" "read_array 64 n d bs = Inr (vs, r)"
  shows "length vs = n \<and> (\<forall>e \<in> set vs. reads (deeper d) e) \<and> bs = concat (map enc vs) @ r"
  using assms(2,3)
proof (induction n arbitrary: bs vs)
  case 0
  then show ?case by (simp add: read_array.simps [of _ 0])
next
  case (Suc n)
  then obtain v bs1 ws where item: "decode_item 64 (deeper d) bs = Inr (v, bs1)"
    and rest: "read_array 64 n d bs1 = Inr (ws, r)" and vs: "vs = v # ws"
    by (auto simp: read_array.simps [of _ "Suc n"] rbind_Inr_iff)
  note v = item_soundD [OF assms(1) Suc.prems(1) item]
  with Suc.IH [OF _ rest] Suc.prems(1) vs show ?case by auto
qed

lemma read_map_sound:
  assumes "item_sound N" "length bs \<le> N" "read_map 64 n prev d bs = Inr (m, r)"
  shows "length m = n \<and> (\<forall>(k, v) \<in> set m. reads (deeper d) k \<and> reads (deeper d) v) \<and>
    sorted_wrt (<) (case prev of None \<Rightarrow> map fst m | Some p \<Rightarrow> p # map fst m) \<and> bs = enc_pairs m @ r"
  using assms(2,3)
proof (induction n arbitrary: bs m prev)
  case 0
  then show ?case by (auto simp: read_map.simps [of _ 0] split: option.split)
next
  case (Suc n)
  then obtain k bs1 v bs2 m' where k: "decode_item 64 (deeper d) bs = Inr (k, bs1)"
    and ord: "\<not> (case prev of None \<Rightarrow> False | Some l \<Rightarrow> l \<ge> k)"
    and v: "decode_item 64 (deeper d) bs1 = Inr (v, bs2)"
    and rest: "read_map 64 n (Some k) d bs2 = Inr (m', r)" and m: "m = (k, v) # m'"
    by (auto simp: read_map.simps [of _ "Suc n"] rbind_Inr_iff split: if_splits)
  note ks = item_soundD [OF assms(1) Suc.prems(1) k]
  then have "length bs1 \<le> N" using Suc.prems(1) by simp
  note vs = item_soundD [OF assms(1) this v]
  have "length bs2 \<le> N" using vs \<open>length bs1 \<le> N\<close> by simp
  with Suc.IH [OF _ rest] ks vs m ord show ?case
    by (auto simp: not_le split: option.splits intro: less_trans)
qed

lemma item_sound_all: "item_sound N"
proof (induction N)
  case 0
  have "decode_item 64 d [] \<noteq> Inr (v, r)" for d v r
    using decode_length(1) [of 64 d "[]" v r] by auto
  then show ?case by (simp add: item_sound_def)
next
  case (Suc N)
  show ?case
    unfolding item_sound_def
  proof (intro allI impI)
    fix d bs v r
    assume len: "length bs \<le> Suc N" and dec: "decode_item 64 d bs = Inr (v, r)"
    from dec show "reads d v \<and> bs = enc v @ r"
    proof (rule decode_item_sound)
      fix label sz bs2
      assume d: "\<not> depth_exhausted d" and bs: "bs = head label sz @ bs2"
        and body: "decode_body 64 d label (info_of sz) sz bs2 = Inr (v, r)"
      have short: "length bs2 \<le> N" using len bs by (simp add: head_eq)
      from body show ?thesis
      proof (cases rule: decode_body_cases)
        case (array a)
        with read_array_sound [OF Suc short array(3)] d bs unat_u64_less [of sz] show ?thesis
          by (auto simp: reads_Array)
      next
        case (map m)
        with read_map_sound [OF Suc short map(3)] d bs unat_u64_less [of sz] show ?thesis
          by (auto simp: reads_Map)
      next
        case (tag w)
        with item_soundD [OF Suc short tag(3)] d bs show ?thesis by (auto simp: reads_def)
      next
        case (bstr b)
        with d bs unat_u64_less [of sz] show ?thesis by (simp add: reads_def)
      next
        case (tstr t)
        with d bs unat_u64_less [of sz] show ?thesis by (simp add: reads_def)
      qed (use d bs in \<open>auto simp: reads_def\<close>)
    qed
  qed
qed

interpretation item: prefix_codec enc "decode_item 64 d" "reads d" for d
proof
  show "reads d v \<Longrightarrow> decode_item 64 d (enc v @ r) = Inr (v, r)" for v r
    by (simp add: reads_def decode_enc)
  show "decode_item 64 d bs = Inr (v, r) \<Longrightarrow> reads d v \<and> bs = enc v @ r" for bs v r
    using item_sound_all [of "length bs"] by (auto simp: item_sound_def)
qed

end
