(* ===== verification/Cbor_Order.thy ===== *)
theory Cbor_Order
  imports Cbor_Codec
begin

text \<open>
  The order of \<open>values.rs\<close> against the wire format: comparing two values is comparing their
  encodings byte by byte, the deterministic order of RFC 8949 (section 4.2.1) that CTAP asks for.
\<close>

lemma lex_cmp_append:
  "length xs = length ys \<Longrightarrow> lex_cmp (xs @ r) (ys @ s) = ord_then (lex_cmp xs ys) (lex_cmp r s)"
  by (induction xs ys rule: list_induct2) (simp_all add: ord_then_assoc)

lemma cmp_of_unat: "cmp_of (unat a) (unat b) = cmp_of a b"
  by (simp add: cmp_of_def word_less_nat_alt word_unat_eq_iff)

lemma cmp_of_digits:
  "x < n \<Longrightarrow> y < n \<Longrightarrow> cmp_of (a * n + x) (b * n + y) = ord_then (cmp_of a b) (cmp_of x (y::nat))"
proof -
  assume *: "x < n" "y < n"
  have mono: "c < d \<Longrightarrow> c * n + u < d * n + v" if "u < n" for c d u v
  proof -
    assume "c < d"
    then have "(c + 1) * n \<le> d * n" by (intro mult_right_mono) auto
    then show "c * n + u < d * n + v" using that by simp
  qed
  show ?thesis
    using mono [OF *(1), of a b y] mono [OF *(2), of b a x]
    by (cases a b rule: linorder_cases) (simp_all add: cmp_of_def)
qed

lemma lex_cmp_be_nat:
  "length xs = length ys \<Longrightarrow> lex_cmp xs ys = cmp_of (be_nat xs) (be_nat ys)"
proof (induction xs ys rule: list_induct2)
  case Nil
  then show ?case by simp
next
  case (Cons x xs y ys)
  then show ?case
    using be_nat_less [of xs] be_nat_less [of ys]
    by (simp add: be_nat_Cons cmp_of_digits cmp_of_unat)
qed

lemma unat_head_byte:
  fixes i l :: u8
  assumes "i < 32" "l < 8"
  shows "unat (i OR push_bit 5 l) = unat l * 32 + unat i"
proof -
  define w where "w = i OR push_bit 5 l"
  have "unat (drop_bit 5 w) = drop_bit 5 (unat w)" by (rule unat_drop_bit_eq)
  then have "unat w div 32 = unat l"
    using head_byte(1) [OF assms] by (simp add: w_def drop_bit_eq_div del: drop_bit_or)
  moreover have "w AND mask 5 = i"
    using head_byte(2) [OF assms] by (simp add: w_def mask_eq_exp_minus_1)
  then have "take_bit 5 (unat w) = unat i"
    by (metis take_bit_eq_mask unsigned_take_bit_eq)
  then have "unat w mod 32 = unat i" by (simp add: take_bit_eq_mod)
  ultimately show ?thesis
    using div_mult_mod_eq [of "unat w" 32] by (simp add: w_def)
qed

lemma cmp_of_head_byte:
  assumes "i < 32" "j < 32" "l < 8" "l' < (8::u8)"
  shows "cmp_of (i OR push_bit 5 l) (j OR push_bit 5 l') = ord_then (cmp_of l l') (cmp_of i j)"
proof -
  have "cmp_of (unat (i OR push_bit 5 l)) (unat (j OR push_bit 5 l')) =
      ord_then (cmp_of (unat l) (unat l')) (cmp_of (unat i) (unat j))"
    using assms by (simp add: unat_head_byte cmp_of_digits word_less_nat_alt)
  then show ?thesis by (simp add: cmp_of_unat)
qed

lemma shift_of_info:
  assumes "info_of a = info_of b"
  shows "shift_of a = shift_of b"
proof -
  have "shift_of c = (case additional_bytes_num (info_of c) of None \<Rightarrow> 0 | Some n \<Rightarrow> n)" for c
  proof (cases rule: head_cases [of c])
    case inline
    then have "unat (info_of c) \<le> 23" by (simp add: word_le_nat_alt)
    then have "additional_bytes_num (info_of c) = None"
      by (auto simp: additional_bytes_num_def)
    with inline show ?thesis by simp
  qed simp
  with assms show ?thesis by metis
qed

lemma info_of_mono: "info_of a < info_of b \<Longrightarrow> a < b"
proof -
  define g :: "nat \<Rightarrow> nat" where "g n = (if n \<le> 23 then n else if n \<le> 0xFF then 24
     else if n \<le> 0xFFFF then 25 else if n \<le> 0xFFFFFFFF then 26 else 27)" for n
  have info: "unat (info_of c) = g (unat c)" for c
  proof (cases "c \<le> 23")
    case True
    then have "unat (ucast c :: u8) = unat c"
      by (intro unat_ucast_small) (simp add: word_le_nat_alt word_less_nat_alt)
    with True show ?thesis by (simp add: g_def word_le_nat_alt info_of_def)
  qed (simp add: info_of_def g_def word_le_nat_alt)
  have mono: "g m \<le> g n" if "m \<le> n" for m n
    using that by (auto simp: g_def)
  assume "info_of a < info_of b"
  then show "a < b"
    using mono [of "unat b" "unat a"] unfolding word_less_nat_alt info by linarith
qed

lemma lex_cmp_head:
  assumes "l < 8"
  shows "lex_cmp (head l a @ r) (head l b @ s) = ord_then (cmp_of a b) (lex_cmp r s)"
proof (cases "info_of a = info_of b")
  case True
  then have n: "shift_of a = shift_of b" by (rule shift_of_info)
  have "lex_cmp (be_bytes (shift_of b) a) (be_bytes (shift_of b) b) = cmp_of a b"
  proof (cases rule: head_cases [of a])
    case inline
    with True n have "a = b"
      by (cases rule: head_cases [of b]) (auto simp: word_unat_eq_iff non_minimal_def additional_bytes_num_def split: if_splits)
    then show ?thesis by simp
  next
    case longer
    with True n show ?thesis
      by (cases rule: head_cases [of b])
         (auto simp: lex_cmp_be_nat be_nat_be_bytes cmp_of_unat word_le_nat_alt)
  qed
  with True n show ?thesis by (simp add: head_eq lex_cmp_append)
next
  case False
  then have c: "cmp_of (info_of a) (info_of b) = cmp_of a b"
    using info_of_mono [of a b] info_of_mono [of b a]
    by (cases "info_of a" "info_of b" rule: linorder_cases) (auto simp: cmp_of_def)
  with False have "cmp_of a b \<noteq> Equal" by (metis cmp_of_eqs(1))
  with c assms show ?thesis
    by (simp add: head_eq cmp_of_head_byte info_of_less ord_then_neq del: cmp_of_eqs(1))
qed

lemma lex_cmp_head_label:
  assumes "l < 8" "l' < 8" "l \<noteq> l'"
  shows "lex_cmp (head l a @ r) (head l' b @ s) = cmp_of l l'"
proof -
  have "cmp_of l l' \<noteq> Equal" using assms by simp
  with assms show ?thesis
    by (simp add: head_eq cmp_of_head_byte info_of_less ord_then_neq del: cmp_of_eqs(1))
qed

text \<open>The argument of the head of an item, and its contents.\<close>

fun item_size :: "cvalue \<Rightarrow> u64" where
  "item_size (Unsigned u) = u"
| "item_size (Negative n) = - (n + 1)"
| "item_size (ByteString b) = of_nat (length b)"
| "item_size (TextString t) = of_nat (length t)"
| "item_size (Array a) = of_nat (length a)"
| "item_size (Map m) = of_nat (length m)"
| "item_size (Tag t v) = t"
| "item_size (Simple s) = simple_code s"

fun item_content :: "cvalue \<Rightarrow> bytes" where
  "item_content (ByteString b) = b"
| "item_content (TextString t) = t"
| "item_content (Array a) = concat (map enc a)"
| "item_content (Map m) = enc_pairs m"
| "item_content (Tag t v) = enc v"
| "item_content _ = []"

lemma enc_item: "enc v = head (type_label v) (item_size v) @ item_content v"
  by (cases v) simp_all

lemma cmp_of_length:
  "a < 2 ^ 64 \<Longrightarrow> b < 2 ^ 64 \<Longrightarrow> cmp_of (of_nat a :: u64) (of_nat b) = cmp_of a b"
  by (simp add: unat_of_nat_u64 flip: cmp_of_unat)

lemma cmp_of_negative:
  assumes "sint a < 0" "sint b < 0"
  shows "cmp_of (- (a + 1)) (- (b + 1)) = reverse_ord (cmp_of (sint a) (sint (b :: u64)))"
proof -
  have u: "uint (NOT c) = - sint c - 1" if "sint c < 0" for c :: u64
    using that sint_not [of c] sint_greater_eq [of c] by (simp add: uint_sint take_bit_int_eq_self_iff)
  have "cmp_of (uint (NOT a)) (uint (NOT b)) = reverse_ord (cmp_of (sint a) (sint b))"
    using assms by (auto simp: u cmp_of_def)
  then show ?thesis unfolding neg_u64 cmp_of_uint .
qed

lemma lex_cmp_enc:
  "wf_value ub x \<Longrightarrow> wf_value ub y \<Longrightarrow>
     lex_cmp (enc x @ r) (enc y @ s) = ord_then (value_cmp x y) (lex_cmp r s)"
  "length a1 = length a2 \<Longrightarrow> list_all (wf_value ub) a1 \<Longrightarrow> list_all (wf_value ub) a2 \<Longrightarrow>
     lex_cmp (concat (map enc a1) @ r) (concat (map enc a2) @ s) = ord_then (list_cmp a1 a2) (lex_cmp r s)"
  "length m1 = length m2 \<Longrightarrow> list_all (\<lambda>(k, v). wf_value ub k \<and> wf_value ub v) m1 \<Longrightarrow>
     list_all (\<lambda>(k, v). wf_value ub k \<and> wf_value ub v) m2 \<Longrightarrow>
     lex_cmp (enc_pairs m1 @ r) (enc_pairs m2 @ s) = ord_then (pairs_cmp m1 m2) (lex_cmp r s)"
proof (induction x y and a1 a2 and m1 m2 arbitrary: r s and r s and r s
    rule: value_cmp_list_cmp_pairs_cmp.induct)
  case (1 x y)
  show ?case
  proof (cases "type_label x = type_label y")
    case False
    then have "cmp_of (type_label x) (type_label y) \<noteq> Equal" by simp
    with False show ?thesis
      by (simp add: enc_item lex_cmp_head_label type_label_less value_cmp_label ord_then_neq)
  next
    case True
    then show ?thesis
    proof (cases rule: same_type_label)
      case (Array a1 a2)
      with 1 show ?thesis
        by (cases "length a1 = length a2") (simp_all add: lex_cmp_head cmp_of_length ord_then_neq)
    next
      case (Map m1 m2)
      with 1 show ?thesis
        by (cases "length m1 = length m2") (simp_all add: lex_cmp_head cmp_of_length ord_then_neq)
    next
      case (ByteString b1 b2)
      with 1 show ?thesis
        by (cases "length b1 = length b2")
           (simp_all add: lex_cmp_head cmp_of_length ord_then_neq lex_cmp_append)
    next
      case (TextString b1 b2)
      with 1 show ?thesis
        by (cases "length b1 = length b2")
           (simp_all add: lex_cmp_head cmp_of_length ord_then_neq lex_cmp_append)
    next
      case (Tag t1 v1 t2 v2)
      with 1 show ?thesis by (simp add: lex_cmp_head ord_then_assoc)
    next
      case (Negative n1 n2)
      with 1 show ?thesis by (simp add: lex_cmp_head cmp_of_negative del: minus_add_distrib)
    qed (simp_all add: lex_cmp_head simple_cmp_def)
  qed
qed (simp_all add: ord_then_assoc)

section \<open>Maps built and taken apart by the macros\<close>

text \<open>
  \<open>destructure_cbor_map_peek_value\<close> of \<open>macros.rs\<close>: it consumes the entries below the needle, and
  the entry of the needle. \<open>destructure\<close> is the expansion of \<open>destructure_cbor_map!\<close>, one call per
  key on the same iterator.
\<close>

fun peek_value :: "(cvalue \<times> cvalue) list \<Rightarrow> cvalue \<Rightarrow> cvalue option \<times> (cvalue \<times> cvalue) list" where
  "peek_value [] needle = (None, [])"
| "peek_value ((k, v) # it) needle =
     (case value_cmp k needle of
        Less \<Rightarrow> peek_value it needle
      | Equal \<Rightarrow> (Some v, it)
      | Greater \<Rightarrow> (None, (k, v) # it))"

fun destructure :: "cvalue list \<Rightarrow> (cvalue \<times> cvalue) list \<Rightarrow> cvalue option list" where
  "destructure [] it = []"
| "destructure (key # keys) it =
     (let (x, it') = peek_value it key in x # destructure keys it')"

text \<open>\<open>assert_sorted_keys!\<close> holds of the keys, and \<open>cbor_map_options!\<close> keeps the entries present.\<close>

fun sorted_keys :: "cvalue list \<Rightarrow> bool" where
  "sorted_keys (k1 # k2 # ks) = (k1 < k2 \<and> sorted_keys (k2 # ks))"
| "sorted_keys _ = True"

fun map_options :: "(cvalue \<times> cvalue option) list \<Rightarrow> (cvalue \<times> cvalue) list" where
  "map_options [] = []"
| "map_options ((k, None) # m) = map_options m"
| "map_options ((k, Some v) # m) = (k, v) # map_options m"

lemma sorted_keys_iff: "sorted_keys ks \<longleftrightarrow> sorted_wrt (<) ks"
  by (induction ks rule: sorted_keys.induct) (auto intro: less_trans)

lemma peek_value_spec:
  assumes "sorted_wrt (<) (map fst it)"
  shows "peek_value it key = (map_of it key, filter (\<lambda>(k, v). k > key) it)"
  using assms
proof (induction it key rule: peek_value.induct)
  case (2 k v it key)
  have all: "filter (\<lambda>(k, v). k > key) it = it \<and> map_of it key = None" if "k \<ge> key"
    using 2(2) that by (auto simp: map_of_eq_None_iff intro!: filter_True)
  show ?case
    using 2 all
    by (cases k key rule: linorder_cases) (auto simp: value_cmp_cmp_of cmp_of_def value_cmp_cases)
qed simp

lemma destructure_map_of:
  "sorted_wrt (<) (map fst it) \<Longrightarrow> sorted_wrt (<) keys \<Longrightarrow> destructure keys it = map (map_of it) keys"
proof (induction keys it rule: destructure.induct)
  case (2 key keys it)
  let ?it = "filter (\<lambda>(k, v). k > key) it"
  have "sorted_wrt (<) (map fst ?it)"
    using 2(2) by (simp add: sorted_wrt_map sorted_wrt_filter)
  moreover have "map_of ?it k = map_of it k" if "k \<in> set keys" for k
    using 2(3) that by (induction it) auto
  ultimately show ?case
    using 2 by (simp add: peek_value_spec)
qed simp

end
