(* ===== verification/Cbor_Props.thy ===== *)
theory Cbor_Props
  imports Cbor_Order
begin

text \<open>
  What the CBOR library promises its callers: the round trips, the exact conditions for a
  successful write, the canonical order, the lookup of \<open>destructure_cbor_map!\<close>, and two places
  where the code departs from its own documentation.
\<close>

lemma fits_127: "fits (Some 127) n \<longleftrightarrow> n \<le> 127"
  by (auto simp: fits_def)

text \<open>The writer succeeds exactly on values nested at most 127 deep without repeated map keys,
  and then appends the encoding of the value with every map sorted.\<close>

theorem cbor_write_iff:
  "cbor_write v out = (Inr (), out') \<longleftrightarrow>
     nest v \<le> 127 \<and> unique_keys v \<and> out' = out @ enc (sort_maps v)"
  by (simp add: cbor_write_def write_nested_def encode_ok_iff fits_127)

text \<open>A value that was written reads back as itself with its maps sorted, on any pointer width
  that can index its strings.\<close>

theorem cbor_write_read:
  assumes "wf_value ub v" "canonical_keys v" "cbor_write v [] = (Inr (), bs)"
  shows "cbor_read ub bs = Inr (sort_maps v)"
proof -
  from assms(3) have v: "fits (Some 127) (nest v)" "unique_keys v" and bs: "bs = enc (sort_maps v)"
    by (simp_all add: cbor_write_def write_nested_def encode_ok_iff)
  have "decode_item ub (Some 127) (enc (sort_maps v) @ []) = Inr (sort_maps v, [])"
    using assms v by (intro decode_enc) (simp_all add: wf_sort_maps canonical_sort_maps fits_nest_sort_maps)
  then show ?thesis by (simp add: bs cbor_read_def read_nested_def)
qed

definition example_map :: cvalue where
  "example_map = Map [(Unsigned 2, Array [Simple TrueValue]), (Unsigned 1, TextString [0x61])]"

definition example_bytes :: bytes where
  "example_bytes = [0xA2, 1, 0x61, 0x61, 2, 0x81, 0xF5]"

lemma cbor_write_example: "cbor_write example_map [] = (Inr (), example_bytes)"
proof -
  have "sort_maps example_map =
      Map [(Unsigned 1, TextString [0x61]), (Unsigned 2, Array [Simple TrueValue])]"
    by (simp add: example_map_def sort_key_def less_eq_cvalue_def cmp_of_def)
  moreover have "enc \<dots> = example_bytes"
    by (simp add: example_bytes_def head_eq info_of_def shift_of_def simple_code_def)
  moreover have "nest example_map \<le> 127" "unique_keys example_map"
    by (simp_all add: example_map_def)
  ultimately show ?thesis
    by (simp add: cbor_write_def write_nested_def encode_ok_iff fits_127)
qed

lemma cbor_write_read_witness:
  "cbor_read 32 example_bytes = Inr (sort_maps example_map)"
  by (rule cbor_write_read [OF _ _ cbor_write_example])
     (simp_all add: example_map_def utf8_valid_def)

text \<open>C8: on a 64-bit target the reader accepts exactly the bytes the writer produces from canonical
  values: a byte string has at most one reading, and that reading is written back unchanged.\<close>

theorem cbor_read_canonical:
  "cbor_read 64 bs = Inr v \<longleftrightarrow>
     wf_value 64 v \<and> canonical v \<and> cbor_write v [] = (Inr (), bs)"
proof -
  have "cbor_read 64 bs = Inr v \<longleftrightarrow> decode_item 64 (Some 127) bs = Inr (v, [])"
    by (auto simp: cbor_read_def read_nested_def rbind_Inr_iff split: if_splits)
  also have "\<dots> \<longleftrightarrow> reads (Some 127) v \<and> bs = enc v"
    by (simp add: item.dec_iff)
  also have "\<dots> \<longleftrightarrow> wf_value 64 v \<and> canonical v \<and> cbor_write v [] = (Inr (), bs)"
    by (auto simp: reads_def cbor_write_def write_nested_def encode_ok_iff sort_maps_canonical
        canonical_unique_keys)
  finally show ?thesis .
qed

text \<open>C13: the order of values is the bytewise order of their encodings.\<close>

theorem cbor_order_bytewise:
  assumes "wf_value ub x" "wf_value ub y"
  shows "value_cmp x y = lex_cmp (enc x) (enc y)"
  using lex_cmp_enc(1) [OF assms, of "[]" "[]"] by simp

lemma cbor_order_bytewise_witness:
  "value_cmp (Unsigned 24) (TextString [0x61]) = lex_cmp (enc (Unsigned 24)) (enc (TextString [0x61]))"
  by (rule cbor_order_bytewise [of 32]) (simp_all add: utf8_valid_def)

text \<open>On a map the reader returned (its keys strictly sorted), \<open>destructure_cbor_map!\<close> with sorted
  keys binds each variable to the value of its key, and to \<open>None\<close> if the key is absent.\<close>

theorem destructure_correct:
  assumes "canonical (Map m)" "sorted_keys keys"
  shows "destructure keys m = map (map_of m) keys"
  using assms by (simp add: destructure_map_of sorted_keys_iff)

lemma destructure_correct_witness:
  "destructure [Unsigned 1, Unsigned 3, Unsigned 4] [(Unsigned 1, Simple TrueValue), (Unsigned 2, Unsigned 7), (Unsigned 4, Unsigned 9)]
     = [Some (Simple TrueValue), None, Some (Unsigned 9)]"
  by (subst destructure_correct) (simp_all add: less_cvalue_def cmp_of_def)

text \<open>On the 32-bit badge the length of a string is cast to \<open>usize\<close> before the bounds check, so
  the head of a 4 GiB string is read as that of an empty one: an encoding the writer never
  produces is accepted, so the reader is not canonical there.\<close>

theorem cbor_read_truncates_length:
  "cbor_read 32 [0x5B, 0, 0, 0, 1, 0, 0, 0, 0] = Inr (ByteString []) \<and>
   cbor_read 64 [0x5B, 0, 0, 0, 1, 0, 0, 0, 0] = Inl IncompleteCborData \<and>
   cbor_write (ByteString []) [] = (Inr (), [0x40])"
proof -
  have dec: "decode_item ub (Some 127) [0x5B, 0, 0, 0, 1, 0, 0, 0, 0] =
      read_byte_string_content ub (2 ^ 32) []" for ub
    by (simp add: decode_item_Cons depth_exhausted_def decode_body_def read_variadic_length_integer_def
        additional_bytes_num_def read_bytes_def be_val_def non_minimal_def push_bit_eq_mult drop_bit_eq_div)
  show ?thesis
    by (simp add: cbor_read_def read_nested_def dec read_byte_string_content_def usize_of_u64_def
        read_bytes_def cbor_write_iff head_eq info_of_def shift_of_def)
qed

text \<open>A repeated key goes unnoticed when the two keys are themselves maps that list the same
  entries in different orders: the writer returns \<open>Ok\<close>, and the reader rejects what it wrote.\<close>

theorem cbor_write_repeated_map_key:
  "let k1 = Map [(Unsigned 1, Unsigned 0), (Unsigned 2, Unsigned 0)];
       k2 = Map [(Unsigned 2, Unsigned 0), (Unsigned 1, Unsigned 0)];
       v = Map [(k1, Unsigned 5), (k2, Unsigned 6)]
   in sort_maps k1 = sort_maps k2 \<and>
      cbor_write v [] = (Inr (), enc (sort_maps v)) \<and>
      cbor_read 64 (enc (sort_maps v)) \<noteq> Inr (sort_maps v)"
proof -
  let ?k1 = "Map [(Unsigned 1, Unsigned 0), (Unsigned 2, Unsigned 0)]"
  let ?k2 = "Map [(Unsigned 2, Unsigned 0), (Unsigned 1, Unsigned 0)]"
  let ?v = "Map [(?k1, Unsigned 5), (?k2, Unsigned 6)]"
  have k: "sort_maps ?k1 = ?k1" "sort_maps ?k2 = ?k1"
    by (simp_all add: sort_key_def less_eq_cvalue_def cmp_of_def)
  have v: "sort_maps ?v = Map [(?k1, Unsigned 5), (?k1, Unsigned 6)]"
    by (simp add: sort_key_def less_eq_cvalue_def cmp_of_def)
  have w: "cbor_write ?v [] = (Inr (), enc (sort_maps ?v))"
    by (simp only: cbor_write_def write_nested_def encode_ok_iff fits_127) simp
  have r: "cbor_read 64 (enc (sort_maps ?v)) \<noteq> Inr (sort_maps ?v)"
    by (simp only: v) (auto simp: cbor_read_def read_nested_def rbind_Inr_iff item.dec_iff reads_def
        split: if_splits)
  show ?thesis
    unfolding Let_def by (intro conjI) (simp only: k, fact w, fact r)
qed

end
