(* ===== verification/Hid.thy ===== *)
theory Hid
  imports Prelude
begin

text \<open>
  The CTAPHID transport of \<open>src/ctap/hid\<close>: the packet format, the splitting of a message into
  64-byte packets (\<open>send.rs\<close>), the message assembler (\<open>receive.rs\<close>) and the channel layer
  \<open>CtapHid\<close> (\<open>mod.rs\<close>). A \<open>[u8; 64]\<close> packet and a \<open>[u8; 4]\<close> channel are byte lists of that
  length; an \<open>Instant\<close> is a number of nanoseconds.
\<close>

section \<open>Commands, errors and packets\<close>

type_synonym channel_id = bytes
type_synonym hid_packet = bytes
type_synonym instant = nat

definition from_millis :: "nat \<Rightarrow> nat" where
  "from_millis n = n * 1000000"

datatype hid_command =
    Ping | Msg | Lock | Init | Wink | Cbor | Cancel | Keepalive | Error
  | RestoreTotpCodes | BackupTotpCodes | ResetSession

fun cmd_code :: "hid_command \<Rightarrow> u8" where
  "cmd_code Ping = 0x01"
| "cmd_code Msg = 0x03"
| "cmd_code Lock = 0x04"
| "cmd_code Init = 0x06"
| "cmd_code Wink = 0x08"
| "cmd_code Cbor = 0x10"
| "cmd_code Cancel = 0x11"
| "cmd_code Keepalive = 0x3B"
| "cmd_code Error = 0x3F"
| "cmd_code RestoreTotpCodes = 0x71"
| "cmd_code BackupTotpCodes = 0x72"
| "cmd_code ResetSession = 0x74"

definition cmd_from :: "u8 \<Rightarrow> hid_command" where
  "cmd_from x =
     (if x = cmd_code Ping then Ping
      else if x = cmd_code Msg then Msg
      else if x = cmd_code Lock then Lock
      else if x = cmd_code Init then Init
      else if x = cmd_code Wink then Wink
      else if x = cmd_code Cbor then Cbor
      else if x = cmd_code Cancel then Cancel
      else if x = cmd_code Keepalive then Keepalive
      else if x = cmd_code RestoreTotpCodes then RestoreTotpCodes
      else if x = cmd_code BackupTotpCodes then BackupTotpCodes
      else if x = cmd_code ResetSession then ResetSession
      else Error)"

lemma cmd_from_code [simp]: "cmd_from (cmd_code c) = c"
  by (cases c) (simp_all add: cmd_from_def)

datatype hid_error =
    InvalidCmd | InvalidPar | InvalidLen | InvalidSeq | MsgTimeout | ChannelBusy
  | LockRequired | InvalidChannel | Other | UnexpectedContinuation

fun error_code :: "hid_error \<Rightarrow> u8" where
  "error_code InvalidCmd = 0x01"
| "error_code InvalidPar = 0x02"
| "error_code InvalidLen = 0x03"
| "error_code InvalidSeq = 0x04"
| "error_code MsgTimeout = 0x05"
| "error_code ChannelBusy = 0x06"
| "error_code LockRequired = 0x0A"
| "error_code InvalidChannel = 0x0B"
| "error_code Other = 0x7F"
| "error_code UnexpectedContinuation = 0x80"

datatype processed_packet =
    InitPacket u8 nat bytes
  | ContinuationPacket u8 bytes

record message =
  m_cid :: channel_id
  m_cmd :: hid_command
  m_payload :: bytes

definition process_single_packet :: "hid_packet \<Rightarrow> channel_id \<times> processed_packet" where
  "process_single_packet packet =
     (let cid = take 4 packet; rest = drop 4 packet
      in if rest ! 0 AND 0x80 \<noteq> 0
         then (cid, InitPacket (rest ! 0 AND NOT 0x80)
                      (push_bit 8 (unat (rest ! 1)) OR unat (rest ! 2)) (take 57 (drop 3 rest)))
         else (cid, ContinuationPacket (rest ! 0) (take 59 (drop 1 rest))))"

section \<open>Sending: \<open>send.rs\<close>\<close>

record message_splitter =
  sp_message :: message
  sp_packet :: hid_packet
  sp_seq :: "u8 option"
  sp_i :: nat

definition new_splitter :: "message \<Rightarrow> message_splitter option" where
  "new_splitter m =
     (if length (m_payload m) > 7609 then None
      else Some \<lparr>sp_message = m, sp_packet = m_cid m @ replicate 60 0, sp_seq = None, sp_i = 0\<rparr>)"

text \<open>\<open>consume_data\<close> fills a slice and zeroes what the data does not reach; it returns the new slice
  and the number of bytes copied.\<close>

definition consume_data :: "bytes \<Rightarrow> bytes \<Rightarrow> bytes \<times> nat" where
  "consume_data dst data =
     (if length data \<le> length dst
      then (data @ replicate (length dst - length data) 0, length data)
      else (take (length dst) data, length dst))"

definition splitter_finished :: "message_splitter \<Rightarrow> bool" where
  "splitter_finished sp =
     (case sp_seq sp of None \<Rightarrow> True | Some _ \<Rightarrow> sp_i sp < length (m_payload (sp_message sp)))"

definition splitter_next :: "message_splitter \<Rightarrow> hid_packet option \<times> message_splitter" where
  "splitter_next sp =
     (let payload = m_payload (sp_message sp); payload_len = length payload
      in case sp_seq sp of
           None \<Rightarrow>
             (let p0 = (sp_packet sp)
                    [4 := cmd_code (m_cmd (sp_message sp)) OR 0x80,
                     5 := of_nat (drop_bit 8 payload_len),
                     6 := of_nat payload_len];
                  (data, n) = consume_data (drop 7 p0) payload;
                  p = take 7 p0 @ data
              in (Some p, sp\<lparr>sp_packet := p, sp_seq := Some 0, sp_i := n\<rparr>))
         | Some seq \<Rightarrow>
             (if sp_i sp < payload_len
              then let p0 = (sp_packet sp)[4 := seq];
                       (data, n) = consume_data (drop 5 p0) (drop (sp_i sp) payload);
                       p = take 5 p0 @ data
                   in (Some p, sp\<lparr>sp_packet := p, sp_seq := Some (seq + 1), sp_i := sp_i sp + n\<rparr>)
              else (None, sp)))"

text \<open>A \<open>HidPacketIterator\<close> is an optional splitter; \<open>take_packets n\<close> calls \<open>next\<close> at most \<open>n\<close> times.\<close>

type_synonym packet_iterator = "message_splitter option"

definition iterator_has_data :: "packet_iterator \<Rightarrow> bool" where
  "iterator_has_data it = (case it of Some sp \<Rightarrow> splitter_finished sp | None \<Rightarrow> False)"

definition iterator_next :: "packet_iterator \<Rightarrow> hid_packet option \<times> packet_iterator" where
  "iterator_next it =
     (case it of
        Some sp \<Rightarrow> (let (p, sp') = splitter_next sp in (p, Some sp'))
      | None \<Rightarrow> (None, None))"

fun take_packets :: "nat \<Rightarrow> packet_iterator \<Rightarrow> hid_packet list \<times> packet_iterator" where
  "take_packets 0 it = ([], it)"
| "take_packets (Suc n) it =
     (case iterator_next it of
        (None, it') \<Rightarrow> ([], it')
      | (Some p, it') \<Rightarrow> (let (ps, it'') = take_packets n it' in (p # ps, it'')))"

section \<open>Receiving: \<open>receive.rs\<close>\<close>

record message_assembler =
  idle :: bool
  cid :: channel_id
  last_timestamp :: instant
  cmd :: u8
  seq :: u8
  remaining_payload_len :: nat
  payload :: bytes

definition timeout_duration :: nat where
  "timeout_duration = from_millis 100"

definition new_assembler :: "instant \<Rightarrow> message_assembler" where
  "new_assembler now =
     \<lparr>idle = True, cid = [0, 0, 0, 0], last_timestamp = now, cmd = 0, seq = 0,
      remaining_payload_len = 0, payload = []\<rparr>"

text \<open>\<open>reset\<close> reads the clock itself (\<open>Instant::now()\<close>), the argument \<open>now\<close> here.\<close>

definition reset_assembler :: "instant \<Rightarrow> message_assembler \<Rightarrow> message_assembler" where
  "reset_assembler now a =
     a\<lparr>idle := True, cid := [0, 0, 0, 0], last_timestamp := now, cmd := 0, seq := 0,
       remaining_payload_len := 0, payload := []\<rparr>"

definition append_payload :: "bytes \<Rightarrow> message_assembler \<Rightarrow> message option \<times> message_assembler" where
  "append_payload data a =
     (if length data < remaining_payload_len a
      then (None, a\<lparr>payload := payload a @ data, idle := False,
                    remaining_payload_len := remaining_payload_len a - length data\<rparr>)
      else (Some \<lparr>m_cid = cid a, m_cmd = cmd_from (cmd a),
                  m_payload = payload a @ take (remaining_payload_len a) data\<rparr>,
            a\<lparr>idle := True, payload := []\<rparr>))"

type_synonym assembler_result = "channel_id \<times> hid_error + message option"

definition parse_init_packet ::
  "nat \<Rightarrow> channel_id \<Rightarrow> u8 \<Rightarrow> nat \<Rightarrow> bytes \<Rightarrow> instant \<Rightarrow> message_assembler \<Rightarrow>
     assembler_result \<times> message_assembler" where
  "parse_init_packet max_msg_size c cm len data timestamp a =
     (if len > max_msg_size then (Inl (c, InvalidLen), a)
      else let (out, a') = append_payload data
                 (a\<lparr>cid := c, last_timestamp := timestamp, cmd := cm, seq := 0,
                    remaining_payload_len := len\<rparr>)
           in (Inr out, a'))"

definition is_continuation :: "processed_packet \<Rightarrow> bool" where
  "is_continuation p = (case p of ContinuationPacket _ _ \<Rightarrow> True | InitPacket _ _ _ \<Rightarrow> False)"

text \<open>The part of \<open>parse_packet\<close> after the timeout check.\<close>

definition assemble ::
  "nat \<Rightarrow> instant \<Rightarrow> channel_id \<Rightarrow> processed_packet \<Rightarrow> instant \<Rightarrow> message_assembler \<Rightarrow>
     assembler_result \<times> message_assembler" where
  "assemble max_msg_size now c packet timestamp a =
     (if idle a then
        (case packet of
           InitPacket cm len data \<Rightarrow> parse_init_packet max_msg_size c cm len data timestamp a
         | ContinuationPacket _ _ \<Rightarrow> (Inl (c, UnexpectedContinuation), a))
      else if c \<noteq> cid a then (Inl (c, ChannelBusy), a)
      else
        (case packet of
           InitPacket cm len data \<Rightarrow>
             (let a' = reset_assembler now a
              in if cm = cmd_code Init
                 then parse_init_packet max_msg_size c cm len data timestamp a'
                 else (Inl (c, InvalidSeq), a'))
         | ContinuationPacket sq data \<Rightarrow>
             (if sq \<noteq> seq a then (Inl (c, InvalidSeq), reset_assembler now a)
              else let (out, a') = append_payload data
                         (a\<lparr>last_timestamp := timestamp, seq := seq a + 1\<rparr>)
                   in (Inr out, a'))))"

definition parse_packet ::
  "nat \<Rightarrow> instant \<Rightarrow> hid_packet \<Rightarrow> instant \<Rightarrow> message_assembler \<Rightarrow>
     assembler_result \<times> message_assembler" where
  "parse_packet max_msg_size now packet timestamp a =
     (let (c, processed) = process_single_packet packet
      in if \<not> idle a \<and> timestamp \<ge> last_timestamp a + timeout_duration
         then (let current_cid = cid a; a' = reset_assembler now a
               in if c = current_cid \<and> is_continuation processed
                  then (Inl (c, MsgTimeout), a')
                  else assemble max_msg_size now c processed timestamp a')
         else assemble max_msg_size now c processed timestamp a)"

end
