(* ===== verification/Hid_Transport.thy ===== *)
theory Hid_Transport
  imports Hid
begin

text \<open>
  Correctness of the HID transport: the invariant of the assembler and its memory bound, the
  packets the splitter produces, and the delivery of every message that fits, through the
  contract \<open>framing\<close> of a sender and a receiver.
\<close>

section \<open>The invariant of the assembler\<close>

text \<open>An idle assembler holds no bytes, which is why \<open>parse_init_packet\<close> need not clear them. A busy
  one still waits for bytes, and has a full initialization packet and \<open>seq\<close> full continuation
  packets of the message.\<close>

definition assembler_inv :: "nat \<Rightarrow> message_assembler \<Rightarrow> bool" where
  "assembler_inv mx a \<longleftrightarrow>
     (if idle a then payload a = []
      else 0 < remaining_payload_len a \<and>
           length (payload a) + remaining_payload_len a \<le> mx \<and>
           length (payload a) = 57 + 59 * unat (seq a))"

lemma new_assembler_inv [simp]: "assembler_inv mx (new_assembler now)"
  by (simp add: assembler_inv_def new_assembler_def)

lemma reset_assembler_inv [simp]: "assembler_inv mx (reset_assembler now a)"
  by (simp add: assembler_inv_def reset_assembler_def)

lemma reset_assembler_idle [simp]: "idle (reset_assembler now a)" "payload (reset_assembler now a) = []"
  by (simp_all add: reset_assembler_def)

lemma parse_init_packet_inv:
  assumes "parse_init_packet mx c cm len data ts a = (res, a')"
    and "idle a" "assembler_inv mx a" "length data = 57"
  shows "assembler_inv mx a'"
  using assms
  by (auto simp: parse_init_packet_def append_payload_def assembler_inv_def Let_def split: if_splits)

text \<open>The sequence number cannot wrap: a message of at most 7609 bytes has 128 continuations.\<close>

lemma assemble_inv:
  assumes res: "assemble mx now c p ts a = (res, a')" and inv: "assembler_inv mx a"
    and mx: "mx \<le> 7609"
    and init: "\<And>cm len data. p = InitPacket cm len data \<Longrightarrow> length data = 57"
    and cont: "\<And>sq data. p = ContinuationPacket sq data \<Longrightarrow> length data = 59"
  shows "assembler_inv mx a'"
proof (cases p)
  case (InitPacket cm len data)
  with res inv init show ?thesis
    by (auto simp: assemble_def Let_def parse_init_packet_inv split: if_splits)
next
  case (ContinuationPacket sq data)
  show ?thesis
  proof (cases "\<not> idle a \<and> c = cid a \<and> sq = seq a \<and> 59 < remaining_payload_len a")
    case True
    with inv have "59 * unat (seq a) + 57 + 59 < 7609"
      using mx by (simp add: assembler_inv_def)
    then have "unat (seq a + 1) = unat (seq a) + 1"
      by (simp add: unat_word_ariths)
    with True res inv ContinuationPacket cont show ?thesis
      by (auto simp: assemble_def append_payload_def assembler_inv_def)
  next
    case False
    with res inv ContinuationPacket cont show ?thesis
      by (auto simp: assemble_def append_payload_def assembler_inv_def Let_def split: if_splits)
  qed
qed

lemma process_single_packet_lengths:
  assumes "length packet = 64" "process_single_packet packet = (c, p)"
  shows "length c = 4"
    and "p = InitPacket cm len data \<Longrightarrow> length data = 57"
    and "p = ContinuationPacket sq data \<Longrightarrow> length data = 59"
  using assms by (auto simp: process_single_packet_def Let_def split: if_splits)

lemma parse_packet_inv:
  assumes "parse_packet mx now packet ts a = (res, a')" "assembler_inv mx a" "mx \<le> 7609"
    and "length packet = 64"
  shows "assembler_inv mx a'"
proof -
  obtain c p where p: "process_single_packet packet = (c, p)" by fastforce
  note len = process_single_packet_lengths [OF assms(4) p]
  show ?thesis
    using assms(1,2) assemble_inv [OF _ _ assms(3) len(2,3)]
    by (auto simp: parse_packet_def p Let_def split: if_splits)
qed

section \<open>The packets of a message\<close>

definition be16 :: "nat \<Rightarrow> bytes" where
  "be16 n = [of_nat (drop_bit 8 n), of_nat n]"

definition pad :: "nat \<Rightarrow> bytes \<Rightarrow> bytes" where
  "pad n bs = bs @ replicate (n - length bs) 0"

lemma length_pad: "length bs \<le> n \<Longrightarrow> length (pad n bs) = n"
  by (simp add: pad_def)

definition init_frame :: "message \<Rightarrow> hid_packet" where
  "init_frame m = m_cid m @ [cmd_code (m_cmd m) OR 0x80] @ be16 (length (m_payload m)) @
     pad 57 (take 57 (m_payload m))"

definition cont_frame :: "message \<Rightarrow> nat \<Rightarrow> hid_packet" where
  "cont_frame m k = m_cid m @ [of_nat k] @ pad 59 (take 59 (drop (57 + 59 * k) (m_payload m)))"

definition cont_count :: "message \<Rightarrow> nat" where
  "cont_count m = (length (m_payload m) - 57 + 58) div 59"

definition frames :: "message \<Rightarrow> hid_packet list" where
  "frames m = init_frame m # map (cont_frame m) [0..<cont_count m]"

text \<open>The state of the splitter after the initialization packet and \<open>k\<close> continuation packets.\<close>

definition splitter_at :: "message \<Rightarrow> nat \<Rightarrow> message_splitter \<Rightarrow> bool" where
  "splitter_at m k sp \<longleftrightarrow>
     sp_message sp = m \<and> length (sp_packet sp) = 64 \<and> take 4 (sp_packet sp) = m_cid m \<and>
     sp_seq sp = Some (of_nat k) \<and> sp_i sp = min (length (m_payload m)) (57 + 59 * k)"

lemma consume_data_pad:
  "consume_data dst data = (pad (length dst) (take (length dst) data), min (length dst) (length data))"
  by (auto simp: consume_data_def pad_def)

lemma splitter_init:
  assumes "length (m_cid m) = 4" "length (m_payload m) \<le> 7609"
  shows "\<exists>sp sp'. new_splitter m = Some sp \<and> splitter_next sp = (Some (init_frame m), sp') \<and>
    splitter_at m 0 sp'"
  using assms
  by (auto simp: new_splitter_def splitter_next_def Let_def consume_data_pad init_frame_def be16_def
      splitter_at_def pad_def list_update_append numeral_nat)

lemma take_set_nth: "n < length xs \<Longrightarrow> take (Suc n) (xs[n := x]) = take n xs @ [x]"
  by (simp add: take_Suc_conv_app_nth)

lemma splitter_step:
  assumes "splitter_at m k sp" "57 + 59 * k < length (m_payload m)"
  shows "\<exists>sp'. splitter_next sp = (Some (cont_frame m k), sp') \<and> splitter_at m (Suc k) sp'"
proof -
  let ?p = "(sp_packet sp)[4 := of_nat k]" and ?i = "57 + 59 * k" and ?pl = "m_payload m"
  note at = assms(1) [unfolded splitter_at_def]
  have i: "sp_i sp = ?i" using at assms(2) by simp
  have "length (m_cid m) = min (length (sp_packet sp)) 4"
    using at by (metis length_take)
  then have t: "take 5 ?p = m_cid m @ [of_nat k]" "length (m_cid m) = 4"
    using at take_set_nth [of 4 "sp_packet sp" "of_nat k"] by simp_all
  have d: "length (drop 5 ?p) = 59" using at by simp
  have p: "take 5 ?p @ pad 59 (take 59 (drop ?i ?pl)) = cont_frame m k"
    using t by (simp add: cont_frame_def)
  have "splitter_next sp = (Some (cont_frame m k),
      sp\<lparr>sp_packet := cont_frame m k, sp_seq := Some (of_nat k + 1),
         sp_i := ?i + min 59 (length ?pl - ?i)\<rparr>)"
    using at assms(2) by (simp add: splitter_next_def consume_data_pad d p i Let_def)
  moreover have "splitter_at m (Suc k) (sp\<lparr>sp_packet := cont_frame m k,
      sp_seq := Some (of_nat k + 1), sp_i := ?i + min 59 (length ?pl - ?i)\<rparr>)"
    using at t assms(2) by (auto simp: splitter_at_def cont_frame_def length_pad add.commute)
  ultimately show ?thesis by blast
qed

lemma splitter_stop:
  assumes "splitter_at m k sp" "length (m_payload m) \<le> 57 + 59 * k"
  shows "splitter_next sp = (None, sp)"
  using assms by (simp add: splitter_at_def splitter_next_def Let_def)

lemma cont_count_iff: "k < cont_count m \<longleftrightarrow> 57 + 59 * k < length (m_payload m)"
  unfolding cont_count_def by linarith

lemma take_packets_Suc:
  "splitter_next sp = (None, sp') \<Longrightarrow> fst (take_packets (Suc n) (Some sp)) = []"
  "splitter_next sp = (Some p, sp') \<Longrightarrow>
     fst (take_packets (Suc n) (Some sp)) = p # fst (take_packets n (Some sp'))"
  by (simp_all add: iterator_next_def split_beta)

lemma take_packets_from:
  assumes "splitter_at m k sp" "k \<le> cont_count m"
  shows "fst (take_packets (cont_count m - k + Suc n) (Some sp)) = map (cont_frame m) [k..<cont_count m]"
  using assms
proof (induction "cont_count m - k" arbitrary: k sp)
  case 0
  then have "splitter_next sp = (None, sp)"
    using cont_count_iff [of k m] by (intro splitter_stop) auto
  with 0 show ?case by (simp add: take_packets_Suc del: take_packets.simps)
next
  case (Suc d)
  then have "k < cont_count m" by simp
  then obtain sp' where sp': "splitter_next sp = (Some (cont_frame m k), sp')" "splitter_at m (Suc k) sp'"
    using splitter_step [OF Suc.prems(1)] by (auto simp: cont_count_iff)
  have "cont_count m - k + Suc n = Suc (cont_count m - Suc k + Suc n)"
    using \<open>k < cont_count m\<close> by simp
  moreover have "fst (take_packets (cont_count m - Suc k + Suc n) (Some sp')) =
      map (cont_frame m) [Suc k..<cont_count m]"
    using Suc.hyps(2) \<open>k < cont_count m\<close> sp'(2) by (intro Suc.hyps(1)) auto
  moreover have "[k..<cont_count m] = k # [Suc k..<cont_count m]"
    using \<open>k < cont_count m\<close> by (rule upt_conv_Cons)
  ultimately show ?case
    by (simp only: take_packets_Suc(2) [OF sp'(1)] list.map)
qed

lemma split_frames:
  assumes "length (m_cid m) = 4" "length (m_payload m) \<le> 7609" "length (frames m) < n"
  shows "fst (take_packets n (new_splitter m)) = frames m"
proof -
  obtain sp sp' where sp: "new_splitter m = Some sp" "splitter_next sp = (Some (init_frame m), sp')"
    "splitter_at m 0 sp'"
    using splitter_init [OF assms(1,2)] by auto
  obtain k where n: "n = Suc (cont_count m - 0 + Suc k)"
    using assms(3) less_iff_Suc_add [of "Suc (cont_count m)" n] by (auto simp: frames_def)
  show ?thesis
    unfolding n sp(1) take_packets_Suc(2) [OF sp(2)] frames_def
    using take_packets_from [OF sp(3), of k] by simp
qed

lemma cont_count_le: "length (m_payload m) \<le> 7609 \<Longrightarrow> cont_count m \<le> 128"
  unfolding cont_count_def by linarith

section \<open>Parsing the packets of a message\<close>

lemma cmd_byte:
  "(cmd_code c OR 0x80) AND 0x80 \<noteq> 0" "(cmd_code c OR 0x80) AND NOT 0x80 = cmd_code c"
  "(cmd_code c OR 0x80) AND - 129 = cmd_code c"
  by (cases c; simp)+

lemma be16_value:
  assumes "n < 65536"
  shows "push_bit 8 (unat (of_nat (drop_bit 8 n) :: u8)) OR unat (of_nat n :: u8) = n"
proof -
  have n: "take_bit 16 n = n" using assms by (simp add: take_bit_nat_eq_self)
  have "push_bit 8 (take_bit 8 (drop_bit 8 n)) OR take_bit 8 n = take_bit 16 n"
    by (rule bit_eqI) (auto simp: bit_simps)
  then show ?thesis by (simp add: unsigned_of_nat n)
qed

lemma process_init_frame:
  assumes "length (m_cid m) = 4" "length (m_payload m) < 65536"
  shows "process_single_packet (init_frame m) =
    (m_cid m, InitPacket (cmd_code (m_cmd m)) (length (m_payload m)) (pad 57 (take 57 (m_payload m))))"
  using assms by (simp add: process_single_packet_def init_frame_def be16_def Let_def cmd_byte
      be16_value length_pad nth_append)

lemma process_cont_frame:
  assumes "length (m_cid m) = 4" "k < 128"
  shows "process_single_packet (cont_frame m k) =
    (m_cid m, ContinuationPacket (of_nat k) (pad 59 (take 59 (drop (57 + 59 * k) (m_payload m)))))"
proof -
  have "(of_nat k :: u8) AND 0x80 = 0"
  proof -
    have "\<not> bit k 7" using assms(2) by (simp add: bit_iff_odd)
    then have "\<not> bit (of_nat k :: u8) 7" by (simp add: bit_of_nat_iff)
    then show ?thesis using and_exp_eq_0_iff_not_bit [of "of_nat k :: u8" 7] by simp
  qed
  with assms(1) show ?thesis
    by (simp add: process_single_packet_def cont_frame_def Let_def length_pad nth_append)
qed

section \<open>Delivery\<close>

text \<open>
  A receiver that is \<open>ready\<close> and is fed the packets that carry a message answers with that message
  at the last packet, and nothing before, and is ready again.
\<close>

fun run :: "('p \<Rightarrow> 's \<Rightarrow> 'o \<times> 's) \<Rightarrow> 'p list \<Rightarrow> 's \<Rightarrow> 'o list \<times> 's" where
  "run step [] s = ([], s)"
| "run step (p # ps) s =
     (let (out, s1) = step p s; (outs, s2) = run step ps s1 in (out # outs, s2))"

lemma run_append:
  "run step (ps @ qs) s =
     (let (o1, s1) = run step ps s; (o2, s2) = run step qs s1 in (o1 @ o2, s2))"
  by (induction ps arbitrary: s) (simp_all add: split_beta Let_def)

definition delivered :: "('e + 'm option) list \<Rightarrow> 'm list" where
  "delivered outs = concat (map (\<lambda>r. case r of Inr (Some m) \<Rightarrow> [m] | _ \<Rightarrow> []) outs)"

lemma delivered_replicate [simp]: "delivered (replicate n (Inr None)) = []"
  by (simp add: delivered_def)

lemma delivered_append [simp]: "delivered (xs @ ys) = delivered xs @ delivered ys"
  by (simp add: delivered_def)

lemma delivered_Some [simp]: "delivered (Inr (Some m) # outs) = m # delivered outs"
  by (simp add: delivered_def)

locale framing =
  fixes step :: "'p \<Rightarrow> 's \<Rightarrow> ('e + 'm option) \<times> 's"
    and ready :: "'s \<Rightarrow> bool"
    and carries :: "'m \<Rightarrow> 'p list \<Rightarrow> bool"
  assumes deliver: "ready s \<Longrightarrow> carries m ps \<Longrightarrow> run step ps s = (outs, s') \<Longrightarrow>
      ready s' \<and> outs = replicate (length ps - 1) (Inr None) @ [Inr (Some m)]"
begin

lemma deliver_all:
  assumes "list_all2 carries ms pss" "ready s" "run step (concat pss) s = (outs, s')"
  shows "ready s' \<and> delivered outs = ms \<and> list_all is_ok outs"
  using assms
proof (induction ms pss arbitrary: s outs s' rule: list_all2_induct)
  case Nil
  then show ?case by (simp add: delivered_def)
next
  case (Cons m ms ps pss)
  obtain o1 s1 where r1: "run step ps s = (o1, s1)" by fastforce
  obtain o2 s2 where r2: "run step (concat pss) s1 = (o2, s2)" by fastforce
  from deliver [OF Cons.prems(1) Cons.hyps(1) r1]
  have "ready s1" and o1: "o1 = replicate (length ps - 1) (Inr None) @ [Inr (Some m)]" by auto
  moreover from Cons.IH [OF \<open>ready s1\<close> r2] have "ready s2" "delivered o2 = ms" "list_all is_ok o2"
    by auto
  ultimately show ?case
    using Cons.prems(2) r1 r2 by (auto simp: run_append list_all_iff)
qed

end

section \<open>The assembler delivers\<close>

text \<open>An event is a packet with its timestamp and the reading of the clock during the call.\<close>

record packet_event =
  ev_packet :: hid_packet
  ev_timestamp :: instant
  ev_now :: instant

definition assembler_step ::
  "nat \<Rightarrow> packet_event \<Rightarrow> message_assembler \<Rightarrow> assembler_result \<times> message_assembler" where
  "assembler_step mx e a = parse_packet mx (ev_now e) (ev_packet e) (ev_timestamp e) a"

definition assembler_ready :: "message_assembler \<Rightarrow> bool" where
  "assembler_ready a \<longleftrightarrow> idle a \<and> payload a = []"

text \<open>Each packet arrives less than the timeout after the one before.\<close>

fun timely :: "instant list \<Rightarrow> bool" where
  "timely (t1 # t2 # ts) = (t2 < t1 + timeout_duration \<and> timely (t2 # ts))"
| "timely _ = True"

definition carries :: "nat \<Rightarrow> message \<Rightarrow> packet_event list \<Rightarrow> bool" where
  "carries mx m es \<longleftrightarrow>
     length (m_cid m) = 4 \<and> length (m_payload m) \<le> mx \<and> mx \<le> 7609 \<and>
     map ev_packet es = fst (take_packets 130 (new_splitter m)) \<and> timely (map ev_timestamp es)"

text \<open>The state after the initialization packet and \<open>k\<close> continuation packets, the last at \<open>ts\<close>.\<close>

definition receiving :: "message \<Rightarrow> nat \<Rightarrow> instant \<Rightarrow> message_assembler \<Rightarrow> bool" where
  "receiving m k ts a \<longleftrightarrow>
     \<not> idle a \<and> cid a = m_cid m \<and> cmd a = cmd_code (m_cmd m) \<and> seq a = of_nat k \<and>
     payload a = take (57 + 59 * k) (m_payload m) \<and> last_timestamp a = ts \<and>
     remaining_payload_len a = length (m_payload m) - (57 + 59 * k) \<and>
     57 + 59 * k < length (m_payload m)"

lemma carries_frames:
  assumes "carries mx m es"
  shows "map ev_packet es = frames m"
proof -
  have "length (frames m) < 130"
    using assms cont_count_le [of m] by (simp add: carries_def frames_def)
  with assms show ?thesis by (simp add: carries_def split_frames)
qed

lemma receive_init:
  assumes "assembler_ready a" "length (m_cid m) = 4" "length (m_payload m) \<le> mx" "mx \<le> 7609"
    and "ev_packet e = init_frame m"
  shows "if cont_count m = 0
    then \<exists>a'. assembler_step mx e a = (Inr (Some m), a') \<and> assembler_ready a'
    else \<exists>a'. assembler_step mx e a = (Inr None, a') \<and> receiving m 0 (ev_timestamp e) a'"
proof -
  have "cont_count m = 0 \<longleftrightarrow> length (m_payload m) \<le> 57"
    using cont_count_iff [of 0 m] by auto
  moreover have "length (pad 57 (take 57 (m_payload m))) = 57"
    by (simp add: length_pad)
  ultimately show ?thesis
    using assms
    by (auto simp: assembler_step_def parse_packet_def process_init_frame assembler_ready_def
        assemble_def parse_init_packet_def append_payload_def receiving_def pad_def)
qed

lemma receive_cont:
  assumes "receiving m k ts a" "length (m_cid m) = 4" "length (m_payload m) \<le> 7609"
    and "ev_packet e = cont_frame m k" "ev_timestamp e < ts + timeout_duration"
  shows "if Suc k = cont_count m
    then \<exists>a'. assembler_step mx e a = (Inr (Some m), a') \<and> assembler_ready a'
    else \<exists>a'. assembler_step mx e a = (Inr None, a') \<and> receiving m (Suc k) (ev_timestamp e) a'"
proof -
  let ?i = "57 + 59 * k" and ?pl = "m_payload m"
  have k: "k < cont_count m" using assms(1) by (simp add: receiving_def cont_count_iff)
  then have "k < 128" using cont_count_le [OF assms(3)] by simp
  note parsed = process_cont_frame [OF assms(2) this]
  have last: "Suc k = cont_count m \<longleftrightarrow> length ?pl - ?i \<le> 59"
    using k cont_count_iff [of "Suc k" m] by auto
  have len: "length (pad 59 (take 59 (drop ?i ?pl))) = 59" by (simp add: length_pad)
  have full: "pad 59 (take 59 (drop ?i ?pl)) = take 59 (drop ?i ?pl)" if "59 < length ?pl - ?i"
    using that by (simp add: pad_def)
  have join: "take ?i ?pl @ take n (drop ?i ?pl) = take (?i + n) ?pl" for n
    by (simp add: take_add)
  show ?thesis
  proof (cases "length ?pl - ?i \<le> 59")
    case True
    have "take ?i ?pl @ take (length ?pl - ?i) (pad 59 (take 59 (drop ?i ?pl))) = ?pl"
      using True by (simp add: pad_def)
    with True assms last len show ?thesis
      by (auto simp: assembler_step_def parse_packet_def parsed assemble_def append_payload_def
          receiving_def assembler_ready_def)
  next
    case False
    with assms last len full join [of 59] show ?thesis
      by (auto simp: assembler_step_def parse_packet_def parsed assemble_def append_payload_def
          receiving_def add.commute)
  qed
qed

lemma receive_conts:
  assumes "receiving m k ts a" "length (m_cid m) = 4" "length (m_payload m) \<le> 7609"
    and "map ev_packet es = map (cont_frame m) [k..<cont_count m]" "timely (ts # map ev_timestamp es)"
  shows "\<exists>a'. run (assembler_step mx) es a =
      (replicate (length es - 1) (Inr None) @ [Inr (Some m)], a') \<and> assembler_ready a'"
  using assms(1,4,5)
proof (induction es arbitrary: k ts a)
  case Nil
  then show ?case by (simp add: receiving_def flip: cont_count_iff)
next
  case (Cons e es)
  then have k: "k < cont_count m" by (simp add: receiving_def cont_count_iff)
  with Cons.prems(2) have e: "ev_packet e = cont_frame m k"
    and es: "map ev_packet es = map (cont_frame m) [Suc k..<cont_count m]"
    by (simp_all add: upt_conv_Cons)
  note step = receive_cont [OF Cons.prems(1) assms(2,3) e, where mx = mx]
  show ?case
  proof (cases "Suc k = cont_count m")
    case True
    then have "es = []" using es by simp
    moreover from True step Cons.prems(3) obtain a' where
      "assembler_step mx e a = (Inr (Some m), a')" "assembler_ready a'" by auto
    ultimately show ?thesis by simp
  next
    case False
    with step Cons.prems(3) obtain a' where a': "assembler_step mx e a = (Inr None, a')"
      "receiving m (Suc k) (ev_timestamp e) a'" by auto
    have "timely (ev_timestamp e # map ev_timestamp es)" using Cons.prems(3) by simp
    from Cons.IH [OF a'(2) es this] a'(1) show ?thesis
      using es False k by (cases es) auto
  qed
qed

interpretation hid: framing "assembler_step mx" assembler_ready "carries mx" for mx
proof
  fix s m ps outs s'
  assume s: "assembler_ready s" and c: "carries mx m ps" and r: "run (assembler_step mx) ps s = (outs, s')"
  note fr = carries_frames [OF c]
  from c have m: "length (m_cid m) = 4" "length (m_payload m) \<le> mx" "mx \<le> 7609"
    "timely (map ev_timestamp ps)" by (simp_all add: carries_def)
  obtain e es where ps: "ps = e # es" "ev_packet e = init_frame m"
    "map ev_packet es = map (cont_frame m) [0..<cont_count m]"
    using fr by (cases ps) (auto simp: frames_def)
  note init = receive_init [OF s m(1-3) ps(2)]
  show "assembler_ready s' \<and> outs = replicate (length ps - 1) (Inr None) @ [Inr (Some m)]"
  proof (cases "cont_count m = 0")
    case True
    with init r ps show ?thesis by auto
  next
    case False
    with init obtain a' where a': "assembler_step mx e s = (Inr None, a')"
      "receiving m 0 (ev_timestamp e) a'" by auto
    have "length (m_payload m) \<le> 7609" using m by simp
    from receive_conts [OF a'(2) m(1) this ps(3), of mx] m(4) ps(1) a'(1) r False ps(3)
    show ?thesis by (cases es) auto
  qed
qed

end
