(* ===== verification/Hid_Channel.thy ===== *)
theory Hid_Channel
  imports Hid_Transport
begin

text \<open>
  The channel layer \<open>CtapHid\<close> of \<open>src/ctap/hid/mod.rs\<close>: channel allocation, the commands that HID
  handles itself, and what is passed on to CTAP. \<open>allocated_cids\<close> is a \<open>usize\<close>, 32 bits on the
  badge, and its increment wraps there.
\<close>

section \<open>Channels\<close>

record ctap_hid =
  assembler :: message_assembler
  allocated_cids :: u32
  capabilities :: u8

definition channel_reserved :: channel_id where
  "channel_reserved = [0, 0, 0, 0]"

definition channel_broadcast :: channel_id where
  "channel_broadcast = [0xFF, 0xFF, 0xFF, 0xFF]"

definition new_ctap_hid :: "instant \<Rightarrow> u8 \<Rightarrow> ctap_hid" where
  "new_ctap_hid now caps =
     \<lparr>assembler = new_assembler now, allocated_cids = 0, capabilities = caps\<rparr>"

definition is_allocated_channel :: "ctap_hid \<Rightarrow> channel_id \<Rightarrow> bool" where
  "is_allocated_channel h c = (c \<noteq> channel_reserved \<and> of_nat (be_nat c) \<le> allocated_cids h)"

definition has_valid_channel :: "ctap_hid \<Rightarrow> message \<Rightarrow> bool" where
  "has_valid_channel h m =
     (if m_cid m = channel_broadcast then m_cmd m = Init else is_allocated_channel h (m_cid m))"

definition error_message :: "channel_id \<Rightarrow> hid_error \<Rightarrow> message" where
  "error_message c e = \<lparr>m_cid = c, m_cmd = Error, m_payload = [error_code e]\<rparr>"

definition preprocess_message :: "message \<Rightarrow> ctap_hid \<Rightarrow> message option \<times> ctap_hid" where
  "preprocess_message m h =
     (let c = m_cid m
      in if \<not> has_valid_channel h m then (Some (error_message c InvalidChannel), h)
         else case m_cmd m of
           Msg \<Rightarrow> (Some m, h)
         | Cbor \<Rightarrow> (Some m, h)
         | Init \<Rightarrow>
             (if length (m_payload m) \<noteq> 8 then (Some (error_message c InvalidLen), h)
              else let h' = (if c = channel_broadcast
                             then h\<lparr>allocated_cids := allocated_cids h + 1\<rparr> else h);
                       new_cid = (if c = channel_broadcast
                                  then be_bytes 4 (allocated_cids h') else c)
                   in (Some \<lparr>m_cid = c, m_cmd = Init,
                             m_payload = m_payload m @ new_cid @ [2, 1, 0, 0, capabilities h]\<rparr>, h'))
         | Ping \<Rightarrow> (Some m, h)
         | Cancel \<Rightarrow> (None, h)
         | Wink \<Rightarrow> (Some m, h)
         | BackupTotpCodes \<Rightarrow> (Some m, h)
         | RestoreTotpCodes \<Rightarrow> (Some m, h)
         | ResetSession \<Rightarrow> (Some m, h)
         | _ \<Rightarrow> (Some (error_message c InvalidCmd), h))"

definition hid_parse_packet ::
  "nat \<Rightarrow> instant \<Rightarrow> hid_packet \<Rightarrow> instant \<Rightarrow> ctap_hid \<Rightarrow> message option \<times> ctap_hid" where
  "hid_parse_packet mx now packet clock h =
     (let (res, a') = parse_packet mx now packet clock (assembler h);
          h' = h\<lparr>assembler := a'\<rparr>
      in case res of
           Inr (Some m) \<Rightarrow> preprocess_message m h'
         | Inr None \<Rightarrow> (None, h')
         | Inl (c, e) \<Rightarrow>
             (if e = UnexpectedContinuation then (None, h')
              else if \<not> is_allocated_channel h' c then (Some (error_message c InvalidChannel), h')
              else (Some (error_message c e), h')))"

text \<open>A response too long for HID is replaced by \<open>CTAP2_ERR_VENDOR_INTERNAL_ERROR\<close> (\<open>0xF2\<close>), for
  which the inner \<open>unwrap()\<close> cannot fail.\<close>

definition split_message :: "message \<Rightarrow> packet_iterator" where
  "split_message m =
     (case new_splitter m of
        Some sp \<Rightarrow> Some sp
      | None \<Rightarrow> new_splitter \<lparr>m_cid = m_cid m, m_cmd = Cbor, m_payload = [0xF2]\<rparr>)"

datatype keepalive_status = Processing | UpNeeded

definition keepalive :: "channel_id \<Rightarrow> keepalive_status \<Rightarrow> packet_iterator" where
  "keepalive c st = split_message \<lparr>m_cid = c, m_cmd = Keepalive,
     m_payload = [case st of Processing \<Rightarrow> 0x01 | UpNeeded \<Rightarrow> 0x02]\<rparr>"

lemma split_message_Some: "\<exists>sp. split_message m = Some sp"
  by (auto simp: split_message_def new_splitter_def split: option.split)

section \<open>Runs of the transport\<close>

inductive hid_reach :: "nat \<Rightarrow> ctap_hid \<Rightarrow> bool" for mx where
  start: "hid_reach mx (new_ctap_hid now caps)"
| packet: "hid_reach mx h \<Longrightarrow> length p = 64 \<Longrightarrow> hid_parse_packet mx now p clock h = (out, h') \<Longrightarrow>
     hid_reach mx h'"

inductive_cases hid_reach_cases: "hid_reach mx h"

lemma preprocess_assembler: "preprocess_message m h = (out, h') \<Longrightarrow> assembler h' = assembler h"
  by (auto simp: preprocess_message_def Let_def split: if_splits hid_command.splits)

lemma hid_parse_packet_assembler:
  assumes "hid_parse_packet mx now p clock h = (out, h')"
  shows "assembler h' = snd (parse_packet mx now p clock (assembler h))"
  using assms
  by (auto simp: hid_parse_packet_def Let_def dest: preprocess_assembler
      split: prod.splits sum.splits option.splits if_splits)

lemma hid_reach_inv: "hid_reach mx h \<Longrightarrow> mx \<le> 7609 \<Longrightarrow> assembler_inv mx (assembler h)"
proof (induction rule: hid_reach.induct)
  case (start now caps)
  then show ?case by (simp add: new_ctap_hid_def)
next
  case (packet h p now clock out h')
  then show ?case
    using hid_parse_packet_assembler [OF packet.hyps(3)] parse_packet_inv [OF _ _ _ packet.hyps(2)]
    by (metis prod.collapse)
qed

lemma preprocess_cases:
  assumes "preprocess_message m h = (Some m', h')" "m_cmd m' \<noteq> Error" "m_cmd m' \<noteq> Init"
  shows "m' = m \<and> h' = h \<and> m_cid m \<noteq> channel_broadcast \<and> is_allocated_channel h (m_cid m)"
  using assms
  by (auto simp: preprocess_message_def has_valid_channel_def Let_def error_message_def
      split: if_splits hid_command.splits)

lemma preprocess_commands:
  assumes "preprocess_message m h = (Some m', h')" "m_cmd m' \<noteq> Error" "m_cmd m' \<noteq> Init"
  shows "m_cmd m' \<in> {Ping, Msg, Cbor, Wink, BackupTotpCodes, RestoreTotpCodes, ResetSession}"
  using assms
  by (cases m'; cases "m_cmd m")
     (auto simp: preprocess_message_def error_message_def Let_def split: if_splits)

text \<open>What is passed on to CTAP is a message the assembler completed, on an allocated channel.\<close>

lemma hid_forwards:
  assumes "hid_parse_packet mx now p clock h = (Some m, h')" "m_cmd m \<noteq> Error" "m_cmd m \<noteq> Init"
  shows "fst (parse_packet mx now p clock (assembler h)) = Inr (Some m)"
    and "is_allocated_channel h (m_cid m)" and "m_cid m \<noteq> channel_broadcast"
    and "m_cmd m \<in> {Ping, Msg, Cbor, Wink, BackupTotpCodes, RestoreTotpCodes, ResetSession}"
proof -
  obtain res a' where pp: "parse_packet mx now p clock (assembler h) = (res, a')" by fastforce
  from assms pp have *: "res = Inr (Some m) \<and> preprocess_message m (h\<lparr>assembler := a'\<rparr>) = (Some m, h')"
    by (auto simp: hid_parse_packet_def error_message_def Let_def split: sum.splits option.splits if_splits
        dest: preprocess_cases)
  then show "fst (parse_packet mx now p clock (assembler h)) = Inr (Some m)"
    using pp by simp
  show "is_allocated_channel h (m_cid m)" "m_cid m \<noteq> channel_broadcast"
    using preprocess_cases [of m "h\<lparr>assembler := a'\<rparr>" m h'] assms *
    by (auto simp: is_allocated_channel_def)
  show "m_cmd m \<in> {Ping, Msg, Cbor, Wink, BackupTotpCodes, RestoreTotpCodes, ResetSession}"
    using assms(2,3) * by (blast dest: preprocess_commands)
qed

lemma be_bytes_4: "be_nat (be_bytes 4 (w :: u32)) = unat w"
  using unsigned_less [of w, where 'a = nat] by (simp add: be_nat_be_bytes)

lemma be_nat_reserved: "length c = 4 \<Longrightarrow> be_nat c = 0 \<longleftrightarrow> c = channel_reserved"
  using be_nat_inj [of c channel_reserved] by (auto simp: channel_reserved_def be_nat_def)

end
