(* ===== verification/Hid_Props.thy ===== *)
theory Hid_Props
  imports Hid_Channel
begin

text \<open>
  What the HID transport promises: every message is delivered, in order and once, the memory of
  the assembler is bounded in every reachable state, a transaction is isolated from other
  channels, and channels are allocated freshly and used only after their allocation.
\<close>

section \<open>Delivery\<close>

text \<open>C14: the packets of a sequence of messages, each split by \<open>send.rs\<close> and sent without gaps of
  100 ms, make the assembler return exactly these messages in order, without an error.\<close>

theorem hid_delivers:
  assumes "list_all2 (carries mx) ms pss" "assembler_ready a"
    and "run (assembler_step mx) (concat pss) a = (outs, a')"
  shows "delivered outs = ms \<and> list_all is_ok outs \<and> assembler_ready a'"
  using hid.deliver_all [OF assms] by blast

definition example_message :: message where
  "example_message = \<lparr>m_cid = [0, 0, 0, 1], m_cmd = Ping, m_payload = replicate 60 7\<rparr>"

definition example_events :: "packet_event list" where
  "example_events =
     [\<lparr>ev_packet = [0, 0, 0, 1, 0x81, 0, 60] @ replicate 57 7, ev_timestamp = 5, ev_now = 5\<rparr>,
      \<lparr>ev_packet = [0, 0, 0, 1, 0, 7, 7, 7] @ replicate 56 0, ev_timestamp = 9, ev_now = 9\<rparr>]"

lemma replicate_3: "replicate 3 x = [x, x, x]"
  by (simp add: numeral_eq_Suc)

lemma frames_example: "frames example_message = map ev_packet example_events"
proof -
  have "cont_count example_message = 1"
    by (simp add: cont_count_def example_message_def)
  then have "frames example_message = [init_frame example_message, cont_frame example_message 0]"
    by (simp add: frames_def)
  also have "\<dots> = map ev_packet example_events"
    by (simp add: init_frame_def cont_frame_def example_message_def example_events_def be16_def pad_def
        drop_bit_eq_div replicate_3)
  finally show ?thesis .
qed

lemma carries_example: "carries 7609 example_message example_events"
proof -
  have "fst (take_packets 130 (new_splitter example_message)) = frames example_message"
    by (rule split_frames) (simp_all add: example_message_def frames_def cont_count_def)
  then show ?thesis
    by (simp add: carries_def frames_example)
       (simp add: example_message_def example_events_def timeout_duration_def from_millis_def)
qed

lemma hid_delivers_witness:
  "delivered (fst (run (assembler_step 7609) (example_events @ example_events) (new_assembler 0))) =
     [example_message, example_message]"
  using hid_delivers [where mx = 7609 and ms = "[example_message, example_message]"
      and pss = "[example_events, example_events]" and a = "new_assembler 0",
      OF _ _ prod.collapse [symmetric]] carries_example
  by (simp add: assembler_ready_def new_assembler_def)

lemma frame_lengths:
  assumes "length (m_cid m) = 4" "p \<in> set (frames m)"
  shows "length p = 64 \<and> take 4 p = m_cid m"
  using assms by (auto simp: frames_def init_frame_def cont_frame_def be16_def length_pad)

text \<open>The iterator of a message yields the initialization packet and one continuation packet per
  59 further bytes, each of 64 bytes on the message's channel; it has no data left afterwards. A
  message that does not fit is replaced by a short error message.\<close>

theorem split_message_packets:
  assumes "length (m_cid m) = 4"
  shows "let m' = (if length (m_payload m) \<le> 7609 then m
                   else \<lparr>m_cid = m_cid m, m_cmd = Cbor, m_payload = [0xF2]\<rparr>)
         in fst (take_packets 130 (split_message m)) = frames m' \<and>
            length (frames m') = 1 + (length (m_payload m') - 57 + 58) div 59 \<and>
            (\<forall>p\<in>set (frames m'). length p = 64 \<and> take 4 p = m_cid m)"
proof -
  define m' where "m' = (if length (m_payload m) \<le> 7609 then m
      else \<lparr>m_cid = m_cid m, m_cmd = Cbor, m_payload = [0xF2]\<rparr>)"
  have m': "length (m_cid m') = 4" "length (m_payload m') \<le> 7609" "m_cid m' = m_cid m"
    using assms by (auto simp: m'_def)
  have "split_message m = new_splitter m'"
    by (auto simp: split_message_def m'_def new_splitter_def)
  moreover have "length (frames m') < 130"
    using cont_count_le [OF m'(2)] by (simp add: frames_def)
  moreover have "length (frames m') = 1 + (length (m_payload m') - 57 + 58) div 59"
    by (simp add: frames_def cont_count_def)
  ultimately show ?thesis
    using split_frames [OF m'(1,2)] frame_lengths [OF m'(1)] m'(3) unfolding m'_def [symmetric] Let_def
    by auto
qed

lemma split_message_packets_witness:
  "fst (take_packets 130 (split_message example_message)) = map ev_packet example_events"
proof -
  have "length (m_cid example_message) = 4" "length (m_payload example_message) \<le> 7609"
    by (simp_all add: example_message_def)
  then show ?thesis
    using split_message_packets [of example_message] by (simp add: Let_def frames_example)
qed

section \<open>Bounded memory and isolation\<close>

text \<open>C15: in every reachable state the assembler holds at most \<open>max_msg_size\<close> bytes, and a busy one
  waits for at least one byte and at most the rest of its message.\<close>

theorem hid_bounded_memory:
  assumes "hid_reach mx h" "mx \<le> 7609"
  shows "length (payload (assembler h)) \<le> mx \<and>
    (\<not> idle (assembler h) \<longrightarrow>
       0 < remaining_payload_len (assembler h) \<and>
       length (payload (assembler h)) + remaining_payload_len (assembler h) \<le> mx)"
  using hid_reach_inv [OF assms] by (auto simp: assembler_inv_def split: if_splits)

lemma hid_bounded_memory_witness:
  "length (payload (assembler (new_ctap_hid 0 5))) \<le> 7609"
  using hid_bounded_memory [OF hid_reach.start [of 7609 0 5]] by simp

text \<open>C16: while a message is being received, a packet of another channel changes nothing, whatever it
  contains, unless the transaction has timed out; its sender gets an error on its own channel.\<close>

theorem hid_isolation:
  assumes "\<not> idle (assembler h)" "take 4 p \<noteq> cid (assembler h)"
    and "clock < last_timestamp (assembler h) + timeout_duration"
  shows "hid_parse_packet mx now p clock h =
    (Some (error_message (take 4 p)
       (if is_allocated_channel h (take 4 p) then ChannelBusy else InvalidChannel)), h)"
  using assms
  by (simp add: hid_parse_packet_def parse_packet_def process_single_packet_def Let_def assemble_def
      is_allocated_channel_def)

definition busy_hid :: ctap_hid where
  "busy_hid = (new_ctap_hid 0 5)\<lparr>allocated_cids := 2, assembler := (new_assembler 0)\<lparr>idle := False,
     cid := [0, 0, 0, 1], remaining_payload_len := 10\<rparr>\<rparr>"

lemma hid_isolation_witness:
  "hid_parse_packet 7609 0 ([0, 0, 0, 2, 0x86] @ replicate 59 0) 7 busy_hid =
     (Some (error_message [0, 0, 0, 2] ChannelBusy), busy_hid)"
  by (subst hid_isolation)
     (simp_all add: busy_hid_def new_ctap_hid_def new_assembler_def timeout_duration_def from_millis_def
       is_allocated_channel_def channel_reserved_def be_nat_def)

section \<open>Channels\<close>

lemma is_allocated_iff:
  assumes "length c = 4"
  shows "is_allocated_channel h c \<longleftrightarrow> be_nat c \<noteq> 0 \<and> be_nat c \<le> unat (allocated_cids h)"
proof -
  have "be_nat c < 2 ^ 32" using be_nat_less [of c] assms by simp
  then have "unat (of_nat (be_nat c) :: u32) = be_nat c"
    by (simp add: unsigned_of_nat take_bit_nat_eq_self)
  then show ?thesis
    using be_nat_reserved [OF assms] by (auto simp: is_allocated_channel_def word_le_nat_alt)
qed

text \<open>\<open>CTAPHID_INIT\<close> on the broadcast channel answers with the nonce and a channel that was not
  allocated before and is from now on; no channel loses its allocation. The bound is the
  counter's range: the last two values are the broadcast channel and the wrap to the reserved
  one.\<close>

theorem hid_init_allocates:
  assumes "m_cid m = channel_broadcast" "m_cmd m = Init" "length (m_payload m) = 8"
    and "unat (allocated_cids h) < 0xFFFFFFFE"
  shows "\<exists>c h'. preprocess_message m h =
      (Some \<lparr>m_cid = channel_broadcast, m_cmd = Init,
             m_payload = m_payload m @ c @ [2, 1, 0, 0, capabilities h]\<rparr>, h') \<and>
    length c = 4 \<and> c \<noteq> channel_reserved \<and> c \<noteq> channel_broadcast \<and>
    \<not> is_allocated_channel h c \<and> is_allocated_channel h' c \<and>
    (\<forall>c'. length c' = 4 \<and> is_allocated_channel h c' \<longrightarrow> is_allocated_channel h' c')"
proof -
  let ?n = "allocated_cids h + 1" and ?h = "h\<lparr>allocated_cids := allocated_cids h + 1\<rparr>"
  have n: "unat ?n = unat (allocated_cids h) + 1"
    using assms(4) by (simp add: unat_word_ariths)
  have len: "length (be_bytes 4 ?n) = 4" and val: "be_nat (be_bytes 4 ?n) = unat ?n"
    by (simp_all add: be_bytes_4)
  have bc: "be_nat channel_broadcast = 0xFFFFFFFF"
    by (simp add: channel_broadcast_def be_nat_def)
  have "be_bytes 4 ?n \<noteq> channel_reserved"
    using val n be_nat_reserved [OF len] by auto
  moreover have "be_bytes 4 ?n \<noteq> channel_broadcast"
    using val n bc assms(4) by auto
  moreover have "\<not> is_allocated_channel h (be_bytes 4 ?n)" "is_allocated_channel ?h (be_bytes 4 ?n)"
    using val n by (simp_all add: is_allocated_iff)
  moreover have "\<forall>c'. length c' = 4 \<and> is_allocated_channel h c' \<longrightarrow> is_allocated_channel ?h c'"
    using n by (auto simp: is_allocated_iff)
  moreover have "preprocess_message m h =
      (Some \<lparr>m_cid = channel_broadcast, m_cmd = Init,
             m_payload = m_payload m @ be_bytes 4 ?n @ [2, 1, 0, 0, capabilities h]\<rparr>, ?h)"
    using assms by (simp add: preprocess_message_def has_valid_channel_def Let_def)
  ultimately show ?thesis
    using len by blast
qed

lemma hid_init_allocates_witness:
  "\<exists>c h'. preprocess_message \<lparr>m_cid = channel_broadcast, m_cmd = Init, m_payload = replicate 8 1\<rparr>
        (new_ctap_hid 0 5) =
      (Some \<lparr>m_cid = channel_broadcast, m_cmd = Init,
             m_payload = replicate 8 1 @ c @ [2, 1, 0, 0, 5]\<rparr>, h') \<and>
    is_allocated_channel h' c"
  using hid_init_allocates [of "\<lparr>m_cid = channel_broadcast, m_cmd = Init, m_payload = replicate 8 1\<rparr>"
      "new_ctap_hid 0 5"]
  by (fastforce simp: new_ctap_hid_def)

text \<open>What \<open>CtapHid\<close> passes on to CTAP (anything but its own error and init responses) is a message
  its assembler completed, on an allocated channel, with one of the commands CTAP handles.\<close>

theorem hid_forwards_allocated:
  assumes "hid_parse_packet mx now p clock h = (Some m, h')" "m_cmd m \<noteq> Error" "m_cmd m \<noteq> Init"
  shows "is_allocated_channel h (m_cid m) \<and> m_cid m \<noteq> channel_broadcast \<and>
    m_cmd m \<in> {Ping, Msg, Cbor, Wink, BackupTotpCodes, RestoreTotpCodes, ResetSession} \<and>
    fst (parse_packet mx now p clock (assembler h)) = Inr (Some m)"
  using hid_forwards [OF assms] by blast

lemma hid_forwards_allocated_witness:
  "is_allocated_channel ((new_ctap_hid 0 5)\<lparr>allocated_cids := 1\<rparr>) [0, 0, 0, 1]"
  using hid_forwards_allocated [of 7609 0 "[0, 0, 0, 1, 0x90] @ replicate 59 0" 0
      "(new_ctap_hid 0 5)\<lparr>allocated_cids := 1\<rparr>"
      "\<lparr>m_cid = [0, 0, 0, 1], m_cmd = Cbor, m_payload = []\<rparr>" "(new_ctap_hid 0 5)\<lparr>allocated_cids := 1,
        assembler := (new_assembler 0)\<lparr>cid := [0, 0, 0, 1], cmd := 0x10\<rparr>\<rparr>"]
  by (simp add: hid_parse_packet_def parse_packet_def process_single_packet_def Let_def assemble_def
      new_ctap_hid_def new_assembler_def parse_init_packet_def append_payload_def preprocess_message_def
      has_valid_channel_def is_allocated_channel_def channel_broadcast_def channel_reserved_def be_nat_def
      cmd_from_def)

text \<open>The channel counter is not guarded: after \<open>2^32 - 2\<close> allocations the next two channels handed
  out are the broadcast channel and the reserved channel, and then no channel is allocated any
  more.\<close>

theorem hid_channels_run_out:
  "let init = \<lparr>m_cid = channel_broadcast, m_cmd = Init, m_payload = replicate 8 1\<rparr>;
       h = (new_ctap_hid 0 5)\<lparr>allocated_cids := 0xFFFFFFFE\<rparr>;
       (r1, h1) = preprocess_message init h;
       (r2, h2) = preprocess_message init h1
   in map_option (\<lambda>m. take 4 (drop 8 (m_payload m))) r1 = Some channel_broadcast \<and>
      map_option (\<lambda>m. take 4 (drop 8 (m_payload m))) r2 = Some channel_reserved \<and>
      is_allocated_channel h [0, 0, 0, 1] \<and> \<not> is_allocated_channel h2 [0, 0, 0, 1]"
proof -
  have wrap: "(0x100000000 :: u32) = 0"
    by (simp add: word_unat_eq_iff)
  show ?thesis
    by (simp add: preprocess_message_def has_valid_channel_def Let_def new_ctap_hid_def wrap
        is_allocated_channel_def channel_broadcast_def channel_reserved_def be_nat_def be_bytes_def upt_rec)
qed

end
