(* ===== verification/Timed.thy ===== *)
theory Timed
  imports Hid
begin

text \<open>
  Timed permissions of \<open>src/ctap/timed_permission.rs\<close>: a permission that expires, and the user
  presence state of CTAP1 built from two of them. \<open>Instant\<close> is a number of nanoseconds without an
  upper bound, so \<open>checked_add(..).unwrap()\<close> cannot panic here. The state machine is the one of a
  build without the feature \<open>xous\<close>; with it \<open>grant_up\<close> and \<open>check_expiration\<close> do nothing, and the
  other two operations ask the platform.
\<close>

section \<open>TimedPermission\<close>

datatype timed_permission = Waiting | Granted instant

definition granted :: "instant \<Rightarrow> nat \<Rightarrow> timed_permission" where
  "granted now grant_duration = Granted (now + grant_duration)"

fun is_granted :: "timed_permission \<Rightarrow> instant \<Rightarrow> bool" where
  "is_granted (Granted timeout) now = (now \<le> timeout)"
| "is_granted Waiting now = False"

fun check_expiration :: "timed_permission \<Rightarrow> instant \<Rightarrow> timed_permission" where
  "check_expiration (Granted timeout) now = (if now \<le> timeout then Granted timeout else Waiting)"
| "check_expiration Waiting now = Waiting"

lemma is_granted_check_expiration [simp]:
  "is_granted (check_expiration p now) now = is_granted p now"
  by (cases p) auto

lemma check_expiration_Granted [simp]:
  "check_expiration p now = Granted t \<longleftrightarrow> p = Granted t \<and> now \<le> t"
  by (cases p) auto

lemma is_granted_granted [simp]: "is_granted (granted t d) now \<longleftrightarrow> now \<le> t + d"
  by (simp add: granted_def)

section \<open>U2fUserPresenceState\<close>

record u2f_presence =
  needs_up :: timed_permission
  has_up :: timed_permission
  request_duration :: nat
  presence_duration :: nat

definition new_u2f_presence :: "nat \<Rightarrow> nat \<Rightarrow> u2f_presence" where
  "new_u2f_presence request presence =
     \<lparr>needs_up = Waiting, has_up = Waiting, request_duration = request, presence_duration = presence\<rparr>"

definition u2f_check_expiration :: "instant \<Rightarrow> u2f_presence \<Rightarrow> u2f_presence" where
  "u2f_check_expiration now s =
     s\<lparr>needs_up := check_expiration (needs_up s) now, has_up := check_expiration (has_up s) now\<rparr>"

definition grant_up :: "instant \<Rightarrow> u2f_presence \<Rightarrow> u2f_presence" where
  "grant_up now s =
     (let s = u2f_check_expiration now s
      in if is_granted (needs_up s) now
         then s\<lparr>needs_up := Waiting, has_up := granted now (presence_duration s)\<rparr>
         else s)"

definition consume_up :: "instant \<Rightarrow> u2f_presence \<Rightarrow> bool \<times> u2f_presence" where
  "consume_up now s =
     (let s = u2f_check_expiration now s
      in if is_granted (has_up s) now
         then (True, s\<lparr>has_up := Waiting\<rparr>)
         else (False, s\<lparr>needs_up := granted now (request_duration s)\<rparr>))"

definition is_up_needed :: "instant \<Rightarrow> u2f_presence \<Rightarrow> bool \<times> u2f_presence" where
  "is_up_needed now s =
     (let s = u2f_check_expiration now s in (is_granted (needs_up s) now, s))"

section \<open>Runs\<close>

datatype presence_event = GrantUp instant | ConsumeUp instant | IsUpNeeded instant

fun presence_step :: "presence_event \<Rightarrow> u2f_presence \<Rightarrow> u2f_presence" where
  "presence_step (GrantUp t) s = grant_up t s"
| "presence_step (ConsumeUp t) s = snd (consume_up t s)"
| "presence_step (IsUpNeeded t) s = snd (is_up_needed t s)"

definition after_events :: "presence_event list \<Rightarrow> u2f_presence \<Rightarrow> u2f_presence" where
  "after_events es s = fold presence_step es s"

text \<open>The number of \<open>consume_up\<close> calls of a run that return true.\<close>

fun consumed :: "presence_event list \<Rightarrow> u2f_presence \<Rightarrow> nat" where
  "consumed [] s = 0"
| "consumed (e # es) s =
     (case e of ConsumeUp t \<Rightarrow> if fst (consume_up t s) then 1 else 0 | _ \<Rightarrow> 0) +
     consumed es (presence_step e s)"

lemma after_events_snoc: "after_events (es @ [e]) s = presence_step e (after_events es s)"
  by (simp add: after_events_def)

lemma after_events_append: "after_events (es @ fs) s = after_events fs (after_events es s)"
  by (simp add: after_events_def)

lemma consumed_append:
  "consumed (es @ fs) s = consumed es s + consumed fs (after_events es s)"
  by (induction es arbitrary: s) (simp_all add: after_events_def)

lemma presence_durations [simp]:
  "request_duration (presence_step e s) = request_duration s"
  "presence_duration (presence_step e s) = presence_duration s"
  by (cases e; simp add: grant_up_def consume_up_def is_up_needed_def u2f_check_expiration_def Let_def)+

lemma after_events_durations [simp]:
  "request_duration (after_events es s) = request_duration s"
  "presence_duration (after_events es s) = presence_duration s"
  by (induction es rule: rev_induct) (simp_all add: after_events_snoc, simp_all add: after_events_def)

text \<open>What a pending request or touch says about the past of the run.\<close>

lemma needs_up_origin:
  assumes "needs_up (after_events es (new_u2f_presence req pres)) = Granted x"
  shows "\<exists>r. ConsumeUp r \<in> set es \<and> x = r + req"
  using assms
proof (induction es arbitrary: x rule: rev_induct)
  case Nil
  then show ?case by (simp add: after_events_def new_u2f_presence_def)
next
  case (snoc e es)
  then show ?case
    by (cases e) (auto simp: after_events_snoc grant_up_def consume_up_def is_up_needed_def
        u2f_check_expiration_def Let_def granted_def new_u2f_presence_def split: if_splits)
qed

text \<open>A touch that is still recorded after a step was recorded before, or the step granted it.\<close>

lemma has_up_step:
  assumes "has_up (presence_step e s) = Granted x"
  shows "(\<exists>g. e = GrantUp g \<and> is_granted (needs_up s) g \<and> x = g + presence_duration s) \<or>
    has_up s = Granted x \<and> (\<forall>t. e = ConsumeUp t \<longrightarrow> \<not> fst (consume_up t s))"
proof (cases e)
  case (GrantUp g)
  then show ?thesis
    using assms by (auto simp: grant_up_def u2f_check_expiration_def Let_def granted_def split: if_splits)
next
  case (ConsumeUp t)
  then show ?thesis
    using assms by (auto simp: consume_up_def u2f_check_expiration_def Let_def split: if_splits)
next
  case (IsUpNeeded t)
  then show ?thesis
    using assms by (auto simp: is_up_needed_def u2f_check_expiration_def Let_def)
qed

lemma has_up_origin:
  assumes "has_up (after_events es (new_u2f_presence req pres)) = Granted x"
  shows "\<exists>es1 g es2 r. es = es1 @ GrantUp g # es2 \<and> x = g + pres \<and>
    consumed es2 (after_events (es1 @ [GrantUp g]) (new_u2f_presence req pres)) = 0 \<and>
    ConsumeUp r \<in> set es1 \<and> g \<le> r + req"
  using assms
proof (induction es arbitrary: x rule: rev_induct)
  case Nil
  then show ?case by (simp add: after_events_def new_u2f_presence_def)
next
  case (snoc e es)
  let ?init = "new_u2f_presence req pres"
  let ?s = "after_events es ?init"
  from snoc.prems have "has_up (presence_step e ?s) = Granted x"
    by (simp add: after_events_snoc)
  from has_up_step [OF this] show ?case
  proof (elim disjE exE conjE)
    fix g
    assume g: "e = GrantUp g" "is_granted (needs_up ?s) g" and x: "x = g + presence_duration ?s"
    then obtain y where y: "needs_up ?s = Granted y" "g \<le> y"
      by (cases "needs_up ?s") auto
    obtain r where r: "ConsumeUp r \<in> set es" "g \<le> r + req"
      using needs_up_origin [OF y(1)] y(2) by blast
    have pres: "x = g + pres"
      using x by (simp add: new_u2f_presence_def)
    show ?thesis
      using g(1) pres r by - (rule exI [of _ es], rule exI [of _ g], rule exI [of _ "[]"], simp, blast)
  next
    assume old: "has_up ?s = Granted x" and none: "\<forall>t. e = ConsumeUp t \<longrightarrow> \<not> fst (consume_up t ?s)"
    from snoc.IH [OF old] obtain es1 g es2 r where IH: "es = es1 @ GrantUp g # es2" "x = g + pres"
      "consumed es2 (after_events (es1 @ [GrantUp g]) ?init) = 0" "ConsumeUp r \<in> set es1" "g \<le> r + req"
      by blast
    have "es = (es1 @ [GrantUp g]) @ es2"
      by (simp add: IH(1))
    then have "?s = after_events es2 (after_events (es1 @ [GrantUp g]) ?init)"
      by (simp only: after_events_append)
    with IH(3) none have unused: "consumed (es2 @ [e]) (after_events (es1 @ [GrantUp g]) ?init) = 0"
      by (simp add: consumed_append split: presence_event.split)
    with IH show ?thesis
      by (metis append_Cons append_assoc)
  qed
qed

text \<open>A successful \<open>consume_up\<close> at \<open>t\<close> is backed by a touch at most \<open>presence_duration\<close> before,
  that answered a request at most \<open>request_duration\<close> older, and that no other \<open>consume_up\<close> has
  used up since.\<close>

theorem u2f_presence_backed:
  assumes "fst (consume_up t (after_events es (new_u2f_presence req pres)))"
  shows "\<exists>es1 g es2 r. es = es1 @ GrantUp g # es2 \<and> t \<le> g + pres \<and>
    consumed es2 (after_events (es1 @ [GrantUp g]) (new_u2f_presence req pres)) = 0 \<and>
    ConsumeUp r \<in> set es1 \<and> g \<le> r + req"
proof -
  let ?s = "after_events es (new_u2f_presence req pres)"
  from assms obtain x where "has_up ?s = Granted x" "t \<le> x"
    by (cases "has_up ?s") (auto simp: consume_up_def u2f_check_expiration_def Let_def split: if_splits)
  with has_up_origin [OF this(1)] show ?thesis by blast
qed

lemma u2f_presence_backed_witness:
  "\<exists>es1 g es2. [ConsumeUp 1, GrantUp 3] = es1 @ GrantUp g # es2 \<and> 7 \<le> g + 5"
  using u2f_presence_backed [of 7 "[ConsumeUp 1, GrantUp 3]" 10 5]
  by (fastforce simp: after_events_def new_u2f_presence_def consume_up_def grant_up_def
      u2f_check_expiration_def granted_def)

end
