(* ===== verification/Main_Hid.thy ===== *)
theory Main_Hid
  imports Hid_Channel Timed
begin

text \<open>
  \<open>MainHid\<close> of \<open>src/ctap/main_hid.rs\<close>: the dispatch of an assembled message to CTAP1, CTAP2 or the
  wink command, and of the response to HID packets or to the vendor commands. The two protocol
  handlers are arguments, functions on the CTAP state; \<open>with_ctap1\<close> is the build feature.
\<close>

record main_hid =
  hid :: ctap_hid
  wink_permission :: timed_permission

datatype hid_iter_type = CtapPackets packet_iterator | VendorMessage message

type_synonym 's ctap1_handler = "bytes \<Rightarrow> instant \<Rightarrow> 's \<Rightarrow> (u16 + bytes) \<times> 's"
type_synonym 's ctap2_handler = "bytes \<Rightarrow> channel_id \<Rightarrow> instant \<Rightarrow> 's \<Rightarrow> bytes \<times> 's"

definition wink_timeout_duration :: nat where
  "wink_timeout_duration = from_millis 5000"

definition new_main_hid :: "bool \<Rightarrow> instant \<Rightarrow> main_hid" where
  "new_main_hid with_ctap1 now =
     \<lparr>hid = new_ctap_hid now (if with_ctap1 then 0x01 OR 0x04 else 0x01 OR 0x04 OR 0x08),
      wink_permission = Waiting\<rparr>"

definition ctap1_error_message :: "channel_id \<Rightarrow> u16 \<Rightarrow> message" where
  "ctap1_error_message c code = \<lparr>m_cid = c, m_cmd = Msg, m_payload = be_bytes 2 code\<rparr>"

definition ctap1_success_message :: "channel_id \<Rightarrow> bytes \<Rightarrow> message" where
  "ctap1_success_message c pl = \<lparr>m_cid = c, m_cmd = Msg, m_payload = pl @ be_bytes 2 (0x9000 :: u16)\<rparr>"

definition process_message ::
  "'s ctap1_handler option \<Rightarrow> 's ctap2_handler \<Rightarrow> message \<Rightarrow> instant \<Rightarrow> main_hid \<times> 's \<Rightarrow>
     message \<times> main_hid \<times> 's" where
  "process_message ctap1 ctap2 m now = (\<lambda>(h, s).
     (let h = h\<lparr>wink_permission := Waiting\<rparr>; c = m_cid m
      in case m_cmd m of
           Msg \<Rightarrow>
             (case ctap1 of
                None \<Rightarrow> (error_message c InvalidCmd, h, s)
              | Some process \<Rightarrow>
                  (case process (m_payload m) now s of
                     (Inr pl, s') \<Rightarrow> (ctap1_success_message c pl, h, s')
                   | (Inl code, s') \<Rightarrow> (ctap1_error_message c code, h, s')))
         | Cbor \<Rightarrow>
             (let (response, s') = ctap2 (m_payload m) c now s
              in (\<lparr>m_cid = c, m_cmd = Cbor, m_payload = response\<rparr>, h, s'))
         | Wink \<Rightarrow>
             (if m_payload m = []
              then (m, h\<lparr>wink_permission := granted now wink_timeout_duration\<rparr>, s)
              else (error_message c InvalidLen, h, s))
         | _ \<Rightarrow> (m, h, s)))"

definition process_hid_packet ::
  "nat \<Rightarrow> 's ctap1_handler option \<Rightarrow> 's ctap2_handler \<Rightarrow> instant \<Rightarrow> hid_packet \<Rightarrow> instant \<Rightarrow>
     main_hid \<times> 's \<Rightarrow> hid_iter_type \<times> main_hid \<times> 's" where
  "process_hid_packet mx ctap1 ctap2 clock packet now = (\<lambda>(h, s).
     (let (out, hid') = hid_parse_packet mx clock packet now (hid h); h' = h\<lparr>hid := hid'\<rparr>
      in case out of
           Some m \<Rightarrow>
             (let (r, h'', s') = process_message ctap1 ctap2 m now (h', s)
              in if m_cmd r \<in> {RestoreTotpCodes, BackupTotpCodes, ResetSession}
                 then (VendorMessage r, h'', s')
                 else (CtapPackets (split_message r), h'', s'))
         | None \<Rightarrow> (CtapPackets None, h', s)))"

definition should_wink :: "instant \<Rightarrow> main_hid \<Rightarrow> bool" where
  "should_wink now h = is_granted (wink_permission h) now"

definition update_wink_timeout :: "instant \<Rightarrow> main_hid \<Rightarrow> main_hid" where
  "update_wink_timeout now h = h\<lparr>wink_permission := check_expiration (wink_permission h) now\<rparr>"

section \<open>Properties\<close>

lemma process_message_cid:
  "fst (process_message ctap1 ctap2 m now hs) = r \<Longrightarrow> m_cid r = m_cid m"
  by (auto simp: process_message_def Let_def error_message_def ctap1_error_message_def
      ctap1_success_message_def split: hid_command.splits option.splits prod.splits sum.splits if_splits)

lemma process_message_state:
  assumes "m_cmd m \<notin> {Msg, Cbor}"
  shows "snd (snd (process_message ctap1 ctap2 m now (h, s))) = s"
  using assms by (auto simp: process_message_def Let_def split: hid_command.splits)

text \<open>A packet reaches the CTAP state only as part of a complete \<open>MSG\<close> or \<open>CBOR\<close> message on an
  allocated channel.\<close>

theorem ctap_state_guarded:
  assumes "process_hid_packet mx ctap1 ctap2 clock p now (h, s) = (out, h', s')" "s' \<noteq> s"
  shows "\<exists>m. fst (parse_packet mx clock p now (assembler (hid h))) = Inr (Some m) \<and>
    m_cmd m \<in> {Msg, Cbor} \<and> is_allocated_channel (hid h) (m_cid m)"
proof -
  obtain res hid' where parsed: "hid_parse_packet mx clock p now (hid h) = (res, hid')" by fastforce
  from assms parsed obtain m where m: "res = Some m"
    by (cases res) (auto simp: process_hid_packet_def Let_def)
  have "m_cmd m \<in> {Msg, Cbor}"
  proof (rule ccontr)
    assume "m_cmd m \<notin> {Msg, Cbor}"
    from process_message_state [OF this, of ctap1 ctap2 now "h\<lparr>hid := hid'\<rparr>" s] assms parsed m
    show False
      by (auto simp: process_hid_packet_def Let_def split: prod.splits if_splits)
  qed
  moreover from this have "m_cmd m \<noteq> Error" "m_cmd m \<noteq> Init" by auto
  ultimately show ?thesis
    using hid_forwards parsed m by blast
qed

lemma ctap_state_guarded_witness:
  "is_allocated_channel ((new_ctap_hid 0 5)\<lparr>allocated_cids := 1\<rparr>) [0, 0, 0, 1]"
proof -
  let ?h = "\<lparr>hid = (new_ctap_hid 0 5)\<lparr>allocated_cids := 1\<rparr>, wink_permission = Waiting\<rparr>"
  let ?p = "[0, 0, 0, 1, 0x90] @ replicate 59 0"
  let ?run = "process_hid_packet 7609 None (\<lambda>_ _ _ n. ([0], Suc n)) 0 ?p 0 (?h, 0)"
  have parsed: "fst (parse_packet 7609 0 ?p 0 (assembler (hid ?h))) =
      Inr (Some \<lparr>m_cid = [0, 0, 0, 1], m_cmd = Cbor, m_payload = []\<rparr>)"
    by (simp add: parse_packet_def process_single_packet_def Let_def assemble_def new_ctap_hid_def
        new_assembler_def parse_init_packet_def append_payload_def cmd_from_def)
  have "snd (snd ?run) = 1"
    by (simp add: process_hid_packet_def process_message_def hid_parse_packet_def parse_packet_def
        process_single_packet_def Let_def assemble_def new_ctap_hid_def new_assembler_def
        parse_init_packet_def append_payload_def preprocess_message_def has_valid_channel_def
        is_allocated_channel_def channel_broadcast_def channel_reserved_def be_nat_def cmd_from_def)
  then obtain out h' where "?run = (out, h', 1)"
    by (metis prod.collapse)
  from ctap_state_guarded [OF this] parsed
  show ?thesis by auto
qed

text \<open>Winking is granted by a \<open>WINK\<close> message alone, for five seconds, and any other message ends
  it.\<close>

theorem wink_only_on_request:
  "let h' = fst (snd (process_message ctap1 ctap2 m now (h, s)))
   in should_wink later h' \<longleftrightarrow>
        m_cmd m = Wink \<and> m_payload m = [] \<and> later \<le> now + from_millis 5000"
  by (auto simp: process_message_def should_wink_def wink_timeout_duration_def Let_def
      split: hid_command.splits option.splits prod.splits sum.splits)

end
