(* ===== verification/Store.thy ===== *)
theory Store
  imports Prelude
begin

text \<open>
  The key-value store of \<open>libraries/persistent_store/src/store.rs\<close>, which keeps every entry as a
  key of the dictionary \<open>opensk\<close> of the Xous PDDB. The PDDB is another program: it is the record
  \<open>pddb\<close> of the calls the store makes, on a state of any type, and \<open>pddb_map\<close> states what it
  documents for an existing dictionary on a working device. The store caches the list of keys;
  \<open>store_inv\<close> says the cache is exact. The contract \<open>kv_store\<close> is what the code above relies on.
\<close>

section \<open>Decimal key names\<close>

function decimal :: "nat \<Rightarrow> string" where
  "decimal n = (if n < 10 then [char_of (48 + n)] else decimal (n div 10) @ [char_of (48 + n mod 10)])"
  by pat_completeness auto
termination decimal
  by (relation "measure id") auto

declare decimal.simps [simp del]

fun digits_value :: "nat \<Rightarrow> string \<Rightarrow> nat option" where
  "digits_value acc [] = Some acc"
| "digits_value acc (c # cs) =
     (let d = of_char c :: nat
      in if 48 \<le> d \<and> d \<le> 57 then digits_value (acc * 10 + (d - 48)) cs else None)"

text \<open>\<open>usize::from_str_radix(s, 10)\<close> on a target whose \<open>usize\<close> has \<open>ub\<close> bits.\<close>

definition parse_usize :: "nat \<Rightarrow> string \<Rightarrow> nat option" where
  "parse_usize ub s =
     (let ds = (case s of c # r \<Rightarrow> if of_char c = (43 :: nat) \<and> r \<noteq> [] then r else s | [] \<Rightarrow> s)
      in if ds = [] then None
         else case digits_value 0 ds of
                Some v \<Rightarrow> if v < 2 ^ ub then Some v else None
              | None \<Rightarrow> None)"

lemma digits_value_append:
  "digits_value acc (xs @ ys) = (case digits_value acc xs of None \<Rightarrow> None | Some v \<Rightarrow> digits_value v ys)"
  by (induction acc xs rule: digits_value.induct) (simp_all add: Let_def)

lemma digits_value_decimal: "digits_value 0 (decimal n) = Some n"
proof (induction n rule: decimal.induct)
  case (1 n)
  have "n div 10 * 10 + n mod 10 = n" by simp
  then show ?case
    using 1 by (subst decimal.simps) (auto simp: digits_value_append)
qed

lemma decimal_digits: "c \<in> set (decimal n) \<Longrightarrow> 48 \<le> (of_char c :: nat)"
proof (induction n rule: decimal.induct)
  case (1 n)
  then show ?case
    by (subst (asm) (2) decimal.simps) (auto split: if_splits)
qed

lemma decimal_not_Nil [simp]: "decimal n \<noteq> []"
  by (subst decimal.simps) simp

lemma decimal_inject [simp]: "decimal m = decimal n \<longleftrightarrow> m = n"
  by (metis digits_value_decimal option.inject)

lemma parse_usize_decimal: "n < 2 ^ ub \<Longrightarrow> parse_usize ub (decimal n) = Some n"
proof -
  assume n: "n < 2 ^ ub"
  obtain c r where d: "decimal n = c # r" by (cases "decimal n") auto
  then have "of_char c \<noteq> (43 :: nat)" using decimal_digits [of c n] by auto
  then show ?thesis
    using n d digits_value_decimal [of n] by (simp add: parse_usize_def)
qed

section \<open>The PDDB\<close>

datatype io_kind = NotFound | OtherKind

record 'p pddb =
  list_keys :: "'p \<Rightarrow> io_kind + string list"
  open_key :: "string \<Rightarrow> 'p \<Rightarrow> io_kind + unit"
  read_to_end :: "string \<Rightarrow> 'p \<Rightarrow> io_kind + bytes"
  attributes_len :: "string \<Rightarrow> 'p \<Rightarrow> io_kind + nat"
  create_key :: "string \<Rightarrow> 'p \<Rightarrow> (io_kind + unit) \<times> 'p"
  write_all :: "string \<Rightarrow> bytes \<Rightarrow> 'p \<Rightarrow> (io_kind + unit) \<times> 'p"
  delete_key :: "string \<Rightarrow> 'p \<Rightarrow> (io_kind + unit) \<times> 'p"
  delete_key_list :: "string list \<Rightarrow> 'p \<Rightarrow> (io_kind + unit) \<times> 'p"

text \<open>
  Writing starts at the beginning of the record and does not truncate it; deleting a missing key
  is \<open>NotFound\<close>.
\<close>

definition pddb_map :: "'p pddb \<Rightarrow> ('p \<Rightarrow> string \<Rightarrow> bytes option) \<Rightarrow> bool" where
  "pddb_map P view \<longleftrightarrow>
     (\<forall>p. \<exists>ks. list_keys P p = Inr ks \<and> distinct ks \<and> set ks = dom (view p)) \<and>
     (\<forall>p k. open_key P k p = (if view p k = None then Inl NotFound else Inr ())) \<and>
     (\<forall>p k v. view p k = Some v \<longrightarrow> read_to_end P k p = Inr v \<and> attributes_len P k p = Inr (length v)) \<and>
     (\<forall>p k. \<exists>p'. create_key P k p = (Inr (), p') \<and>
        view p' = (if view p k = None then (view p)(k \<mapsto> []) else view p)) \<and>
     (\<forall>p k v old. view p k = Some old \<longrightarrow>
        (\<exists>p'. write_all P k v p = (Inr (), p') \<and> view p' = (view p)(k \<mapsto> v @ drop (length v) old))) \<and>
     (\<forall>p k. \<exists>p'. delete_key P k p = (if view p k = None then Inl NotFound else Inr (), p') \<and>
        view p' = (view p)(k := None)) \<and>
     (\<forall>p ks. \<exists>p'. delete_key_list P ks p = (Inr (), p') \<and> view p' = view p |` (- set ks))"

section \<open>The store\<close>

datatype store_error = InvalidArgument | NoCapacity | NoLifetime | StorageError | InvalidStorage

record 'p store =
  pddb_state :: 'p
  entries :: "string list option"

datatype store_update = Insert nat bytes | Remove nat

fun update_key :: "store_update \<Rightarrow> nat" where
  "update_key (Insert k v) = k"
| "update_key (Remove k) = k"

fun update_value :: "store_update \<Rightarrow> bytes option" where
  "update_value (Insert k v) = Some v"
| "update_value (Remove k) = None"

definition ok_list :: "'e + 'a \<Rightarrow> 'a option" where
  "ok_list r = (case r of Inl _ \<Rightarrow> None | Inr x \<Rightarrow> Some x)"

definition new_store :: "'p pddb \<Rightarrow> 'p \<Rightarrow> 'p store" where
  "new_store P p = \<lparr>pddb_state = p, entries = ok_list (list_keys P p)\<rparr>"

definition or_invalid :: "'a option \<Rightarrow> store_error + 'a" where
  "or_invalid x = ok_or x InvalidStorage"

text \<open>The iterator yields a result per cached key name; a handle is its key.\<close>

definition store_iter :: "nat \<Rightarrow> 'p store \<Rightarrow> store_error + (store_error + nat) list" where
  "store_iter ub s =
     rbind (or_invalid (entries s)) (\<lambda>names.
       Inr (map (\<lambda>name. or_invalid (parse_usize ub name)) names))"

definition apply_update :: "'p pddb \<Rightarrow> store_update \<Rightarrow> 'p \<Rightarrow> (store_error + unit) \<times> 'p" where
  "apply_update P u p =
     (case u of
        Insert k v \<Rightarrow>
          (let (_, p) = delete_key P (decimal k) p
           in case create_key P (decimal k) p of
                (Inl _, p) \<Rightarrow> (Inl StorageError, p)
              | (Inr _, p) \<Rightarrow>
                  (case write_all P (decimal k) v p of
                     (Inl _, p) \<Rightarrow> (Inl StorageError, p)
                   | (Inr _, p) \<Rightarrow> (Inr (), p)))
      | Remove k \<Rightarrow>
          (case delete_key P (decimal k) p of
             (Inr _, p) \<Rightarrow> (Inr (), p)
           | (Inl NotFound, p) \<Rightarrow> (Inr (), p)
           | (Inl OtherKind, p) \<Rightarrow> (Inl StorageError, p)))"

fun apply_updates :: "'p pddb \<Rightarrow> store_update list \<Rightarrow> 'p \<Rightarrow> (store_error + unit) \<times> 'p" where
  "apply_updates P [] p = (Inr (), p)"
| "apply_updates P (u # us) p =
     (case apply_update P u p of
        (Inl e, p) \<Rightarrow> (Inl e, p)
      | (Inr _, p) \<Rightarrow> apply_updates P us p)"

definition transaction :: "'p pddb \<Rightarrow> store_update list \<Rightarrow> ('p store, store_error, unit) op" where
  "transaction P us s =
     (if us = [] then (Inr (), s)
      else case apply_updates P us (pddb_state s) of
             (Inl e, p) \<Rightarrow> (Inl e, s\<lparr>pddb_state := p\<rparr>)
           | (Inr _, p) \<Rightarrow> (Inr (), s\<lparr>pddb_state := p, entries := ok_list (list_keys P p)\<rparr>))"

fun keys_to_delete :: "nat \<Rightarrow> nat \<Rightarrow> string list \<Rightarrow> store_error + string list" where
  "keys_to_delete ub min_key [] = Inr []"
| "keys_to_delete ub min_key (name # names) =
     (case parse_usize ub name of
        None \<Rightarrow> Inl InvalidArgument
      | Some k \<Rightarrow>
          rbind (keys_to_delete ub min_key names) (\<lambda>ks. Inr (if k \<ge> min_key then name # ks else ks)))"

definition clear :: "nat \<Rightarrow> 'p pddb \<Rightarrow> nat \<Rightarrow> ('p store, store_error, unit) op" where
  "clear ub P min_key s =
     (case list_keys P (pddb_state s) of
        Inl _ \<Rightarrow> (Inl StorageError, s)
      | Inr names \<Rightarrow>
          (case keys_to_delete ub min_key names of
             Inl e \<Rightarrow> (Inl e, s)
           | Inr to_delete \<Rightarrow>
               (let (r, p) = delete_key_list P to_delete (pddb_state s);
                    s' = s\<lparr>pddb_state := p\<rparr>
                in if r = Inl OtherKind then (Inl StorageError, s')
                   else (Inr (), s'\<lparr>entries := ok_list (list_keys P p)\<rparr>))))"

definition find_key :: "'p pddb \<Rightarrow> nat \<Rightarrow> 'p store \<Rightarrow> store_error + bytes option" where
  "find_key P k s =
     (case open_key P (decimal k) (pddb_state s) of
        Inr _ \<Rightarrow>
          (case read_to_end P (decimal k) (pddb_state s) of
             Inl _ \<Rightarrow> Inl StorageError
           | Inr v \<Rightarrow> Inr (Some v))
      | Inl NotFound \<Rightarrow> Inr None
      | Inl OtherKind \<Rightarrow> Inl StorageError)"

definition find_handle :: "'p pddb \<Rightarrow> nat \<Rightarrow> 'p store \<Rightarrow> store_error + nat option" where
  "find_handle P k s =
     rbind (case list_keys P (pddb_state s) of
              Inr ks \<Rightarrow> Inr ks
            | Inl NotFound \<Rightarrow> Inr []
            | Inl OtherKind \<Rightarrow> Inl StorageError)
       (\<lambda>names. Inr (if decimal k \<in> set names then Some k else None))"

definition insert_key :: "'p pddb \<Rightarrow> nat \<Rightarrow> bytes \<Rightarrow> ('p store, store_error, unit) op" where
  "insert_key P k v = transaction P [Insert k v]"

definition remove_key :: "'p pddb \<Rightarrow> nat \<Rightarrow> ('p store, store_error, unit) op" where
  "remove_key P k = transaction P [Remove k]"

definition max_value_length :: nat where
  "max_value_length = 10 * 1024 * 1024"

definition get_length :: "'p pddb \<Rightarrow> nat \<Rightarrow> 'p store \<Rightarrow> store_error + nat" where
  "get_length P k s =
     (case open_key P (decimal k) (pddb_state s) of
        Inr _ \<Rightarrow>
          (case attributes_len P (decimal k) (pddb_state s) of
             Inl _ \<Rightarrow> Inl StorageError
           | Inr n \<Rightarrow> Inr n)
      | Inl _ \<Rightarrow> Inl InvalidArgument)"

definition get_value :: "'p pddb \<Rightarrow> nat \<Rightarrow> 'p store \<Rightarrow> store_error + bytes" where
  "get_value P k s = rbind (find_key P k s) (\<lambda>v. ok_or v InvalidArgument)"

end
