(* ===== verification/Store_Spec.thy ===== *)
theory Store_Spec
  imports Store
begin

text \<open>
  The contract \<open>kv_store\<close> between the store and its users: a map from keys to values, its lookup,
  its updates and its iteration. The model of \<open>store.rs\<close> provides it over any PDDB that behaves as
  documented (\<open>pddb_map\<close>); an association list is such a PDDB, which the witnesses use.
\<close>

section \<open>The contract\<close>

fun apply_to :: "store_update \<Rightarrow> (nat \<Rightarrow> bytes option) \<Rightarrow> nat \<Rightarrow> bytes option" where
  "apply_to (Insert k v) m = m(k \<mapsto> v)"
| "apply_to (Remove k) m = m(k := None)"

locale kv_store =
  fixes bound :: nat
    and inv :: "'s \<Rightarrow> bool"
    and content :: "'s \<Rightarrow> nat \<Rightarrow> bytes option"
    and find :: "nat \<Rightarrow> 's \<Rightarrow> store_error + bytes option"
    and handle :: "nat \<Rightarrow> 's \<Rightarrow> store_error + nat option"
    and transact :: "store_update list \<Rightarrow> ('s, store_error, unit) op"
    and wipe :: "nat \<Rightarrow> ('s, store_error, unit) op"
    and iterate :: "'s \<Rightarrow> store_error + (store_error + nat) list"
  assumes find: "inv s \<Longrightarrow> find k s = Inr (content s k)"
    and handle: "inv s \<Longrightarrow> handle k s = Inr (if content s k = None then None else Some k)"
    and transact: "inv s \<Longrightarrow> \<forall>u\<in>set us. update_key u < bound \<Longrightarrow>
      \<exists>s'. transact us s = (Inr (), s') \<and> inv s' \<and> content s' = fold apply_to us (content s)"
    and wipe: "inv s \<Longrightarrow>
      \<exists>s'. wipe m s = (Inr (), s') \<and> inv s' \<and> content s' = content s |` {..<m}"
    and iterate: "inv s \<Longrightarrow>
      \<exists>ks. iterate s = Inr (map Inr ks) \<and> distinct ks \<and> set ks = dom (content s)"
begin

lemma insert_one:
  "inv s \<Longrightarrow> k < bound \<Longrightarrow>
     \<exists>s'. transact [Insert k v] s = (Inr (), s') \<and> inv s' \<and> content s' = (content s)(k \<mapsto> v)"
  using transact [of s "[Insert k v]"] by simp

lemma remove_one:
  "inv s \<Longrightarrow> k < bound \<Longrightarrow>
     \<exists>s'. transact [Remove k] s = (Inr (), s') \<and> inv s' \<and> content s' = (content s)(k := None)"
  using transact [of s "[Remove k]"] by simp

lemma find_after_insert:
  assumes "inv s" "k < bound"
  shows "\<exists>s'. transact [Insert k v] s = (Inr (), s') \<and>
    (\<forall>j. find j s' = (if j = k then Inr (Some v) else find j s))"
  using insert_one [OF assms, of v] by (auto simp: find assms(1))

lemma find_after_remove:
  assumes "inv s" "k < bound"
  shows "\<exists>s'. transact [Remove k] s = (Inr (), s') \<and>
    (\<forall>j. find j s' = (if j = k then Inr None else find j s))"
  using remove_one [OF assms] by (auto simp: find assms(1))

lemma wipe_keeps_persistent:
  assumes "inv s"
  shows "\<exists>s'. wipe m s = (Inr (), s') \<and> (\<forall>j. find j s' = (if j < m then find j s else Inr None))"
  using wipe [OF assms, of m] by (auto simp: find assms restrict_map_def)

end

section \<open>The store provides it\<close>

definition content :: "('p \<Rightarrow> string \<Rightarrow> bytes option) \<Rightarrow> 'p store \<Rightarrow> nat \<Rightarrow> bytes option" where
  "content view s k = view (pddb_state s) (decimal k)"

definition store_inv ::
  "nat \<Rightarrow> 'p pddb \<Rightarrow> ('p \<Rightarrow> string \<Rightarrow> bytes option) \<Rightarrow> 'p store \<Rightarrow> bool" where
  "store_inv ub P view s \<longleftrightarrow>
     pddb_map P view \<and> dom (view (pddb_state s)) \<subseteq> decimal ` {..<2 ^ ub} \<and>
     (\<exists>ks. entries s = Some ks \<and> distinct ks \<and> set ks = dom (view (pddb_state s)))"

lemma pddb_mapD:
  assumes "pddb_map P view"
  shows "\<exists>ks. list_keys P p = Inr ks \<and> distinct ks \<and> set ks = dom (view p)"
    and "open_key P k p = (if view p k = None then Inl NotFound else Inr ())"
    and "view p k = Some v \<Longrightarrow> read_to_end P k p = Inr v \<and> attributes_len P k p = Inr (length v)"
    and "\<exists>p'. create_key P k p = (Inr (), p') \<and>
      view p' = (if view p k = None then (view p)(k \<mapsto> []) else view p)"
    and "view p k = Some old \<Longrightarrow>
      \<exists>p'. write_all P k v p = (Inr (), p') \<and> view p' = (view p)(k \<mapsto> v @ drop (length v) old)"
    and "\<exists>p'. delete_key P k p = (if view p k = None then Inl NotFound else Inr (), p') \<and>
      view p' = (view p)(k := None)"
    and "\<exists>p'. delete_key_list P ks p = (Inr (), p') \<and> view p' = view p |` (- set ks)"
  using assms unfolding pddb_map_def by (blast, blast, blast, blast, blast, blast, blast)

lemma apply_update_ok:
  assumes "pddb_map P view"
  shows "\<exists>p'. apply_update P u p = (Inr (), p') \<and>
    (\<forall>k. view p' (decimal k) = apply_to u (\<lambda>k. view p (decimal k)) k) \<and>
    dom (view p') \<subseteq> dom (view p) \<union> {decimal (update_key u)}"
proof (cases u)
  case (Insert k v)
  obtain p1 where p1: "delete_key P (decimal k) p = (if view p (decimal k) = None then Inl NotFound else Inr (), p1)"
    "view p1 = (view p)(decimal k := None)"
    using pddb_mapD(6) [OF assms] by blast
  obtain p2 where p2: "create_key P (decimal k) p1 = (Inr (), p2)" "view p2 = (view p1)(decimal k \<mapsto> [])"
    using pddb_mapD(4) [OF assms, of "decimal k" p1] p1(2) by auto
  obtain p3 where p3: "write_all P (decimal k) v p2 = (Inr (), p3)"
    "view p3 = (view p2)(decimal k \<mapsto> v @ drop (length v) [])"
    using pddb_mapD(5) [OF assms, of p2 "decimal k" "[]" v] p2(2) by auto
  show ?thesis
    using p1 p2 p3 by (auto simp: Insert apply_update_def split_beta)
next
  case (Remove k)
  obtain p1 where "delete_key P (decimal k) p = (if view p (decimal k) = None then Inl NotFound else Inr (), p1)"
    "view p1 = (view p)(decimal k := None)"
    using pddb_mapD(6) [OF assms] by blast
  then show ?thesis
    by (cases "view p (decimal k)") (auto simp: Remove apply_update_def)
qed

lemma Un_chain: "A \<subseteq> B \<union> C \<Longrightarrow> B \<subseteq> D \<union> {x} \<Longrightarrow> A \<subseteq> D \<union> insert x C"
  by blast

lemma apply_updates_ok:
  assumes "pddb_map P view"
  shows "\<exists>p'. apply_updates P us p = (Inr (), p') \<and>
    (\<forall>k. view p' (decimal k) = fold apply_to us (\<lambda>k. view p (decimal k)) k) \<and>
    dom (view p') \<subseteq> dom (view p) \<union> decimal ` update_key ` set us"
proof (induction us arbitrary: p)
  case Nil
  then show ?case by simp
next
  case (Cons u us)
  obtain p1 where p1: "apply_update P u p = (Inr (), p1)"
    "\<forall>k. view p1 (decimal k) = apply_to u (\<lambda>k. view p (decimal k)) k"
    "dom (view p1) \<subseteq> dom (view p) \<union> {decimal (update_key u)}"
    using apply_update_ok [OF assms, of u p] by (elim exE conjE) (rule that)
  have eq: "(\<lambda>k. view p1 (decimal k)) = apply_to u (\<lambda>k. view p (decimal k))"
    using p1(2) by (intro ext) blast
  obtain p2 where p2: "apply_updates P us p1 = (Inr (), p2)"
    "\<forall>k. view p2 (decimal k) = fold apply_to us (\<lambda>k. view p1 (decimal k)) k"
    "dom (view p2) \<subseteq> dom (view p1) \<union> decimal ` update_key ` set us"
    using Cons.IH [of p1] by (elim exE conjE) (rule that)
  have "dom (view p2) \<subseteq> dom (view p) \<union> decimal ` update_key ` set (u # us)"
    using Un_chain [OF p2(3) p1(3)] by simp
  moreover have "apply_updates P (u # us) p = (Inr (), p2)"
    using p1(1) p2(1) by simp
  moreover have "\<forall>k. view p2 (decimal k) = fold apply_to (u # us) (\<lambda>k. view p (decimal k)) k"
    using p2(2) unfolding eq by simp
  ultimately show ?case by (intro exI [of _ p2] conjI)
qed

lemma refresh_inv:
  assumes "pddb_map P view" "dom (view p) \<subseteq> decimal ` {..<2 ^ ub}"
  shows "store_inv ub P view (s\<lparr>pddb_state := p, entries := ok_list (list_keys P p)\<rparr>)"
  using assms pddb_mapD(1) [OF assms(1), of p] by (auto simp: store_inv_def ok_list_def)

lemma transaction_ok:
  assumes "store_inv ub P view s" "\<forall>u\<in>set us. update_key u < 2 ^ ub"
  shows "\<exists>s'. transaction P us s = (Inr (), s') \<and> store_inv ub P view s' \<and>
    content view s' = fold apply_to us (content view s)"
proof (cases "us = []")
  case True
  with assms show ?thesis by (simp add: transaction_def)
next
  case False
  have P: "pddb_map P view" using assms(1) by (simp add: store_inv_def)
  obtain p' where p': "apply_updates P us (pddb_state s) = (Inr (), p')"
    "\<forall>k. view p' (decimal k) = fold apply_to us (\<lambda>k. view (pddb_state s) (decimal k)) k"
    "dom (view p') \<subseteq> dom (view (pddb_state s)) \<union> decimal ` update_key ` set us"
    using apply_updates_ok [OF P] by blast
  have "dom (view (pddb_state s)) \<subseteq> decimal ` {..<2 ^ ub}"
    using assms(1) by (simp add: store_inv_def)
  moreover have "decimal ` update_key ` set us \<subseteq> decimal ` {..<2 ^ ub}"
    using assms(2) by (simp add: image_subset_iff)
  ultimately have "dom (view p') \<subseteq> decimal ` {..<2 ^ ub}"
    using p'(3) by (meson Un_subset_iff subset_trans)
  then have "store_inv ub P view (s\<lparr>pddb_state := p', entries := ok_list (list_keys P p')\<rparr>)"
    by (rule refresh_inv [OF P])
  moreover have eq: "content view s = (\<lambda>k. view (pddb_state s) (decimal k))"
    by (simp add: content_def fun_eq_iff)
  have "content view (s\<lparr>pddb_state := p', entries := ok_list (list_keys P p')\<rparr>) =
      fold apply_to us (content view s)"
    unfolding eq using p'(2) by (simp add: content_def fun_eq_iff)
  moreover have "transaction P us s = (Inr (), s\<lparr>pddb_state := p', entries := ok_list (list_keys P p')\<rparr>)"
    using False p'(1) by (simp add: transaction_def)
  ultimately show ?thesis by blast
qed

lemma keys_to_delete_ok:
  assumes "set names \<subseteq> decimal ` {..<2 ^ ub}"
  shows "\<exists>ks. keys_to_delete ub m names = Inr ks \<and>
    (\<forall>k. decimal k \<in> set ks \<longleftrightarrow> decimal k \<in> set names \<and> m \<le> k) \<and> set ks \<subseteq> set names"
  using assms
proof (induction names)
  case Nil
  then show ?case by simp
next
  case (Cons name names)
  then obtain n where n: "name = decimal n" "n < 2 ^ ub" by auto
  with Cons obtain ks where "keys_to_delete ub m names = Inr ks"
    "\<forall>k. decimal k \<in> set ks \<longleftrightarrow> decimal k \<in> set names \<and> m \<le> k" "set ks \<subseteq> set names" by auto
  with n show ?case by (auto simp: parse_usize_decimal)
qed

lemma clear_ok:
  assumes "store_inv ub P view s"
  shows "\<exists>s'. clear ub P m s = (Inr (), s') \<and> store_inv ub P view s' \<and>
    content view s' = content view s |` {..<m}"
proof -
  have P: "pddb_map P view" and dom: "dom (view (pddb_state s)) \<subseteq> decimal ` {..<2 ^ ub}"
    using assms by (simp_all add: store_inv_def)
  obtain names where names: "list_keys P (pddb_state s) = Inr names" "set names = dom (view (pddb_state s))"
    using pddb_mapD(1) [OF P] by blast
  obtain ks where ks: "keys_to_delete ub m names = Inr ks"
    "\<forall>k. decimal k \<in> set ks \<longleftrightarrow> decimal k \<in> set names \<and> m \<le> k" "set ks \<subseteq> set names"
    using keys_to_delete_ok [of names ub m] names dom by auto
  obtain p' where p': "delete_key_list P ks (pddb_state s) = (Inr (), p')"
    "view p' = view (pddb_state s) |` (- set ks)"
    using pddb_mapD(7) [OF P] by blast
  have "dom (view p') \<subseteq> decimal ` {..<2 ^ ub}" using dom p'(2) by auto
  moreover have "view p' (decimal k) = (content view s |` {..<m}) k" for k
    using ks(2) names(2) by (auto simp: p'(2) content_def restrict_map_def)
  ultimately show ?thesis
    using names(1) ks(1) p'(1) refresh_inv [OF P, of p' ub s]
    by (auto simp: clear_def content_def)
qed

lemma find_key_ok: "store_inv ub P view s \<Longrightarrow> find_key P k s = Inr (content view s k)"
  using pddb_mapD(2,3) [of P view]
  by (auto simp: store_inv_def find_key_def content_def split: option.split)

lemma find_handle_ok:
  assumes "store_inv ub P view s"
  shows "find_handle P k s = Inr (if content view s k = None then None else Some k)"
proof -
  have P: "pddb_map P view" using assms by (simp add: store_inv_def)
  obtain names where "list_keys P (pddb_state s) = Inr names" "set names = dom (view (pddb_state s))"
    using pddb_mapD(1) [OF P] by blast
  then show ?thesis by (auto simp: find_handle_def content_def)
qed

lemma store_iter_ok:
  assumes "store_inv ub P view s"
  shows "\<exists>ks. store_iter ub s = Inr (map Inr ks) \<and> distinct ks \<and> set ks = dom (content view s)"
proof -
  obtain names where names: "entries s = Some names" "distinct names"
    "set names = dom (view (pddb_state s))" and sub: "set names \<subseteq> decimal ` {..<2 ^ ub}"
    using assms unfolding store_inv_def by (elim conjE exE) metis
  define ks where "ks = map (\<lambda>name. the (parse_usize ub name)) names"
  have parse: "parse_usize ub name = Some (the (parse_usize ub name)) \<and>
      decimal (the (parse_usize ub name)) = name" if "name \<in> set names" for name
  proof -
    from that sub obtain n where "name = decimal n" "n < 2 ^ ub" by auto
    then show ?thesis by (simp add: parse_usize_decimal)
  qed
  have "or_invalid (parse_usize ub name) = Inr (the (parse_usize ub name))" if "name \<in> set names" for name
    using parse [OF that] by (metis or_invalid_def ok_or_simps(2))
  then have iter: "store_iter ub s = Inr (map Inr ks)"
    by (simp add: store_iter_def or_invalid_def names(1) ks_def)
  have decimal_ks: "map decimal ks = names"
    unfolding ks_def map_map comp_def using parse by (simp add: map_idI)
  have "distinct ks"
    using names(2) decimal_ks by (metis distinct_map)
  moreover have "k \<in> set ks \<longleftrightarrow> content view s k \<noteq> None" for k
  proof -
    have "k \<in> set ks \<longleftrightarrow> decimal k \<in> decimal ` set ks"
      by (simp add: image_iff)
    also have "decimal ` set ks = dom (view (pddb_state s))"
      using decimal_ks names(3) by (metis list.set_map)
    finally show ?thesis by (simp add: content_def domIff)
  qed
  then have "set ks = dom (content view s)"
    by (simp add: set_eq_iff domIff)
  ultimately show ?thesis using iter by blast
qed

interpretation st: kv_store "2 ^ ub" "store_inv ub P view" "content view" "find_key P" "find_handle P"
    "transaction P" "clear ub P" "store_iter ub" for ub P view
  by unfold_locales
     (erule find_key_ok, erule find_handle_ok, erule (1) transaction_ok, erule clear_ok, erule store_iter_ok)

lemma get_value_ok:
  "store_inv ub P view s \<Longrightarrow> get_value P k s = ok_or (content view s k) InvalidArgument"
  by (simp add: get_value_def st.find)

lemma get_length_ok:
  "store_inv ub P view s \<Longrightarrow>
     get_length P k s = (case content view s k of None \<Rightarrow> Inl InvalidArgument | Some v \<Rightarrow> Inr (length v))"
  using pddb_mapD(2,3) [of P view]
  by (auto simp: store_inv_def get_length_def content_def split: option.split)

section \<open>An association list as a PDDB\<close>

type_synonym alist_pddb = "(string \<times> bytes) list"

definition alist_write :: "string \<Rightarrow> bytes \<Rightarrow> alist_pddb \<Rightarrow> alist_pddb" where
  "alist_write k v p =
     map (\<lambda>(j, old). if j = k then (j, v @ drop (length v) old) else (j, old)) p"

definition alist_pddb :: "alist_pddb pddb" where
  "alist_pddb =
     \<lparr>list_keys = (\<lambda>p. Inr (remdups (map fst p))),
      open_key = (\<lambda>k p. if map_of p k = None then Inl NotFound else Inr ()),
      read_to_end = (\<lambda>k p. ok_or (map_of p k) NotFound),
      attributes_len = (\<lambda>k p. ok_or (map_option length (map_of p k)) NotFound),
      create_key = (\<lambda>k p. (Inr (), if map_of p k = None then (k, []) # p else p)),
      write_all = (\<lambda>k v p. (Inr (), alist_write k v p)),
      delete_key = (\<lambda>k p. (if map_of p k = None then Inl NotFound else Inr (),
                            filter (\<lambda>(j, _). j \<noteq> k) p)),
      delete_key_list = (\<lambda>ks p. (Inr (), filter (\<lambda>(j, _). j \<notin> set ks) p))\<rparr>"

lemma map_of_filter_fst: "map_of (filter (\<lambda>(j, _). j \<notin> A) p) = map_of p |` (- A)"
  by (induction p) (auto simp: restrict_map_def fun_eq_iff)

lemma map_of_alist_write:
  "map_of p k = Some old \<Longrightarrow> map_of (alist_write k v p) = (map_of p)(k \<mapsto> v @ drop (length v) old)"
proof -
  assume "map_of p k = Some old"
  moreover have "map_of (alist_write k v p) =
      (\<lambda>j. if j = k then map_option (\<lambda>old. v @ drop (length v) old) (map_of p j) else map_of p j)"
    by (induction p) (auto simp: alist_write_def fun_eq_iff)
  ultimately show ?thesis by auto
qed

lemma alist_pddb_map: "pddb_map alist_pddb map_of"
proof -
  have "map_of (filter (\<lambda>(j, _). j \<noteq> k) p) = (map_of p)(k := None)" for k and p :: alist_pddb
    using map_of_filter_fst [of "{k}" p] by (auto simp: restrict_map_def fun_eq_iff)
  then show ?thesis
    by (auto simp: pddb_map_def alist_pddb_def dom_map_of_conv_image_fst map_of_alist_write
        map_of_filter_fst)
qed

lemma new_alist_store_inv:
  "fst ` set p \<subseteq> decimal ` {..<2 ^ ub} \<Longrightarrow> store_inv ub alist_pddb map_of (new_store alist_pddb p)"
  using refresh_inv [OF alist_pddb_map, of p ub "new_store alist_pddb p"]
  by (simp add: new_store_def dom_map_of_conv_image_fst)

end
