(* ===== verification/Store_Props.thy ===== *)
theory Store_Props
  imports Store_Spec
begin

text \<open>What the persistent store promises, and where it does not keep a promise of its documentation.\<close>

text \<open>C12: on a PDDB that works as documented, a transaction of any updates succeeds, and afterwards every
  lookup and the iteration answer as if the updates had been applied one after the other to a map. In
  particular nothing is checked: updates of the same key, any number of updates and values of any length
  are accepted, although the documentation of \<open>transaction\<close> says that they are invalid arguments.\<close>

theorem store_is_map:
  assumes "store_inv ub P view s" "\<forall>u\<in>set us. update_key u < 2 ^ ub"
  shows "\<exists>s'. transaction P us s = (Inr (), s') \<and> store_inv ub P view s' \<and>
    (\<forall>k. find_key P k s' = Inr (fold apply_to us (content view s) k)) \<and>
    (\<exists>ks. store_iter ub s' = Inr (map Inr ks) \<and> distinct ks \<and>
       set ks = dom (fold apply_to us (content view s)))"
proof -
  obtain s' where s': "transaction P us s = (Inr (), s')" "store_inv ub P view s'"
    "content view s' = fold apply_to us (content view s)"
    using st.transact [OF assms] by blast
  show ?thesis
    using s' st.find [OF s'(2)] st.iterate [OF s'(2)] by (intro exI [of _ s']) simp
qed

lemma store_is_map_witness:
  "\<exists>s'. transaction alist_pddb [Insert 3 [1, 2], Remove 5, Insert 3 [7]]
       (new_store alist_pddb [(decimal 3, [9, 9, 9]), (decimal 5, [])]) = (Inr (), s') \<and>
     find_key alist_pddb 3 s' = Inr (Some [7]) \<and> find_key alist_pddb 5 s' = Inr None"
proof -
  have inv: "store_inv 32 alist_pddb map_of (new_store alist_pddb [(decimal 3, [9, 9, 9]), (decimal 5, [])])"
    by (rule new_alist_store_inv) simp
  show ?thesis
    using store_is_map [OF inv, of "[Insert 3 [1, 2], Remove 5, Insert 3 [7]]"] by auto
qed

text \<open>\<open>clear\<close> removes the entries from \<open>min_key\<close> on and no other.\<close>

theorem store_clear_keeps_persistent:
  assumes "store_inv ub P view s"
  shows "\<exists>s'. clear ub P min_key s = (Inr (), s') \<and> store_inv ub P view s' \<and>
    (\<forall>k. find_key P k s' = (if k < min_key then find_key P k s else Inr None))"
proof -
  obtain s' where s': "clear ub P min_key s = (Inr (), s')" "store_inv ub P view s'"
    "content view s' = content view s |` {..<min_key}"
    using st.wipe [OF assms, of min_key] by blast
  show ?thesis
    using s' st.find [OF s'(2)] st.find [OF assms] by (intro exI [of _ s']) (simp add: restrict_map_def)
qed

lemma store_clear_keeps_persistent_witness:
  "\<exists>s'. clear 32 alist_pddb 4 (new_store alist_pddb [(decimal 3, [9]), (decimal 5, [])]) = (Inr (), s') \<and>
     find_key alist_pddb 3 s' = find_key alist_pddb 3 (new_store alist_pddb [(decimal 3, [9]), (decimal 5, [])]) \<and>
     find_key alist_pddb 5 s' = Inr None"
proof -
  have inv: "store_inv 32 alist_pddb map_of (new_store alist_pddb [(decimal 3, [9]), (decimal 5, [])])"
    by (rule new_alist_store_inv) simp
  show ?thesis
    using store_clear_keeps_persistent [OF inv, of 4] by auto
qed

section \<open>A transaction that fails\<close>

text \<open>A PDDB that may refuse to create a record, as a full device does, and otherwise works as documented.\<close>

definition refusing :: "(string \<Rightarrow> 'p \<Rightarrow> bool) \<Rightarrow> 'p pddb \<Rightarrow> 'p pddb" where
  "refusing full P = P\<lparr>create_key := (\<lambda>k p. if full k p then (Inl OtherKind, p) else create_key P k p)\<rparr>"

lemma refusing_simps [simp]:
  "create_key (refusing full P) k p = (if full k p then (Inl OtherKind, p) else create_key P k p)"
  "delete_key (refusing full P) = delete_key P" "write_all (refusing full P) = write_all P"
  "open_key (refusing full P) = open_key P" "read_to_end (refusing full P) = read_to_end P"
  "list_keys (refusing full P) = list_keys P"
  by (simp_all add: refusing_def)

lemma refused_update:
  assumes "pddb_map P view"
  shows "(\<exists>p'. apply_update (refusing full P) u p = (Inr (), p') \<and>
      (\<forall>j. view p' (decimal j) = apply_to u (\<lambda>j. view p (decimal j)) j)) \<or>
    (\<exists>k v p'. u = Insert k v \<and> apply_update (refusing full P) u p = (Inl StorageError, p') \<and>
      (\<forall>j. view p' (decimal j) = (if j = k then None else view p (decimal j))))"
proof (cases u)
  case (Insert k v)
  obtain p1 where p1: "delete_key P (decimal k) p = (if view p (decimal k) = None then Inl NotFound else Inr (), p1)"
    "view p1 = (view p)(decimal k := None)"
    using pddb_mapD(6) [OF assms] by blast
  show ?thesis
  proof (cases "full (decimal k) p1")
    case True
    then show ?thesis using p1 by (auto simp: Insert apply_update_def)
  next
    case False
    then have "apply_update (refusing full P) u p = apply_update P u p"
      using p1 by (simp add: Insert apply_update_def split: prod.split sum.split)
    then show ?thesis using apply_update_ok [OF assms, of u p] by auto
  qed
next
  case (Remove k)
  then have "apply_update (refusing full P) u p = apply_update P u p"
    by (simp add: apply_update_def)
  then show ?thesis using apply_update_ok [OF assms, of u p] by auto
qed

lemma refused_updates:
  assumes P: "pddb_map P view"
  shows "apply_updates (refusing full P) us p = (Inl e, p') \<Longrightarrow>
    \<exists>us1 k v us2. us = us1 @ Insert k v # us2 \<and> e = StorageError \<and>
      (\<forall>j. view p' (decimal j) = ((fold apply_to us1 (\<lambda>j. view p (decimal j)))(k := None)) j)"
proof (induction us arbitrary: p)
  case (Cons u us)
  from refused_update [OF P, of full u p] show ?case
  proof (elim disjE exE conjE)
    fix p1 assume p1: "apply_update (refusing full P) u p = (Inr (), p1)"
      "\<forall>j. view p1 (decimal j) = apply_to u (\<lambda>j. view p (decimal j)) j"
    then have eq: "(\<lambda>j. view p1 (decimal j)) = apply_to u (\<lambda>j. view p (decimal j))" by blast
    have "apply_updates (refusing full P) us p1 = (Inl e, p')" using Cons.prems p1(1) by simp
    then obtain us1 k v us2 where "us = us1 @ Insert k v # us2" "e = StorageError"
      "\<forall>j. view p' (decimal j) = ((fold apply_to us1 (\<lambda>j. view p1 (decimal j)))(k := None)) j"
      using Cons.IH by blast
    then show ?thesis
      unfolding eq by (intro exI [of _ "u # us1"] exI [of _ k] exI [of _ v] exI [of _ us2]) simp
  next
    fix k v p1 assume "u = Insert k v" "apply_update (refusing full P) u p = (Inl StorageError, p1)"
      "\<forall>j. view p1 (decimal j) = (if j = k then None else view p (decimal j))"
    then show ?thesis
      using Cons.prems by (intro exI [of _ "[]"] exI [of _ k] exI [of _ v] exI [of _ us]) auto
  qed
qed simp

text \<open>C17: a transaction is not atomic. When it fails because the PDDB refuses to create a record, the updates
  before the refused one remain applied, the entry that it was to replace is lost, the updates after it
  are not made, and the list of keys the iteration uses is the old one.\<close>

theorem failed_transaction_leaves:
  assumes P: "store_inv ub P view s" and fails: "transaction (refusing full P) us s = (Inl e, s')"
  shows "e = StorageError \<and> store_iter ub s' = store_iter ub s \<and>
    (\<exists>us1 k v us2. us = us1 @ Insert k v # us2 \<and>
      (\<forall>j. find_key (refusing full P) j s' = Inr (((fold apply_to us1 (content view s))(k := None)) j)))"
proof -
  have map: "pddb_map P view" using P by (simp add: store_inv_def)
  obtain p' where p': "apply_updates (refusing full P) us (pddb_state s) = (Inl e, p')" "s' = s\<lparr>pddb_state := p'\<rparr>"
    using fails by (auto simp: transaction_def split: if_splits prod.splits sum.splits)
  obtain us1 k v us2 where us: "us = us1 @ Insert k v # us2" "e = StorageError"
    "\<forall>j. view p' (decimal j) = ((fold apply_to us1 (\<lambda>j. view (pddb_state s) (decimal j)))(k := None)) j"
    using refused_updates [OF map p'(1)] by blast
  have "content view s = (\<lambda>j. view (pddb_state s) (decimal j))" by (simp add: fun_eq_iff content_def)
  moreover have "find_key (refusing full P) j s' = Inr (view p' (decimal j))" for j
    using pddb_mapD(2,3) [OF map] by (cases "view p' (decimal j)") (simp_all add: find_key_def p'(2))
  ultimately have "\<forall>j. find_key (refusing full P) j s' = Inr (((fold apply_to us1 (content view s))(k := None)) j)"
    using us(3) by simp
  moreover have "store_iter ub s' = store_iter ub s" by (simp add: store_iter_def p'(2))
  ultimately show ?thesis using us(1,2) by blast
qed

lemma failed_transaction_leaves_witness:
  "\<exists>s'. transaction (refusing (\<lambda>k p. True) alist_pddb) [Remove 5, Insert 3 [4]]
       (new_store alist_pddb [(decimal 3, [1]), (decimal 5, [2])]) = (Inl StorageError, s') \<and>
     find_key alist_pddb 3 (new_store alist_pddb [(decimal 3, [1]), (decimal 5, [2])]) = Inr (Some [1]) \<and>
     find_key (refusing (\<lambda>k p. True) alist_pddb) 3 s' = Inr None \<and>
     find_key (refusing (\<lambda>k p. True) alist_pddb) 5 s' = Inr None"
proof -
  let ?s = "new_store alist_pddb [(decimal 3, [1]), (decimal 5, [2])]"
  have inv: "store_inv 32 alist_pddb map_of ?s" by (rule new_alist_store_inv) simp
  obtain s' where run: "transaction (refusing (\<lambda>k p. True) alist_pddb) [Remove 5, Insert 3 [4]] ?s = (Inl StorageError, s')"
    by (simp add: transaction_def apply_update_def alist_pddb_def new_store_def)
  from failed_transaction_leaves [OF inv run] obtain us1 k v us2 where
    us: "[Remove 5, Insert 3 [4]] = us1 @ Insert k v # us2"
    and find: "\<forall>j. find_key (refusing (\<lambda>k p. True) alist_pddb) j s' = Inr (((fold apply_to us1 (content map_of ?s))(k := None)) j)"
    by blast
  have "us1 = [Remove 5] \<and> k = 3"
    using us by (cases us1; cases "tl us1") (auto simp: Cons_eq_append_conv)
  moreover have "find_key alist_pddb 3 ?s = Inr (Some [1])"
    by (simp add: find_key_def alist_pddb_def new_store_def)
  ultimately show ?thesis using run find by auto
qed

end
