(* ===== verification/Fragment.thy ===== *)
theory Fragment
  imports Store_Spec
begin

text \<open>
  Fragmented entries, \<open>libraries/persistent_store/src/fragment.rs\<close>: a value longer than one entry
  is kept as consecutive chunks under a sequence of keys. The trait \<open>Keys\<close> is the record
  \<open>keys\<close> of its three methods, its contract the locale \<open>key_sequence\<close>, and its implementation for
  \<open>Range<usize>\<close> is \<open>range_keys\<close>.
\<close>

section \<open>Key sequences\<close>

record keys =
  keys_len :: nat
  keys_pos :: "nat \<Rightarrow> nat option"
  keys_key :: "nat \<Rightarrow> nat"

definition range_keys :: "nat \<Rightarrow> nat \<Rightarrow> keys" where
  "range_keys a b =
     \<lparr>keys_len = b - a,
      keys_pos = (\<lambda>k. if a \<le> k \<and> k < b then Some (k - a) else None),
      keys_key = (\<lambda>pos. a + pos)\<rparr>"

locale key_sequence =
  fixes n :: nat
    and pos :: "nat \<Rightarrow> nat option"
    and key :: "nat \<Rightarrow> nat"
  assumes pos_key: "p < n \<Longrightarrow> pos (key p) = Some p"
    and key_pos: "pos k = Some p \<Longrightarrow> p < n \<and> key p = k"
begin

lemma key_inject: "p < n \<Longrightarrow> q < n \<Longrightarrow> key p = key q \<longleftrightarrow> p = q"
  by (metis option.inject pos_key)

lemma pos_inject: "pos j = Some p \<Longrightarrow> pos k = Some p \<Longrightarrow> j = k"
  using key_pos by metis

lemma pos_Some_iff: "pos k = Some p \<longleftrightarrow> p < n \<and> k = key p"
  using key_pos pos_key by metis

end

interpretation range: key_sequence "b - a" "keys_pos (range_keys a b)" "keys_key (range_keys a b)"
    for a b
  by unfold_locales (auto simp: range_keys_def split: if_splits)

section \<open>The operations\<close>

fun collect_handles ::
  "keys \<Rightarrow> (store_error + nat) list \<Rightarrow> nat option list \<Rightarrow> store_error + nat option list" where
  "collect_handles K [] hs = Inr hs"
| "collect_handles K (Inl e # r) hs = Inl e"
| "collect_handles K (Inr h # r) hs =
     (case keys_pos K h of
        None \<Rightarrow> collect_handles K r hs
      | Some p \<Rightarrow>
          (if p \<ge> keys_len K then Inl InvalidArgument
           else case hs ! p of
                  Some old \<Rightarrow> (if old \<noteq> h then Inl InvalidArgument else Inl InvalidStorage)
                | None \<Rightarrow> collect_handles K r (hs[p := Some h])))"

fun take_prefix :: "nat \<Rightarrow> nat \<Rightarrow> nat option list \<Rightarrow> store_error + nat list" where
  "take_prefix num i [] = Inr []"
| "take_prefix num i (h # hs) =
     (case (i < num, h) of
        (True, Some k) \<Rightarrow> rbind (take_prefix num (Suc i) hs) (\<lambda>ks. Inr (k # ks))
      | (False, None) \<Rightarrow> take_prefix num (Suc i) hs
      | _ \<Rightarrow> Inl InvalidStorage)"

definition get_handles :: "nat \<Rightarrow> keys \<Rightarrow> 'p store \<Rightarrow> store_error + nat list" where
  "get_handles ub K s =
     rbind (store_iter ub s) (\<lambda>it.
       rbind (collect_handles K it (replicate (keys_len K) None)) (\<lambda>hs.
         take_prefix (length (filter (\<lambda>h. h \<noteq> None) hs)) 0 hs))"

fun read_values :: "'p pddb \<Rightarrow> nat list \<Rightarrow> 'p store \<Rightarrow> store_error + bytes" where
  "read_values P [] s = Inr []"
| "read_values P (h # hs) s =
     rbind (get_value P h s) (\<lambda>v. rbind (read_values P hs s) (\<lambda>r. Inr (v @ r)))"

definition fragment_read :: "nat \<Rightarrow> 'p pddb \<Rightarrow> keys \<Rightarrow> 'p store \<Rightarrow> store_error + bytes option" where
  "fragment_read ub P K s =
     rbind (get_handles ub K s) (\<lambda>handles.
       if handles = [] then Inr None
       else rbind (read_values P handles s) (\<lambda>r. Inr (Some r)))"

fun read_range_values ::
  "'p pddb \<Rightarrow> nat list \<Rightarrow> nat \<Rightarrow> nat \<Rightarrow> nat \<Rightarrow> 'p store \<Rightarrow> store_error + bytes" where
  "read_range_values P [] offset start end' s = Inr []"
| "read_range_values P (h # hs) offset start end' s =
     rbind (get_length P h s) (\<lambda>len.
       let st = start - offset; en = min (end' - offset) len
       in rbind (if st < en then rbind (get_value P h s) (\<lambda>v. Inr (drop st (take en v))) else Inr [])
            (\<lambda>v. rbind (read_range_values P hs (offset + len) start end' s) (\<lambda>r. Inr (v @ r))))"

definition fragment_read_range ::
  "nat \<Rightarrow> 'p pddb \<Rightarrow> keys \<Rightarrow> nat \<Rightarrow> nat \<Rightarrow> 'p store \<Rightarrow> store_error + bytes option" where
  "fragment_read_range ub P K start end' s =
     (if end' < start then Inl InvalidArgument
      else rbind (get_handles ub K s) (\<lambda>handles.
        if handles = [] then Inr None
        else rbind (read_range_values P handles 0 start end' s) (\<lambda>r. Inr (Some r))))"

function chunks :: "nat \<Rightarrow> 'a list \<Rightarrow> 'a list list" where
  "chunks n xs = (if xs = [] \<or> n = 0 then [] else take n xs # chunks n (drop n xs))"
  by pat_completeness auto
termination chunks
  by (relation "measure (\<lambda>(n, xs). length xs)") auto

declare chunks.simps [simp del]

text \<open>The loop over positions: the handles and chunks that remain, and the updates they ask for.\<close>

fun write_updates ::
  "'p pddb \<Rightarrow> 'p store \<Rightarrow> nat list \<Rightarrow> nat list \<Rightarrow> bytes list \<Rightarrow>
     store_error + store_update list \<times> bytes list" where
  "write_updates P s [] hs cs = Inr ([], cs)"
| "write_updates P s (k # ks) [] [] = write_updates P s ks [] []"
| "write_updates P s (k # ks) (h # hs) [] =
     rbind (write_updates P s ks hs []) (\<lambda>(us, cs). Inr (Remove k # us, cs))"
| "write_updates P s (k # ks) (h # hs) (c # cs) =
     rbind (get_value P h s) (\<lambda>v.
       rbind (write_updates P s ks hs cs) (\<lambda>(us, cs').
         Inr (if v = c then us else Insert k c # us, cs')))"
| "write_updates P s (k # ks) [] (c # cs) =
     rbind (write_updates P s ks [] cs) (\<lambda>(us, cs'). Inr (Insert k c # us, cs'))"

definition fragment_write ::
  "nat \<Rightarrow> 'p pddb \<Rightarrow> keys \<Rightarrow> bytes \<Rightarrow> ('p store, store_error, unit) op" where
  "fragment_write ub P K value s =
     (case rbind (get_handles ub K s) (\<lambda>handles.
             write_updates P s (map (keys_key K) [0..<keys_len K]) handles
               (chunks max_value_length value)) of
        Inl e \<Rightarrow> (Inl e, s)
      | Inr (updates, rest) \<Rightarrow>
          if rest \<noteq> [] then (Inl InvalidArgument, s) else transaction P updates s)"

definition fragment_delete :: "nat \<Rightarrow> 'p pddb \<Rightarrow> keys \<Rightarrow> ('p store, store_error, unit) op" where
  "fragment_delete ub P K s =
     (case get_handles ub K s of
        Inl e \<Rightarrow> (Inl e, s)
      | Inr handles \<Rightarrow> transaction P (map Remove handles) s)"

section \<open>Fragmented values\<close>

text \<open>The entry at a range of keys holds the chunks \<open>cs\<close>: they fill a prefix of the keys.\<close>

definition holds_chunks ::
  "('p \<Rightarrow> string \<Rightarrow> bytes option) \<Rightarrow> nat \<Rightarrow> nat \<Rightarrow> bytes list \<Rightarrow> 'p store \<Rightarrow> bool" where
  "holds_chunks view a b cs s \<longleftrightarrow>
     length cs \<le> b - a \<and>
     (\<forall>k. a \<le> k \<and> k < b \<longrightarrow> content view s k = (if k - a < length cs then Some (cs ! (k - a)) else None))"

lemma holds_chunks_length: "holds_chunks view a b cs s \<Longrightarrow> length cs \<le> b - a"
  by (simp add: holds_chunks_def)

lemma holds_chunks_content:
  "holds_chunks view a b cs s \<Longrightarrow> i < b - a \<Longrightarrow>
     content view s (a + i) = (if i < length cs then Some (cs ! i) else None)"
  by (simp add: holds_chunks_def)

lemma collect_handles_range:
  assumes "distinct ks" "length hs = b - a"
    and "\<forall>k\<in>set ks. a \<le> k \<and> k < b \<longrightarrow> hs ! (k - a) = None"
  shows "\<exists>hs'. collect_handles (range_keys a b) (map Inr ks) hs = Inr hs' \<and> length hs' = b - a \<and>
    (\<forall>i < b - a. hs' ! i = (if a + i \<in> set ks then Some (a + i) else hs ! i))"
  using assms
proof (induction ks arbitrary: hs)
  case Nil
  then show ?case by simp
next
  case (Cons k ks)
  show ?case
  proof (cases "a \<le> k \<and> k < b")
    case True
    let ?hs = "hs[k - a := Some k]"
    have "\<forall>j\<in>set ks. a \<le> j \<and> j < b \<longrightarrow> ?hs ! (j - a) = None"
      using Cons.prems True by (auto simp: nth_list_update eq_diff_iff)
    with Cons obtain hs' where hs': "collect_handles (range_keys a b) (map Inr ks) ?hs = Inr hs'"
      "length hs' = b - a" "\<forall>i < b - a. hs' ! i = (if a + i \<in> set ks then Some (a + i) else ?hs ! i)"
      by (metis distinct.simps(2) length_list_update)
    have "collect_handles (range_keys a b) (map Inr (k # ks)) hs = Inr hs'"
      using True Cons.prems(3) hs'(1) by (auto simp: range_keys_def)
    moreover have "hs' ! i = (if a + i \<in> set (k # ks) then Some (a + i) else hs ! i)" if "i < b - a" for i
      using hs'(3) that True Cons.prems(2) by (auto simp: nth_list_update)
    ultimately show ?thesis using hs'(2) by blast
  next
    case False
    then have "collect_handles (range_keys a b) (map Inr (k # ks)) hs =
        collect_handles (range_keys a b) (map Inr ks) hs"
      by (auto simp: range_keys_def)
    moreover have "a + i \<in> set (k # ks) \<longleftrightarrow> a + i \<in> set ks" if "i < b - a" for i
      using False that by auto
    ultimately show ?thesis
      using Cons by (simp del: collect_handles.simps)
  qed
qed

lemma take_prefix_None: "num \<le> i \<Longrightarrow> take_prefix num i (replicate m None) = Inr []"
  by (induction m arbitrary: i) simp_all

lemma take_prefix_prefix:
  "num = i + length ks \<Longrightarrow> take_prefix num i (map Some ks @ replicate m None) = Inr ks"
  by (induction ks arbitrary: i) (simp_all add: take_prefix_None)

lemma get_handles_ok:
  assumes "store_inv ub P view s" "holds_chunks view a b cs s"
  shows "get_handles ub (range_keys a b) s = Inr [a..<a + length cs]"
proof -
  obtain ks where ks: "store_iter ub s = Inr (map Inr ks)" "distinct ks" "set ks = dom (content view s)"
    using st.iterate [OF assms(1)] by blast
  have n: "length cs \<le> b - a" and len: "keys_len (range_keys a b) = b - a"
    using assms(2) by (simp_all add: holds_chunks_def range_keys_def)
  obtain hs where hs: "collect_handles (range_keys a b) (map Inr ks) (replicate (b - a) None) = Inr hs"
    "length hs = b - a"
    "\<forall>i < b - a. hs ! i = (if a + i \<in> set ks then Some (a + i) else replicate (b - a) None ! i)"
    using collect_handles_range [OF ks(2), of "replicate (b - a) None" b a] by force
  have "hs = map Some [a..<a + length cs] @ replicate (b - a - length cs) None"
    using hs(2,3) n holds_chunks_content [OF assms(2)] ks(3)
    by (intro nth_equalityI) (auto simp: nth_append domIff)
  moreover have "filter (\<lambda>h. h \<noteq> None) (map Some xs @ replicate m None) = map Some xs" for xs :: "nat list" and m
    by (induction xs) simp_all
  ultimately show ?thesis
    using hs(1) ks(1) by (simp add: get_handles_def len take_prefix_prefix)
qed

lemma upt_shift: "[a..<a + length (c # cs)] = a # [Suc a..<Suc a + length cs]"
  by (simp add: upt_conv_Cons del: upt_Suc)

lemma read_values_ok:
  assumes "store_inv ub P view s" "\<forall>i < length cs. content view s (a + i) = Some (cs ! i)"
  shows "read_values P [a..<a + length cs] s = Inr (concat cs)"
  using assms(2)
proof (induction cs arbitrary: a)
  case Nil
  then show ?case by simp
next
  case (Cons c cs)
  have "content view s a = Some c" using Cons.prems by force
  moreover have "\<forall>i < length cs. content view s (Suc a + i) = Some (cs ! i)"
    using Cons.prems by (metis Suc_less_eq add_Suc_shift length_Cons nth_Cons_Suc)
  ultimately show ?case
    using Cons.IH [of "Suc a"] get_value_ok [OF assms(1), of a]
    unfolding upt_shift by simp
qed

lemma read_range_values_ok:
  assumes "store_inv ub P view s" "\<forall>i < length cs. content view s (a + i) = Some (cs ! i)"
  shows "read_range_values P [a..<a + length cs] off start end' s =
    Inr (drop (start - off) (take (end' - off) (concat cs)))"
  using assms(2)
proof (induction cs arbitrary: a off)
  case Nil
  then show ?case by simp
next
  case (Cons c cs)
  have a: "content view s a = Some c" using Cons.prems by force
  have "\<forall>i < length cs. content view s (Suc a + i) = Some (cs ! i)"
    using Cons.prems by (metis Suc_less_eq add_Suc_shift length_Cons nth_Cons_Suc)
  note IH = Cons.IH [OF this, of "off + length c"]
  have "(if start - off < min (end' - off) (length c) then drop (start - off) (take (min (end' - off) (length c)) c) else []) =
      drop (start - off) (take (end' - off) c)"
    by (auto simp: min_def)
  with IH a show ?case
    using get_value_ok [OF assms(1), of a] get_length_ok [OF assms(1), of a]
    unfolding upt_shift by (cases "end' - off \<le> length c") (auto simp: Let_def)
qed

lemma chunks_concat: "0 < n \<Longrightarrow> concat (chunks n xs) = xs"
proof (induction n xs rule: chunks.induct)
  case (1 n xs)
  then show ?case by (cases "xs = []") (subst chunks.simps, simp)+
qed

lemma chunks_Nil_iff: "0 < n \<Longrightarrow> chunks n xs = [] \<longleftrightarrow> xs = []"
  by (subst chunks.simps) simp

lemma length_chunks_le: "0 < n \<Longrightarrow> length (chunks n xs) \<le> m \<longleftrightarrow> length xs \<le> m * n"
proof (induction n xs arbitrary: m rule: chunks.induct)
  case (1 n xs)
  show ?case
  proof (cases "xs = []")
    case False
    then have "length (chunks n xs) = Suc (length (chunks n (drop n xs)))"
      using 1(2) by (subst chunks.simps) simp
    moreover have "length (chunks n (drop n xs)) \<le> k \<longleftrightarrow> length xs \<le> n + k * n" for k
      using 1(1) [of k] 1(2) False by auto
    ultimately show ?thesis using False by (cases m) auto
  qed (simp add: chunks.simps)
qed

lemma fold_after:
  assumes "\<forall>m. (\<forall>j\<in>A. m j = f j) \<longrightarrow> (\<forall>j. fold apply_to us m j = (if j \<in> A then g j else m j))"
    and "k \<notin> A" and "\<forall>j\<in>A. m j = f j"
  shows "fold apply_to us (m(k := x)) j = (if j \<in> A then g j else if j = k then x else m j)"
proof -
  have "\<forall>j\<in>A. (m(k := x)) j = f j" using assms(2,3) by auto
  with assms(1) have "fold apply_to us (m(k := x)) j = (if j \<in> A then g j else (m(k := x)) j)" by blast
  then show ?thesis by simp
qed

lemma write_updates_ok:
  assumes "store_inv ub P view s" "distinct ks" "hs = take (length hs) ks"
    and "\<forall>k\<in>set ks. content view s k \<noteq> None \<longleftrightarrow> k \<in> set hs"
  shows "\<exists>us. write_updates P s ks hs cs = Inr (us, drop (length ks) cs) \<and>
    update_key ` set us \<subseteq> set ks \<and>
    (\<forall>m. (\<forall>k\<in>set ks. m k = content view s k) \<longrightarrow>
       (\<forall>k. fold apply_to us m k = (if k \<in> set ks then map_of (zip ks cs) k else m k)))"
  using assms(2-4)
proof (induction ks arbitrary: hs cs)
  case Nil
  then show ?case by auto
next
  case (Cons k ks)
  show ?case
  proof (cases hs)
    case Nil
    have "\<forall>j\<in>set ks. content view s j \<noteq> None \<longleftrightarrow> j \<in> set []" "content view s k = None"
      using Cons.prems Nil by auto
    note IH = Cons.IH [of "[]", OF _ _ this(1)]
    show ?thesis
    proof (cases cs)
      case Nil': Nil
      from IH [of "[]"] Cons.prems obtain us where us: "write_updates P s ks [] [] = Inr (us, [])"
        "update_key ` set us \<subseteq> set ks"
        "\<forall>m. (\<forall>k\<in>set ks. m k = content view s k) \<longrightarrow>
           (\<forall>k. fold apply_to us m k = (if k \<in> set ks then None else m k))" by auto
      with Nil Nil' \<open>content view s k = None\<close> show ?thesis by auto
    next
      case Cons': (Cons c cs')
      from IH [of cs'] Cons.prems obtain us where us:
        "write_updates P s ks [] cs' = Inr (us, drop (length ks) cs')" "update_key ` set us \<subseteq> set ks"
        "\<forall>m. (\<forall>k\<in>set ks. m k = content view s k) \<longrightarrow>
           (\<forall>k. fold apply_to us m k = (if k \<in> set ks then map_of (zip ks cs') k else m k))" by auto
      have "k \<notin> set ks" using Cons.prems by simp
      with us Nil Cons' fold_after [OF us(3) this] show ?thesis by auto
    qed
  next
    case Cons1: (Cons h hs')
    have h: "h = k" and hs': "hs' = take (length hs') ks" and k: "k \<notin> set ks" "distinct ks"
      using Cons.prems Cons1 by auto
    have "k \<notin> set hs'" using hs' k(1) by (metis in_set_takeD)
    then have dom: "\<forall>j\<in>set ks. content view s j \<noteq> None \<longleftrightarrow> j \<in> set hs'"
      using Cons.prems(3) Cons1 h k(1) by auto
    obtain v where v: "content view s k = Some v" using Cons.prems(3) Cons1 h by auto
    show ?thesis
    proof (cases cs)
      case Nil
      from Cons.IH [OF k(2) hs' dom, of "[]"] obtain us where us:
        "write_updates P s ks hs' [] = Inr (us, [])" "update_key ` set us \<subseteq> set ks"
        "\<forall>m. (\<forall>k\<in>set ks. m k = content view s k) \<longrightarrow>
           (\<forall>k. fold apply_to us m k = (if k \<in> set ks then None else m k))" by auto
      with Nil Cons1 h k(1) fold_after [OF us(3) k(1)] show ?thesis by auto
    next
      case Cons2: (Cons c cs')
      from Cons.IH [OF k(2) hs' dom, of cs'] obtain us where us:
        "write_updates P s ks hs' cs' = Inr (us, drop (length ks) cs')" "update_key ` set us \<subseteq> set ks"
        "\<forall>m. (\<forall>k\<in>set ks. m k = content view s k) \<longrightarrow>
           (\<forall>k. fold apply_to us m k = (if k \<in> set ks then map_of (zip ks cs') k else m k))" by auto
      have "write_updates P s (k # ks) hs cs =
          Inr (if v = c then us else Insert k c # us, drop (length (k # ks)) cs)"
        using us(1) Cons2 Cons1 h get_value_ok [OF assms(1), of k] v by simp
      moreover have "fold apply_to (if v = c then us else Insert k c # us) m j =
          (if j \<in> set (k # ks) then map_of (zip (k # ks) cs) j else m j)"
        if "\<forall>i\<in>set (k # ks). m i = content view s i" for m j
        using fold_after [OF us(3) k(1), of m "Some c" j] that v Cons2 k(1)
        by (cases "v = c") (auto simp: fun_upd_idem)
      moreover have "update_key ` set (if v = c then us else Insert k c # us) \<subseteq> set (k # ks)"
        using us(2) by auto
      ultimately show ?thesis by blast
    qed
  qed
qed

section \<open>Reading and writing a range of keys\<close>

lemma fragment_read_ok:
  assumes "store_inv ub P view s" "holds_chunks view a b cs s"
  shows "fragment_read ub P (range_keys a b) s = Inr (if cs = [] then None else Some (concat cs))"
proof -
  have "\<forall>i < length cs. content view s (a + i) = Some (cs ! i)"
    using assms(2) holds_chunks_length [OF assms(2)] by (simp add: holds_chunks_def)
  note vs = read_values_ok [OF assms(1) this]
  show ?thesis
    using get_handles_ok [OF assms] vs by (simp add: fragment_read_def)
qed

lemma fragment_read_range_ok:
  assumes "store_inv ub P view s" "holds_chunks view a b cs s" "start \<le> end'"
  shows "fragment_read_range ub P (range_keys a b) start end' s =
    Inr (if cs = [] then None else Some (drop start (take end' (concat cs))))"
proof -
  have "\<forall>i < length cs. content view s (a + i) = Some (cs ! i)"
    using assms(2) holds_chunks_length [OF assms(2)] by (simp add: holds_chunks_def)
  note vs = read_range_values_ok [OF assms(1) this, of 0 start end']
  show ?thesis
    using get_handles_ok [OF assms(1,2)] vs assms(3) by (simp add: fragment_read_range_def)
qed

lemma map_of_zip_upt:
  "a \<le> k \<Longrightarrow> map_of (zip [a..<b] cs) k = (if k < b \<and> k - a < length cs then Some (cs ! (k - a)) else None)"
proof (induction cs arbitrary: a)
  case Nil
  then show ?case by simp
next
  case (Cons c cs)
  show ?case
  proof (cases "a < b")
    case True
    then show ?thesis
      using Cons.IH [of "Suc a"] Cons.prems
      by (cases "k = a") (auto simp: upt_conv_Cons nth_Cons')
  qed (use Cons.prems in simp)
qed

lemma held_handles:
  assumes "holds_chunks view a b cs s"
  shows "[a..<a + length cs] = take (length [a..<a + length cs]) [a..<b]"
    and "\<forall>k\<in>set [a..<b]. content view s k \<noteq> None \<longleftrightarrow> k \<in> set [a..<a + length cs]"
proof -
  show "[a..<a + length cs] = take (length [a..<a + length cs]) [a..<b]"
    using holds_chunks_length [OF assms] by (intro nth_equalityI) auto
  show "\<forall>k\<in>set [a..<b]. content view s k \<noteq> None \<longleftrightarrow> k \<in> set [a..<a + length cs]"
    using assms by (auto simp: holds_chunks_def)
qed

lemma fragment_write_ok:
  assumes inv: "store_inv ub P view s" and held: "holds_chunks view a b cs s" and b: "b \<le> 2 ^ ub"
    and fits: "length value \<le> (b - a) * max_value_length"
  shows "\<exists>s'. fragment_write ub P (range_keys a b) value s = (Inr (), s') \<and> store_inv ub P view s' \<and>
    holds_chunks view a b (chunks max_value_length value) s' \<and>
    (\<forall>k. k < a \<or> b \<le> k \<longrightarrow> content view s' k = content view s k)"
proof -
  let ?vs = "chunks max_value_length value" and ?hs = "[a..<a + length cs]"
  have n: "0 < max_value_length" by (simp add: max_value_length_def)
  have vs: "length ?vs \<le> b - a" using fits by (simp add: length_chunks_le [OF n])
  obtain us where us: "write_updates P s [a..<b] ?hs ?vs = Inr (us, drop (length [a..<b]) ?vs)"
    "update_key ` set us \<subseteq> set [a..<b]"
    "\<forall>m. (\<forall>k\<in>set [a..<b]. m k = content view s k) \<longrightarrow>
       (\<forall>k. fold apply_to us m k = (if k \<in> set [a..<b] then map_of (zip [a..<b] ?vs) k else m k))"
    using write_updates_ok [OF inv distinct_upt held_handles [OF held]] by blast
  have ks: "map (keys_key (range_keys a b)) [0..<keys_len (range_keys a b)] = [a..<b]"
    by (rule nth_equalityI) (simp_all add: range_keys_def)
  have "\<forall>u\<in>set us. update_key u < 2 ^ ub"
    using us(2) b by fastforce
  then obtain s' where s': "transaction P us s = (Inr (), s')" "store_inv ub P view s'"
    "content view s' = fold apply_to us (content view s)"
    using st.transact [OF inv] by blast
  have run: "fragment_write ub P (range_keys a b) value s = (Inr (), s')"
    using get_handles_ok [OF inv held] us(1) s'(1) vs ks by (simp add: fragment_write_def)
  have eff: "content view s' k = (if a \<le> k \<and> k < b then map_of (zip [a..<b] ?vs) k else content view s k)" for k
    using us(3) s'(3) by auto
  have "holds_chunks view a b ?vs s'"
    using vs by (auto simp: holds_chunks_def eff map_of_zip_upt)
  then show ?thesis using run s'(2) eff by auto
qed

lemma fragment_write_too_long:
  assumes inv: "store_inv ub P view s" and held: "holds_chunks view a b cs s"
    and long: "(b - a) * max_value_length < length value"
  shows "fragment_write ub P (range_keys a b) value s = (Inl InvalidArgument, s)"
proof -
  let ?vs = "chunks max_value_length value" and ?hs = "[a..<a + length cs]"
  have n: "0 < max_value_length" by (simp add: max_value_length_def)
  have vs: "b - a < length ?vs" using long by (simp add: length_chunks_le [OF n] flip: not_le)
  obtain us where us: "write_updates P s [a..<b] ?hs ?vs = Inr (us, drop (length [a..<b]) ?vs)"
    using write_updates_ok [OF inv distinct_upt held_handles [OF held]] by blast
  have ks: "map (keys_key (range_keys a b)) [0..<keys_len (range_keys a b)] = [a..<b]"
    by (rule nth_equalityI) (simp_all add: range_keys_def)
  show ?thesis
    using get_handles_ok [OF inv held] us vs ks by (simp add: fragment_write_def)
qed

text \<open>C18: a value that fits the keys is written and read back, whole or a part of it, and writing
  touches no other key; a value that does not fit is refused and the store is unchanged. The
  empty value reads as absent.\<close>

theorem fragment_round_trip:
  assumes "store_inv ub P view s" "holds_chunks view a b cs s" "b \<le> 2 ^ ub"
  shows "if length value \<le> (b - a) * max_value_length then
      \<exists>s'. fragment_write ub P (range_keys a b) value s = (Inr (), s') \<and>
        fragment_read ub P (range_keys a b) s' = Inr (if value = [] then None else Some value) \<and>
        (\<forall>i j. i \<le> j \<longrightarrow> fragment_read_range ub P (range_keys a b) i j s' =
           Inr (if value = [] then None else Some (drop i (take j value)))) \<and>
        (\<forall>k. k < a \<or> b \<le> k \<longrightarrow> find_key P k s' = find_key P k s)
    else fragment_write ub P (range_keys a b) value s = (Inl InvalidArgument, s)"
proof (cases "length value \<le> (b - a) * max_value_length")
  case True
  have n: "0 < max_value_length" by (simp add: max_value_length_def)
  obtain s' where s': "fragment_write ub P (range_keys a b) value s = (Inr (), s')"
    "store_inv ub P view s'" "holds_chunks view a b (chunks max_value_length value) s'"
    "\<forall>k. k < a \<or> b \<le> k \<longrightarrow> content view s' k = content view s k"
    using fragment_write_ok [OF assms True] by blast
  note read = fragment_read_ok [OF s'(2,3)] fragment_read_range_ok [OF s'(2,3)]
  show ?thesis
    using True s'(1,4) read st.find [OF s'(2)] st.find [OF assms(1)]
    by (auto simp: chunks_concat [OF n] chunks_Nil_iff [OF n])
next
  case False
  then show ?thesis using fragment_write_too_long [OF assms(1,2)] by simp
qed

lemma fragment_round_trip_witness:
  "\<exists>s'. fragment_write 32 alist_pddb (range_keys 2000 2004) [1, 2, 3] (new_store alist_pddb [(decimal 2000, [9])])
      = (Inr (), s') \<and>
    fragment_read_range 32 alist_pddb (range_keys 2000 2004) 1 7 s' = Inr (Some [2, 3])"
proof -
  have inv: "store_inv 32 alist_pddb map_of (new_store alist_pddb [(decimal 2000, [9])])"
    by (rule new_alist_store_inv) simp
  have held: "holds_chunks map_of 2000 2004 [[9]] (new_store alist_pddb [(decimal 2000, [9])])"
    by (auto simp: holds_chunks_def content_def new_store_def)
  show ?thesis
    using fragment_round_trip [OF inv held, of "[1, 2, 3]"] by (auto simp: max_value_length_def)
qed

end
