(* ===== verification/Status.thy ===== *)
theory Status
  imports Prelude
begin

text \<open>
  The CTAP2 status codes of \<open>src/ctap/status_code.rs\<close> with the byte each is sent as, and the
  conversions from the errors of the components below (user presence, key store, attestation
  store, \<open>persistent_store\<close>). Enumerators that Rust prefixes with an underscore are named without.
\<close>

datatype status =
    CTAP2_OK
  | CTAP1_ERR_INVALID_COMMAND
  | CTAP1_ERR_INVALID_PARAMETER
  | CTAP1_ERR_INVALID_LENGTH
  | CTAP1_ERR_INVALID_SEQ
  | CTAP1_ERR_TIMEOUT
  | CTAP1_ERR_CHANNEL_BUSY
  | CTAP1_ERR_LOCK_REQUIRED
  | CTAP1_ERR_INVALID_CHANNEL
  | CTAP2_ERR_CBOR_UNEXPECTED_TYPE
  | CTAP2_ERR_INVALID_CBOR
  | CTAP2_ERR_MISSING_PARAMETER
  | CTAP2_ERR_LIMIT_EXCEEDED
  | CTAP2_ERR_FP_DATABASE_FULL
  | CTAP2_ERR_LARGE_BLOB_STORAGE_FULL
  | CTAP2_ERR_CREDENTIAL_EXCLUDED
  | CTAP2_ERR_PROCESSING
  | CTAP2_ERR_INVALID_CREDENTIAL
  | CTAP2_ERR_USER_ACTION_PENDING
  | CTAP2_ERR_OPERATION_PENDING
  | CTAP2_ERR_NO_OPERATIONS
  | CTAP2_ERR_UNSUPPORTED_ALGORITHM
  | CTAP2_ERR_OPERATION_DENIED
  | CTAP2_ERR_KEY_STORE_FULL
  | CTAP2_ERR_NO_OPERATION_PENDING
  | CTAP2_ERR_UNSUPPORTED_OPTION
  | CTAP2_ERR_INVALID_OPTION
  | CTAP2_ERR_KEEPALIVE_CANCEL
  | CTAP2_ERR_NO_CREDENTIALS
  | CTAP2_ERR_USER_ACTION_TIMEOUT
  | CTAP2_ERR_NOT_ALLOWED
  | CTAP2_ERR_PIN_INVALID
  | CTAP2_ERR_PIN_BLOCKED
  | CTAP2_ERR_PIN_AUTH_INVALID
  | CTAP2_ERR_PIN_AUTH_BLOCKED
  | CTAP2_ERR_PIN_NOT_SET
  | CTAP2_ERR_PUAT_REQUIRED
  | CTAP2_ERR_PIN_POLICY_VIOLATION
  | CTAP2_ERR_PIN_TOKEN_EXPIRED
  | CTAP2_ERR_REQUEST_TOO_LARGE
  | CTAP2_ERR_ACTION_TIMEOUT
  | CTAP2_ERR_UP_REQUIRED
  | CTAP2_ERR_UV_BLOCKED
  | CTAP2_ERR_INTEGRITY_FAILURE
  | CTAP2_ERR_INVALID_SUBCOMMAND
  | CTAP2_ERR_UV_INVALID
  | CTAP2_ERR_UNAUTHORIZED_PERMISSION
  | CTAP1_ERR_OTHER
  | CTAP2_ERR_SPEC_LAST
  | CTAP2_ERR_EXTENSION_FIRST
  | CTAP2_ERR_EXTENSION_LAST
  | CTAP2_ERR_VENDOR_FIRST
  | CTAP2_ERR_VENDOR_INTERNAL_ERROR
  | CTAP2_ERR_VENDOR_HARDWARE_FAILURE
  | CTAP2_ERR_VENDOR_LAST

fun status_code :: "status \<Rightarrow> u8" where
  "status_code CTAP2_OK = 0x00"
| "status_code CTAP1_ERR_INVALID_COMMAND = 0x01"
| "status_code CTAP1_ERR_INVALID_PARAMETER = 0x02"
| "status_code CTAP1_ERR_INVALID_LENGTH = 0x03"
| "status_code CTAP1_ERR_INVALID_SEQ = 0x04"
| "status_code CTAP1_ERR_TIMEOUT = 0x05"
| "status_code CTAP1_ERR_CHANNEL_BUSY = 0x06"
| "status_code CTAP1_ERR_LOCK_REQUIRED = 0x0A"
| "status_code CTAP1_ERR_INVALID_CHANNEL = 0x0B"
| "status_code CTAP2_ERR_CBOR_UNEXPECTED_TYPE = 0x11"
| "status_code CTAP2_ERR_INVALID_CBOR = 0x12"
| "status_code CTAP2_ERR_MISSING_PARAMETER = 0x14"
| "status_code CTAP2_ERR_LIMIT_EXCEEDED = 0x15"
| "status_code CTAP2_ERR_FP_DATABASE_FULL = 0x17"
| "status_code CTAP2_ERR_LARGE_BLOB_STORAGE_FULL = 0x18"
| "status_code CTAP2_ERR_CREDENTIAL_EXCLUDED = 0x19"
| "status_code CTAP2_ERR_PROCESSING = 0x21"
| "status_code CTAP2_ERR_INVALID_CREDENTIAL = 0x22"
| "status_code CTAP2_ERR_USER_ACTION_PENDING = 0x23"
| "status_code CTAP2_ERR_OPERATION_PENDING = 0x24"
| "status_code CTAP2_ERR_NO_OPERATIONS = 0x25"
| "status_code CTAP2_ERR_UNSUPPORTED_ALGORITHM = 0x26"
| "status_code CTAP2_ERR_OPERATION_DENIED = 0x27"
| "status_code CTAP2_ERR_KEY_STORE_FULL = 0x28"
| "status_code CTAP2_ERR_NO_OPERATION_PENDING = 0x2A"
| "status_code CTAP2_ERR_UNSUPPORTED_OPTION = 0x2B"
| "status_code CTAP2_ERR_INVALID_OPTION = 0x2C"
| "status_code CTAP2_ERR_KEEPALIVE_CANCEL = 0x2D"
| "status_code CTAP2_ERR_NO_CREDENTIALS = 0x2E"
| "status_code CTAP2_ERR_USER_ACTION_TIMEOUT = 0x2F"
| "status_code CTAP2_ERR_NOT_ALLOWED = 0x30"
| "status_code CTAP2_ERR_PIN_INVALID = 0x31"
| "status_code CTAP2_ERR_PIN_BLOCKED = 0x32"
| "status_code CTAP2_ERR_PIN_AUTH_INVALID = 0x33"
| "status_code CTAP2_ERR_PIN_AUTH_BLOCKED = 0x34"
| "status_code CTAP2_ERR_PIN_NOT_SET = 0x35"
| "status_code CTAP2_ERR_PUAT_REQUIRED = 0x36"
| "status_code CTAP2_ERR_PIN_POLICY_VIOLATION = 0x37"
| "status_code CTAP2_ERR_PIN_TOKEN_EXPIRED = 0x38"
| "status_code CTAP2_ERR_REQUEST_TOO_LARGE = 0x39"
| "status_code CTAP2_ERR_ACTION_TIMEOUT = 0x3A"
| "status_code CTAP2_ERR_UP_REQUIRED = 0x3B"
| "status_code CTAP2_ERR_UV_BLOCKED = 0x3C"
| "status_code CTAP2_ERR_INTEGRITY_FAILURE = 0x3D"
| "status_code CTAP2_ERR_INVALID_SUBCOMMAND = 0x3E"
| "status_code CTAP2_ERR_UV_INVALID = 0x3F"
| "status_code CTAP2_ERR_UNAUTHORIZED_PERMISSION = 0x40"
| "status_code CTAP1_ERR_OTHER = 0x7F"
| "status_code CTAP2_ERR_SPEC_LAST = 0xDF"
| "status_code CTAP2_ERR_EXTENSION_FIRST = 0xE0"
| "status_code CTAP2_ERR_EXTENSION_LAST = 0xEF"
| "status_code CTAP2_ERR_VENDOR_FIRST = 0xF0"
| "status_code CTAP2_ERR_VENDOR_INTERNAL_ERROR = 0xF2"
| "status_code CTAP2_ERR_VENDOR_HARDWARE_FAILURE = 0xF3"
| "status_code CTAP2_ERR_VENDOR_LAST = 0xFF"

datatype user_presence_error = Timeout | Declined | Canceled

fun status_of_presence :: "user_presence_error \<Rightarrow> status" where
  "status_of_presence Timeout = CTAP2_ERR_USER_ACTION_TIMEOUT"
| "status_of_presence Declined = CTAP2_ERR_OPERATION_DENIED"
| "status_of_presence Canceled = CTAP2_ERR_KEEPALIVE_CANCEL"

datatype key_store_error = KeyStoreError

definition status_of_key_store :: "key_store_error \<Rightarrow> status" where
  "status_of_key_store e = CTAP2_ERR_VENDOR_INTERNAL_ERROR"

datatype attestation_error = AttestationStorage | AttestationInternal | AttestationNoSupport

fun status_of_attestation :: "attestation_error \<Rightarrow> status" where
  "status_of_attestation AttestationStorage = CTAP2_ERR_VENDOR_HARDWARE_FAILURE"
| "status_of_attestation AttestationInternal = CTAP2_ERR_VENDOR_INTERNAL_ERROR"
| "status_of_attestation AttestationNoSupport = CTAP2_ERR_VENDOR_INTERNAL_ERROR"

text \<open>\<open>ok_or_missing\<close> of \<open>src/ctap/data_formats.rs\<close>.\<close>

definition ok_or_missing :: "'a option \<Rightarrow> status + 'a" where
  "ok_or_missing x = ok_or x CTAP2_ERR_MISSING_PARAMETER"

lemma ok_or_missing_simps [simp]:
  "ok_or_missing None = Inl CTAP2_ERR_MISSING_PARAMETER"
  "ok_or_missing (Some x) = Inr x"
  by (simp_all add: ok_or_missing_def)

end
