(* ===== verification/Crypto.thy ===== *)
theory Crypto
  imports Status
begin

text \<open>
  The symmetric constructions the repository writes itself: HMAC and HKDF
  (\<open>libraries/crypto/src/hmac.rs\<close>, \<open>hkdf.rs\<close>), the CBC mode (\<open>cbc.rs\<close>) and the AES-CBC wrapper of
  \<open>src/ctap/crypto_wrapper.rs\<close>. The primitives come from other crates and are the record
  \<open>crypto\<close>: SHA-256, the AES-256 block permutation, the P-256 key exchange, the signatures (ECDSA over
  P-256, already in DER, and Ed25519, whose secret key is given by its seed) and the random number
  generators, whose \<open>n\<close>-th draw is a function of \<open>n\<close>; the state of the generators is the number of
  draws. \<open>crypto_ok\<close> states what these crates document.
\<close>

section \<open>The primitives\<close>

record crypto =
  sha256 :: "bytes \<Rightarrow> bytes"
  aes_encrypt_block :: "bytes \<Rightarrow> bytes \<Rightarrow> bytes"
  aes_decrypt_block :: "bytes \<Rightarrow> bytes \<Rightarrow> bytes"
  random_u8x32 :: "nat \<Rightarrow> bytes"
  ecdh_random :: "nat \<Rightarrow> bytes"
  ecdh_public :: "bytes \<Rightarrow> bytes \<times> bytes"
  ecdh_shared :: "bytes \<Rightarrow> bytes \<times> bytes \<Rightarrow> bytes"
  ecdh_on_curve :: "bytes \<times> bytes \<Rightarrow> bool"
  ecdsa_random :: "nat \<Rightarrow> bytes"
  ecdsa_valid :: "bytes \<Rightarrow> bool"
  ecdsa_public :: "bytes \<Rightarrow> bytes \<times> bytes"
  ecdsa_sign :: "bytes \<Rightarrow> bytes \<Rightarrow> bytes"
  ed25519_public :: "bytes \<Rightarrow> bytes"
  ed25519_sign :: "bytes \<Rightarrow> bytes \<Rightarrow> bytes"

definition block_cipher_ok :: "crypto \<Rightarrow> bool" where
  "block_cipher_ok C \<longleftrightarrow>
     (\<forall>key b. length b = 16 \<longrightarrow>
        length (aes_encrypt_block C key b) = 16 \<and> length (aes_decrypt_block C key b) = 16 \<and>
        aes_decrypt_block C key (aes_encrypt_block C key b) = b)"

definition crypto_ok :: "crypto \<Rightarrow> bool" where
  "crypto_ok C \<longleftrightarrow>
     block_cipher_ok C \<and> (\<forall>m. length (sha256 C m) = 32) \<and> (\<forall>n. length (random_u8x32 C n) = 32) \<and>
     (\<forall>a b. ecdh_shared C a (ecdh_public C b) = ecdh_shared C b (ecdh_public C a)) \<and>
     (\<forall>a. ecdh_on_curve C (ecdh_public C a)) \<and>
     (\<forall>n. length (ecdsa_random C n) = 32 \<and> ecdsa_valid C (ecdsa_random C n))"

lemma crypto_okD:
  assumes "crypto_ok C"
  shows "block_cipher_ok C" and "length (sha256 C m) = 32" and "length (random_u8x32 C n) = 32"
    and "ecdh_shared C a (ecdh_public C b) = ecdh_shared C b (ecdh_public C a)"
    and "ecdh_on_curve C (ecdh_public C a)"
    and "length (ecdsa_random C n) = 32" and "ecdsa_valid C (ecdsa_random C n)"
  using assms by (auto simp: crypto_ok_def)

text \<open>A generator draw.\<close>

definition gen_uniform_u8x32 :: "crypto \<Rightarrow> nat \<Rightarrow> bytes \<times> nat" where
  "gen_uniform_u8x32 C n = (random_u8x32 C n, Suc n)"

section \<open>HMAC and HKDF\<close>

fun xor_pad :: "bytes \<Rightarrow> bytes \<Rightarrow> bytes" where
  "xor_pad (p # ps) (k # ks) = (p XOR k) # xor_pad ps ks"
| "xor_pad ps _ = ps"

lemma length_xor_pad [simp]: "length (xor_pad ps ks) = length ps"
  by (induction ps ks rule: xor_pad.induct) auto

text \<open>Feeding a hasher piecewise hashes the concatenation.\<close>

definition hmac_256 :: "crypto \<Rightarrow> bytes \<Rightarrow> bytes \<Rightarrow> bytes" where
  "hmac_256 C key contents =
     (let k = (if length key \<le> 64 then key else sha256 C key);
          ipad = xor_pad (replicate 64 0x36) k;
          opad = xor_pad (replicate 64 0x5C) k;
          ihash = sha256 C (ipad @ contents)
      in sha256 C (opad @ ihash))"

definition verify_hmac_256 :: "crypto \<Rightarrow> bytes \<Rightarrow> bytes \<Rightarrow> bytes \<Rightarrow> bool" where
  "verify_hmac_256 C key contents mac = (hmac_256 C key contents = mac)"

definition verify_hmac_256_first_128bits :: "crypto \<Rightarrow> bytes \<Rightarrow> bytes \<Rightarrow> bytes \<Rightarrow> bool" where
  "verify_hmac_256_first_128bits C key contents pin = (take 16 (hmac_256 C key contents) = pin)"

definition hkdf_empty_salt_256 :: "crypto \<Rightarrow> bytes \<Rightarrow> bytes \<Rightarrow> bytes" where
  "hkdf_empty_salt_256 C ikm info =
     (let prk = hmac_256 C (replicate 32 0) ikm in hmac_256 C prk (info @ [1]))"

lemma length_hmac_256: "crypto_ok C \<Longrightarrow> length (hmac_256 C key m) = 32"
  by (simp add: hmac_256_def Let_def crypto_okD)

section \<open>CBC\<close>

definition xor_block_16 :: "bytes \<Rightarrow> bytes \<Rightarrow> bytes" where
  "xor_block_16 block m = map2 (XOR) block m"

lemma length_xor_block [simp]: "length (xor_block_16 b m) = min (length b) (length m)"
  by (simp add: xor_block_16_def)

lemma xor_block_twice: "length b = length m \<Longrightarrow> xor_block_16 (xor_block_16 b m) m = b"
  by (rule nth_equalityI) (simp_all add: xor_block_16_def xor.assoc)

function cbc_encrypt :: "crypto \<Rightarrow> bytes \<Rightarrow> bytes \<Rightarrow> bytes \<Rightarrow> bytes" where
  "cbc_encrypt C key iv bs =
     (if bs = [] then []
      else let block = aes_encrypt_block C key (xor_block_16 (take 16 bs) iv)
           in block @ cbc_encrypt C key block (drop 16 bs))"
  by pat_completeness auto
termination cbc_encrypt
  by (relation "measure (\<lambda>(C, key, iv, bs). length bs)") auto

function cbc_decrypt :: "crypto \<Rightarrow> bytes \<Rightarrow> bytes \<Rightarrow> bytes \<Rightarrow> bytes" where
  "cbc_decrypt C key iv bs =
     (if bs = [] then []
      else let tmp = take 16 bs
           in xor_block_16 (aes_decrypt_block C key tmp) iv @ cbc_decrypt C key tmp (drop 16 bs))"
  by pat_completeness auto
termination cbc_decrypt
  by (relation "measure (\<lambda>(C, key, iv, bs). length bs)") auto

declare cbc_encrypt.simps [simp del] cbc_decrypt.simps [simp del]

lemma cbc_Nil [simp]: "cbc_encrypt C key iv [] = []" "cbc_decrypt C key iv [] = []"
  by (simp_all add: cbc_encrypt.simps cbc_decrypt.simps)

lemma cbc_blocks:
  assumes "length b = 16"
  shows "cbc_encrypt C key iv (b @ bs) =
      (let c = aes_encrypt_block C key (xor_block_16 b iv) in c @ cbc_encrypt C key c bs)"
    and "cbc_decrypt C key iv (b @ bs) =
      xor_block_16 (aes_decrypt_block C key b) iv @ cbc_decrypt C key b bs"
  using assms
  by (auto simp: cbc_encrypt.simps [of C key iv "b @ bs"] cbc_decrypt.simps [of C key iv "b @ bs"])

text \<open>Induction over the 16-byte blocks of a string.\<close>

lemma block_induct [consumes 1, case_names Nil Block]:
  assumes "length bs mod 16 = (0::nat)" "P []"
    and "\<And>b bs. length b = 16 \<Longrightarrow> length bs mod 16 = 0 \<Longrightarrow> P bs \<Longrightarrow> P (b @ bs)"
  shows "P bs"
  using assms(1)
proof (induction "length bs" arbitrary: bs rule: less_induct)
  case less
  show ?case
  proof (cases "bs = []")
    case False
    then have "16 \<le> length bs"
      using less.prems by (metis dvd_imp_le length_greater_0_conv mod_0_imp_dvd)
    then have "length (take 16 bs) = 16" "length (drop 16 bs) mod 16 = 0" "length (drop 16 bs) < length bs"
      using less.prems by (auto simp: le_mod_geq)
    then show ?thesis
      using assms(3) [of "take 16 bs" "drop 16 bs"] less.hyps by simp
  qed (simp add: assms(2))
qed

lemma cbc_round_trip:
  assumes "length bs mod 16 = 0" "block_cipher_ok C" "length iv = 16"
  shows "cbc_decrypt C key iv (cbc_encrypt C key iv bs) = bs \<and>
    length (cbc_encrypt C key iv bs) = length bs"
  using assms(1,3)
proof (induction bs arbitrary: iv rule: block_induct)
  case Nil
  then show ?case by simp
next
  case (Block b bs)
  define c where "c = aes_encrypt_block C key (xor_block_16 b iv)"
  have "length (xor_block_16 b iv) = 16" using Block by simp
  then have c: "length c = 16" "aes_decrypt_block C key c = xor_block_16 b iv"
    using assms(2) by (auto simp: c_def block_cipher_ok_def)
  have enc: "cbc_encrypt C key iv (b @ bs) = c @ cbc_encrypt C key c bs"
    using Block by (simp add: cbc_blocks c_def Let_def)
  show ?case
    using Block c Block.IH [OF c(1)] by (simp add: enc cbc_blocks xor_block_twice)
qed

lemma length_cbc_decrypt:
  assumes "length bs mod 16 = 0" "block_cipher_ok C" "length iv = 16"
  shows "length (cbc_decrypt C key iv bs) = length bs"
  using assms(1,3)
  by (induction bs arbitrary: iv rule: block_induct)
     (use assms(2) in \<open>auto simp: cbc_blocks block_cipher_ok_def\<close>)

section \<open>The AES-256-CBC wrapper\<close>

definition aes256_cbc_encrypt :: "crypto \<Rightarrow> bytes \<Rightarrow> bytes \<Rightarrow> bool \<Rightarrow> (nat, status, bytes) op" where
  "aes256_cbc_encrypt C key plaintext embeds_iv = (\<lambda>n.
     if length plaintext mod 16 \<noteq> 0 then (Inl CTAP1_ERR_INVALID_PARAMETER, n)
     else if embeds_iv then
       (let (random_bytes, n') = gen_uniform_u8x32 C n; iv = take 16 random_bytes
        in (Inr (iv @ cbc_encrypt C key iv plaintext), n'))
     else (Inr (cbc_encrypt C key (replicate 16 0) plaintext), n))"

definition aes256_cbc_decrypt :: "crypto \<Rightarrow> bytes \<Rightarrow> bytes \<Rightarrow> bool \<Rightarrow> status + bytes" where
  "aes256_cbc_decrypt C key ciphertext embeds_iv =
     (if length ciphertext mod 16 \<noteq> 0 \<or> (embeds_iv \<and> ciphertext = [])
      then Inl CTAP1_ERR_INVALID_PARAMETER
      else if embeds_iv
           then Inr (cbc_decrypt C key (take 16 ciphertext) (drop 16 ciphertext))
           else Inr (cbc_decrypt C key (replicate 16 0) ciphertext))"

lemma aes256_cbc_encrypt_ok:
  assumes "crypto_ok C" "length pt mod 16 = 0"
  shows "\<exists>ct. aes256_cbc_encrypt C key pt e n = (Inr ct, if e then Suc n else n) \<and>
    length ct = length pt + (if e then 16 else 0) \<and> aes256_cbc_decrypt C key ct e = Inr pt"
proof -
  have iv: "length (take 16 (random_u8x32 C n)) = 16" "take 16 (random_u8x32 C n) \<noteq> []"
    using crypto_okD(3) [OF assms(1), of n] by auto
  note rt = cbc_round_trip [OF assms(2) crypto_okD(1) [OF assms(1)], of _ key]
  show ?thesis
    using rt [OF iv(1)] rt [of "replicate 16 0"] iv assms(2)
    by (cases e) (simp_all add: aes256_cbc_encrypt_def aes256_cbc_decrypt_def gen_uniform_u8x32_def Let_def)
qed

lemma aes256_cbc_encrypt_iff:
  "fst (aes256_cbc_encrypt C key pt e n) = Inl s \<longleftrightarrow>
     length pt mod 16 \<noteq> 0 \<and> s = CTAP1_ERR_INVALID_PARAMETER"
  by (auto simp: aes256_cbc_encrypt_def gen_uniform_u8x32_def Let_def)

lemma aes256_cbc_decrypt_length:
  assumes "crypto_ok C" "aes256_cbc_decrypt C key ct e = Inr pt"
  shows "length pt = length ct - (if e then 16 else 0) \<and> length pt mod 16 = 0"
proof -
  have len: "length ct mod 16 = 0" "e \<Longrightarrow> ct \<noteq> []"
    using assms(2) by (auto simp: aes256_cbc_decrypt_def split: if_splits)
  note dec = length_cbc_decrypt [OF _ crypto_okD(1) [OF assms(1)], of _ _ key]
  show ?thesis
  proof (cases e)
    case True
    then have "16 \<le> length ct"
      using len by (metis dvd_imp_le length_greater_0_conv mod_0_imp_dvd)
    then have "length (drop 16 ct) mod 16 = 0" "length (take 16 ct) = 16"
      using len(1) by (auto simp: le_mod_geq)
    then show ?thesis
      using True assms(2) dec [of "drop 16 ct" "take 16 ct"]
      by (auto simp: aes256_cbc_decrypt_def split: if_splits)
  next
    case False
    then show ?thesis
      using assms(2) dec [OF len(1), of "replicate 16 0"] len(1)
      by (auto simp: aes256_cbc_decrypt_def split: if_splits)
  qed
qed

section \<open>A concrete instance\<close>

text \<open>A toy instance of the primitives, which shows that \<open>crypto_ok\<close> can hold.\<close>

definition pad32 :: "bytes \<Rightarrow> bytes" where
  "pad32 bs = take 32 (bs @ replicate 32 0)"

definition toy_crypto :: crypto where
  "toy_crypto =
     \<lparr>sha256 = pad32,
      aes_encrypt_block = (\<lambda>key b. map (\<lambda>x. x XOR 0x55) b),
      aes_decrypt_block = (\<lambda>key b. map (\<lambda>x. x XOR 0x55) b),
      random_u8x32 = (\<lambda>n. replicate 32 (of_nat n)),
      ecdh_random = (\<lambda>n. replicate 32 (of_nat (n + 100))),
      ecdh_public = (\<lambda>a. (pad32 a, pad32 a)),
      ecdh_shared = (\<lambda>a p. map2 (XOR) (pad32 a) (pad32 (fst p))),
      ecdh_on_curve = (\<lambda>p. True),
      ecdsa_random = (\<lambda>n. replicate 32 (of_nat (n + 50))),
      ecdsa_valid = (\<lambda>k. length k = 32),
      ecdsa_public = (\<lambda>k. (pad32 k, pad32 (rev k))),
      ecdsa_sign = (\<lambda>k m. take 8 k @ m),
      ed25519_public = pad32,
      ed25519_sign = (\<lambda>k m. take 8 k @ m)\<rparr>"

lemma pad32_simps [simp]: "length (pad32 bs) = 32" "pad32 (pad32 bs) = pad32 bs"
  by (simp_all add: pad32_def)

lemma toy_crypto_ok: "crypto_ok toy_crypto"
proof -
  have "map2 (XOR) (pad32 a) (pad32 b) = map2 (XOR) (pad32 b) (pad32 a)" for a b
    by (rule nth_equalityI) (simp_all add: xor.commute)
  then show ?thesis
    by (auto simp: crypto_ok_def block_cipher_ok_def toy_crypto_def map_idI xor.assoc)
qed

text \<open>What \<open>aes256_cbc_encrypt\<close> accepts decrypts to the same plaintext, with and without an
  embedded random initialization vector; it accepts exactly whole blocks.\<close>

theorem aes256_cbc_round_trip:
  assumes "crypto_ok C"
  shows "case aes256_cbc_encrypt C key pt e n of
      (Inr ct, n') \<Rightarrow> length pt mod 16 = 0 \<and> length ct = length pt + (if e then 16 else 0) \<and>
        aes256_cbc_decrypt C key ct e = Inr pt
    | (Inl s, n') \<Rightarrow> length pt mod 16 \<noteq> 0 \<and> s = CTAP1_ERR_INVALID_PARAMETER \<and> n' = n"
  using aes256_cbc_encrypt_ok [OF assms, of pt key e n]
  by (cases "length pt mod 16 = 0") (auto simp: aes256_cbc_encrypt_def)

lemma aes256_cbc_round_trip_witness:
  "case aes256_cbc_encrypt toy_crypto [] (replicate 32 7) True 3 of
     (Inr ct, n') \<Rightarrow> length ct = 48 \<and> aes256_cbc_decrypt toy_crypto [] ct True = Inr (replicate 32 7)
   | (Inl s, n') \<Rightarrow> False"
  using aes256_cbc_round_trip [OF toy_crypto_ok, where key = "[]" and pt = "replicate 32 7" and e = True and n = 3]
  by (auto split: prod.splits sum.splits)

end
