(* ===== verification/Pin_Protocol.thy ===== *)
theory Pin_Protocol
  imports Crypto
begin

text \<open>
  The PIN/UV auth protocols of \<open>src/ctap/pin_protocol.rs\<close>: the key agreement key and the
  pinUvAuthToken of a protocol, the shared secrets of versions 1 and 2, and the COSE keys they are
  agreed with (\<open>src/ctap/data_formats.rs\<close>). The trait object \<open>dyn SharedSecret\<close> is the datatype
  \<open>shared_secret\<close>, whose operations dispatch on the version.
\<close>

section \<open>COSE keys\<close>

record cose_key =
  x_bytes :: bytes
  y_bytes :: bytes
  algorithm :: int
  key_type :: int
  curve :: int

definition ecdh_algorithm :: int where
  "ecdh_algorithm = -25"

definition es256_algorithm :: int where
  "es256_algorithm = -7"

definition cose_key_of_ecdh :: "bytes \<times> bytes \<Rightarrow> cose_key" where
  "cose_key_of_ecdh pk =
     \<lparr>x_bytes = fst pk, y_bytes = snd pk, algorithm = ecdh_algorithm, key_type = 2, curve = 1\<rparr>"

definition ecdh_of_cose_key :: "crypto \<Rightarrow> cose_key \<Rightarrow> status + bytes \<times> bytes" where
  "ecdh_of_cose_key C k =
     (if algorithm k \<noteq> ecdh_algorithm \<and> algorithm k \<noteq> es256_algorithm
      then Inl CTAP2_ERR_UNSUPPORTED_ALGORITHM
      else if key_type k \<noteq> 2 \<or> curve k \<noteq> 1 then Inl CTAP2_ERR_UNSUPPORTED_ALGORITHM
      else if ecdh_on_curve C (x_bytes k, y_bytes k) then Inr (x_bytes k, y_bytes k)
      else Inl CTAP1_ERR_INVALID_PARAMETER)"

lemma ecdh_of_cose_key_of_ecdh [simp]:
  "ecdh_on_curve C pk \<Longrightarrow> ecdh_of_cose_key C (cose_key_of_ecdh pk) = Inr pk"
  by (simp add: ecdh_of_cose_key_def cose_key_of_ecdh_def)

section \<open>Signatures\<close>

definition verify_v1 :: "crypto \<Rightarrow> bytes \<Rightarrow> bytes \<Rightarrow> bytes \<Rightarrow> status + unit" where
  "verify_v1 C key m sig =
     (if length sig \<noteq> 16 then Inl CTAP1_ERR_INVALID_PARAMETER
      else if verify_hmac_256_first_128bits C key m sig then Inr ()
      else Inl CTAP2_ERR_PIN_AUTH_INVALID)"

definition verify_v2 :: "crypto \<Rightarrow> bytes \<Rightarrow> bytes \<Rightarrow> bytes \<Rightarrow> status + unit" where
  "verify_v2 C key m sig =
     (if length sig \<noteq> 32 then Inl CTAP1_ERR_INVALID_PARAMETER
      else if verify_hmac_256 C key m sig then Inr ()
      else Inl CTAP2_ERR_PIN_AUTH_INVALID)"

datatype pin_uv_auth_protocol = V1 | V2

definition verify_pin_uv_auth_token ::
  "crypto \<Rightarrow> bytes \<Rightarrow> bytes \<Rightarrow> bytes \<Rightarrow> pin_uv_auth_protocol \<Rightarrow> status + unit" where
  "verify_pin_uv_auth_token C token m sig protocol =
     (case protocol of V1 \<Rightarrow> verify_v1 C token m sig | V2 \<Rightarrow> verify_v2 C token m sig)"

text \<open>The signature a platform computes, \<open>authenticate\<close> in the tests of the source.\<close>

definition authenticate :: "crypto \<Rightarrow> bytes \<Rightarrow> bytes \<Rightarrow> pin_uv_auth_protocol \<Rightarrow> bytes" where
  "authenticate C key m protocol =
     (case protocol of V1 \<Rightarrow> take 16 (hmac_256 C key m) | V2 \<Rightarrow> hmac_256 C key m)"

lemma verify_token_iff:
  assumes "crypto_ok C"
  shows "verify_pin_uv_auth_token C key m sig pr = Inr () \<longleftrightarrow> sig = authenticate C key m pr"
  using length_hmac_256 [OF assms, of key m]
  by (cases pr) (auto simp: verify_pin_uv_auth_token_def authenticate_def verify_v1_def verify_v2_def
      verify_hmac_256_def verify_hmac_256_first_128bits_def)

section \<open>Shared secrets\<close>

datatype shared_secret =
    SharedSecretV1 (common_secret: bytes)
  | SharedSecretV2 (aes_key: bytes) (hmac_key: bytes)

definition ascii_aes_info :: bytes where
  "ascii_aes_info = map of_char ''CTAP2 AES key''"

definition ascii_hmac_info :: bytes where
  "ascii_hmac_info = map of_char ''CTAP2 HMAC key''"

definition new_shared_secret_v1 :: "crypto \<Rightarrow> bytes \<Rightarrow> shared_secret" where
  "new_shared_secret_v1 C handshake = SharedSecretV1 (sha256 C handshake)"

definition new_shared_secret_v2 :: "crypto \<Rightarrow> bytes \<Rightarrow> shared_secret" where
  "new_shared_secret_v2 C handshake =
     SharedSecretV2 (hkdf_empty_salt_256 C handshake ascii_aes_info)
       (hkdf_empty_salt_256 C handshake ascii_hmac_info)"

fun ss_encrypt :: "crypto \<Rightarrow> shared_secret \<Rightarrow> bytes \<Rightarrow> (nat, status, bytes) op" where
  "ss_encrypt C (SharedSecretV1 k) pt = aes256_cbc_encrypt C k pt False"
| "ss_encrypt C (SharedSecretV2 k h) pt = aes256_cbc_encrypt C k pt True"

fun ss_decrypt :: "crypto \<Rightarrow> shared_secret \<Rightarrow> bytes \<Rightarrow> status + bytes" where
  "ss_decrypt C (SharedSecretV1 k) ct = aes256_cbc_decrypt C k ct False"
| "ss_decrypt C (SharedSecretV2 k h) ct = aes256_cbc_decrypt C k ct True"

fun ss_verify :: "crypto \<Rightarrow> shared_secret \<Rightarrow> bytes \<Rightarrow> bytes \<Rightarrow> status + unit" where
  "ss_verify C (SharedSecretV1 k) m sig = verify_v1 C k m sig"
| "ss_verify C (SharedSecretV2 k h) m sig = verify_v2 C h m sig"

fun ss_authenticate :: "crypto \<Rightarrow> shared_secret \<Rightarrow> bytes \<Rightarrow> bytes" where
  "ss_authenticate C (SharedSecretV1 k) m = authenticate C k m V1"
| "ss_authenticate C (SharedSecretV2 k h) m = authenticate C h m V2"

text \<open>
  The contract of the trait: decryption inverts encryption, whole blocks are accepted, and a
  signature is valid iff it is the one \<open>authenticate\<close> computes. \<open>valid\<close> is what the primitives
  must satisfy.
\<close>

locale secret_channel =
  fixes valid :: bool
    and encrypt :: "bytes \<Rightarrow> (nat, status, bytes) op"
    and decrypt :: "bytes \<Rightarrow> status + bytes"
    and verify :: "bytes \<Rightarrow> bytes \<Rightarrow> status + unit"
    and sign :: "bytes \<Rightarrow> bytes"
  assumes encrypt_blocks: "valid \<Longrightarrow> length pt mod 16 = 0 \<Longrightarrow>
      \<exists>ct n'. encrypt pt n = (Inr ct, n') \<and> decrypt ct = Inr pt"
    and verify_iff: "valid \<Longrightarrow> verify m sig = Inr () \<longleftrightarrow> sig = sign m"
begin

lemma decrypt_encrypt:
  "valid \<Longrightarrow> length pt mod 16 = 0 \<Longrightarrow> encrypt pt n = (Inr ct, n') \<Longrightarrow> decrypt ct = Inr pt"
  using encrypt_blocks [of pt n] by auto

lemma encrypt_inject:
  "valid \<Longrightarrow> length pt mod 16 = 0 \<Longrightarrow> length pt' mod 16 = 0 \<Longrightarrow>
     encrypt pt n = (Inr ct, n1) \<Longrightarrow> encrypt pt' n' = (Inr ct, n2) \<Longrightarrow> pt = pt'"
  using decrypt_encrypt [of pt] decrypt_encrypt [of pt'] by fastforce

text \<open>A sealed message, its ciphertext and the signature over it, is accepted and opened.\<close>

lemma open_sealed:
  assumes "valid" "length pt mod 16 = 0"
  shows "\<exists>ct n'. encrypt pt n = (Inr ct, n') \<and> verify ct (sign ct) = Inr () \<and> decrypt ct = Inr pt"
  using encrypt_blocks [OF assms, of n] verify_iff [OF assms(1)] by metis

end

lemma ss_verify_iff:
  assumes "crypto_ok C"
  shows "ss_verify C s m sig = Inr () \<longleftrightarrow> sig = ss_authenticate C s m"
  using verify_token_iff [OF assms, of _ m sig]
  by (cases s) (force simp: verify_pin_uv_auth_token_def split: pin_uv_auth_protocol.splits)+

lemma ss_encrypt_blocks:
  assumes "crypto_ok C" "length pt mod 16 = 0"
  shows "\<exists>ct n'. ss_encrypt C s pt n = (Inr ct, n') \<and> ss_decrypt C s ct = Inr pt"
proof (cases s)
  case (SharedSecretV1 k)
  with aes256_cbc_encrypt_ok [OF assms, of k False n] show ?thesis by force
next
  case (SharedSecretV2 k h)
  with aes256_cbc_encrypt_ok [OF assms, of k True n] show ?thesis by force
qed

interpretation ss: secret_channel "crypto_ok C" "ss_encrypt C s" "ss_decrypt C s" "ss_verify C s"
    "ss_authenticate C s" for C s
  by unfold_locales (erule (1) ss_encrypt_blocks, erule ss_verify_iff)

section \<open>The protocol state\<close>

record pin_protocol =
  key_agreement_key :: bytes
  pin_uv_auth_token :: bytes

definition gensk :: "crypto \<Rightarrow> nat \<Rightarrow> bytes \<times> nat" where
  "gensk C n = (ecdh_random C n, Suc n)"

definition new_pin_protocol :: "crypto \<Rightarrow> nat \<Rightarrow> pin_protocol \<times> nat" where
  "new_pin_protocol C n =
     (let (sk, n) = gensk C n; (token, n) = gen_uniform_u8x32 C n
      in (\<lparr>key_agreement_key = sk, pin_uv_auth_token = token\<rparr>, n))"

definition regenerate :: "crypto \<Rightarrow> pin_protocol \<times> nat \<Rightarrow> pin_protocol \<times> nat" where
  "regenerate C = (\<lambda>(p, n). let (sk, n) = gensk C n in (p\<lparr>key_agreement_key := sk\<rparr>, n))"

definition reset_pin_uv_auth_token :: "crypto \<Rightarrow> pin_protocol \<times> nat \<Rightarrow> pin_protocol \<times> nat" where
  "reset_pin_uv_auth_token C =
     (\<lambda>(p, n). let (token, n) = gen_uniform_u8x32 C n in (p\<lparr>pin_uv_auth_token := token\<rparr>, n))"

definition get_public_key :: "crypto \<Rightarrow> pin_protocol \<Rightarrow> cose_key" where
  "get_public_key C p = cose_key_of_ecdh (ecdh_public C (key_agreement_key p))"

definition shared_secret_of :: "crypto \<Rightarrow> pin_uv_auth_protocol \<Rightarrow> bytes \<Rightarrow> shared_secret" where
  "shared_secret_of C protocol handshake =
     (case protocol of V1 \<Rightarrow> new_shared_secret_v1 C handshake | V2 \<Rightarrow> new_shared_secret_v2 C handshake)"

definition decapsulate ::
  "crypto \<Rightarrow> pin_protocol \<Rightarrow> cose_key \<Rightarrow> pin_uv_auth_protocol \<Rightarrow> status + shared_secret" where
  "decapsulate C p peer protocol =
     rbind (ecdh_of_cose_key C peer) (\<lambda>pk.
       Inr (shared_secret_of C protocol (ecdh_shared C (key_agreement_key p) pk)))"

section \<open>Properties\<close>

text \<open>A platform that answers the authenticator's public key with its own agrees with it on the
  shared secret: what the platform encrypts and signs, the authenticator verifies and decrypts.\<close>

theorem handshake_agrees:
  assumes "crypto_ok C" "length pt mod 16 = 0"
  shows "\<exists>s ct n'.
    decapsulate C \<lparr>key_agreement_key = platform, pin_uv_auth_token = []\<rparr> (get_public_key C p) pr = Inr s \<and>
    decapsulate C p (cose_key_of_ecdh (ecdh_public C platform)) pr = Inr s \<and>
    ss_encrypt C s pt n = (Inr ct, n') \<and>
    ss_verify C s ct (ss_authenticate C s ct) = Inr () \<and> ss_decrypt C s ct = Inr pt"
proof -
  let ?s = "shared_secret_of C pr (ecdh_shared C platform (ecdh_public C (key_agreement_key p)))"
  have "decapsulate C \<lparr>key_agreement_key = platform, pin_uv_auth_token = []\<rparr> (get_public_key C p) pr = Inr ?s"
    using crypto_okD(5) [OF assms(1)] by (simp add: decapsulate_def get_public_key_def)
  moreover have "decapsulate C p (cose_key_of_ecdh (ecdh_public C platform)) pr = Inr ?s"
    using crypto_okD(5) [OF assms(1)] crypto_okD(4) [OF assms(1), of platform "key_agreement_key p"]
    by (simp add: decapsulate_def)
  ultimately show ?thesis
    using ss.open_sealed [OF assms, of ?s n] by blast
qed

lemma handshake_agrees_witness:
  "\<exists>s. decapsulate toy_crypto \<lparr>key_agreement_key = [1], pin_uv_auth_token = []\<rparr>
      (get_public_key toy_crypto \<lparr>key_agreement_key = [2], pin_uv_auth_token = []\<rparr>) V2 = Inr s"
  using handshake_agrees [OF toy_crypto_ok, where pt = "[]" and platform = "[1]" and pr = V2
      and p = "\<lparr>key_agreement_key = [2], pin_uv_auth_token = []\<rparr>"]
  by auto

text \<open>A signature over a message is accepted iff it is the HMAC under the token, its first 16 bytes
  in version 1; any other 16 or 32 bytes are \<open>PIN_AUTH_INVALID\<close>, any other length is an invalid
  parameter.\<close>

theorem verify_token_spec:
  "verify_pin_uv_auth_token C token m sig pr =
    (if length sig \<noteq> (case pr of V1 \<Rightarrow> 16 | V2 \<Rightarrow> 32) then Inl CTAP1_ERR_INVALID_PARAMETER
     else if sig = authenticate C token m pr then Inr ()
     else Inl CTAP2_ERR_PIN_AUTH_INVALID)"
  by (cases pr) (auto simp: verify_pin_uv_auth_token_def authenticate_def verify_v1_def verify_v2_def
      verify_hmac_256_def verify_hmac_256_first_128bits_def)

end
