(* ===== verification/Token_State.thy ===== *)
theory Token_State
  imports Timed Status
begin

text \<open>
  The state of the pinUvAuthToken, \<open>src/ctap/token_state.rs\<close>: its permission bits, the RP ID it is
  bound to, its usage timer and the cached user verification. A Rust \<open>String\<close> is its UTF-8 bytes;
  SHA-256 is a parameter.
\<close>

type_synonym rust_string = bytes

datatype pin_permission =
    MakeCredential | GetAssertion | CredentialManagement | BioEnrollment | LargeBlobWrite
  | AuthenticatorConfiguration

fun permission_bit :: "pin_permission \<Rightarrow> u8" where
  "permission_bit MakeCredential = 0x01"
| "permission_bit GetAssertion = 0x02"
| "permission_bit CredentialManagement = 0x04"
| "permission_bit BioEnrollment = 0x08"
| "permission_bit LargeBlobWrite = 0x10"
| "permission_bit AuthenticatorConfiguration = 0x20"

definition initial_usage_time_limit :: nat where
  "initial_usage_time_limit = from_millis 30000"

record token_state =
  permissions_set :: u8
  permissions_rp_id :: "rust_string option"
  usage_timer :: timed_permission
  user_verified :: bool
  in_use :: bool

definition new_token_state :: token_state where
  "new_token_state =
     \<lparr>permissions_set = 0, permissions_rp_id = None, usage_timer = Waiting, user_verified = False,
      in_use = False\<rparr>"

definition has_permission :: "pin_permission \<Rightarrow> token_state \<Rightarrow> status + unit" where
  "has_permission p t =
     (if permission_bit p AND permissions_set t \<noteq> 0 then Inr () else Inl CTAP2_ERR_PIN_AUTH_INVALID)"

definition has_no_permissions_rp_id :: "token_state \<Rightarrow> status + unit" where
  "has_no_permissions_rp_id t =
     (if permissions_rp_id t \<noteq> None then Inl CTAP2_ERR_PIN_AUTH_INVALID else Inr ())"

definition has_permissions_rp_id :: "rust_string \<Rightarrow> token_state \<Rightarrow> status + unit" where
  "has_permissions_rp_id rp_id t =
     (case permissions_rp_id t of
        Some p \<Rightarrow> if rp_id = p then Inr () else Inl CTAP2_ERR_PIN_AUTH_INVALID
      | None \<Rightarrow> Inl CTAP2_ERR_PIN_AUTH_INVALID)"

definition has_permissions_rp_id_hash ::
  "(bytes \<Rightarrow> bytes) \<Rightarrow> bytes \<Rightarrow> token_state \<Rightarrow> status + unit" where
  "has_permissions_rp_id_hash sha rp_id_hash t =
     (case permissions_rp_id t of
        Some p \<Rightarrow> if rp_id_hash = sha p then Inr () else Inl CTAP2_ERR_PIN_AUTH_INVALID
      | None \<Rightarrow> Inl CTAP2_ERR_PIN_AUTH_INVALID)"

definition set_permissions :: "u8 \<Rightarrow> token_state \<Rightarrow> token_state" where
  "set_permissions permissions t = t\<lparr>permissions_set := permissions\<rparr>"

definition set_permissions_rp_id :: "rust_string option \<Rightarrow> token_state \<Rightarrow> token_state" where
  "set_permissions_rp_id rp_id t = t\<lparr>permissions_rp_id := rp_id\<rparr>"

definition set_default_permissions :: "token_state \<Rightarrow> token_state" where
  "set_default_permissions t = set_permissions_rp_id None (set_permissions 0x03 t)"

definition begin_using_token :: "instant \<Rightarrow> token_state \<Rightarrow> token_state" where
  "begin_using_token now t =
     t\<lparr>user_verified := True, usage_timer := granted now initial_usage_time_limit, in_use := True\<rparr>"

definition stop_using_token :: "token_state \<Rightarrow> token_state" where
  "stop_using_token t =
     t\<lparr>permissions_rp_id := None, permissions_set := 0, usage_timer := Waiting, user_verified := False,
       in_use := False\<rparr>"

definition usage_timer_observer :: "instant \<Rightarrow> token_state \<Rightarrow> token_state" where
  "usage_timer_observer now t =
     (if \<not> in_use t then t
      else let t = t\<lparr>usage_timer := check_expiration (usage_timer t) now\<rparr>
           in if \<not> is_granted (usage_timer t) now then stop_using_token t else t)"

definition get_user_verified_flag_value :: "token_state \<Rightarrow> bool" where
  "get_user_verified_flag_value t = (in_use t \<and> user_verified t)"

definition clear_user_verified_flag :: "token_state \<Rightarrow> token_state" where
  "clear_user_verified_flag t = t\<lparr>user_verified := False\<rparr>"

definition clear_permissions_except_lbw :: "token_state \<Rightarrow> token_state" where
  "clear_permissions_except_lbw t =
     t\<lparr>permissions_set := permissions_set t AND permission_bit LargeBlobWrite\<rparr>"

text \<open>A token that is not in use is in its initial state, and one in use has a running timer.\<close>

definition token_inv :: "token_state \<Rightarrow> bool" where
  "token_inv t \<longleftrightarrow>
     (if in_use t then (\<exists>x. usage_timer t = Granted x) else t = new_token_state)"

lemma stop_using_token_eq [simp]: "stop_using_token t = new_token_state"
  by (simp add: stop_using_token_def new_token_state_def)

lemma token_inv_new [simp]: "token_inv new_token_state"
  by (simp add: token_inv_def new_token_state_def)

lemma token_inv_begin [simp]: "token_inv (set_default_permissions (begin_using_token now t))"
  by (simp add: token_inv_def set_default_permissions_def set_permissions_def set_permissions_rp_id_def
      begin_using_token_def granted_def)

lemma token_inv_observer [simp]: "token_inv t \<Longrightarrow> token_inv (usage_timer_observer now t)"
  by (auto simp: token_inv_def usage_timer_observer_def Let_def new_token_state_def)

lemma token_inv_flags [simp]:
  "token_inv t \<Longrightarrow> token_inv (clear_permissions_except_lbw (clear_user_verified_flag t))"
  by (auto simp: token_inv_def clear_permissions_except_lbw_def clear_user_verified_flag_def
      new_token_state_def)

lemma observer_in_use:
  "token_inv t \<Longrightarrow> in_use (usage_timer_observer now t) \<longleftrightarrow> in_use t \<and> is_granted (usage_timer t) now"
  by (auto simp: usage_timer_observer_def Let_def new_token_state_def)

lemma permission_bits_disjoint:
  "permission_bit p AND permission_bit q \<noteq> 0 \<longleftrightarrow> p = q"
  by (cases p; cases q; simp)

lemma has_permission_after_clear:
  "has_permission p (clear_permissions_except_lbw t) =
     (if p = LargeBlobWrite then has_permission p t else Inl CTAP2_ERR_PIN_AUTH_INVALID)"
proof -
  have "permission_bit p AND (permissions_set t AND permission_bit LargeBlobWrite) =
      (permission_bit p AND permission_bit LargeBlobWrite) AND permissions_set t"
    by (simp add: ac_simps)
  then show ?thesis
    using permission_bits_disjoint [of p LargeBlobWrite]
    by (auto simp: has_permission_def clear_permissions_except_lbw_def)
qed

end
