(* ===== verification/Customization.thy ===== *)
theory Customization
  imports Token_State
begin

text \<open>
  The build-time parameters of the authenticator, \<open>src/api/customization.rs\<close>: the implementation
  of the trait as a record, the default the badge uses, and the validity check.
\<close>

datatype credential_protection_policy =
    UserVerificationOptional | UserVerificationOptionalWithCredentialIdList | UserVerificationRequired

datatype enterprise_attestation_mode = VendorFacilitated | PlatformManaged

record customization =
  allows_pin_protocol_v1 :: bool
  default_cred_protect :: "credential_protection_policy option"
  default_min_pin_length :: u8
  default_min_pin_length_rp_ids :: "rust_string list"
  enforce_always_uv :: bool
  enterprise_mode :: "enterprise_attestation_mode option"
  enterprise_rp_id_list :: "rust_string list"
  max_msg_size :: nat
  max_pin_retries :: u8
  use_batch_attestation :: bool
  use_signature_counter :: bool
  max_cred_blob_length :: nat
  max_credential_count_in_list :: "nat option"
  max_large_blob_array_size :: nat
  max_rp_ids_length :: nat
  max_supported_resident_keys :: nat

definition default_customization :: customization where
  "default_customization =
     \<lparr>allows_pin_protocol_v1 = True,
      default_cred_protect = None,
      default_min_pin_length = 4,
      default_min_pin_length_rp_ids = [],
      enforce_always_uv = False,
      enterprise_mode = None,
      enterprise_rp_id_list = [],
      max_msg_size = 7609,
      max_pin_retries = 8,
      use_batch_attestation = False,
      use_signature_counter = True,
      max_cred_blob_length = 32,
      max_credential_count_in_list = None,
      max_large_blob_array_size = 2048,
      max_rp_ids_length = 8,
      max_supported_resident_keys = 150\<rparr>"

definition is_enterprise_rp_id :: "customization \<Rightarrow> rust_string \<Rightarrow> bool" where
  "is_enterprise_rp_id c rp_id = (rp_id \<in> set (enterprise_rp_id_list c))"

definition is_valid :: "customization \<Rightarrow> bool" where
  "is_valid c =
     (if max_msg_size c < 1024 \<or> max_msg_size c > 7609 then False
      else if default_min_pin_length c < 4 \<or> default_min_pin_length c > 63 then False
      else if use_batch_attestation c \<and> enterprise_mode c \<noteq> None then False
      else if enterprise_mode c = Some VendorFacilitated \<and> enterprise_rp_id_list c = [] then False
      else if enterprise_mode c = None \<and> enterprise_rp_id_list c \<noteq> [] then False
      else if max_pin_retries c > 8 then False
      else if max_cred_blob_length c < 32 \<or> max_cred_blob_length c > 64 then False
      else if (case max_credential_count_in_list c of Some n \<Rightarrow> n < 1 | None \<Rightarrow> False) then False
      else if max_large_blob_array_size c < 1024 then False
      else if max_rp_ids_length c = 0 \<and> default_min_pin_length_rp_ids c = [] then False
      else True)"

lemma is_valid_default: "is_valid default_customization"
  by (simp add: is_valid_def default_customization_def)

end
