(* ===== verification/Data_Formats.thy ===== *)
theory Data_Formats
  imports Cbor_Props Pin_Protocol Customization
begin

text \<open>
  The parameters and entities of CTAP2, \<open>src/ctap/data_formats.rs\<close>: for each type the conversion
  from a CBOR value (\<open>TryFrom\<close>, named \<open>..._of_cbor\<close>, with the status code of every failure) and, where
  the code has it, the conversion to one (\<open>From\<close>, named \<open>cbor_of_...\<close>). The build is the default
  one, with the feature \<open>ed25519\<close>. The private key type is the one of \<open>src/ctap/crypto_wrapper.rs\<close>.
\<close>

section \<open>Extracting values\<close>

fun extract_unsigned :: "cvalue \<Rightarrow> status + u64" where
  "extract_unsigned (Unsigned u) = Inr u"
| "extract_unsigned _ = Inl CTAP2_ERR_CBOR_UNEXPECTED_TYPE"

fun extract_integer :: "cvalue \<Rightarrow> status + int" where
  "extract_integer (Unsigned u) =
     (if unat u \<le> 2 ^ 63 - 1 then Inr (sint u) else Inl CTAP2_ERR_CBOR_UNEXPECTED_TYPE)"
| "extract_integer (Negative n) = Inr (sint n)"
| "extract_integer _ = Inl CTAP2_ERR_CBOR_UNEXPECTED_TYPE"

fun extract_byte_string :: "cvalue \<Rightarrow> status + bytes" where
  "extract_byte_string (ByteString b) = Inr b"
| "extract_byte_string _ = Inl CTAP2_ERR_CBOR_UNEXPECTED_TYPE"

fun extract_text_string :: "cvalue \<Rightarrow> status + rust_string" where
  "extract_text_string (TextString t) = Inr t"
| "extract_text_string _ = Inl CTAP2_ERR_CBOR_UNEXPECTED_TYPE"

fun extract_array :: "cvalue \<Rightarrow> status + cvalue list" where
  "extract_array (Array vs) = Inr vs"
| "extract_array _ = Inl CTAP2_ERR_CBOR_UNEXPECTED_TYPE"

fun extract_map :: "cvalue \<Rightarrow> status + (cvalue \<times> cvalue) list" where
  "extract_map (Map m) = Inr m"
| "extract_map _ = Inl CTAP2_ERR_CBOR_UNEXPECTED_TYPE"

fun extract_bool :: "cvalue \<Rightarrow> status + bool" where
  "extract_bool (Simple FalseValue) = Inr False"
| "extract_bool (Simple TrueValue) = Inr True"
| "extract_bool _ = Inl CTAP2_ERR_CBOR_UNEXPECTED_TYPE"

text \<open>\<open>x.map(f).transpose()?\<close> and \<open>iter.map(f).collect::<Result<..>>()?\<close>.\<close>

definition optional :: "('a \<Rightarrow> 'e + 'b) \<Rightarrow> 'a option \<Rightarrow> 'e + 'b option" where
  "optional f x = (case x of None \<Rightarrow> Inr None | Some y \<Rightarrow> rbind (f y) (\<lambda>z. Inr (Some z)))"

fun collect_results :: "('a \<Rightarrow> 'e + 'b) \<Rightarrow> 'a list \<Rightarrow> 'e + 'b list" where
  "collect_results f [] = Inr []"
| "collect_results f (x # xs) = rbind (f x) (\<lambda>y. rbind (collect_results f xs) (\<lambda>ys. Inr (y # ys)))"

lemma optional_simps [simp]:
  "optional f None = Inr None" "optional f (Some x) = rbind (f x) (\<lambda>z. Inr (Some z))"
  by (simp_all add: optional_def)

lemma collect_results_map: "(\<And>x. x \<in> set xs \<Longrightarrow> f (g x) = Inr x) \<Longrightarrow> collect_results f (map g xs) = Inr xs"
  by (induction xs) simp_all

text \<open>String keys, and \<open>i64\<close> values.\<close>

definition utf8 :: "string \<Rightarrow> bytes" where
  "utf8 s = map of_char s"

definition text_key :: "string \<Rightarrow> cvalue" where
  "text_key s = TextString (utf8 s)"

definition from_i64 :: "int \<Rightarrow> cvalue" where
  "from_i64 i = integer_value (word_of_int i)"

definition i64 :: "int \<Rightarrow> bool" where
  "i64 i \<longleftrightarrow> - (2 ^ 63) \<le> i \<and> i < 2 ^ 63"

lemma extract_integer_from_i64 [simp]: "i64 i \<Longrightarrow> extract_integer (from_i64 i) = Inr i"
proof -
  assume "i64 i"
  then have s: "sint (word_of_int i :: u64) = i"
    by (simp add: i64_def signed_of_int signed_take_bit_int_eq_self)
  show ?thesis
  proof (cases "0 \<le> i")
    case True
    then have "unat (word_of_int i :: u64) = nat i"
      using \<open>i64 i\<close> by (simp add: i64_def unsigned_of_int take_bit_int_eq_self)
    with True s \<open>i64 i\<close> show ?thesis
      by (simp add: from_i64_def integer_value_def i64_def)
  qed (simp add: from_i64_def integer_value_def s)
qed

text \<open>
  The entries of a map with the keys a \<open>From\<close> conversion lists are found again by the
  \<open>destructure_cbor_map!\<close> that lists the same keys.
\<close>

lemma peek_value_above:
  "sorted_wrt (<) (k # map fst m) \<Longrightarrow> peek_value (map_options m) k = (None, map_options m)"
  by (induction m rule: map_options.induct)
     (auto simp: value_cmp_cmp_of cmp_of_def)

lemma destructure_map_options:
  "sorted_keys (map fst m) \<Longrightarrow> destructure (map fst m) (map_options m) = map snd m"
  unfolding sorted_keys_iff
proof (induction m rule: map_options.induct)
  case (2 k m)
  then show ?case using peek_value_above [of k m] by simp
next
  case (3 k v m)
  have "value_cmp k k = Equal" by (simp add: value_cmp_cmp_of cmp_of_def)
  with 3 show ?case by simp
qed simp

section \<open>Relying party and user\<close>

record rp_entity =
  rp_id :: rust_string
  rp_name :: "rust_string option"
  rp_icon :: "rust_string option"

definition rp_entity_keys :: "cvalue list" where
  "rp_entity_keys = map text_key [''id'', ''icon'', ''name'']"

definition rp_entity_of_cbor :: "cvalue \<Rightarrow> status + rp_entity" where
  "rp_entity_of_cbor v =
     rbind (extract_map v) (\<lambda>m.
       let fs = destructure rp_entity_keys m in
       rbind (rbind (ok_or_missing (fs ! 0)) extract_text_string) (\<lambda>id.
       rbind (optional extract_text_string (fs ! 2)) (\<lambda>name.
       rbind (optional extract_text_string (fs ! 1)) (\<lambda>icon.
         Inr \<lparr>rp_id = id, rp_name = name, rp_icon = icon\<rparr>))))"

definition cbor_of_rp_entity :: "rp_entity \<Rightarrow> cvalue" where
  "cbor_of_rp_entity e =
     Map (map_options (zip rp_entity_keys
       [Some (TextString (rp_id e)), map_option TextString (rp_icon e), map_option TextString (rp_name e)]))"

record user_entity =
  user_id :: bytes
  user_name :: "rust_string option"
  user_display_name :: "rust_string option"
  user_icon :: "rust_string option"

definition user_entity_keys :: "cvalue list" where
  "user_entity_keys = map text_key [''id'', ''icon'', ''name'', ''displayName'']"

definition user_entity_of_cbor :: "cvalue \<Rightarrow> status + user_entity" where
  "user_entity_of_cbor v =
     rbind (extract_map v) (\<lambda>m.
       let fs = destructure user_entity_keys m in
       rbind (rbind (ok_or_missing (fs ! 0)) extract_byte_string) (\<lambda>id.
       rbind (optional extract_text_string (fs ! 2)) (\<lambda>name.
       rbind (optional extract_text_string (fs ! 3)) (\<lambda>display_name.
       rbind (optional extract_text_string (fs ! 1)) (\<lambda>icon.
         Inr \<lparr>user_id = id, user_name = name, user_display_name = display_name, user_icon = icon\<rparr>)))))"

definition cbor_of_user_entity :: "user_entity \<Rightarrow> cvalue" where
  "cbor_of_user_entity e =
     Map (map_options (zip user_entity_keys
       [Some (ByteString (user_id e)), map_option TextString (user_icon e),
        map_option TextString (user_name e), map_option TextString (user_display_name e)]))"

section \<open>Credential types, algorithms and descriptors\<close>

datatype credential_type = PublicKey | UnknownType

definition cbor_of_credential_type :: "credential_type \<Rightarrow> cvalue" where
  "cbor_of_credential_type t = text_key (case t of PublicKey \<Rightarrow> ''public-key'' | UnknownType \<Rightarrow> ''unknown'')"

definition credential_type_of_cbor :: "cvalue \<Rightarrow> status + credential_type" where
  "credential_type_of_cbor v =
     rbind (extract_text_string v) (\<lambda>s. Inr (if s = utf8 ''public-key'' then PublicKey else UnknownType))"

definition eddsa_algorithm :: int where
  "eddsa_algorithm = -8"

datatype signature_algorithm = Es256 | Eddsa | UnknownAlgorithm

definition algorithm_code :: "signature_algorithm \<Rightarrow> int" where
  "algorithm_code a = (case a of Es256 \<Rightarrow> es256_algorithm | Eddsa \<Rightarrow> eddsa_algorithm | UnknownAlgorithm \<Rightarrow> 0)"

definition algorithm_of_int :: "int \<Rightarrow> signature_algorithm" where
  "algorithm_of_int i =
     (if i = es256_algorithm then Es256 else if i = eddsa_algorithm then Eddsa else UnknownAlgorithm)"

definition cbor_of_algorithm :: "signature_algorithm \<Rightarrow> cvalue" where
  "cbor_of_algorithm a = from_i64 (algorithm_code a)"

definition algorithm_of_cbor :: "cvalue \<Rightarrow> status + signature_algorithm" where
  "algorithm_of_cbor v = rbind (extract_integer v) (\<lambda>i. Inr (algorithm_of_int i))"

record credential_parameter =
  cred_type :: credential_type
  alg :: signature_algorithm

definition credential_parameter_keys :: "cvalue list" where
  "credential_parameter_keys = map text_key [''alg'', ''type'']"

definition credential_parameter_of_cbor :: "cvalue \<Rightarrow> status + credential_parameter" where
  "credential_parameter_of_cbor v =
     rbind (extract_map v) (\<lambda>m.
       let fs = destructure credential_parameter_keys m in
       rbind (rbind (ok_or_missing (fs ! 1)) credential_type_of_cbor) (\<lambda>t.
       rbind (rbind (ok_or_missing (fs ! 0)) algorithm_of_cbor) (\<lambda>a.
         Inr \<lparr>cred_type = t, alg = a\<rparr>)))"

definition cbor_of_credential_parameter :: "credential_parameter \<Rightarrow> cvalue" where
  "cbor_of_credential_parameter p =
     Map (map_options (zip credential_parameter_keys
       [Some (cbor_of_algorithm (alg p)), Some (cbor_of_credential_type (cred_type p))]))"

datatype transport = Usb | Nfc | Ble | Internal

fun transport_name :: "transport \<Rightarrow> string" where
  "transport_name Usb = ''usb''"
| "transport_name Nfc = ''nfc''"
| "transport_name Ble = ''ble''"
| "transport_name Internal = ''internal''"

definition cbor_of_transport :: "transport \<Rightarrow> cvalue" where
  "cbor_of_transport t = text_key (transport_name t)"

definition transport_of_cbor :: "cvalue \<Rightarrow> status + transport" where
  "transport_of_cbor v =
     rbind (extract_text_string v) (\<lambda>s.
       if s = utf8 ''usb'' then Inr Usb
       else if s = utf8 ''nfc'' then Inr Nfc
       else if s = utf8 ''ble'' then Inr Ble
       else if s = utf8 ''internal'' then Inr Internal
       else Inl CTAP2_ERR_CBOR_UNEXPECTED_TYPE)"

record credential_descriptor =
  desc_type :: credential_type
  desc_id :: bytes
  desc_transports :: "transport list option"

definition credential_descriptor_keys :: "cvalue list" where
  "credential_descriptor_keys = map text_key [''id'', ''type'', ''transports'']"

definition credential_descriptor_of_cbor :: "cvalue \<Rightarrow> status + credential_descriptor" where
  "credential_descriptor_of_cbor v =
     rbind (extract_map v) (\<lambda>m.
       let fs = destructure credential_descriptor_keys m in
       rbind (rbind (ok_or_missing (fs ! 1)) credential_type_of_cbor) (\<lambda>t.
       rbind (rbind (ok_or_missing (fs ! 0)) extract_byte_string) (\<lambda>id.
       rbind (optional (\<lambda>x. rbind (extract_array x) (collect_results transport_of_cbor)) (fs ! 2)) (\<lambda>ts.
         Inr \<lparr>desc_type = t, desc_id = id, desc_transports = ts\<rparr>))))"

definition cbor_of_credential_descriptor :: "credential_descriptor \<Rightarrow> cvalue" where
  "cbor_of_credential_descriptor d =
     Map (map_options (zip credential_descriptor_keys
       [Some (ByteString (desc_id d)), Some (cbor_of_credential_type (desc_type d)),
        map_option (\<lambda>ts. Array (map cbor_of_transport ts)) (desc_transports d)]))"

fun policy_code :: "credential_protection_policy \<Rightarrow> int" where
  "policy_code UserVerificationOptional = 1"
| "policy_code UserVerificationOptionalWithCredentialIdList = 2"
| "policy_code UserVerificationRequired = 3"

definition cbor_of_policy :: "credential_protection_policy \<Rightarrow> cvalue" where
  "cbor_of_policy p = from_i64 (policy_code p)"

definition policy_of_cbor :: "cvalue \<Rightarrow> status + credential_protection_policy" where
  "policy_of_cbor v =
     rbind (extract_integer v) (\<lambda>i.
       if i = 1 then Inr UserVerificationOptional
       else if i = 2 then Inr UserVerificationOptionalWithCredentialIdList
       else if i = 3 then Inr UserVerificationRequired
       else Inl CTAP2_ERR_CBOR_UNEXPECTED_TYPE)"

end
