(* ===== verification/Data_Requests.thy ===== *)
theory Data_Requests
  imports Data_Formats
begin

text \<open>
  The second part of \<open>src/ctap/data_formats.rs\<close>: COSE keys, extensions and options of requests,
  the stored credential source, and the parameters of the subcommands.
\<close>

section \<open>COSE keys and protocols\<close>

definition cose_key_keys :: "cvalue list" where
  "cose_key_keys = map from_i64 [1, 3, -1, -2, -3]"

definition cose_key_of_cbor :: "cvalue \<Rightarrow> status + cose_key" where
  "cose_key_of_cbor v =
     rbind (extract_map v) (\<lambda>m.
       let fs = destructure cose_key_keys m in
       rbind (rbind (ok_or_missing (fs ! 1)) extract_integer) (\<lambda>algorithm.
         if algorithm \<noteq> ecdh_algorithm \<and> algorithm \<noteq> es256_algorithm
         then Inl CTAP2_ERR_UNSUPPORTED_ALGORITHM
         else
         rbind (rbind (ok_or_missing (fs ! 3)) extract_byte_string) (\<lambda>x.
         if length x \<noteq> 32 then Inl CTAP1_ERR_INVALID_PARAMETER else
         rbind (rbind (ok_or_missing (fs ! 4)) extract_byte_string) (\<lambda>y.
         if length y \<noteq> 32 then Inl CTAP1_ERR_INVALID_PARAMETER else
         rbind (rbind (ok_or_missing (fs ! 2)) extract_integer) (\<lambda>curve.
         if curve \<noteq> 1 then Inl CTAP2_ERR_UNSUPPORTED_ALGORITHM else
         rbind (rbind (ok_or_missing (fs ! 0)) extract_integer) (\<lambda>key_type.
         if key_type \<noteq> 2 then Inl CTAP2_ERR_UNSUPPORTED_ALGORITHM else
         Inr \<lparr>x_bytes = x, y_bytes = y, algorithm = algorithm, key_type = key_type, curve = curve\<rparr>))))))"

definition cbor_of_cose_key :: "cose_key \<Rightarrow> cvalue" where
  "cbor_of_cose_key k =
     Map (zip cose_key_keys
       [from_i64 (key_type k), from_i64 (algorithm k), from_i64 (curve k),
        ByteString (x_bytes k), ByteString (y_bytes k)])"

definition protocol_of_cbor :: "cvalue \<Rightarrow> status + pin_uv_auth_protocol" where
  "protocol_of_cbor v =
     rbind (extract_unsigned v) (\<lambda>u.
       if u = 1 then Inr V1 else if u = 2 then Inr V2 else Inl CTAP1_ERR_INVALID_PARAMETER)"

section \<open>Extensions and options\<close>

record hmac_secret_input =
  hs_key_agreement :: cose_key
  hs_salt_enc :: bytes
  hs_salt_auth :: bytes
  hs_protocol :: pin_uv_auth_protocol

definition hmac_secret_input_of_cbor :: "cvalue \<Rightarrow> status + hmac_secret_input" where
  "hmac_secret_input_of_cbor v =
     rbind (extract_map v) (\<lambda>m.
       let fs = destructure (map from_i64 [1, 2, 3, 4]) m in
       rbind (rbind (ok_or_missing (fs ! 0)) cose_key_of_cbor) (\<lambda>k.
       rbind (rbind (ok_or_missing (fs ! 1)) extract_byte_string) (\<lambda>enc.
       rbind (rbind (ok_or_missing (fs ! 2)) extract_byte_string) (\<lambda>auth.
       rbind (case fs ! 3 of None \<Rightarrow> Inr V1 | Some p \<Rightarrow> protocol_of_cbor p) (\<lambda>p.
         Inr \<lparr>hs_key_agreement = k, hs_salt_enc = enc, hs_salt_auth = auth, hs_protocol = p\<rparr>)))))"

record make_credential_extensions =
  mce_hmac_secret :: bool
  mce_cred_protect :: "credential_protection_policy option"
  mce_min_pin_length :: bool
  mce_cred_blob :: "bytes option"
  mce_large_blob_key :: "bool option"

definition bool_or :: "bool \<Rightarrow> cvalue option \<Rightarrow> status + bool" where
  "bool_or b x = (case x of None \<Rightarrow> Inr b | Some v \<Rightarrow> extract_bool v)"

definition make_credential_extensions_of_cbor :: "cvalue \<Rightarrow> status + make_credential_extensions" where
  "make_credential_extensions_of_cbor v =
     rbind (extract_map v) (\<lambda>m.
       let fs = destructure (map text_key
         [''credBlob'', ''credProtect'', ''hmac-secret'', ''largeBlobKey'', ''minPinLength'']) m in
       rbind (bool_or False (fs ! 2)) (\<lambda>hmac_secret.
       rbind (optional policy_of_cbor (fs ! 1)) (\<lambda>cred_protect.
       rbind (bool_or False (fs ! 4)) (\<lambda>min_pin_length.
       rbind (optional extract_byte_string (fs ! 0)) (\<lambda>cred_blob.
       rbind (optional extract_bool (fs ! 3)) (\<lambda>large_blob_key.
         if large_blob_key = Some False then Inl CTAP2_ERR_INVALID_OPTION
         else Inr \<lparr>mce_hmac_secret = hmac_secret, mce_cred_protect = cred_protect,
                   mce_min_pin_length = min_pin_length, mce_cred_blob = cred_blob,
                   mce_large_blob_key = large_blob_key\<rparr>))))))"

record get_assertion_extensions =
  gae_hmac_secret :: "hmac_secret_input option"
  gae_cred_blob :: bool
  gae_large_blob_key :: "bool option"

definition get_assertion_extensions_of_cbor :: "cvalue \<Rightarrow> status + get_assertion_extensions" where
  "get_assertion_extensions_of_cbor v =
     rbind (extract_map v) (\<lambda>m.
       let fs = destructure (map text_key [''credBlob'', ''hmac-secret'', ''largeBlobKey'']) m in
       rbind (optional hmac_secret_input_of_cbor (fs ! 1)) (\<lambda>hmac_secret.
       rbind (bool_or False (fs ! 0)) (\<lambda>cred_blob.
       rbind (optional extract_bool (fs ! 2)) (\<lambda>large_blob_key.
         if large_blob_key = Some False then Inl CTAP2_ERR_INVALID_OPTION
         else Inr \<lparr>gae_hmac_secret = hmac_secret, gae_cred_blob = cred_blob,
                   gae_large_blob_key = large_blob_key\<rparr>))))"

record make_credential_options =
  mco_rk :: bool
  mco_uv :: bool

definition option_keys :: "cvalue list" where
  "option_keys = map text_key [''rk'', ''up'', ''uv'']"

definition make_credential_options_of_cbor :: "cvalue \<Rightarrow> status + make_credential_options" where
  "make_credential_options_of_cbor v =
     rbind (extract_map v) (\<lambda>m.
       let fs = destructure option_keys m in
       rbind (bool_or False (fs ! 0)) (\<lambda>rk.
       rbind (bool_or True (fs ! 1)) (\<lambda>up.
         if \<not> up then Inl CTAP2_ERR_INVALID_OPTION
         else rbind (bool_or False (fs ! 2)) (\<lambda>uv. Inr \<lparr>mco_rk = rk, mco_uv = uv\<rparr>))))"

record get_assertion_options =
  gao_up :: bool
  gao_uv :: bool

definition default_get_assertion_options :: get_assertion_options where
  "default_get_assertion_options = \<lparr>gao_up = True, gao_uv = False\<rparr>"

definition get_assertion_options_of_cbor :: "cvalue \<Rightarrow> status + get_assertion_options" where
  "get_assertion_options_of_cbor v =
     rbind (extract_map v) (\<lambda>m.
       let fs = destructure option_keys m in
       case fs ! 0 of
         Some rk \<Rightarrow> rbind (extract_bool rk) (\<lambda>_. Inl CTAP2_ERR_INVALID_OPTION)
       | None \<Rightarrow>
           rbind (bool_or True (fs ! 1)) (\<lambda>up.
           rbind (bool_or False (fs ! 2)) (\<lambda>uv. Inr \<lparr>gao_up = up, gao_uv = uv\<rparr>)))"

record packed_attestation =
  pa_alg :: int
  pa_sig :: bytes
  pa_x5c :: "bytes list option"
  pa_ecdaa_key_id :: "bytes option"

definition cbor_of_packed_attestation :: "packed_attestation \<Rightarrow> cvalue" where
  "cbor_of_packed_attestation a =
     Map (map_options (zip (map text_key [''alg'', ''sig'', ''x5c'', ''ecdaaKeyId''])
       [Some (from_i64 (pa_alg a)), Some (ByteString (pa_sig a)),
        map_option (\<lambda>cs. Array (map ByteString cs)) (pa_x5c a), map_option ByteString (pa_ecdaa_key_id a)]))"

section \<open>Stored credentials\<close>

text \<open>An Ed25519 secret key is kept as its seed, from which the library computes it.\<close>

datatype private_key = Ecdsa bytes | Ed25519 bytes

definition new_ecdsa_from_bytes :: "bytes \<Rightarrow> private_key option" where
  "new_ecdsa_from_bytes b = (if length b \<noteq> 32 then None else Some (Ecdsa b))"

definition new_ed25519_from_bytes :: "bytes \<Rightarrow> private_key option" where
  "new_ed25519_from_bytes b = (if length b \<noteq> 32 then None else Some (Ed25519 b))"

definition signature_algorithm_of :: "private_key \<Rightarrow> signature_algorithm" where
  "signature_algorithm_of k = (case k of Ecdsa _ \<Rightarrow> Es256 | Ed25519 _ \<Rightarrow> Eddsa)"

definition private_key_bytes :: "private_key \<Rightarrow> bytes" where
  "private_key_bytes k = (case k of Ecdsa seed \<Rightarrow> seed | Ed25519 seed \<Rightarrow> seed)"

definition cbor_of_private_key :: "private_key \<Rightarrow> cvalue" where
  "cbor_of_private_key k =
     Array [from_i64 (algorithm_code (signature_algorithm_of k)), ByteString (private_key_bytes k)]"

definition private_key_of_cbor :: "cvalue \<Rightarrow> status + private_key" where
  "private_key_of_cbor v =
     rbind (extract_array v) (\<lambda>a.
       if length a \<noteq> 2 then Inl CTAP2_ERR_INVALID_CBOR
       else rbind (extract_byte_string (a ! 1)) (\<lambda>b.
            rbind (algorithm_of_cbor (a ! 0)) (\<lambda>alg.
              case alg of
                Es256 \<Rightarrow> ok_or (new_ecdsa_from_bytes b) CTAP2_ERR_INVALID_CBOR
              | Eddsa \<Rightarrow> ok_or (new_ed25519_from_bytes b) CTAP2_ERR_INVALID_CBOR
              | UnknownAlgorithm \<Rightarrow> Inl CTAP2_ERR_INVALID_CBOR)))"

record credential_source =
  cs_type :: credential_type
  cs_id :: bytes
  cs_private_key :: private_key
  cs_rp_id :: rust_string
  cs_user_handle :: bytes
  cs_user_display_name :: "rust_string option"
  cs_cred_protect :: "credential_protection_policy option"
  cs_creation_order :: u64
  cs_user_name :: "rust_string option"
  cs_user_icon :: "rust_string option"
  cs_cred_blob :: "bytes option"
  cs_large_blob_key :: "bytes option"

text \<open>The tags of the fields; tag 5 is reserved.\<close>

definition source_fields :: "cvalue list" where
  "source_fields = map Unsigned [0, 1, 2, 3, 4, 6, 7, 8, 9, 10, 11, 12]"

definition cbor_of_credential_source :: "credential_source \<Rightarrow> cvalue" where
  "cbor_of_credential_source c =
     Map (map_options (zip (map Unsigned [0, 2, 3, 4, 6, 7, 8, 9, 10, 11, 12])
       [Some (ByteString (cs_id c)), Some (TextString (cs_rp_id c)), Some (ByteString (cs_user_handle c)),
        map_option TextString (cs_user_display_name c), map_option cbor_of_policy (cs_cred_protect c),
        Some (Unsigned (cs_creation_order c)), map_option TextString (cs_user_name c),
        map_option TextString (cs_user_icon c), map_option ByteString (cs_cred_blob c),
        map_option ByteString (cs_large_blob_key c), Some (cbor_of_private_key (cs_private_key c))]))"

definition credential_source_of_cbor :: "cvalue \<Rightarrow> status + credential_source" where
  "credential_source_of_cbor v =
     rbind (extract_map v) (\<lambda>m.
       let fs = destructure source_fields m in
       rbind (rbind (ok_or_missing (fs ! 0)) extract_byte_string) (\<lambda>cid.
       rbind (rbind (ok_or_missing (fs ! 2)) extract_text_string) (\<lambda>rp.
       rbind (rbind (ok_or_missing (fs ! 3)) extract_byte_string) (\<lambda>handle.
       rbind (optional extract_text_string (fs ! 4)) (\<lambda>display_name.
       rbind (optional policy_of_cbor (fs ! 5)) (\<lambda>cred_protect.
       rbind (case fs ! 6 of None \<Rightarrow> Inr 0 | Some x \<Rightarrow> extract_unsigned x) (\<lambda>order.
       rbind (optional extract_text_string (fs ! 7)) (\<lambda>name.
       rbind (optional extract_text_string (fs ! 8)) (\<lambda>icon.
       rbind (optional extract_byte_string (fs ! 9)) (\<lambda>cred_blob.
       rbind (optional extract_byte_string (fs ! 10)) (\<lambda>large_blob_key.
       rbind (optional extract_byte_string (fs ! 1)) (\<lambda>old_key.
       rbind (optional private_key_of_cbor (fs ! 11)) (\<lambda>key.
       rbind (case (old_key, key) of
                (None, None) \<Rightarrow> Inl CTAP2_ERR_MISSING_PARAMETER
              | (Some _, Some _) \<Rightarrow> Inl CTAP2_ERR_VENDOR_INTERNAL_ERROR
              | (Some b, None) \<Rightarrow> ok_or (new_ecdsa_from_bytes b) CTAP2_ERR_VENDOR_INTERNAL_ERROR
              | (None, Some k) \<Rightarrow> Inr k) (\<lambda>k.
         Inr \<lparr>cs_type = PublicKey, cs_id = cid, cs_private_key = k, cs_rp_id = rp, cs_user_handle = handle,
              cs_user_display_name = display_name, cs_cred_protect = cred_protect,
              cs_creation_order = order, cs_user_name = name, cs_user_icon = icon,
              cs_cred_blob = cred_blob, cs_large_blob_key = large_blob_key\<rparr>))))))))))))))"

definition is_discoverable :: "credential_source \<Rightarrow> bool" where
  "is_discoverable c =
     (cs_cred_protect c = None \<or> cs_cred_protect c = Some UserVerificationOptional)"

section \<open>Subcommands\<close>

datatype client_pin_subcommand =
    GetPinRetries | GetKeyAgreement | SetPin | ChangePin | GetPinToken
  | GetPinUvAuthTokenUsingUvWithPermissions | GetUvRetries | GetPinUvAuthTokenUsingPinWithPermissions

fun client_pin_subcommand_code :: "client_pin_subcommand \<Rightarrow> u64" where
  "client_pin_subcommand_code GetPinRetries = 0x01"
| "client_pin_subcommand_code GetKeyAgreement = 0x02"
| "client_pin_subcommand_code SetPin = 0x03"
| "client_pin_subcommand_code ChangePin = 0x04"
| "client_pin_subcommand_code GetPinToken = 0x05"
| "client_pin_subcommand_code GetPinUvAuthTokenUsingUvWithPermissions = 0x06"
| "client_pin_subcommand_code GetUvRetries = 0x07"
| "client_pin_subcommand_code GetPinUvAuthTokenUsingPinWithPermissions = 0x09"

definition client_pin_subcommand_of_cbor :: "cvalue \<Rightarrow> status + client_pin_subcommand" where
  "client_pin_subcommand_of_cbor v =
     rbind (extract_unsigned v) (\<lambda>u.
       if u = 0x01 then Inr GetPinRetries
       else if u = 0x02 then Inr GetKeyAgreement
       else if u = 0x03 then Inr SetPin
       else if u = 0x04 then Inr ChangePin
       else if u = 0x05 then Inr GetPinToken
       else if u = 0x06 then Inr GetPinUvAuthTokenUsingUvWithPermissions
       else if u = 0x07 then Inr GetUvRetries
       else if u = 0x09 then Inr GetPinUvAuthTokenUsingPinWithPermissions
       else Inl CTAP2_ERR_INVALID_SUBCOMMAND)"

datatype config_subcommand =
  EnableEnterpriseAttestation | ToggleAlwaysUv | SetMinPinLength | VendorPrototype

fun config_subcommand_code :: "config_subcommand \<Rightarrow> u64" where
  "config_subcommand_code EnableEnterpriseAttestation = 0x01"
| "config_subcommand_code ToggleAlwaysUv = 0x02"
| "config_subcommand_code SetMinPinLength = 0x03"
| "config_subcommand_code VendorPrototype = 0xFF"

definition config_subcommand_of_cbor :: "cvalue \<Rightarrow> status + config_subcommand" where
  "config_subcommand_of_cbor v =
     rbind (extract_unsigned v) (\<lambda>u.
       if u = 0x01 then Inr EnableEnterpriseAttestation
       else if u = 0x02 then Inr ToggleAlwaysUv
       else if u = 0x03 then Inr SetMinPinLength
       else if u = 0xFF then Inr VendorPrototype
       else Inl CTAP2_ERR_INVALID_SUBCOMMAND)"

record set_min_pin_length_params =
  new_min_pin_length :: "u8 option"
  smpl_rp_ids :: "rust_string list option"
  force_change_pin :: "bool option"

definition u8_try_from :: "u64 \<Rightarrow> status + u8" where
  "u8_try_from u = (if u \<le> 0xFF then Inr (ucast u) else Inl CTAP2_ERR_PIN_POLICY_VIOLATION)"

definition set_min_pin_length_params_of_cbor :: "cvalue \<Rightarrow> status + set_min_pin_length_params" where
  "set_min_pin_length_params_of_cbor v =
     rbind (extract_map v) (\<lambda>m.
       let fs = destructure (map Unsigned [1, 2, 3]) m in
       rbind (rbind (optional extract_unsigned (fs ! 0)) (optional u8_try_from)) (\<lambda>len.
       rbind (optional (\<lambda>x. rbind (extract_array x) (collect_results extract_text_string)) (fs ! 1)) (\<lambda>ids.
       rbind (optional extract_bool (fs ! 2)) (\<lambda>force.
         Inr \<lparr>new_min_pin_length = len, smpl_rp_ids = ids, force_change_pin = force\<rparr>))))"

definition cbor_of_set_min_pin_length_params :: "set_min_pin_length_params \<Rightarrow> cvalue" where
  "cbor_of_set_min_pin_length_params p =
     Map (map_options (zip (map Unsigned [1, 2, 3])
       [map_option (\<lambda>u. Unsigned (ucast u)) (new_min_pin_length p),
        map_option (\<lambda>ids. Array (map TextString ids)) (smpl_rp_ids p),
        map_option bool_value (force_change_pin p)]))"

definition enterprise_mode_of_u64 :: "u64 \<Rightarrow> status + enterprise_attestation_mode" where
  "enterprise_mode_of_u64 u =
     (if u = 1 then Inr VendorFacilitated
      else if u = 2 then Inr PlatformManaged
      else Inl CTAP2_ERR_INVALID_OPTION)"

datatype credential_management_subcommand =
    GetCredsMetadata | EnumerateRpsBegin | EnumerateRpsGetNextRp | EnumerateCredentialsBegin
  | EnumerateCredentialsGetNextCredential | DeleteCredential | UpdateUserInformation

fun credential_management_subcommand_code :: "credential_management_subcommand \<Rightarrow> u64" where
  "credential_management_subcommand_code GetCredsMetadata = 0x01"
| "credential_management_subcommand_code EnumerateRpsBegin = 0x02"
| "credential_management_subcommand_code EnumerateRpsGetNextRp = 0x03"
| "credential_management_subcommand_code EnumerateCredentialsBegin = 0x04"
| "credential_management_subcommand_code EnumerateCredentialsGetNextCredential = 0x05"
| "credential_management_subcommand_code DeleteCredential = 0x06"
| "credential_management_subcommand_code UpdateUserInformation = 0x07"

definition credential_management_subcommand_of_cbor ::
  "cvalue \<Rightarrow> status + credential_management_subcommand" where
  "credential_management_subcommand_of_cbor v =
     rbind (extract_unsigned v) (\<lambda>u.
       if u = 0x01 then Inr GetCredsMetadata
       else if u = 0x02 then Inr EnumerateRpsBegin
       else if u = 0x03 then Inr EnumerateRpsGetNextRp
       else if u = 0x04 then Inr EnumerateCredentialsBegin
       else if u = 0x05 then Inr EnumerateCredentialsGetNextCredential
       else if u = 0x06 then Inr DeleteCredential
       else if u = 0x07 then Inr UpdateUserInformation
       else Inl CTAP2_ERR_INVALID_SUBCOMMAND)"

record credential_management_params =
  cmp_rp_id_hash :: "bytes option"
  cmp_credential_id :: "credential_descriptor option"
  cmp_user :: "user_entity option"

definition credential_management_params_of_cbor :: "cvalue \<Rightarrow> status + credential_management_params" where
  "credential_management_params_of_cbor v =
     rbind (extract_map v) (\<lambda>m.
       let fs = destructure (map Unsigned [1, 2, 3]) m in
       rbind (optional extract_byte_string (fs ! 0)) (\<lambda>hash.
       rbind (optional credential_descriptor_of_cbor (fs ! 1)) (\<lambda>cid.
       rbind (optional user_entity_of_cbor (fs ! 2)) (\<lambda>user.
         Inr \<lparr>cmp_rp_id_hash = hash, cmp_credential_id = cid, cmp_user = user\<rparr>))))"

definition cbor_of_credential_management_params :: "credential_management_params \<Rightarrow> cvalue" where
  "cbor_of_credential_management_params p =
     Map (map_options (zip (map Unsigned [1, 2, 3])
       [map_option ByteString (cmp_rp_id_hash p),
        map_option cbor_of_credential_descriptor (cmp_credential_id p),
        map_option cbor_of_user_entity (cmp_user p)]))"

end
