(* ===== verification/Data_Props.thy ===== *)
theory Data_Props
  imports Data_Requests
begin

text \<open>
  Round trips of the CTAP2 data formats: what a \<open>From\<close> conversion builds, the matching \<open>TryFrom\<close>
  conversion reads back, and a stored credential survives serialization.
\<close>

section \<open>Key lists\<close>

lemma sorted_key_lists:
  "sorted_keys rp_entity_keys" "sorted_keys user_entity_keys" "sorted_keys credential_parameter_keys"
  "sorted_keys credential_descriptor_keys" "sorted_keys cose_key_keys" "sorted_keys source_fields"
  "sorted_keys option_keys" "sorted_keys (map Unsigned [1, 2, 3])"
  "sorted_keys (map Unsigned [0, 2, 3, 4, 6, 7, 8, 9, 10, 11, 12])"
proof -
  have labels: "value_cmp (from_i64 3) (from_i64 (-1)) = Less"
    by (simp add: from_i64_def integer_value_def value_cmp_label cmp_of_def)
  show "sorted_keys cose_key_keys"
    using labels by (simp add: cose_key_keys_def less_cvalue_def)
      (simp add: from_i64_def integer_value_def cmp_of_def)
qed (simp_all add: rp_entity_keys_def user_entity_keys_def credential_parameter_keys_def
      credential_descriptor_keys_def source_fields_def option_keys_def text_key_def utf8_def
      less_cvalue_def cmp_of_def)

lemma destructure_zip:
  assumes "sorted_keys ks" "length vs = length ks"
  shows "destructure ks (map_options (zip ks vs)) = vs"
  using destructure_map_options [of "zip ks vs"] assms by simp

lemma destructure_zip_total:
  assumes "sorted_keys ks" "length vs = length ks"
  shows "destructure ks (zip ks vs) = map Some vs"
proof -
  have "map_options (zip ks (map Some vs)) = zip ks vs" for ks and vs :: "cvalue list"
    by (induction ks vs rule: list_induct2') simp_all
  with destructure_zip [OF assms(1), of "map Some vs"] assms(2) show ?thesis by simp
qed

lemma key_list_lengths [simp]:
  "length rp_entity_keys = 3" "length user_entity_keys = 4" "length credential_parameter_keys = 2"
  "length credential_descriptor_keys = 3" "length cose_key_keys = 5" "length source_fields = 12"
  by (simp_all add: rp_entity_keys_def user_entity_keys_def credential_parameter_keys_def
      credential_descriptor_keys_def cose_key_keys_def source_fields_def)

lemma optional_map:
  "(\<And>y. x = Some y \<Longrightarrow> f (g y) = Inr y) \<Longrightarrow> optional f (map_option g x) = Inr x"
  by (cases x) simp_all

lemma nth_numeral_Cons [simp]: "(x # xs) ! numeral n = xs ! (numeral n - 1)"
  by (simp add: nth_Cons')

section \<open>Entities\<close>

lemma credential_type_round_trip [simp]: "credential_type_of_cbor (cbor_of_credential_type t) = Inr t"
  by (cases t) (simp_all add: credential_type_of_cbor_def cbor_of_credential_type_def text_key_def utf8_def)

lemma transport_round_trip [simp]: "transport_of_cbor (cbor_of_transport t) = Inr t"
  by (cases t) (simp_all add: transport_of_cbor_def cbor_of_transport_def text_key_def utf8_def)

lemma algorithm_round_trip [simp]: "algorithm_of_cbor (cbor_of_algorithm a) = Inr a"
  by (cases a) (simp_all add: algorithm_of_cbor_def cbor_of_algorithm_def algorithm_code_def
      algorithm_of_int_def es256_algorithm_def eddsa_algorithm_def i64_def)

lemma policy_round_trip [simp]: "policy_of_cbor (cbor_of_policy p) = Inr p"
  by (cases p) (simp_all add: policy_of_cbor_def cbor_of_policy_def i64_def)

lemma rp_entity_round_trip: "rp_entity_of_cbor (cbor_of_rp_entity r) = Inr r"
  by (simp add: rp_entity_of_cbor_def cbor_of_rp_entity_def destructure_zip sorted_key_lists optional_map)

lemma user_entity_round_trip: "user_entity_of_cbor (cbor_of_user_entity u) = Inr u"
  by (simp add: user_entity_of_cbor_def cbor_of_user_entity_def destructure_zip sorted_key_lists optional_map)

lemma credential_parameter_round_trip:
  "credential_parameter_of_cbor (cbor_of_credential_parameter p) = Inr p"
  by (simp add: credential_parameter_of_cbor_def cbor_of_credential_parameter_def destructure_zip
      sorted_key_lists)

lemma credential_descriptor_round_trip:
  "credential_descriptor_of_cbor (cbor_of_credential_descriptor d) = Inr d"
  by (simp add: credential_descriptor_of_cbor_def cbor_of_credential_descriptor_def destructure_zip
      sorted_key_lists optional_map collect_results_map)

lemma set_min_pin_length_params_round_trip:
  "set_min_pin_length_params_of_cbor (cbor_of_set_min_pin_length_params p) = Inr p"
proof -
  have byte: "u8_try_from (ucast u) = Inr u" for u :: u8
  proof -
    have "take_bit 64 (unat u) = unat u"
      using unat_u8_less [of u] by (intro take_bit_nat_eq_self) simp
    then have len: "unat (ucast u :: u64) = unat u"
      by (simp add: unsigned_ucast_eq)
    moreover have "unat (ucast (ucast u :: u64) :: u8) = unat u"
      using unat_u8_less [of u] len by (simp add: unsigned_ucast_eq [of "ucast u :: u64"] take_bit_nat_eq_self)
    ultimately show ?thesis
      using unat_u8_less [of u] by (simp add: u8_try_from_def word_le_nat_alt word_unat_eq_iff)
  qed
  have lens: "rbind (optional extract_unsigned (map_option (\<lambda>u. Unsigned (ucast u)) x)) (optional u8_try_from) = Inr x" for x
    by (cases x) (simp_all add: byte)
  have "extract_bool (bool_value b) = Inr b" for b
    by (simp add: bool_value_def)
  then show ?thesis
    by (simp add: set_min_pin_length_params_of_cbor_def cbor_of_set_min_pin_length_params_def
        destructure_zip [OF sorted_key_lists(8)] lens optional_map collect_results_map del: list.map)
qed

lemma credential_management_params_round_trip:
  "credential_management_params_of_cbor (cbor_of_credential_management_params p) = Inr p"
  by (simp add: credential_management_params_of_cbor_def cbor_of_credential_management_params_def
      destructure_zip [OF sorted_key_lists(8)] optional_map credential_descriptor_round_trip
      user_entity_round_trip del: list.map)

text \<open>The entities and parameters that CTAP2 both reads and writes survive the conversion to CBOR
  and back.\<close>

theorem entities_round_trip:
  "rp_entity_of_cbor (cbor_of_rp_entity r) = Inr r \<and>
   user_entity_of_cbor (cbor_of_user_entity u) = Inr u \<and>
   credential_parameter_of_cbor (cbor_of_credential_parameter p) = Inr p \<and>
   credential_descriptor_of_cbor (cbor_of_credential_descriptor d) = Inr d \<and>
   set_min_pin_length_params_of_cbor (cbor_of_set_min_pin_length_params s) = Inr s \<and>
   credential_management_params_of_cbor (cbor_of_credential_management_params c) = Inr c"
  by (intro conjI rp_entity_round_trip user_entity_round_trip credential_parameter_round_trip
      credential_descriptor_round_trip set_min_pin_length_params_round_trip
      credential_management_params_round_trip)

section \<open>COSE keys\<close>

definition cose_key_ok :: "cose_key \<Rightarrow> bool" where
  "cose_key_ok k \<longleftrightarrow>
     length (x_bytes k) = 32 \<and> length (y_bytes k) = 32 \<and>
     algorithm k \<in> {ecdh_algorithm, es256_algorithm} \<and> key_type k = 2 \<and> curve k = 1"

lemma i64_algorithms: "i64 ecdh_algorithm" "i64 es256_algorithm" "i64 2" "i64 1"
  by (simp_all add: ecdh_algorithm_def es256_algorithm_def i64_def)

lemma cose_key_round_trip: "cose_key_ok k \<Longrightarrow> cose_key_of_cbor (cbor_of_cose_key k) = Inr k"
  by (cases k) (auto simp: cose_key_ok_def cose_key_of_cbor_def cbor_of_cose_key_def
      destructure_zip_total [OF sorted_key_lists(5)] i64_algorithms)

text \<open>Only P-256 keys with 32-byte coordinates are read, whatever the value, and every such key
  survives the conversion to CBOR and back.\<close>

theorem cose_key_checked:
  "(cose_key_of_cbor v = Inr k \<longrightarrow> cose_key_ok k) \<and>
   (cose_key_ok k \<longrightarrow> cose_key_of_cbor (cbor_of_cose_key k) = Inr k)"
  using cose_key_round_trip [of k]
  by (auto simp: cose_key_of_cbor_def cose_key_ok_def rbind_Inr_iff Let_def split: if_splits)

lemma cose_key_checked_witness:
  "let k = \<lparr>x_bytes = replicate 32 1, y_bytes = replicate 32 2, algorithm = -25, key_type = 2, curve = 1\<rparr>
   in cose_key_of_cbor (cbor_of_cose_key k) = Inr k \<and> cose_key_ok k"
  using cose_key_checked [of _ "\<lparr>x_bytes = replicate 32 1, y_bytes = replicate 32 2, algorithm = -25, key_type = 2, curve = 1\<rparr>"]
  by (simp add: cose_key_ok_def ecdh_algorithm_def)

section \<open>Stored credentials\<close>

definition max_cbor_nesting_depth :: depth where
  "max_cbor_nesting_depth = Some 4"

definition ctap_cbor_read :: "nat \<Rightarrow> bytes \<Rightarrow> status + cvalue" where
  "ctap_cbor_read ub bs = map_sum (\<lambda>_. CTAP2_ERR_INVALID_CBOR) id (read_nested ub bs max_cbor_nesting_depth)"

definition ctap_cbor_write :: "cvalue \<Rightarrow> bytes \<Rightarrow> (status + unit) \<times> bytes" where
  "ctap_cbor_write v out =
     (let (r, out) = write_nested v out max_cbor_nesting_depth
      in (map_sum (\<lambda>_. CTAP2_ERR_VENDOR_INTERNAL_ERROR) id r, out))"

definition deserialize_credential :: "nat \<Rightarrow> bytes \<Rightarrow> credential_source option" where
  "deserialize_credential ub bs =
     (case rbind (ctap_cbor_read ub bs) credential_source_of_cbor of Inl _ \<Rightarrow> None | Inr c \<Rightarrow> Some c)"

definition serialize_credential :: "credential_source \<Rightarrow> status + bytes" where
  "serialize_credential c =
     (let (r, out) = ctap_cbor_write (cbor_of_credential_source c) [] in rbind r (\<lambda>_. Inr out))"

lemma ctap_cbor_round_trip:
  assumes "wf_value ub v" "canonical v" "nest v \<le> 4"
  shows "ctap_cbor_write v [] = (Inr (), enc v) \<and> ctap_cbor_read ub (enc v) = Inr v"
proof -
  have fits: "fits max_cbor_nesting_depth (nest v)"
    using assms(3) by (simp add: fits_def max_cbor_nesting_depth_def)
  then have "encode_cbor v max_cbor_nesting_depth [] = (Inr (), enc v)"
    by (simp add: encode_ok_iff canonical_unique_keys assms(2) sort_maps_canonical)
  moreover have "decode_item ub max_cbor_nesting_depth (enc v @ []) = Inr (v, [])"
    using assms fits by (intro decode_enc)
  ultimately show ?thesis
    by (simp add: ctap_cbor_write_def ctap_cbor_read_def write_nested_def read_nested_def)
qed

text \<open>What the types of the code guarantee of a credential, and that its strings can be indexed.\<close>

definition string_ok :: "nat \<Rightarrow> rust_string \<Rightarrow> bool" where
  "string_ok ub s \<longleftrightarrow> wf_value ub (TextString s)"

definition bytes_ok :: "nat \<Rightarrow> bytes \<Rightarrow> bool" where
  "bytes_ok ub b \<longleftrightarrow> wf_value ub (ByteString b)"

definition source_ok :: "nat \<Rightarrow> credential_source \<Rightarrow> bool" where
  "source_ok ub c \<longleftrightarrow>
     cs_type c = PublicKey \<and> length (private_key_bytes (cs_private_key c)) = 32 \<and>
     bytes_ok ub (private_key_bytes (cs_private_key c)) \<and> bytes_ok ub (cs_id c) \<and>
     string_ok ub (cs_rp_id c) \<and> bytes_ok ub (cs_user_handle c) \<and>
     pred_option (string_ok ub) (cs_user_display_name c) \<and> pred_option (string_ok ub) (cs_user_name c) \<and>
     pred_option (string_ok ub) (cs_user_icon c) \<and> pred_option (bytes_ok ub) (cs_cred_blob c) \<and>
     pred_option (bytes_ok ub) (cs_large_blob_key c)"

lemma private_key_round_trip:
  "length (private_key_bytes k) = 32 \<Longrightarrow> private_key_of_cbor (cbor_of_private_key k) = Inr k"
  using algorithm_round_trip [of Es256] algorithm_round_trip [of Eddsa]
  by (cases k) (simp_all add: private_key_of_cbor_def cbor_of_private_key_def signature_algorithm_of_def
      private_key_bytes_def new_ecdsa_from_bytes_def new_ed25519_from_bytes_def flip: cbor_of_algorithm_def)

lemma cbor_of_credential_source_eq:
  "cbor_of_credential_source c =
     Map (map_options (zip source_fields
       [Some (ByteString (cs_id c)), None, Some (TextString (cs_rp_id c)), Some (ByteString (cs_user_handle c)),
        map_option TextString (cs_user_display_name c), map_option cbor_of_policy (cs_cred_protect c),
        Some (Unsigned (cs_creation_order c)), map_option TextString (cs_user_name c),
        map_option TextString (cs_user_icon c), map_option ByteString (cs_cred_blob c),
        map_option ByteString (cs_large_blob_key c), Some (cbor_of_private_key (cs_private_key c))]))"
  by (simp add: cbor_of_credential_source_def source_fields_def)

lemma credential_source_round_trip:
  "source_ok ub c \<Longrightarrow> credential_source_of_cbor (cbor_of_credential_source c) = Inr c"
  by (simp add: source_ok_def credential_source_of_cbor_def cbor_of_credential_source_eq destructure_zip
      sorted_key_lists optional_map private_key_round_trip)

text \<open>The map of a credential is canonical, well-formed and nested two deep.\<close>

lemma map_options_set: "(k, v) \<in> set (map_options m) \<Longrightarrow> (k, Some v) \<in> set m"
  by (induction m rule: map_options.induct) auto

lemma map_options_sorted:
  "sorted_wrt (<) (map fst m) \<Longrightarrow> sorted_wrt (<) (map fst (map_options m))"
proof (induction m rule: map_options.induct)
  case (3 k v m)
  then show ?case by (fastforce dest: map_options_set)
qed simp_all

lemma length_map_options: "length (map_options m) \<le> length m"
  by (induction m rule: map_options.induct) auto

text \<open>\<open>storable ub d v\<close>: the value is well-formed, canonical and nested at most \<open>d\<close> deep.\<close>

definition storable :: "nat \<Rightarrow> nat \<Rightarrow> cvalue \<Rightarrow> bool" where
  "storable ub d v \<longleftrightarrow> wf_value ub v \<and> canonical v \<and> nest v \<le> d"

lemma foldr_max_le: "(\<And>x. x \<in> set xs \<Longrightarrow> f x \<le> d) \<Longrightarrow> foldr max (map f xs) 0 \<le> (d :: nat)"
  by (induction xs) simp_all

lemma storable_Map:
  assumes sorted: "sorted_keys ks" and len: "length vs = length ks" "length ks < 2 ^ 64"
    and keys: "\<And>k. k \<in> set ks \<Longrightarrow> storable ub d k"
    and vals: "\<And>v. Some v \<in> set vs \<Longrightarrow> storable ub d v"
  shows "storable ub (Suc d) (Map (map_options (zip ks vs)))"
proof -
  let ?m = "map_options (zip ks vs)"
  have "sorted_wrt (<) (map fst ?m)"
    using sorted len by (intro map_options_sorted) (simp add: sorted_keys_iff)
  moreover have "storable ub d k \<and> storable ub d v" if "(k, v) \<in> set ?m" for k v
    using map_options_set [OF that] keys vals by (auto dest: set_zip_leftD set_zip_rightD)
  moreover have "length ?m < 2 ^ 64"
    using length_map_options [of "zip ks vs"] len by simp
  ultimately show ?thesis
    by (auto simp: storable_def list_all_iff intro!: foldr_max_le)
qed

lemma storable_from_i64 [simp]: "storable ub d (from_i64 i)"
  by (auto simp: storable_def from_i64_def integer_value_def)

lemma storable_leaf [simp]:
  "storable ub d (Unsigned u)" "storable ub d (ByteString b) \<longleftrightarrow> bytes_ok ub b"
  "storable ub d (TextString t) \<longleftrightarrow> string_ok ub t" "storable ub d (cbor_of_policy p)"
  by (auto simp: storable_def bytes_ok_def string_ok_def cbor_of_policy_def
      storable_from_i64 [unfolded storable_def])

lemma storable_private_key:
  "bytes_ok ub (private_key_bytes k) \<Longrightarrow> storable ub 1 (cbor_of_private_key k)"
  using storable_from_i64 [of ub 0 "algorithm_code (signature_algorithm_of k)"]
  by (auto simp: storable_def cbor_of_private_key_def bytes_ok_def)

lemma storable_source:
  assumes "source_ok ub c"
  shows "storable ub 2 (cbor_of_credential_source c)"
proof -
  have "storable ub (Suc 1) (cbor_of_credential_source c)"
    unfolding cbor_of_credential_source_eq
  proof (rule storable_Map [OF sorted_key_lists(6)])
    fix v
    assume "Some v \<in> set [Some (ByteString (cs_id c)), None, Some (TextString (cs_rp_id c)),
      Some (ByteString (cs_user_handle c)), map_option TextString (cs_user_display_name c),
      map_option cbor_of_policy (cs_cred_protect c), Some (Unsigned (cs_creation_order c)),
      map_option TextString (cs_user_name c), map_option TextString (cs_user_icon c),
      map_option ByteString (cs_cred_blob c), map_option ByteString (cs_large_blob_key c),
      Some (cbor_of_private_key (cs_private_key c))]"
    then show "storable ub 1 v"
      using assms storable_private_key [of ub "cs_private_key c"]
      by (auto simp: source_ok_def option.pred_set dest: sym [of "Some v"])
  qed (auto simp: source_fields_def)
  then show ?thesis by (simp add: numeral_2_eq_2)
qed

lemma serialize_source:
  assumes "source_ok ub c"
  shows "\<exists>b. serialize_credential c = Inr b \<and> deserialize_credential ub b = Some c"
proof -
  have "ctap_cbor_write (cbor_of_credential_source c) [] = (Inr (), enc (cbor_of_credential_source c)) \<and>
    ctap_cbor_read ub (enc (cbor_of_credential_source c)) = Inr (cbor_of_credential_source c)"
    using storable_source [OF assms] by (intro ctap_cbor_round_trip) (auto simp: storable_def)
  then show ?thesis
    by (simp add: serialize_credential_def deserialize_credential_def
        credential_source_round_trip [OF assms])
qed

text \<open>C19: a credential source that is written to storage is read back unchanged: the serialization
  succeeds within the nesting limit, and deserializing its bytes gives the same credential.\<close>

theorem credential_survives_storage:
  assumes "source_ok ub c"
  shows "\<exists>b. serialize_credential c = Inr b \<and> deserialize_credential ub b = Some c"
  using assms by (rule serialize_source)

definition sample_source :: credential_source where
  "sample_source = \<lparr>cs_type = PublicKey, cs_id = [1, 2], cs_private_key = Ecdsa (replicate 32 7),
     cs_rp_id = utf8 ''example.com'', cs_user_handle = [9], cs_user_display_name = Some (utf8 ''A''),
     cs_cred_protect = Some UserVerificationRequired, cs_creation_order = 3, cs_user_name = None,
     cs_user_icon = None, cs_cred_blob = None, cs_large_blob_key = Some [4]\<rparr>"

lemma credential_survives_storage_witness:
  "\<exists>b. serialize_credential sample_source = Inr b \<and> deserialize_credential 32 b = Some sample_source"
  by (rule credential_survives_storage)
     (simp add: source_ok_def sample_source_def bytes_ok_def string_ok_def private_key_bytes_def
      utf8_def utf8_valid_def)

end
