(* ===== verification/Ctap_Storage.thy ===== *)
theory Ctap_Storage
  imports Data_Formats Fragment
begin

text \<open>
  The persistent data of the authenticator, \<open>src/ctap/storage.rs\<close> with the keys of
  \<open>storage/key.rs\<close>, the master keys of \<open>src/api/key_store.rs\<close> and the attestation entries of
  \<open>src/api/attestation_store.rs\<close>. The environment trait \<open>Env\<close> is split in two: \<open>platform\<close> is what
  does not change (the PDDB calls, the primitives, the customization, the width of \<open>usize\<close>, the
  localized texts and the answer of the user to the \<open>n\<close>-th prompt, given its text and its channel or application), and
  \<open>env\<close> is the state (the store, the random numbers drawn and the prompts shown). Every operation is a function
  on \<open>env\<close> that returns a status code or a result; multi-byte counters are in the byte order of the
  little-endian target.
\<close>

section \<open>The environment\<close>

record 'p platform =
  pddb_of :: "'p pddb"
  crypto_of :: crypto
  custom :: customization
  usize_bits :: nat
  locale_text :: "string \<Rightarrow> rust_string"
  touch :: "nat \<Rightarrow> rust_string \<Rightarrow> bytes \<Rightarrow> user_presence_error + unit"
  approve_ctap1 :: "nat \<Rightarrow> rust_string \<Rightarrow> bytes \<Rightarrow> bool"

record 'p env =
  store_of :: "'p store"
  draws :: nat
  prompts :: nat

type_synonym ('p, 'a) env_op = "('p env, status, 'a) op"

fun store_status :: "store_error \<Rightarrow> status" where
  "store_status NoCapacity = CTAP2_ERR_KEY_STORE_FULL"
| "store_status NoLifetime = CTAP2_ERR_KEY_STORE_FULL"
| "store_status InvalidArgument = CTAP2_ERR_VENDOR_INTERNAL_ERROR"
| "store_status InvalidStorage = CTAP2_ERR_VENDOR_HARDWARE_FAILURE"
| "store_status StorageError = CTAP1_ERR_OTHER"

definition with_store :: "('p store, store_error, 'a) op \<Rightarrow> ('p, 'a) env_op" where
  "with_store f e = (let (r, s) = f (store_of e) in (map_sum store_status id r, e\<lparr>store_of := s\<rparr>))"

definition find_entry :: "'p platform \<Rightarrow> nat \<Rightarrow> ('p, bytes option) env_op" where
  "find_entry P k = with_store (slift (find_key (pddb_of P) k))"

definition find_entry_handle :: "'p platform \<Rightarrow> nat \<Rightarrow> ('p, nat option) env_op" where
  "find_entry_handle P k = with_store (slift (find_handle (pddb_of P) k))"

definition update_entries :: "'p platform \<Rightarrow> store_update list \<Rightarrow> ('p, unit) env_op" where
  "update_entries P us = with_store (transaction (pddb_of P) us)"

definition insert_entry :: "'p platform \<Rightarrow> nat \<Rightarrow> bytes \<Rightarrow> ('p, unit) env_op" where
  "insert_entry P k v = with_store (insert_key (pddb_of P) k v)"

definition remove_entry :: "'p platform \<Rightarrow> nat \<Rightarrow> ('p, unit) env_op" where
  "remove_entry P k = with_store (remove_key (pddb_of P) k)"

definition random_bytes :: "'p platform \<Rightarrow> ('p, bytes) env_op" where
  "random_bytes P e =
     (let (b, n) = gen_uniform_u8x32 (crypto_of P) (draws e) in (Inr b, e\<lparr>draws := n\<rparr>))"

definition internal_error :: status where
  "internal_error = CTAP2_ERR_VENDOR_INTERNAL_ERROR"

section \<open>Keys\<close>

definition num_persistent_keys :: nat where "num_persistent_keys = 20"
definition aaguid_key :: nat where "aaguid_key = 3"
definition large_blob_shards :: keys where "large_blob_shards = range_keys 2000 2004"
definition always_uv_key :: nat where "always_uv_key = 2038"
definition enterprise_attestation_key :: nat where "enterprise_attestation_key = 2039"
definition force_pin_change_key :: nat where "force_pin_change_key = 2040"
definition cred_random_secret_key :: nat where "cred_random_secret_key = 2041"
definition min_pin_length_rp_ids_key :: nat where "min_pin_length_rp_ids_key = 2042"
definition min_pin_length_key :: nat where "min_pin_length_key = 2043"
definition pin_retries_key :: nat where "pin_retries_key = 2044"
definition pin_properties_key :: nat where "pin_properties_key = 2045"
definition key_store_key :: nat where "key_store_key = 2046"
definition global_signature_counter_key :: nat where "global_signature_counter_key = 2047"

lemmas storage_keys = num_persistent_keys_def aaguid_key_def always_uv_key_def
  enterprise_attestation_key_def force_pin_change_key_def cred_random_secret_key_def
  min_pin_length_rp_ids_key_def min_pin_length_key_def pin_retries_key_def pin_properties_key_def
  key_store_key_def global_signature_counter_key_def

section \<open>Initialization and reset\<close>

definition key_material_aaguid :: bytes where
  "key_material_aaguid =
     [0x48, 0xE0, 0x37, 0x1C, 0x32, 0x52, 0x57, 0xF7, 0xD2, 0xF0, 0x00, 0x0F, 0xBD, 0x7A, 0x89, 0x19]"

definition set_aaguid :: "'p platform \<Rightarrow> bytes \<Rightarrow> ('p, unit) env_op" where
  "set_aaguid P v = insert_entry P aaguid_key v"

definition aaguid :: "'p platform \<Rightarrow> ('p, bytes) env_op" where
  "aaguid P =
     sbind (sbind (find_entry P aaguid_key) (\<lambda>v. slift (\<lambda>_. ok_or v internal_error))) (\<lambda>v.
       if length v \<noteq> 16 then sfail internal_error else sret v)"

definition init_cred_random :: "'p platform \<Rightarrow> ('p, unit) env_op" where
  "init_cred_random P =
     sbind (find_entry_handle P cred_random_secret_key) (\<lambda>h.
       if h = None then
         sbind (random_bytes P) (\<lambda>with_uv. sbind (random_bytes P) (\<lambda>without_uv.
           insert_entry P cred_random_secret_key (without_uv @ with_uv)))
       else sret ())"

definition init :: "'p platform \<Rightarrow> ('p, unit) env_op" where
  "init P =
     sbind (init_cred_random P) (\<lambda>_.
     sbind (find_entry_handle P aaguid_key) (\<lambda>h.
       if h = None then set_aaguid P key_material_aaguid else sret ()))"

definition key_store_reset :: "'p platform \<Rightarrow> ('p, unit) env_op" where
  "key_store_reset P e =
     (let (r, s) = remove_key (pddb_of P) key_store_key (store_of e)
      in (map_sum (\<lambda>_. status_of_key_store KeyStoreError) id r, e\<lparr>store_of := s\<rparr>))"

definition reset :: "'p platform \<Rightarrow> ('p, unit) env_op" where
  "reset P =
     sbind (with_store (clear (usize_bits P) (pddb_of P) num_persistent_keys)) (\<lambda>_.
     sbind (key_store_reset P) (\<lambda>_. init P))"

definition cred_random_secret :: "'p platform \<Rightarrow> bool \<Rightarrow> ('p, bytes) env_op" where
  "cred_random_secret P has_uv =
     sbind (sbind (find_entry P cred_random_secret_key) (\<lambda>v. slift (\<lambda>_. ok_or v internal_error))) (\<lambda>v.
       if length v \<noteq> 64 then sfail internal_error
       else sret (take 32 (drop (if has_uv then 32 else 0) v)))"

section \<open>Signature counter\<close>

definition le_bytes :: "u32 \<Rightarrow> bytes" where
  "le_bytes w = rev (be_bytes 4 w)"

definition of_le_bytes :: "bytes \<Rightarrow> u32" where
  "of_le_bytes bs = of_nat (be_nat (rev bs))"

definition global_signature_counter :: "'p platform \<Rightarrow> ('p, u32) env_op" where
  "global_signature_counter P =
     sbind (find_entry P global_signature_counter_key) (\<lambda>v.
       case v of
         None \<Rightarrow> sret 1
       | Some value \<Rightarrow> if length value = 4 then sret (of_le_bytes value) else sfail internal_error)"

definition incr_global_signature_counter :: "'p platform \<Rightarrow> u32 \<Rightarrow> ('p, unit) env_op" where
  "incr_global_signature_counter P increment =
     sbind (global_signature_counter P) (\<lambda>old_value.
       insert_entry P global_signature_counter_key (le_bytes (old_value + increment)))"

section \<open>PIN\<close>

record pin_props =
  pin_prop_hash :: bytes
  code_point_length :: u8

definition pin_properties :: "'p platform \<Rightarrow> ('p, pin_props option) env_op" where
  "pin_properties P =
     sbind (find_entry P pin_properties_key) (\<lambda>v.
       case v of
         None \<Rightarrow> sret None
       | Some p \<Rightarrow>
           if length p = 17
           then sret (Some \<lparr>pin_prop_hash = take 16 (drop 1 p), code_point_length = p ! 0\<rparr>)
           else sfail internal_error)"

definition pin_hash :: "'p platform \<Rightarrow> ('p, bytes option) env_op" where
  "pin_hash P = sbind (pin_properties P) (\<lambda>p. sret (map_option pin_prop_hash p))"

definition pin_code_point_length :: "'p platform \<Rightarrow> ('p, u8 option) env_op" where
  "pin_code_point_length P = sbind (pin_properties P) (\<lambda>p. sret (map_option code_point_length p))"

definition set_pin :: "'p platform \<Rightarrow> bytes \<Rightarrow> u8 \<Rightarrow> ('p, unit) env_op" where
  "set_pin P hash len =
     update_entries P [Insert pin_properties_key (len # hash), Remove force_pin_change_key]"

definition pin_retries :: "'p platform \<Rightarrow> ('p, u8) env_op" where
  "pin_retries P =
     sbind (find_entry P pin_retries_key) (\<lambda>v.
       case v of
         None \<Rightarrow> sret (max_pin_retries (custom P))
       | Some value \<Rightarrow> if length value = 1 then sret (value ! 0) else sfail internal_error)"

definition saturating_pred :: "u8 \<Rightarrow> u8" where
  "saturating_pred x = (if x = 0 then 0 else x - 1)"

definition decr_pin_retries :: "'p platform \<Rightarrow> ('p, unit) env_op" where
  "decr_pin_retries P =
     sbind (pin_retries P) (\<lambda>old_value.
       let new_value = saturating_pred old_value
       in if new_value \<noteq> old_value then insert_entry P pin_retries_key [new_value] else sret ())"

definition reset_pin_retries :: "'p platform \<Rightarrow> ('p, unit) env_op" where
  "reset_pin_retries P = remove_entry P pin_retries_key"

definition min_pin_length :: "'p platform \<Rightarrow> ('p, u8) env_op" where
  "min_pin_length P =
     sbind (find_entry P min_pin_length_key) (\<lambda>v.
       case v of
         None \<Rightarrow> sret (default_min_pin_length (custom P))
       | Some value \<Rightarrow> if length value = 1 then sret (value ! 0) else sfail internal_error)"

definition set_min_pin_length :: "'p platform \<Rightarrow> u8 \<Rightarrow> ('p, unit) env_op" where
  "set_min_pin_length P n = insert_entry P min_pin_length_key [n]"

section \<open>Flags\<close>

text \<open>The three flags are entries that are empty when set.\<close>

definition flag_entry :: "'p platform \<Rightarrow> nat \<Rightarrow> ('p, bool) env_op" where
  "flag_entry P k =
     sbind (find_entry P k) (\<lambda>v.
       case v of
         None \<Rightarrow> sret False
       | Some value \<Rightarrow> if value = [] then sret True else sfail internal_error)"

definition has_force_pin_change :: "'p platform \<Rightarrow> ('p, bool) env_op" where
  "has_force_pin_change P = flag_entry P force_pin_change_key"

definition force_pin_change :: "'p platform \<Rightarrow> ('p, unit) env_op" where
  "force_pin_change P = insert_entry P force_pin_change_key []"

definition enterprise_attestation :: "'p platform \<Rightarrow> ('p, bool) env_op" where
  "enterprise_attestation P = flag_entry P enterprise_attestation_key"

definition has_always_uv :: "'p platform \<Rightarrow> ('p, bool) env_op" where
  "has_always_uv P =
     (if enforce_always_uv (custom P) then sret True else flag_entry P always_uv_key)"

definition toggle_always_uv :: "'p platform \<Rightarrow> ('p, unit) env_op" where
  "toggle_always_uv P =
     (if enforce_always_uv (custom P) then sfail CTAP2_ERR_OPERATION_DENIED
      else sbind (has_always_uv P) (\<lambda>b.
        if b then remove_entry P always_uv_key else insert_entry P always_uv_key []))"

section \<open>Attestation and master keys\<close>

record attestation =
  att_private_key :: bytes
  att_certificate :: bytes

fun attestation_error_of :: "store_error \<Rightarrow> attestation_error" where
  "attestation_error_of StorageError = AttestationStorage"
| "attestation_error_of _ = AttestationInternal"

definition helper_get :: "'p platform \<Rightarrow> ('p env, attestation_error, attestation option) op" where
  "helper_get P e =
     (rbind (map_sum attestation_error_of id (find_key (pddb_of P) 1 (store_of e))) (\<lambda>private_key.
      rbind (map_sum attestation_error_of id (find_key (pddb_of P) 2 (store_of e))) (\<lambda>certificate.
        case (private_key, certificate) of
          (Some k, Some c) \<Rightarrow>
            if length k \<noteq> 32 then Inl AttestationInternal
            else Inr (Some \<lparr>att_private_key = k, att_certificate = c\<rparr>)
        | (None, None) \<Rightarrow> Inr None
        | _ \<Rightarrow> Inl AttestationInternal)), e)"

definition helper_set :: "'p platform \<Rightarrow> attestation option \<Rightarrow> ('p env, attestation_error, unit) op" where
  "helper_set P att e =
     (let us = (case att of
                  None \<Rightarrow> [Remove 1, Remove 2]
                | Some a \<Rightarrow> [Insert 1 (att_private_key a), Insert 2 (att_certificate a)]);
          (r, s) = transaction (pddb_of P) us (store_of e)
      in (map_sum attestation_error_of id r, e\<lparr>store_of := s\<rparr>))"

text \<open>The attestation store of the badge, \<open>src/env/xous/mod.rs\<close>, has a batch attestation only.\<close>

datatype attestation_id = Batch | Enterprise

definition attestation_get ::
  "'p platform \<Rightarrow> attestation_id \<Rightarrow> ('p env, attestation_error, attestation option) op" where
  "attestation_get P i = (if i \<noteq> Batch then sfail AttestationNoSupport else helper_get P)"

definition attestation_set ::
  "'p platform \<Rightarrow> attestation_id \<Rightarrow> attestation option \<Rightarrow> ('p env, attestation_error, unit) op" where
  "attestation_set P i att = (if i \<noteq> Batch then sfail AttestationNoSupport else helper_set P att)"

text \<open>\<open>?\<close> on a result of the attestation store.\<close>

definition from_attestation_store :: "('p env, attestation_error, 'a) op \<Rightarrow> ('p, 'a) env_op" where
  "from_attestation_store f e = (let (r, e) = f e in (map_sum status_of_attestation id r, e))"

definition enable_enterprise_attestation :: "'p platform \<Rightarrow> ('p, unit) env_op" where
  "enable_enterprise_attestation P =
     sbind (from_attestation_store (attestation_get P Enterprise)) (\<lambda>att.
       if att = None then sfail internal_error
       else sbind (enterprise_attestation P) (\<lambda>b.
         if \<not> b then insert_entry P enterprise_attestation_key [] else sret ()))"

record master_keys =
  mk_encryption :: bytes
  mk_authentication :: bytes

definition get_master_keys :: "'p platform \<Rightarrow> ('p env, key_store_error, master_keys) op" where
  "get_master_keys P e =
     (case find_key (pddb_of P) key_store_key (store_of e) of
        Inl _ \<Rightarrow> (Inl KeyStoreError, e)
      | Inr found \<Rightarrow>
          (let (r, e) =
             (case found of
                Some x \<Rightarrow> (Inr x, e)
              | None \<Rightarrow>
                  (let (enc, n) = gen_uniform_u8x32 (crypto_of P) (draws e);
                       (auth, n) = gen_uniform_u8x32 (crypto_of P) n;
                       (r, s) = insert_key (pddb_of P) key_store_key (enc @ auth) (store_of e)
                   in (map_sum (\<lambda>_. KeyStoreError) (\<lambda>_. enc @ auth) r, e\<lparr>store_of := s, draws := n\<rparr>)))
           in (rbind r (\<lambda>keys.
                 if length keys \<noteq> 64 then Inl KeyStoreError
                 else Inr \<lparr>mk_encryption = take 32 keys, mk_authentication = take 32 (drop 32 keys)\<rparr>), e)))"

definition key_handle_encryption :: "'p platform \<Rightarrow> ('p env, key_store_error, bytes) op" where
  "key_handle_encryption P = sbind (get_master_keys P) (\<lambda>k. sret (mk_encryption k))"

definition key_handle_authentication :: "'p platform \<Rightarrow> ('p env, key_store_error, bytes) op" where
  "key_handle_authentication P = sbind (get_master_keys P) (\<lambda>k. sret (mk_authentication k))"

section \<open>Large blobs\<close>

definition empty_large_blob :: bytes where
  "empty_large_blob =
     [0x80, 0x76, 0xBE, 0x8B, 0x52, 0x8D, 0x00, 0x75, 0xF7, 0xAA, 0xE9, 0x8D, 0x6F, 0xA5, 0x7A, 0x6D, 0x3C]"

text \<open>\<open>offset + byte_count\<close> wraps at the width of \<open>usize\<close>; \<open>get(a..b)\<close> of a slice is \<open>None\<close> out of range.\<close>

definition get_large_blob_array :: "'p platform \<Rightarrow> nat \<Rightarrow> nat \<Rightarrow> ('p, bytes) env_op" where
  "get_large_blob_array P offset byte_count =
     (let end' = (offset + byte_count) mod 2 ^ usize_bits P
      in sbind (with_store (slift (fragment_read_range (usize_bits P) (pddb_of P) large_blob_shards offset end')))
           (\<lambda>output. sret (case output of
              Some v \<Rightarrow> v
            | None \<Rightarrow>
                (let last_index = min (length empty_large_blob) end'
                 in if offset \<le> last_index then drop offset (take last_index empty_large_blob) else []))))"

definition commit_large_blob_array :: "'p platform \<Rightarrow> bytes \<Rightarrow> ('p, unit) env_op" where
  "commit_large_blob_array P large_blob_array =
     (if length large_blob_array > max_large_blob_array_size (custom P) then sfail internal_error
      else with_store (fragment_write (usize_bits P) (pddb_of P) large_blob_shards large_blob_array))"

section \<open>Operations on a working device\<close>

lemma insert_entry_ok:
  assumes "store_inv ub (pddb_of P) view (store_of e)" "k < 2 ^ ub"
  shows "\<exists>e'. insert_entry P k v e = (Inr (), e') \<and> store_inv ub (pddb_of P) view (store_of e') \<and>
    content view (store_of e') = (content view (store_of e))(k \<mapsto> v) \<and> draws e' = draws e"
  using st.insert_one [OF assms, of v]
  by (auto simp: insert_entry_def insert_key_def with_store_def)

lemma remove_entry_ok:
  assumes "store_inv ub (pddb_of P) view (store_of e)" "k < 2 ^ ub"
  shows "\<exists>e'. remove_entry P k e = (Inr (), e') \<and> store_inv ub (pddb_of P) view (store_of e') \<and>
    content view (store_of e') = (content view (store_of e))(k := None) \<and> draws e' = draws e"
  using st.remove_one [OF assms]
  by (auto simp: remove_entry_def remove_key_def with_store_def)

lemma update_entries_ok:
  assumes "store_inv ub (pddb_of P) view (store_of e)" "\<forall>u\<in>set us. update_key u < 2 ^ ub"
  shows "\<exists>e'. update_entries P us e = (Inr (), e') \<and> store_inv ub (pddb_of P) view (store_of e') \<and>
    content view (store_of e') = fold apply_to us (content view (store_of e)) \<and> draws e' = draws e"
  using st.transact [OF assms]
  by (auto simp: update_entries_def with_store_def)

lemma find_entry_ok:
  "store_inv ub (pddb_of P) view (store_of e) \<Longrightarrow> find_entry P k e = (Inr (content view (store_of e) k), e)"
  by (simp add: find_entry_def with_store_def st.find)

lemma find_entry_handle_ok:
  "store_inv ub (pddb_of P) view (store_of e) \<Longrightarrow>
     find_entry_handle P k e = (Inr (if content view (store_of e) k = None then None else Some k), e)"
  by (simp add: find_entry_handle_def with_store_def st.handle)

text \<open>An environment for the examples: an empty association list as the PDDB.\<close>

definition toy_platform :: "(string \<times> bytes) list platform" where
  "toy_platform = \<lparr>pddb_of = alist_pddb, crypto_of = toy_crypto, custom = default_customization,
     usize_bits = 32, locale_text = utf8, touch = (\<lambda>n reason ch. Inr ()),
     approve_ctap1 = (\<lambda>n reason app. True)\<rparr>"

definition toy_env :: "(string \<times> bytes) list \<Rightarrow> (string \<times> bytes) list env" where
  "toy_env p = \<lparr>store_of = new_store alist_pddb p, draws = 0, prompts = 0\<rparr>"

lemma toy_platform_simps [simp]:
  "pddb_of toy_platform = alist_pddb" "crypto_of toy_platform = toy_crypto"
  "custom toy_platform = default_customization" "usize_bits toy_platform = 32"
  "locale_text toy_platform = utf8" "touch toy_platform = (\<lambda>n reason ch. Inr ())"
  "approve_ctap1 toy_platform = (\<lambda>n reason app. True)"
  by (simp_all add: toy_platform_def)

lemma toy_env_inv: "store_inv 32 alist_pddb map_of (store_of (toy_env []))"
  by (simp add: toy_env_def new_alist_store_inv)

lemma toy_env_content: "content map_of (store_of (toy_env [])) = Map.empty"
  by (simp add: toy_env_def new_store_def content_def fun_eq_iff)

end
