(* ===== verification/Credential_Store.thy ===== *)
theory Credential_Store
  imports Data_Props Ctap_Storage
begin

text \<open>
  The entries of \<open>src/ctap/storage.rs\<close> that hold CBOR: the resident credentials, and the list of
  relying parties that may read the minimum PIN length. \<open>IterCredentials\<close> is modelled by the list
  of the items it yields and the result it leaves behind.
\<close>

section \<open>Iteration\<close>

definition credential_keys :: "nat list" where
  "credential_keys = [1700..<2000]"

definition min_credential_key :: nat where
  "min_credential_key = 1700"

fun iterate_credentials ::
  "nat \<Rightarrow> 'p pddb \<Rightarrow> 'p store \<Rightarrow> (store_error + nat) list \<Rightarrow>
     (nat \<times> credential_source) list \<times> (status + unit)" where
  "iterate_credentials ub P s [] = ([], Inr ())"
| "iterate_credentials ub P s (Inl _ # hs) = ([], Inl internal_error)"
| "iterate_credentials ub P s (Inr k # hs) =
     (if k \<notin> set credential_keys then iterate_credentials ub P s hs
      else case get_value P k s of
             Inl _ \<Rightarrow> ([], Inl internal_error)
           | Inr v \<Rightarrow>
               (case deserialize_credential ub v of
                  None \<Rightarrow> ([], Inl internal_error)
                | Some c \<Rightarrow> (let (cs, r) = iterate_credentials ub P s hs in ((k, c) # cs, r))))"

definition iter_credentials ::
  "'p platform \<Rightarrow> ('p, (nat \<times> credential_source) list \<times> (status + unit)) env_op" where
  "iter_credentials P =
     with_store (slift (\<lambda>s. map_sum id (iterate_credentials (usize_bits P) (pddb_of P) s)
       (store_iter (usize_bits P) s)))"

section \<open>Lookup\<close>

definition get_credential :: "'p platform \<Rightarrow> nat \<Rightarrow> ('p, credential_source) env_op" where
  "get_credential P k =
     (if k < min_credential_key \<or> k \<ge> min_credential_key + max_supported_resident_keys (custom P)
      then sfail internal_error
      else sbind (sbind (find_entry P k) (\<lambda>v. slift (\<lambda>_. ok_or v internal_error))) (\<lambda>v.
        slift (\<lambda>_. ok_or (deserialize_credential (usize_bits P) v) internal_error)))"

definition find_credential_item :: "'p platform \<Rightarrow> bytes \<Rightarrow> ('p, nat \<times> credential_source) env_op" where
  "find_credential_item P cred_id =
     sbind (iter_credentials P) (\<lambda>(items, iter_result).
       let credentials = filter (\<lambda>(_, c). cs_id c = cred_id) items
       in sbind (slift (\<lambda>_. iter_result)) (\<lambda>_.
          if length credentials > 1 then sfail internal_error
          else if credentials = [] then sfail CTAP2_ERR_NO_CREDENTIALS
          else sret (last credentials)))"

definition find_credential ::
  "'p platform \<Rightarrow> rust_string \<Rightarrow> bytes \<Rightarrow> ('p, credential_source option) env_op" where
  "find_credential P rp cred_id e =
     (case find_credential_item P cred_id e of
        (Inl err, e) \<Rightarrow> (if err = CTAP2_ERR_NO_CREDENTIALS then Inr None else Inl err, e)
      | (Inr (_, c), e) \<Rightarrow> (Inr (if cs_rp_id c \<noteq> rp then None else Some c), e))"

definition count_credentials :: "'p platform \<Rightarrow> ('p, nat) env_op" where
  "count_credentials P =
     with_store (slift (\<lambda>s. rbind (store_iter (usize_bits P) s) (\<lambda>hs.
       rbind (collect_results id hs) (\<lambda>ks. Inr (length (filter (\<lambda>k. k \<in> set credential_keys) ks))))))"

definition remaining_credentials :: "'p platform \<Rightarrow> ('p, nat) env_op" where
  "remaining_credentials P =
     sbind (count_credentials P) (\<lambda>n.
       let max = max_supported_resident_keys (custom P)
       in if n \<le> max then sret (max - n) else sfail internal_error)"

definition new_creation_order :: "'p platform \<Rightarrow> ('p, u64) env_op" where
  "new_creation_order P =
     sbind (iter_credentials P) (\<lambda>(items, iter_result).
       let max_order = fold (\<lambda>(_, c) m. max (cs_creation_order c) m) items 0
       in sbind (slift (\<lambda>_. iter_result)) (\<lambda>_. sret (max_order + 1)))"

section \<open>Updates\<close>

text \<open>The loop of \<open>store_credential\<close>: the keys in use, and the entry that is updated.\<close>

fun mark_keys ::
  "nat \<Rightarrow> credential_source \<Rightarrow> (nat \<times> credential_source) list \<Rightarrow> bool list \<Rightarrow> nat option \<Rightarrow>
     status + bool list \<times> nat option" where
  "mark_keys cap new [] ks old = Inr (ks, old)"
| "mark_keys cap new ((k, c) # items) ks old =
     (if k < min_credential_key \<or> k - min_credential_key \<ge> cap \<or> ks ! (k - min_credential_key)
      then Inl internal_error
      else let ks = ks[k - min_credential_key := True]
           in if cs_rp_id c = cs_rp_id new \<and> cs_user_handle c = cs_user_handle new
              then if old \<noteq> None then Inl internal_error else mark_keys cap new items ks (Some k)
              else mark_keys cap new items ks old)"

definition choose_key :: "nat \<Rightarrow> bool list \<Rightarrow> nat option \<Rightarrow> status + nat" where
  "choose_key cap ks old =
     (if old = None \<and> length (filter id ks) \<ge> cap then Inl CTAP2_ERR_KEY_STORE_FULL
      else case old of
             None \<Rightarrow> ok_or (find (\<lambda>k. \<not> ks ! (k - min_credential_key)) (take cap credential_keys)) internal_error
           | Some k \<Rightarrow> Inr k)"

definition store_credential :: "'p platform \<Rightarrow> credential_source \<Rightarrow> ('p, unit) env_op" where
  "store_credential P new =
     (let max = max_supported_resident_keys (custom P)
      in sbind (iter_credentials P) (\<lambda>(items, iter_result).
         sbind (slift (\<lambda>_. mark_keys max new items (replicate max False) None)) (\<lambda>(ks, old).
         sbind (slift (\<lambda>_. iter_result)) (\<lambda>_.
         sbind (slift (\<lambda>_. choose_key max ks old)) (\<lambda>k.
         sbind (slift (\<lambda>_. serialize_credential new)) (\<lambda>v. insert_entry P k v))))))"

definition delete_credential :: "'p platform \<Rightarrow> bytes \<Rightarrow> ('p, unit) env_op" where
  "delete_credential P cred_id = sbind (find_credential_item P cred_id) (\<lambda>(k, _). remove_entry P k)"

definition update_credential :: "'p platform \<Rightarrow> bytes \<Rightarrow> user_entity \<Rightarrow> ('p, unit) env_op" where
  "update_credential P cred_id user =
     sbind (find_credential_item P cred_id) (\<lambda>(k, c).
     sbind (slift (\<lambda>_. serialize_credential (c\<lparr>cs_user_name := user_name user,
         cs_user_display_name := user_display_name user, cs_user_icon := user_icon user\<rparr>))) (\<lambda>v.
       insert_entry P k v))"

section \<open>Relying parties that may read the minimum PIN length\<close>

definition deserialize_min_pin_length_rp_ids :: "nat \<Rightarrow> bytes \<Rightarrow> rust_string list option" where
  "deserialize_min_pin_length_rp_ids ub bs =
     (case rbind (ctap_cbor_read ub bs) (\<lambda>v. rbind (extract_array v) (collect_results extract_text_string)) of
        Inl _ \<Rightarrow> None | Inr ids \<Rightarrow> Some ids)"

definition serialize_min_pin_length_rp_ids :: "rust_string list \<Rightarrow> status + bytes" where
  "serialize_min_pin_length_rp_ids ids =
     (let (r, out) = ctap_cbor_write (Array (map TextString ids)) [] in rbind r (\<lambda>_. Inr out))"

text \<open>The assertion that the entry deserializes is only checked in debug builds.\<close>

definition min_pin_length_rp_ids :: "'p platform \<Rightarrow> ('p, rust_string list) env_op" where
  "min_pin_length_rp_ids P =
     sbind (find_entry P min_pin_length_rp_ids_key) (\<lambda>v.
       sret (case v of
               None \<Rightarrow> default_min_pin_length_rp_ids (custom P)
             | Some value \<Rightarrow> (case deserialize_min_pin_length_rp_ids (usize_bits P) value of
                               None \<Rightarrow> [] | Some ids \<Rightarrow> ids)))"

definition set_min_pin_length_rp_ids :: "'p platform \<Rightarrow> rust_string list \<Rightarrow> ('p, unit) env_op" where
  "set_min_pin_length_rp_ids P ids =
     (let ids = fold (\<lambda>d ids. if d \<in> set ids then ids else ids @ [d])
                  (default_min_pin_length_rp_ids (custom P)) ids
      in if length ids > max_rp_ids_length (custom P) then sfail CTAP2_ERR_KEY_STORE_FULL
         else sbind (slift (\<lambda>_. serialize_min_pin_length_rp_ids ids))
                (\<lambda>v. insert_entry P min_pin_length_rp_ids_key v))"

end
