(* ===== verification/Credential_Props.thy ===== *)
theory Credential_Props
  imports Credential_Store
begin

text \<open>
  The resident credentials as a map from keys to credentials (\<open>creds\<close>), which the operations of
  \<open>Credential_Store\<close> implement as long as \<open>cred_inv\<close> holds: every entry in the range of the
  credentials deserializes, sits below the limit of the customization, and is the only one for its
  relying party and user handle.
\<close>

definition creds :: "nat \<Rightarrow> ('p \<Rightarrow> string \<Rightarrow> bytes option) \<Rightarrow> 'p store \<Rightarrow> nat \<Rightarrow> credential_source option" where
  "creds ub view s k =
     (if k \<in> set credential_keys then Option.bind (content view s k) (deserialize_credential ub) else None)"

definition same_account :: "credential_source \<Rightarrow> credential_source \<Rightarrow> bool" where
  "same_account c d \<longleftrightarrow> cs_rp_id c = cs_rp_id d \<and> cs_user_handle c = cs_user_handle d"

abbreviation cred_of :: "'p platform \<Rightarrow> ('p \<Rightarrow> string \<Rightarrow> bytes option) \<Rightarrow> 'p env \<Rightarrow> nat \<Rightarrow> credential_source option" where
  "cred_of P view e \<equiv> creds (usize_bits P) view (store_of e)"

definition cred_inv :: "'p platform \<Rightarrow> ('p \<Rightarrow> string \<Rightarrow> bytes option) \<Rightarrow> 'p env \<Rightarrow> bool" where
  "cred_inv P view e \<longleftrightarrow>
     store_inv (usize_bits P) (pddb_of P) view (store_of e) \<and>
     (\<forall>k\<in>set credential_keys. content view (store_of e) k \<noteq> None \<longrightarrow>
        cred_of P view e k \<noteq> None \<and> k - min_credential_key < max_supported_resident_keys (custom P)) \<and>
     (\<forall>k k' c c'. cred_of P view e k = Some c \<longrightarrow> cred_of P view e k' = Some c' \<longrightarrow>
        same_account c c' \<longrightarrow> k = k')"

lemma cred_invD:
  assumes "cred_inv P view e"
  shows "store_inv (usize_bits P) (pddb_of P) view (store_of e)"
    and "k \<in> set credential_keys \<Longrightarrow> content view (store_of e) k \<noteq> None \<Longrightarrow> cred_of P view e k \<noteq> None"
    and "cred_of P view e k = Some c \<Longrightarrow> k - min_credential_key < max_supported_resident_keys (custom P)"
    and "cred_of P view e k = Some c \<Longrightarrow> cred_of P view e k' = Some c' \<Longrightarrow> same_account c c' \<Longrightarrow> k = k'"
  using assms unfolding cred_inv_def
  by (blast, blast, force simp: creds_def split: if_splits bind_splits, blast)

lemma creds_keyD: "creds ub view s k = Some c \<Longrightarrow> k \<in> set credential_keys \<and> min_credential_key \<le> k"
  by (auto simp: creds_def credential_keys_def min_credential_key_def split: if_splits)

section \<open>Iteration\<close>

lemma iterate_credentials_ok:
  assumes "store_inv ub P view s"
    and "\<forall>k\<in>set ks. content view s k \<noteq> None"
    and "\<forall>k\<in>set ks. k \<in> set credential_keys \<longrightarrow> creds ub view s k \<noteq> None"
  shows "iterate_credentials ub P s (map Inr ks) =
    (map (\<lambda>k. (k, the (creds ub view s k))) (filter (\<lambda>k. k \<in> set credential_keys) ks), Inr ())"
  using assms(2,3)
proof (induction ks)
  case (Cons k ks)
  then show ?case
    by (auto simp: get_value_ok [OF assms(1)] creds_def)
qed simp

lemma iter_credentials_ok:
  assumes "cred_inv P view e"
  shows "\<exists>ks. iter_credentials P e = (Inr (map (\<lambda>k. (k, the (cred_of P view e k))) ks, Inr ()), e) \<and>
    distinct ks \<and> set ks = dom (cred_of P view e)"
proof -
  note inv = cred_invD(1) [OF assms]
  obtain ks where ks: "store_iter (usize_bits P) (store_of e) = Inr (map Inr ks)" "distinct ks"
    "set ks = dom (content view (store_of e))"
    using st.iterate [OF inv] by blast
  have "iterate_credentials (usize_bits P) (pddb_of P) (store_of e) (map Inr ks) =
    (map (\<lambda>k. (k, the (cred_of P view e k))) (filter (\<lambda>k. k \<in> set credential_keys) ks), Inr ())"
    using ks(3) cred_invD(2) [OF assms] by (intro iterate_credentials_ok [OF inv]) auto
  moreover have "k \<in> dom (cred_of P view e) \<longleftrightarrow> k \<in> set credential_keys \<and> k \<in> dom (content view (store_of e))" for k
    using cred_invD(2) [OF assms, of k]
    by (cases "k \<in> set credential_keys"; cases "content view (store_of e) k") (simp_all add: creds_def domIff)
  then have "set (filter (\<lambda>k. k \<in> set credential_keys) ks) = dom (cred_of P view e)"
    using ks(3) by auto
  ultimately show ?thesis
    using ks(1,2)
    by (intro exI [of _ "filter (\<lambda>k. k \<in> set credential_keys) ks"])
       (simp add: iter_credentials_def with_store_def)
qed

section \<open>Choosing a key\<close>

lemma mark_keys_ok:
  assumes "distinct ks" "length bs = cap"
    and "\<forall>k\<in>set ks. min_credential_key \<le> k \<and> k - min_credential_key < cap \<and> \<not> bs ! (k - min_credential_key)"
    and "length (filter (\<lambda>k. same_account (f k) new) ks) + (if old = None then 0 else 1) \<le> 1"
  shows "\<exists>bs'. mark_keys cap new (map (\<lambda>k. (k, f k)) ks) bs old =
      Inr (bs', case find (\<lambda>k. same_account (f k) new) ks of None \<Rightarrow> old | Some k \<Rightarrow> Some k) \<and>
    length bs' = cap \<and> (\<forall>i<cap. bs' ! i \<longleftrightarrow> bs ! i \<or> min_credential_key + i \<in> set ks)"
  using assms
proof (induction ks arbitrary: bs old)
  case (Cons k ks)
  let ?i = "k - min_credential_key"
  have fresh: "\<forall>j\<in>set ks. \<not> bs[?i := True] ! (j - min_credential_key)"
  proof
    fix j assume j: "j \<in> set ks"
    then have "j - min_credential_key \<noteq> ?i" using Cons.prems(1,3) j by (auto simp: eq_diff_iff)
    then show "\<not> bs[?i := True] ! (j - min_credential_key)" using j Cons.prems(3) by simp
  qed
  define old' where "old' = (if same_account (f k) new then Some k else old)"
  have step: "mark_keys cap new (map (\<lambda>k. (k, f k)) (k # ks)) bs old =
      mark_keys cap new (map (\<lambda>k. (k, f k)) ks) (bs[?i := True]) old'"
    using Cons.prems(3,4) by (auto simp: old'_def same_account_def Let_def split: if_splits)
  obtain bs' where bs': "mark_keys cap new (map (\<lambda>k. (k, f k)) ks) (bs[?i := True]) old' =
      Inr (bs', case find (\<lambda>k. same_account (f k) new) ks of None \<Rightarrow> old' | Some k \<Rightarrow> Some k)"
    "length bs' = cap" "\<forall>i<cap. bs' ! i \<longleftrightarrow> bs[?i := True] ! i \<or> min_credential_key + i \<in> set ks"
    using Cons.IH [of "bs[?i := True]" old'] Cons.prems fresh by (auto simp: old'_def split: if_splits)
  have "find (\<lambda>k. same_account (f k) new) ks = None" if "same_account (f k) new"
    using Cons.prems(4) that by (auto simp: find_None_iff filter_empty_conv)
  then have eq: "(case find (\<lambda>k. same_account (f k) new) ks of None \<Rightarrow> old' | Some k \<Rightarrow> Some k) =
      (case find (\<lambda>k. same_account (f k) new) (k # ks) of None \<Rightarrow> old | Some k \<Rightarrow> Some k)"
    by (cases "same_account (f k) new") (simp_all add: old'_def split: option.split)
  have marks: "\<forall>i<cap. bs' ! i \<longleftrightarrow> bs ! i \<or> min_credential_key + i \<in> set (k # ks)"
    using bs'(3) Cons.prems(2,3) by (auto simp: nth_list_update)
  show ?case
    by (intro exI [of _ bs'] conjI marks bs'(2)) (simp only: step bs'(1) eq)
qed simp

lemma find_unique:
  assumes "\<And>x y. Q x \<Longrightarrow> Q y \<Longrightarrow> x = y"
  shows "find Q xs = Some x \<longleftrightarrow> x \<in> set xs \<and> Q x"
  by (induction xs) (use assms in auto)

lemma find_unique_cong:
  assumes "\<And>x y. Q x \<Longrightarrow> Q y \<Longrightarrow> x = y" "\<And>x. Q x \<Longrightarrow> x \<in> set xs \<longleftrightarrow> x \<in> set ys"
  shows "find Q xs = find Q ys"
  using find_unique [of Q, OF assms(1)] assms(2) by (metis not_Some_eq)

text \<open>
  The abstract specification: a credential goes to the entry of its account, if there is one, and
  otherwise to the first free key below the limit.
\<close>

definition holds_account :: "(nat \<Rightarrow> credential_source option) \<Rightarrow> credential_source \<Rightarrow> nat \<Rightarrow> bool" where
  "holds_account m new k = (case m k of None \<Rightarrow> False | Some c \<Rightarrow> same_account c new)"

definition slot :: "nat \<Rightarrow> (nat \<Rightarrow> credential_source option) \<Rightarrow> credential_source \<Rightarrow> nat option" where
  "slot cap m new =
     (case find (holds_account m new) credential_keys of
        Some k \<Rightarrow> Some k
      | None \<Rightarrow> find (\<lambda>k. m k = None) (take cap credential_keys))"

lemma credential_keys_upt: "credential_keys = [min_credential_key..<min_credential_key + 300]"
  by (simp add: credential_keys_def min_credential_key_def)

lemma in_credential_keys: "k \<in> set credential_keys \<longleftrightarrow> min_credential_key \<le> k \<and> k < min_credential_key + 300"
  by (simp add: credential_keys_upt)

lemma length_credential_keys [simp]: "length credential_keys = 300"
  by (simp add: credential_keys_upt)

lemma in_take_keys:
  "cap \<le> 300 \<Longrightarrow> k \<in> set (take cap credential_keys) \<longleftrightarrow> min_credential_key \<le> k \<and> k - min_credential_key < cap"
  by (auto simp: credential_keys_upt take_upt)

lemma find_Some_not_None: "find Q xs = None \<longleftrightarrow> (\<forall>x\<in>set xs. \<not> Q x)"
  by (auto simp: find_None_iff)

lemma all_marked: "length bs = cap \<Longrightarrow> cap \<le> length (filter id bs) \<longleftrightarrow> (\<forall>i<cap. bs ! i)"
  by (metis filter_id_conv filter_True filter_False id_apply in_set_conv_nth le_antisym length_filter_le
      length_filter_less nat_less_le)

text \<open>What the key selection of the code computes, from the marks of the loop.\<close>

lemma choose_key_slot:
  assumes "cap \<le> 300" "dom m \<subseteq> {k. min_credential_key \<le> k \<and> k - min_credential_key < cap}"
    and "length bs = cap" "\<forall>i<cap. bs ! i \<longleftrightarrow> min_credential_key + i \<in> dom m"
    and "old = find (holds_account m new) credential_keys"
  shows "choose_key cap bs old =
    (case slot cap m new of None \<Rightarrow> Inl CTAP2_ERR_KEY_STORE_FULL | Some k \<Rightarrow> Inr k)"
proof (cases old)
  case None
  have free: "find (\<lambda>k. \<not> bs ! (k - min_credential_key)) (take cap credential_keys) =
      find (\<lambda>k. m k = None) (take cap credential_keys)"
  proof (rule find_cong)
    fix k assume "k \<in> set (take cap credential_keys)"
    then have "min_credential_key \<le> k" "k - min_credential_key < cap"
      using in_take_keys [OF assms(1)] by auto
    then show "(\<not> bs ! (k - min_credential_key)) = (m k = None)"
      using assms(4) by (auto simp: domIff)
  qed simp
  have "(\<forall>i<cap. bs ! i) \<longleftrightarrow> find (\<lambda>k. m k = None) (take cap credential_keys) = None"
    using assms(4) in_take_keys [OF assms(1)]
    by (auto simp: find_Some_not_None domIff)
  then show ?thesis
    using None free all_marked [OF assms(3)]
    by (auto simp: choose_key_def slot_def assms(5) [symmetric] split: option.split)
next
  case (Some k)
  then show ?thesis by (simp add: choose_key_def slot_def flip: assms(5))
qed

section \<open>Storing\<close>

text \<open>An entry outside the range of the credentials.\<close>

definition other_key :: "nat \<Rightarrow> bool" where
  "other_key k \<longleftrightarrow> k \<notin> set credential_keys"

lemma creds_insert:
  assumes "content view (store_of e') = (content view (store_of e))(k \<mapsto> v)" "k \<in> set credential_keys"
    and "deserialize_credential (usize_bits P) v = Some c"
  shows "cred_of P view e' = (cred_of P view e)(k \<mapsto> c)"
  using assms by (auto simp: creds_def fun_eq_iff)

lemma creds_remove:
  assumes "content view (store_of e') = (content view (store_of e))(k := None)"
  shows "cred_of P view e' = (cred_of P view e)(k := None)"
  using assms by (auto simp: creds_def fun_eq_iff)

lemma slotD:
  assumes "slot cap m new = Some k" "cap \<le> 300" "dom m \<subseteq> {k. min_credential_key \<le> k \<and> k - min_credential_key < cap}"
  shows "k \<in> set credential_keys" "k - min_credential_key < cap"
    and "m k = Some c \<Longrightarrow> same_account c new"
    and "holds_account m new k' \<Longrightarrow> k' \<in> set credential_keys \<Longrightarrow> holds_account m new k"
proof -
  let ?f = "find (holds_account m new) credential_keys"
  have "k \<in> set credential_keys \<and> k - min_credential_key < cap \<and> (m k = Some c \<longrightarrow> same_account c new)" for c
  proof (cases ?f)
    case None
    then have "find (\<lambda>k. m k = None) (take cap credential_keys) = Some k"
      using assms(1) by (simp add: slot_def)
    then show ?thesis
      using in_take_keys [OF assms(2), of k] in_set_takeD [of k cap credential_keys]
      by (auto simp: find_Some_iff in_set_conv_nth)
  next
    case (Some j)
    then have "j = k" using assms(1) by (simp add: slot_def)
    moreover from Some have "j \<in> set credential_keys \<and> holds_account m new j"
      by (auto simp: find_Some_iff in_set_conv_nth)
    ultimately show ?thesis
      using assms(3) by (auto simp: holds_account_def split: option.splits)
  qed
  then show "k \<in> set credential_keys" "k - min_credential_key < cap" "m k = Some c \<Longrightarrow> same_account c new"
    by auto
  assume "holds_account m new k'" "k' \<in> set credential_keys"
  then have "?f \<noteq> None" by (auto simp: find_None_iff)
  then have "?f = Some k" using assms(1) by (auto simp: slot_def)
  then show "holds_account m new k" by (auto simp: find_Some_iff)
qed

lemma filter_unique:
  assumes "distinct xs" "\<And>x y. x \<in> set xs \<Longrightarrow> y \<in> set xs \<Longrightarrow> Q x \<Longrightarrow> Q y \<Longrightarrow> x = y"
  shows "length (filter Q xs) \<le> 1"
proof -
  have "length (filter Q xs) = card (set (filter Q xs))"
    using assms(1) by (metis distinct_card distinct_filter)
  also have "\<dots> \<le> 1"
    using assms(2) by (auto simp: card_le_Suc0_iff_eq)
  finally show ?thesis .
qed

lemma holds_unique:
  assumes "cred_inv P view e" "holds_account (cred_of P view e) new j" "holds_account (cred_of P view e) new k"
  shows "j = k"
  using assms(2,3) cred_invD(4) [OF assms(1), of j _ k]
  by (auto simp: holds_account_def same_account_def split: option.splits)

lemma store_credential_key:
  assumes inv: "cred_inv P view e" and cap: "max_supported_resident_keys (custom P) \<le> 300"
  shows "store_credential P new e =
    (case slot (max_supported_resident_keys (custom P)) (cred_of P view e) new of
       None \<Rightarrow> (Inl CTAP2_ERR_KEY_STORE_FULL, e)
     | Some k \<Rightarrow> sbind (slift (\<lambda>_. serialize_credential new)) (\<lambda>v. insert_entry P k v) e)"
proof -
  let ?m = "cred_of P view e" and ?cap = "max_supported_resident_keys (custom P)"
  obtain ks where ks: "iter_credentials P e = (Inr (map (\<lambda>k. (k, the (?m k))) ks, Inr ()), e)"
    "distinct ks" "set ks = dom ?m"
    using iter_credentials_ok [OF inv] by blast
  have dom: "dom ?m \<subseteq> {k. min_credential_key \<le> k \<and> k - min_credential_key < ?cap}"
    using creds_keyD cred_invD(3) [OF inv] by blast
  have holds: "same_account (the (?m k)) new \<longleftrightarrow> holds_account ?m new k" if "k \<in> set ks" for k
    using that ks(3) by (auto simp: holds_account_def)
  have "length (filter (\<lambda>k. same_account (the (?m k)) new) ks) \<le> 1"
    using holds holds_unique [OF inv] by (intro filter_unique [OF ks(2)]) blast
  moreover have "\<forall>k\<in>set ks. min_credential_key \<le> k \<and> k - min_credential_key < ?cap \<and>
      \<not> replicate ?cap False ! (k - min_credential_key)"
    using dom ks(3) by auto
  ultimately obtain bs where bs: "mark_keys ?cap new (map (\<lambda>k. (k, the (?m k))) ks) (replicate ?cap False) None =
      Inr (bs, case find (\<lambda>k. same_account (the (?m k)) new) ks of None \<Rightarrow> None | Some k \<Rightarrow> Some k)"
    "length bs = ?cap" "\<forall>i<?cap. bs ! i \<longleftrightarrow> min_credential_key + i \<in> dom ?m"
    using mark_keys_ok [OF ks(2), of "replicate ?cap False" ?cap "\<lambda>k. the (?m k)" new None]
    unfolding ks(3) by auto
  have "find (\<lambda>k. same_account (the (?m k)) new) ks = find (holds_account ?m new) ks"
    by (rule find_cong) (use holds in auto)
  also have "\<dots> = find (holds_account ?m new) credential_keys"
  proof (rule find_unique_cong)
    show "x \<in> set ks \<longleftrightarrow> x \<in> set credential_keys" if "holds_account ?m new x" for x
      using that ks(3) creds_keyD [of "usize_bits P" view "store_of e" x]
      by (auto simp: holds_account_def split: option.splits)
  qed (rule holds_unique [OF inv])
  finally have old: "(case find (\<lambda>k. same_account (the (?m k)) new) ks of None \<Rightarrow> None | Some k \<Rightarrow> Some k) =
      find (holds_account ?m new) credential_keys"
    by (simp split: option.split)
  have "choose_key ?cap bs (find (holds_account ?m new) credential_keys) =
      (case slot ?cap ?m new of None \<Rightarrow> Inl CTAP2_ERR_KEY_STORE_FULL | Some k \<Rightarrow> Inr k)"
    by (rule choose_key_slot [OF cap dom bs(2,3) refl])
  then show ?thesis
    by (simp add: store_credential_def Let_def sbind_def ks(1) bs(1) old split: option.split)
qed

lemma store_credential_ok:
  assumes inv: "cred_inv P view e" and new: "source_ok (usize_bits P) new"
    and cap: "max_supported_resident_keys (custom P) \<le> 300" and bits: "11 \<le> usize_bits P"
  shows "case slot (max_supported_resident_keys (custom P)) (cred_of P view e) new of
      None \<Rightarrow> store_credential P new e = (Inl CTAP2_ERR_KEY_STORE_FULL, e)
    | Some k \<Rightarrow> \<exists>e'. store_credential P new e = (Inr (), e') \<and> cred_inv P view e' \<and>
        cred_of P view e' = (cred_of P view e)(k \<mapsto> new) \<and>
        (\<forall>j. other_key j \<longrightarrow> content view (store_of e') j = content view (store_of e) j)"
proof (cases "slot (max_supported_resident_keys (custom P)) (cred_of P view e) new")
  case None
  then show ?thesis by (simp add: store_credential_key [OF inv cap])
next
  case (Some k)
  have dom: "dom (cred_of P view e) \<subseteq>
      {k. min_credential_key \<le> k \<and> k - min_credential_key < max_supported_resident_keys (custom P)}"
    using creds_keyD cred_invD(3) [OF inv] by blast
  note k = slotD [OF Some cap dom]
  obtain v where v: "serialize_credential new = Inr v" "deserialize_credential (usize_bits P) v = Some new"
    using serialize_source [OF new] by blast
  have "k < 2 ^ 11" using k(1) by (simp add: in_credential_keys min_credential_key_def)
  also have "(2::nat) ^ 11 \<le> 2 ^ usize_bits P" using bits by (intro power_increasing) auto
  finally obtain e' where e': "insert_entry P k v e = (Inr (), e')"
    "store_inv (usize_bits P) (pddb_of P) view (store_of e')"
    "content view (store_of e') = (content view (store_of e))(k \<mapsto> v)"
    using insert_entry_ok [OF cred_invD(1) [OF inv], of k v] by blast
  note upd = creds_insert [OF e'(3) k(1) v(2)]
  have same: "j = k" if "same_account new c" "cred_of P view e j = Some c" for j c
    using that k(4) [of j] creds_keyD [OF that(2)] holds_unique [OF inv, of new j k]
    by (simp add: holds_account_def same_account_def)
  have "cred_inv P view e'"
    unfolding cred_inv_def
  proof (intro conjI allI ballI impI)
    fix i j c d
    assume ij: "cred_of P view e' i = Some c" "cred_of P view e' j = Some d" "same_account c d"
    consider "i = k" "j = k" | "i = k" "c = new" "cred_of P view e j = Some d" |
      "j = k" "d = new" "cred_of P view e i = Some c" | "cred_of P view e i = Some c" "cred_of P view e j = Some d"
      using ij(1,2) unfolding upd fun_upd_apply by (cases "i = k"; cases "j = k") simp_all
    then show "i = j"
    proof cases
      case 3
      then show ?thesis using same [of c i] ij(3) by (simp add: same_account_def)
    qed (use same ij(3) cred_invD(4) [OF inv] in blast)+
  next
    fix j assume "j \<in> set credential_keys" "content view (store_of e') j \<noteq> None"
    then show "cred_of P view e' j \<noteq> None" "j - min_credential_key < max_supported_resident_keys (custom P)"
      using cred_invD(2) [OF inv, of j] cred_invD(3) [OF inv, of j] k(2) unfolding upd e'(3) fun_upd_apply
      by (cases "j = k"; force)+
  qed (rule e'(2))
  moreover have "store_credential P new e = (Inr (), e')"
    using Some e'(1) v(1) by (simp add: store_credential_key [OF inv cap] sbind_def)
  moreover have "\<forall>j. other_key j \<longrightarrow> content view (store_of e') j = content view (store_of e) j"
    using k(1) unfolding e'(3) other_key_def by auto
  ultimately show ?thesis
    using upd Some by simp
qed

text \<open>C9: storing a credential updates the map of the resident credentials at the slot of its account,
  keeps the invariant and every other entry of the store, and reports a full store, unchanged,
  exactly when there is no slot.\<close>

theorem store_credential_refines:
  assumes inv: "cred_inv P view e" and new: "source_ok (usize_bits P) new"
    and cap: "max_supported_resident_keys (custom P) \<le> 300" and bits: "11 \<le> usize_bits P"
  shows "case slot (max_supported_resident_keys (custom P)) (cred_of P view e) new of
      None \<Rightarrow> store_credential P new e = (Inl CTAP2_ERR_KEY_STORE_FULL, e)
    | Some k \<Rightarrow> \<exists>e'. store_credential P new e = (Inr (), e') \<and> cred_inv P view e' \<and>
        cred_of P view e' = (cred_of P view e)(k \<mapsto> new) \<and>
        (\<forall>j. other_key j \<longrightarrow> content view (store_of e') j = content view (store_of e) j)"
  using assms by (rule store_credential_ok)

lemma toy_env_cred_inv: "cred_inv toy_platform map_of (toy_env [])"
  using toy_env_inv by (simp add: cred_inv_def toy_env_content creds_def)

lemma slot_empty: "0 < cap \<Longrightarrow> slot cap Map.empty new = Some min_credential_key"
proof -
  assume "0 < cap"
  have "credential_keys = min_credential_key # [Suc min_credential_key..<min_credential_key + 300]"
    unfolding credential_keys_upt by (rule upt_conv_Cons) simp
  then obtain ks where ks: "credential_keys = min_credential_key # ks" by blast
  have "find (holds_account Map.empty new) credential_keys = None"
    by (simp add: find_None_iff holds_account_def)
  moreover have "find (\<lambda>k. True) (take cap credential_keys) = Some min_credential_key"
    using \<open>0 < cap\<close> by (cases cap) (simp_all add: ks)
  ultimately show ?thesis by (simp add: slot_def)
qed

lemma sample_source_ok: "source_ok 32 sample_source"
  by (simp add: source_ok_def sample_source_def bytes_ok_def string_ok_def private_key_bytes_def
      utf8_def utf8_valid_def)

lemma store_credential_refines_witness:
  "\<exists>e'. store_credential toy_platform sample_source (toy_env []) = (Inr (), e') \<and>
     cred_of toy_platform map_of e' = [1700 \<mapsto> sample_source]"
proof -
  have "cred_of toy_platform map_of (toy_env []) = Map.empty"
    by (simp add: creds_def toy_env_content fun_eq_iff)
  then show ?thesis
    using store_credential_refines [OF toy_env_cred_inv, of sample_source] sample_source_ok
    by (simp add: slot_empty default_customization_def min_credential_key_def) blast
qed

section \<open>Lookup and deletion\<close>

definition ids_unique :: "(nat \<Rightarrow> credential_source option) \<Rightarrow> bool" where
  "ids_unique m \<longleftrightarrow> (\<forall>j k c d. m j = Some c \<longrightarrow> m k = Some d \<longrightarrow> cs_id c = cs_id d \<longrightarrow> j = k)"

lemma find_credential_item_ok:
  assumes "cred_inv P view e" "ids_unique (cred_of P view e)"
  shows "if \<exists>k c. cred_of P view e k = Some c \<and> cs_id c = cred_id
    then \<exists>k c. cred_of P view e k = Some c \<and> cs_id c = cred_id \<and>
      find_credential_item P cred_id e = (Inr (k, c), e)
    else find_credential_item P cred_id e = (Inl CTAP2_ERR_NO_CREDENTIALS, e)"
proof -
  let ?m = "cred_of P view e" and ?item = "\<lambda>k. (k, the (cred_of P view e k))"
  obtain ks where ks: "iter_credentials P e = (Inr (map ?item ks, Inr ()), e)" "distinct ks" "set ks = dom ?m"
    using iter_credentials_ok [OF assms(1)] by blast
  let ?cs = "filter (\<lambda>(_, c). cs_id c = cred_id) (map ?item ks)"
  have cs: "?cs = map ?item (filter (\<lambda>k. cs_id (the (?m k)) = cred_id) ks)"
    by (simp add: filter_map comp_def)
  have "length ?cs \<le> 1"
    unfolding cs length_map
    using assms(2) ks(3) by (intro filter_unique [OF ks(2)]) (auto simp: ids_unique_def)
  then have "?cs = [] \<or> (\<exists>k. ?cs = [?item k] \<and> k \<in> dom ?m \<and> cs_id (the (?m k)) = cred_id)"
  proof (cases ?cs)
    case (Cons x xs)
    then have "x \<in> set ?cs" by simp
    then obtain k where "x = ?item k" "k \<in> set ks" "cs_id (the (?m k)) = cred_id" by auto
    with Cons \<open>length ?cs \<le> 1\<close> ks(3) show ?thesis by auto
  qed simp
  then show ?thesis
  proof
    assume nil: "?cs = []"
    then have "\<not> (\<exists>k c. ?m k = Some c \<and> cs_id c = cred_id)"
      using ks(3) unfolding cs by (force simp: filter_empty_conv domIff)
    with nil show ?thesis by (simp add: find_credential_item_def sbind_def ks(1))
  next
    assume "\<exists>k. ?cs = [?item k] \<and> k \<in> dom ?m \<and> cs_id (the (?m k)) = cred_id"
    then obtain k c where "?cs = [(k, c)]" "?m k = Some c" "cs_id c = cred_id" by auto
    then show ?thesis by (auto simp: find_credential_item_def sbind_def ks(1))
  qed
qed

lemma credential_key_bound: "k \<in> set credential_keys \<Longrightarrow> 11 \<le> ub \<Longrightarrow> k < 2 ^ ub"
proof -
  assume "k \<in> set credential_keys" "11 \<le> ub"
  then have "k < 2048" by (simp add: in_credential_keys min_credential_key_def)
  also have "\<dots> \<le> 2 ^ ub" using power_increasing [OF \<open>11 \<le> ub\<close>, of "2 :: nat"] by simp
  finally show ?thesis .
qed

lemma cred_inv_remove:
  assumes "cred_inv P view e" "store_inv (usize_bits P) (pddb_of P) view (store_of e')"
    and upd: "content view (store_of e') = (content view (store_of e))(k := None)"
  shows "cred_inv P view e'"
  unfolding cred_inv_def
proof (intro conjI allI ballI impI)
  fix i j c d
  assume "cred_of P view e' i = Some c" "cred_of P view e' j = Some d" "same_account c d"
  then show "i = j"
    using cred_invD(4) [OF assms(1), of i c j d] unfolding creds_remove [OF upd] fun_upd_apply
    by (cases "i = k"; cases "j = k") simp_all
next
  fix j assume "j \<in> set credential_keys" "content view (store_of e') j \<noteq> None"
  then show "cred_of P view e' j \<noteq> None" "j - min_credential_key < max_supported_resident_keys (custom P)"
    using cred_invD(2) [OF assms(1), of j] cred_invD(3) [OF assms(1), of j]
    unfolding creds_remove [OF upd] upd fun_upd_apply
    by (cases "j = k"; force)+
qed (rule assms(2))

text \<open>A credential is found exactly when the store holds one of the same ID and relying party, and
  deleting an ID removes its credential and nothing else, or fails without a change.\<close>

theorem find_and_delete_credential:
  assumes inv: "cred_inv P view e" and ids: "ids_unique (cred_of P view e)" and bits: "11 \<le> usize_bits P"
  shows "(\<exists>r. find_credential P rp cred_id e = (Inr r, e) \<and>
      (\<forall>c. r = Some c \<longleftrightarrow> (\<exists>k. cred_of P view e k = Some c \<and> cs_id c = cred_id \<and> cs_rp_id c = rp))) \<and>
    (if \<exists>k c. cred_of P view e k = Some c \<and> cs_id c = cred_id
     then \<exists>k c e'. cred_of P view e k = Some c \<and> cs_id c = cred_id \<and>
       delete_credential P cred_id e = (Inr (), e') \<and> cred_inv P view e' \<and>
       content view (store_of e') = (content view (store_of e))(k := None)
     else delete_credential P cred_id e = (Inl CTAP2_ERR_NO_CREDENTIALS, e))"
proof (cases "\<exists>k c. cred_of P view e k = Some c \<and> cs_id c = cred_id")
  case False
  then have "find_credential_item P cred_id e = (Inl CTAP2_ERR_NO_CREDENTIALS, e)"
    using find_credential_item_ok [OF inv ids, of cred_id] by argo
  then show ?thesis
    using False by (simp add: find_credential_def delete_credential_def) blast
next
  case True
  obtain k c where kc: "cred_of P view e k = Some c" "cs_id c = cred_id"
    "find_credential_item P cred_id e = (Inr (k, c), e)"
    using find_credential_item_ok [OF inv ids, of cred_id] unfolding if_P [OF True]
    by (elim exE conjE) (rule that)
  have uniq: "j = k \<and> d = c" if "cred_of P view e j = Some d" "cs_id d = cred_id" for j d
  proof -
    have "j = k" using ids that kc(1,2) unfolding ids_unique_def by blast
    then show ?thesis using that(1) kc(1) by simp
  qed
  have found: "find_credential P rp cred_id e = (Inr (if cs_rp_id c \<noteq> rp then None else Some c), e)"
    using kc(3) by (simp add: find_credential_def)
  have match: "\<forall>d. (if cs_rp_id c \<noteq> rp then None else Some c) = Some d \<longleftrightarrow>
      (\<exists>j. cred_of P view e j = Some d \<and> cs_id d = cred_id \<and> cs_rp_id d = rp)"
  proof (intro allI iffI)
    fix d assume "(if cs_rp_id c \<noteq> rp then None else Some c) = Some d"
    then show "\<exists>j. cred_of P view e j = Some d \<and> cs_id d = cred_id \<and> cs_rp_id d = rp"
      using kc(1,2) by (intro exI [of _ k]) (simp split: if_splits)
  next
    fix d assume "\<exists>j. cred_of P view e j = Some d \<and> cs_id d = cred_id \<and> cs_rp_id d = rp"
    then have "d = c" "cs_rp_id c = rp" using uniq by blast+
    then show "(if cs_rp_id c \<noteq> rp then None else Some c) = Some d" by simp
  qed
  have "k \<in> set credential_keys" using creds_keyD [OF kc(1)] by simp
  then obtain e' where e': "remove_entry P k e = (Inr (), e')"
    "store_inv (usize_bits P) (pddb_of P) view (store_of e')"
    "content view (store_of e') = (content view (store_of e))(k := None)"
    using remove_entry_ok [OF cred_invD(1) [OF inv] credential_key_bound [OF _ bits]] by blast
  note inv' = cred_inv_remove [OF inv e'(2,3)]
  have del: "delete_credential P cred_id e = (Inr (), e')"
    using kc(3) e'(1) by (simp add: delete_credential_def)
  show ?thesis
    unfolding if_P [OF True]
    by (rule conjI, rule exI, rule conjI [OF found match])
       (intro exI conjI, rule kc(1), rule kc(2), rule del, rule inv', rule e'(3))
qed

lemma toy_store_creds:
  "\<exists>e'. store_credential toy_platform sample_source (toy_env []) = (Inr (), e') \<and>
     cred_inv toy_platform map_of e' \<and> cred_of toy_platform map_of e' = [1700 \<mapsto> sample_source]"
proof -
  have "cred_of toy_platform map_of (toy_env []) = Map.empty"
    by (simp add: creds_def toy_env_content fun_eq_iff)
  then show ?thesis
    using store_credential_ok [OF toy_env_cred_inv, of sample_source] sample_source_ok
    by (simp add: slot_empty default_customization_def min_credential_key_def) blast
qed

lemma find_and_delete_credential_witness:
  "\<exists>e. store_credential toy_platform sample_source (toy_env []) = (Inr (), e) \<and>
     find_credential toy_platform (utf8 ''example.com'') [1, 2] e = (Inr (Some sample_source), e) \<and>
     delete_credential toy_platform [3] e = (Inl CTAP2_ERR_NO_CREDENTIALS, e)"
proof -
  obtain e where e: "store_credential toy_platform sample_source (toy_env []) = (Inr (), e)"
    "cred_inv toy_platform map_of e" "cred_of toy_platform map_of e = [1700 \<mapsto> sample_source]"
    using toy_store_creds by blast
  note m = e(3) [unfolded toy_platform_simps]
  have ids: "ids_unique (cred_of toy_platform map_of e)"
    by (simp add: m ids_unique_def)
  have sample: "cs_id sample_source = [1, 2]" "cs_rp_id sample_source = utf8 ''example.com''"
    by (simp_all add: sample_source_def)
  note spec' = find_and_delete_credential [OF e(2) ids, where rp = "utf8 ''example.com''"]
  obtain r where r: "find_credential toy_platform (utf8 ''example.com'') [1, 2] e = (Inr r, e)"
    "r = Some sample_source"
    using spec' [of "[1, 2]"] sample by (auto simp: m)
  moreover have "delete_credential toy_platform [3] e = (Inl CTAP2_ERR_NO_CREDENTIALS, e)"
    using spec' [of "[3]"] sample by (simp add: m)
  ultimately show ?thesis using e(1) by blast
qed

end
