(* ===== verification/Storage_Props.thy ===== *)
theory Storage_Props
  imports Ctap_Storage
begin

text \<open>
  What the entries of \<open>src/ctap/storage.rs\<close> promise on a device whose PDDB works as documented
  (\<open>env_inv\<close>), and what a failing device does to the PIN retries.
\<close>

abbreviation env_inv :: "'p platform \<Rightarrow> ('p \<Rightarrow> string \<Rightarrow> bytes option) \<Rightarrow> 'p env \<Rightarrow> bool" where
  "env_inv P view e \<equiv> store_inv (usize_bits P) (pddb_of P) view (store_of e)"

lemma key_fits: "k < 2048 \<Longrightarrow> 11 \<le> ub \<Longrightarrow> k < 2 ^ ub" for k :: nat
  using power_increasing [of 11 ub "2 :: nat"] by simp

lemma storage_keys_fit:
  assumes "11 \<le> ub"
  shows "aaguid_key < 2 ^ ub" "always_uv_key < 2 ^ ub" "enterprise_attestation_key < 2 ^ ub"
    "force_pin_change_key < 2 ^ ub" "cred_random_secret_key < 2 ^ ub" "min_pin_length_rp_ids_key < 2 ^ ub"
    "min_pin_length_key < 2 ^ ub" "pin_retries_key < 2 ^ ub" "pin_properties_key < 2 ^ ub"
    "key_store_key < 2 ^ ub" "global_signature_counter_key < 2 ^ ub"
  by (intro key_fits [OF _ assms]; simp add: storage_keys)+

section \<open>Counters\<close>

lemma of_le_bytes_le_bytes [simp]: "of_le_bytes (le_bytes w) = w"
  using unsigned_less [of w, where 'a = nat]
  by (simp add: of_le_bytes_def le_bytes_def be_nat_be_bytes)

lemma length_le_bytes [simp]: "length (le_bytes w) = 4"
  by (simp add: le_bytes_def)

lemma global_signature_counter_ok:
  "env_inv P view e \<Longrightarrow> global_signature_counter P e =
     (case content view (store_of e) global_signature_counter_key of
        None \<Rightarrow> (Inr 1, e)
      | Some v \<Rightarrow> (if length v = 4 then Inr (of_le_bytes v) else Inl internal_error, e))"
  by (simp add: global_signature_counter_def sbind_def find_entry_ok split: option.split)

lemma pin_retries_ok:
  "env_inv P view e \<Longrightarrow> pin_retries P e =
     (case content view (store_of e) pin_retries_key of
        None \<Rightarrow> (Inr (max_pin_retries (custom P)), e)
      | Some v \<Rightarrow> (if length v = 1 then Inr (v ! 0) else Inl internal_error, e))"
  by (simp add: pin_retries_def sbind_def find_entry_ok split: option.split)

lemma decr_pin_retries_ok:
  assumes "env_inv P view e" "pin_retries P e = (Inr n, e)" "11 \<le> usize_bits P"
  shows "\<exists>e'. decr_pin_retries P e = (Inr (), e') \<and> env_inv P view e' \<and>
    pin_retries P e' = (Inr (saturating_pred n), e') \<and> draws e' = draws e \<and>
    (\<forall>k. k \<noteq> pin_retries_key \<longrightarrow> content view (store_of e') k = content view (store_of e) k)"
proof (cases "saturating_pred n = n")
  case True
  then show ?thesis
    using assms by (intro exI [of _ e]) (simp add: decr_pin_retries_def sbind_def)
next
  case False
  obtain e' where "insert_entry P pin_retries_key [saturating_pred n] e = (Inr (), e')" "env_inv P view e'"
    "content view (store_of e') = (content view (store_of e))(pin_retries_key \<mapsto> [saturating_pred n])"
    "draws e' = draws e"
    using insert_entry_ok [OF assms(1) storage_keys_fit(8) [OF assms(3)]] by blast
  then show ?thesis
    using False assms(2) by (intro exI [of _ e']) (simp add: decr_pin_retries_def sbind_def pin_retries_ok)
qed

lemma reset_pin_retries_ok:
  assumes "env_inv P view e" "11 \<le> usize_bits P"
  shows "\<exists>e'. reset_pin_retries P e = (Inr (), e') \<and> env_inv P view e' \<and>
    pin_retries P e' = (Inr (max_pin_retries (custom P)), e') \<and> draws e' = draws e \<and>
    (\<forall>k. k \<noteq> pin_retries_key \<longrightarrow> content view (store_of e') k = content view (store_of e) k)"
proof -
  obtain e' where "remove_entry P pin_retries_key e = (Inr (), e')" "env_inv P view e'"
    "content view (store_of e') = (content view (store_of e))(pin_retries_key := None)" "draws e' = draws e"
    using remove_entry_ok [OF assms(1) storage_keys_fit(8) [OF assms(2)]] by blast
  then show ?thesis
    by (intro exI [of _ e']) (simp add: reset_pin_retries_def pin_retries_ok)
qed

text \<open>\<open>n\<close> failed attempts in a row.\<close>

fun decr_times :: "nat \<Rightarrow> 'p platform \<Rightarrow> ('p, unit) env_op" where
  "decr_times 0 P = sret ()"
| "decr_times (Suc n) P = sbind (decr_times n P) (\<lambda>_. decr_pin_retries P)"

lemma unat_saturating_pred: "unat (saturating_pred n) = unat n - 1"
  by (simp add: saturating_pred_def unat_minus_one)

lemma decr_times_ok:
  assumes "env_inv P view e" "pin_retries P e = (Inr m, e)" "11 \<le> usize_bits P"
  shows "\<exists>e' r. decr_times n P e = (Inr (), e') \<and> env_inv P view e' \<and> pin_retries P e' = (Inr r, e') \<and>
    unat r = unat m - n"
proof (induction n)
  case 0
  then show ?case using assms by simp
next
  case (Suc n)
  then obtain e' r where e': "decr_times n P e = (Inr (), e')" "env_inv P view e'"
    "pin_retries P e' = (Inr r, e')" "unat r = unat m - n" by blast
  obtain e'' where "decr_pin_retries P e' = (Inr (), e'')" "env_inv P view e''"
    "pin_retries P e'' = (Inr (saturating_pred r), e'')"
    using decr_pin_retries_ok [OF e'(2,3) assms(3)] by blast
  then show ?case
    using e'(1,4) by (intro exI [of _ e''] exI [of _ "saturating_pred r"]) (simp add: unat_saturating_pred)
qed

text \<open>After \<open>n\<close> failed attempts the retries are the initial ones less \<open>n\<close>, never below zero, and a reset
  restores the maximum of the customization.\<close>

theorem pin_retries_count_down:
  assumes "env_inv P view e" "pin_retries P e = (Inr m, e)" "11 \<le> usize_bits P"
  shows "\<exists>e' r. decr_times n P e = (Inr (), e') \<and> env_inv P view e' \<and> pin_retries P e' = (Inr r, e') \<and>
    unat r = unat m - n \<and>
    (\<exists>e''. reset_pin_retries P e' = (Inr (), e'') \<and>
       pin_retries P e'' = (Inr (max_pin_retries (custom P)), e''))"
proof -
  obtain e' r where e': "decr_times n P e = (Inr (), e')" "env_inv P view e'"
    "pin_retries P e' = (Inr r, e')" "unat r = unat m - n"
    using decr_times_ok [OF assms] by blast
  then show ?thesis using reset_pin_retries_ok [OF e'(2) assms(3)] by blast
qed

lemma pin_retries_count_down_witness:
  "\<exists>e' r. decr_times 3 toy_platform (toy_env []) = (Inr (), e') \<and>
     pin_retries toy_platform e' = (Inr r, e') \<and> unat r = 5"
proof -
  have inv: "env_inv toy_platform map_of (toy_env [])" using toy_env_inv by simp
  have "pin_retries toy_platform (toy_env []) = (Inr 8, toy_env [])"
    by (simp add: pin_retries_ok [OF inv] toy_env_content default_customization_def)
  from pin_retries_count_down [OF inv this, of 3] show ?thesis by auto
qed

definition full_platform :: "(string \<times> bytes) list platform" where
  "full_platform = toy_platform\<lparr>pddb_of := alist_pddb\<lparr>create_key := (\<lambda>k p. (Inl OtherKind, p))\<rparr>\<rparr>"

text \<open>On a device that cannot create the record, the decrement of the retries reports an error but has
  already deleted the entry: the retries are back at their maximum.\<close>

theorem pin_retries_lost_on_failure:
  "let e = toy_env [(decimal 2044, [1])];
       (r, e') = decr_pin_retries full_platform e
   in pin_retries full_platform e = (Inr 1, e) \<and> r = Inl CTAP1_ERR_OTHER \<and>
      pin_retries full_platform e' = (Inr 8, e')"
  by (simp add: full_platform_def toy_platform_def toy_env_def decr_pin_retries_def pin_retries_def
      sbind_def find_entry_def with_store_def find_key_def alist_pddb_def new_store_def storage_keys
      saturating_pred_def insert_entry_def insert_key_def transaction_def apply_update_def ok_or_def
      default_customization_def Let_def)

section \<open>The signature counter\<close>

text \<open>Incrementing the global signature counter adds the increment modulo 2^32, starting from 1, and
  changes no other entry.\<close>

theorem signature_counter_wraps:
  assumes inv: "env_inv P view e" and old: "global_signature_counter P e = (Inr c, e)"
    and bits: "11 \<le> usize_bits P"
  shows "\<exists>e'. incr_global_signature_counter P n e = (Inr (), e') \<and> env_inv P view e' \<and>
    global_signature_counter P e' = (Inr (of_nat ((unat c + unat n) mod 2 ^ 32)), e') \<and>
    (\<forall>k. k \<noteq> global_signature_counter_key \<longrightarrow> find_entry P k e' = (fst (find_entry P k e), e'))"
proof -
  obtain e' where e': "insert_entry P global_signature_counter_key (le_bytes (c + n)) e = (Inr (), e')"
    "env_inv P view e'"
    "content view (store_of e') = (content view (store_of e))(global_signature_counter_key \<mapsto> le_bytes (c + n))"
    using insert_entry_ok [OF inv storage_keys_fit(11) [OF bits]] by blast
  have "c + n = of_nat ((unat c + unat n) mod 2 ^ 32)"
    by (simp add: word_unat_eq_iff unat_word_ariths unsigned_of_nat take_bit_eq_mod)
  then show ?thesis
    using e' old
    by (intro exI [of _ e']) (simp add: incr_global_signature_counter_def sbind_def global_signature_counter_ok
        find_entry_ok [OF inv] find_entry_ok [OF e'(2)])
qed

lemma signature_counter_wraps_witness:
  "\<exists>e'. incr_global_signature_counter toy_platform 0xFFFFFFFF (toy_env []) = (Inr (), e') \<and>
     global_signature_counter toy_platform e' = (Inr 0, e')"
proof -
  have inv: "env_inv toy_platform map_of (toy_env [])" using toy_env_inv by simp
  have "global_signature_counter toy_platform (toy_env []) = (Inr 1, toy_env [])"
    by (simp add: global_signature_counter_ok [OF inv] toy_env_content)
  from signature_counter_wraps [OF inv this, where n = "0xFFFFFFFF"] show ?thesis by auto
qed

section \<open>The PIN entry\<close>

lemma pin_properties_ok:
  "env_inv P view e \<Longrightarrow> pin_properties P e =
     (case content view (store_of e) pin_properties_key of
        None \<Rightarrow> (Inr None, e)
      | Some p \<Rightarrow> (if length p = 17
          then Inr (Some \<lparr>pin_prop_hash = take 16 (drop 1 p), code_point_length = p ! 0\<rparr>)
          else Inl internal_error, e))"
  by (simp add: pin_properties_def sbind_def find_entry_ok split: option.split)

lemma flag_entry_ok:
  "env_inv P view e \<Longrightarrow> flag_entry P k e =
     (case content view (store_of e) k of
        None \<Rightarrow> (Inr False, e)
      | Some v \<Rightarrow> (if v = [] then Inr True else Inl internal_error, e))"
  by (simp add: flag_entry_def sbind_def find_entry_ok split: option.split)

lemma set_pin_ok:
  assumes inv: "env_inv P view e" and bits: "11 \<le> usize_bits P" and len: "length h = 16"
  shows "\<exists>e'. set_pin P h n e = (Inr (), e') \<and> env_inv P view e' \<and> draws e' = draws e \<and>
    pin_hash P e' = (Inr (Some h), e') \<and> pin_code_point_length P e' = (Inr (Some n), e') \<and>
    has_force_pin_change P e' = (Inr False, e') \<and>
    (\<forall>k. k \<noteq> pin_properties_key \<and> k \<noteq> force_pin_change_key \<longrightarrow>
       content view (store_of e') k = content view (store_of e) k)"
proof -
  let ?us = "[Insert pin_properties_key (n # h), Remove force_pin_change_key]"
  have "\<forall>u\<in>set ?us. update_key u < 2 ^ usize_bits P"
    using storage_keys_fit [OF bits] by simp
  then obtain e' where e': "update_entries P ?us e = (Inr (), e')" "env_inv P view e'"
    "content view (store_of e') = fold apply_to ?us (content view (store_of e))" "draws e' = draws e"
    using update_entries_ok [OF inv, of ?us] by blast
  have "pin_properties_key \<noteq> force_pin_change_key" by (simp add: storage_keys)
  then show ?thesis
    using e' len
    by (intro exI [of _ e']) (simp add: set_pin_def pin_hash_def pin_code_point_length_def sbind_def
        pin_properties_ok has_force_pin_change_def flag_entry_ok)
qed

section \<open>Large blobs\<close>

lemma commit_large_blob_ok:
  assumes inv: "env_inv P view e" and held: "holds_chunks view 2000 2004 cs (store_of e)"
    and bits: "11 \<le> usize_bits P"
    and limit: "max_large_blob_array_size (custom P) \<le> 4 * max_value_length"
    and range: "offset + byte_count < 2 ^ usize_bits P"
  shows "if length blob \<le> max_large_blob_array_size (custom P) then
      \<exists>e'. commit_large_blob_array P blob e = (Inr (), e') \<and> env_inv P view e' \<and>
        get_large_blob_array P offset byte_count e' =
          (Inr (take byte_count (drop offset (if blob = [] then empty_large_blob else blob))), e')
    else commit_large_blob_array P blob e = (Inl internal_error, e)"
proof (cases "length blob \<le> max_large_blob_array_size (custom P)")
  case False
  then show ?thesis by (simp add: commit_large_blob_array_def)
next
  case True
  have "length blob \<le> (2004 - 2000) * max_value_length"
    using True limit by simp
  then obtain s' where s': "fragment_write (usize_bits P) (pddb_of P) (range_keys 2000 2004) blob (store_of e) = (Inr (), s')"
    "store_inv (usize_bits P) (pddb_of P) view s'"
    "holds_chunks view 2000 2004 (chunks max_value_length blob) s'"
    using fragment_write_ok [OF inv held, of blob] key_fits [OF _ bits, of 2004] by auto
  have pos: "0 < max_value_length" by (simp add: max_value_length_def)
  have get: "fragment_read_range (usize_bits P) (pddb_of P) large_blob_shards offset (offset + byte_count) s' =
      Inr (if blob = [] then None else Some (drop offset (take (offset + byte_count) blob)))"
    using fragment_read_range_ok [OF s'(2,3), of offset "offset + byte_count"]
    by (simp add: large_blob_shards_def chunks_concat [OF pos] chunks_Nil_iff [OF pos])
  have dt: "drop offset (take (offset + byte_count) xs) = take byte_count (drop offset xs)" for xs :: bytes
    by (simp add: take_drop add.commute)
  have empty: "(if offset \<le> min (length empty_large_blob) (offset + byte_count)
      then drop offset (take (min (length empty_large_blob) (offset + byte_count)) empty_large_blob) else []) =
      take byte_count (drop offset empty_large_blob)"
    using dt [of empty_large_blob] by (auto simp: min_def)
  have "get_large_blob_array P offset byte_count (e\<lparr>store_of := s'\<rparr>) =
      (Inr (take byte_count (drop offset (if blob = [] then empty_large_blob else blob))), e\<lparr>store_of := s'\<rparr>)"
    using range empty by (auto simp: get_large_blob_array_def with_store_def sbind_def get dt Let_def)
  moreover have "commit_large_blob_array P blob e = (Inr (), e\<lparr>store_of := s'\<rparr>)"
    using True s'(1) by (simp add: commit_large_blob_array_def with_store_def large_blob_shards_def)
  ultimately show ?thesis using True s'(2) by auto
qed

text \<open>A large blob array within the limit is committed, and reading any range gives those of its bytes
  that exist; the empty array is stored as no entry and read as the default value; a longer one is
  refused without a change.\<close>

theorem large_blob_round_trip:
  assumes inv: "env_inv P view e" and held: "holds_chunks view 2000 2004 cs (store_of e)"
    and bits: "11 \<le> usize_bits P"
    and limit: "max_large_blob_array_size (custom P) \<le> 4 * max_value_length"
    and range: "offset + byte_count < 2 ^ usize_bits P"
  shows "if length blob \<le> max_large_blob_array_size (custom P) then
      \<exists>e'. commit_large_blob_array P blob e = (Inr (), e') \<and> env_inv P view e' \<and>
        get_large_blob_array P offset byte_count e' =
          (Inr (take byte_count (drop offset (if blob = [] then empty_large_blob else blob))), e')
    else commit_large_blob_array P blob e = (Inl internal_error, e)"
  using assms by (rule commit_large_blob_ok)

lemma large_blob_round_trip_witness:
  "\<exists>e'. commit_large_blob_array toy_platform [1, 2, 3, 4] (toy_env []) = (Inr (), e') \<and>
     get_large_blob_array toy_platform 1 2 e' = (Inr [2, 3], e')"
proof -
  have inv: "env_inv toy_platform map_of (toy_env [])" using toy_env_inv by simp
  have held: "holds_chunks map_of 2000 2004 [] (store_of (toy_env []))"
    by (simp add: holds_chunks_def toy_env_content)
  show ?thesis
    using large_blob_round_trip [OF inv held, of 1 2 "[1, 2, 3, 4]"]
    by (simp add: default_customization_def max_value_length_def) blast
qed

section \<open>Reset\<close>

definition init_content :: "bytes \<Rightarrow> (nat \<Rightarrow> bytes option) \<Rightarrow> nat \<Rightarrow> bytes option" where
  "init_content secret m =
     (let m = (if m cred_random_secret_key = None then m(cred_random_secret_key \<mapsto> secret) else m)
      in if m aaguid_key = None then m(aaguid_key \<mapsto> key_material_aaguid) else m)"

lemma init_ok:
  assumes inv: "env_inv P view e" and bits: "11 \<le> usize_bits P"
  shows "\<exists>e'. init P e = (Inr (), e') \<and> env_inv P view e' \<and>
    content view (store_of e') = init_content
      (random_u8x32 (crypto_of P) (Suc (draws e)) @ random_u8x32 (crypto_of P) (draws e))
      (content view (store_of e))"
proof -
  let ?secret = "random_u8x32 (crypto_of P) (Suc (draws e)) @ random_u8x32 (crypto_of P) (draws e)"
  let ?m = "content view (store_of e)"
  let ?m' = "if ?m cred_random_secret_key = None then ?m(cred_random_secret_key \<mapsto> ?secret) else ?m"
  have "\<exists>e'. init_cred_random P e = (Inr (), e') \<and> env_inv P view e' \<and> content view (store_of e') = ?m'"
  proof (cases "?m cred_random_secret_key = None")
    case True
    let ?e = "e\<lparr>draws := Suc (Suc (draws e))\<rparr>"
    obtain e' where "insert_entry P cred_random_secret_key ?secret ?e = (Inr (), e')" "env_inv P view e'"
      "content view (store_of e') = ?m(cred_random_secret_key \<mapsto> ?secret)"
      using insert_entry_ok [of _ P view ?e, OF _ storage_keys_fit(5) [OF bits]] inv by auto
    then show ?thesis
      using True by (simp add: init_cred_random_def sbind_def find_entry_handle_ok [OF inv] random_bytes_def
          gen_uniform_u8x32_def Let_def)
  next
    case False
    then show ?thesis
      using inv by (intro exI [of _ e]) (auto simp: init_cred_random_def sbind_def find_entry_handle_ok [OF inv])
  qed
  then obtain e1 where e1: "init_cred_random P e = (Inr (), e1)" "env_inv P view e1" "content view (store_of e1) = ?m'"
    by blast
  obtain e2 where e2: "set_aaguid P key_material_aaguid e1 = (Inr (), e2)" "env_inv P view e2"
    "content view (store_of e2) = ?m'(aaguid_key \<mapsto> key_material_aaguid)"
    using insert_entry_ok [OF e1(2) storage_keys_fit(1) [OF bits]] unfolding set_aaguid_def e1(3) by blast
  have fin: "init_content ?secret ?m = (if ?m' aaguid_key = None then ?m'(aaguid_key \<mapsto> key_material_aaguid) else ?m')"
    unfolding init_content_def Let_def ..
  have run: "init P e = (if ?m' aaguid_key = None then (Inr (), e2) else (Inr (), e1))"
    unfolding init_def sbind_def e1(1) by (simp add: find_entry_handle_ok [OF e1(2)] e1(3) e2(1))
  show ?thesis
    unfolding run fin
  proof (cases "?m' aaguid_key = None")
    case True
    show "\<exists>e'. (if ?m' aaguid_key = None then (Inr (), e2) else (Inr (), e1)) = (Inr (), e') \<and> env_inv P view e' \<and>
      content view (store_of e') = (if ?m' aaguid_key = None then ?m'(aaguid_key \<mapsto> key_material_aaguid) else ?m')"
      unfolding if_P [OF True] by (intro exI conjI, rule refl, rule e2(2), rule e2(3))
  next
    case False
    show "\<exists>e'. (if ?m' aaguid_key = None then (Inr (), e2) else (Inr (), e1)) = (Inr (), e') \<and> env_inv P view e' \<and>
      content view (store_of e') = (if ?m' aaguid_key = None then ?m'(aaguid_key \<mapsto> key_material_aaguid) else ?m')"
      unfolding if_not_P [OF False] by (intro exI conjI, rule refl, rule e1(2), rule e1(3))
  qed
qed

lemma reset_ok:
  assumes inv: "env_inv P view e" and bits: "11 \<le> usize_bits P"
  shows "\<exists>e'. reset P e = (Inr (), e') \<and> env_inv P view e' \<and>
    content view (store_of e') = init_content
      (random_u8x32 (crypto_of P) (Suc (draws e)) @ random_u8x32 (crypto_of P) (draws e))
      (content view (store_of e) |` {..<num_persistent_keys})"
proof -
  obtain s1 where s1: "clear (usize_bits P) (pddb_of P) num_persistent_keys (store_of e) = (Inr (), s1)"
    "store_inv (usize_bits P) (pddb_of P) view s1"
    "content view s1 = content view (store_of e) |` {..<num_persistent_keys}"
    using st.wipe [OF inv, of num_persistent_keys] by blast
  obtain s2 where s2: "remove_key (pddb_of P) key_store_key s1 = (Inr (), s2)"
    "store_inv (usize_bits P) (pddb_of P) view s2" "content view s2 = (content view s1)(key_store_key := None)"
    using st.remove_one [OF s1(2) storage_keys_fit(10) [OF bits]] unfolding remove_key_def by blast
  have "(content view s1)(key_store_key := None) = content view s1"
    unfolding s1(3) by (auto simp: restrict_map_def storage_keys fun_eq_iff)
  then have s2': "content view s2 = content view (store_of e) |` {..<num_persistent_keys}"
    using s2(3) s1(3) by simp
  have "reset P e = init P (e\<lparr>store_of := s2\<rparr>)"
    by (simp add: reset_def sbind_def with_store_def s1(1) key_store_reset_def s2(1))
  then show ?thesis
    using init_ok [of P view "e\<lparr>store_of := s2\<rparr>"] s2(2) s2' bits by simp
qed

text \<open>A reset keeps exactly the persistent entries, provides the AAGUID, draws new CredRandom secrets,
  and so forgets the PIN, its retries and the flags.\<close>

theorem reset_keeps_persistent:
  assumes inv: "env_inv P view e" and bits: "11 \<le> usize_bits P"
    and rnd: "\<forall>n. length (random_u8x32 (crypto_of P) n) = 32"
  shows "\<exists>e'. reset P e = (Inr (), e') \<and> env_inv P view e' \<and>
    (\<forall>k. k < num_persistent_keys \<and> k \<noteq> aaguid_key \<longrightarrow> find_entry P k e' = (fst (find_entry P k e), e')) \<and>
    (\<forall>k \<ge> num_persistent_keys. k \<noteq> cred_random_secret_key \<longrightarrow> find_entry P k e' = (Inr None, e')) \<and>
    (\<forall>uv. cred_random_secret P uv e' =
       (Inr (random_u8x32 (crypto_of P) (if uv then draws e else Suc (draws e))), e')) \<and>
    pin_hash P e' = (Inr None, e') \<and> pin_retries P e' = (Inr (max_pin_retries (custom P)), e') \<and>
    has_force_pin_change P e' = (Inr False, e')"
proof -
  obtain e' where e': "reset P e = (Inr (), e')" "env_inv P view e'"
    "content view (store_of e') = init_content
      (random_u8x32 (crypto_of P) (Suc (draws e)) @ random_u8x32 (crypto_of P) (draws e))
      (content view (store_of e) |` {..<num_persistent_keys})"
    using reset_ok [OF inv bits] by blast
  have other: "content view (store_of e') k = (if k < num_persistent_keys then content view (store_of e) k else None)"
    if "k \<noteq> aaguid_key" "k \<noteq> cred_random_secret_key" for k
    using that unfolding e'(3) by (auto simp: init_content_def Let_def restrict_map_def)
  have secret: "content view (store_of e') cred_random_secret_key =
      Some (random_u8x32 (crypto_of P) (Suc (draws e)) @ random_u8x32 (crypto_of P) (draws e))"
    unfolding e'(3) by (auto simp: init_content_def Let_def restrict_map_def storage_keys)
  note find = find_entry_ok [OF e'(2)] find_entry_ok [OF inv]
  have "\<forall>k. k < num_persistent_keys \<and> k \<noteq> aaguid_key \<longrightarrow> find_entry P k e' = (fst (find_entry P k e), e')"
    using other by (auto simp: find storage_keys)
  moreover have "\<forall>k \<ge> num_persistent_keys. k \<noteq> cred_random_secret_key \<longrightarrow> find_entry P k e' = (Inr None, e')"
    using other by (auto simp: find storage_keys)
  moreover have "\<forall>uv. cred_random_secret P uv e' =
      (Inr (random_u8x32 (crypto_of P) (if uv then draws e else Suc (draws e))), e')"
    using rnd secret by (auto simp: cred_random_secret_def sbind_def find)
  moreover have "content view (store_of e') pin_properties_key = None" "content view (store_of e') pin_retries_key = None"
    "content view (store_of e') force_pin_change_key = None"
    by (subst other; simp add: storage_keys)+
  ultimately show ?thesis
    using e'(1,2) by (intro exI [of _ e'] conjI)
      (simp_all add: pin_hash_def sbind_def pin_properties_ok pin_retries_ok has_force_pin_change_def flag_entry_ok)
qed

lemma reset_keeps_persistent_witness:
  "\<exists>e'. reset toy_platform (toy_env []) = (Inr (), e') \<and>
     cred_random_secret toy_platform False e' = (Inr (replicate 32 1), e')"
proof -
  have inv: "env_inv toy_platform map_of (toy_env [])" using toy_env_inv by simp
  have rnd: "\<forall>n. length (random_u8x32 (crypto_of toy_platform) n) = 32" by (simp add: toy_crypto_def)
  obtain e' where "reset toy_platform (toy_env []) = (Inr (), e')"
    "\<forall>uv. cred_random_secret toy_platform uv e' = (Inr (random_u8x32 toy_crypto (if uv then 0 else 1)), e')"
    using reset_keeps_persistent [OF inv _ rnd] by (auto simp: toy_env_def)
  then show ?thesis by (simp add: toy_crypto_def)
qed

end
