(* ===== verification/Client_Pin.thy ===== *)
theory Client_Pin
  imports Data_Requests Ctap_Storage
begin

text \<open>
  The authenticatorClientPIN command, \<open>src/ctap/client_pin.rs\<close>: setting, changing and verifying the
  PIN, and the pinUvAuthTokens obtained with it. The handlers mutate both the environment and the
  \<open>ClientPin\<close> state, so they are operations on the pair; both random number generators draw from
  the counter of the environment.
\<close>

section \<open>Parameters and responses\<close>

record client_pin_params =
  cpp_protocol :: pin_uv_auth_protocol
  cpp_sub_command :: client_pin_subcommand
  cpp_key_agreement :: "cose_key option"
  cpp_pin_uv_auth_param :: "bytes option"
  cpp_new_pin_enc :: "bytes option"
  cpp_pin_hash_enc :: "bytes option"
  cpp_permissions :: "u8 option"
  cpp_permissions_rp_id :: "rust_string option"

definition client_pin_params_of_cbor :: "cvalue \<Rightarrow> status + client_pin_params" where
  "client_pin_params_of_cbor v =
     rbind (extract_map v) (\<lambda>m.
       let fs = destructure (map Unsigned [1, 2, 3, 4, 5, 6, 9, 10]) m in
       rbind (rbind (ok_or_missing (fs ! 0)) protocol_of_cbor) (\<lambda>protocol.
       rbind (rbind (ok_or_missing (fs ! 1)) client_pin_subcommand_of_cbor) (\<lambda>sub_command.
       rbind (optional cose_key_of_cbor (fs ! 2)) (\<lambda>key_agreement.
       rbind (optional extract_byte_string (fs ! 3)) (\<lambda>auth_param.
       rbind (optional extract_byte_string (fs ! 4)) (\<lambda>new_pin.
       rbind (optional extract_byte_string (fs ! 5)) (\<lambda>pin_hash.
       rbind (optional extract_unsigned (fs ! 6)) (\<lambda>permissions.
       rbind (optional extract_text_string (fs ! 7)) (\<lambda>rp_id.
         Inr \<lparr>cpp_protocol = protocol, cpp_sub_command = sub_command, cpp_key_agreement = key_agreement,
              cpp_pin_uv_auth_param = auth_param, cpp_new_pin_enc = new_pin, cpp_pin_hash_enc = pin_hash,
              cpp_permissions = map_option ucast permissions, cpp_permissions_rp_id = rp_id\<rparr>)))))))))"

record client_pin_response =
  cpr_key_agreement :: "cose_key option"
  cpr_pin_uv_auth_token :: "bytes option"
  cpr_retries :: "u64 option"
  cpr_power_cycle_state :: "bool option"

definition cbor_of_client_pin_response :: "client_pin_response \<Rightarrow> cvalue" where
  "cbor_of_client_pin_response r =
     Map (map_options (zip (map Unsigned [1, 2, 3, 4])
       [map_option cbor_of_cose_key (cpr_key_agreement r), map_option ByteString (cpr_pin_uv_auth_token r),
        map_option Unsigned (cpr_retries r), map_option bool_value (cpr_power_cycle_state r)]))"

section \<open>State\<close>

record client_pin =
  protocol_v1 :: pin_protocol
  protocol_v2 :: pin_protocol
  consecutive_pin_mismatches :: u8
  token_state_of :: token_state

type_synonym ('p, 'a) pin_op = "('p env \<times> client_pin, status, 'a) op"

definition on_env :: "('p, 'a) env_op \<Rightarrow> ('p, 'a) pin_op" where
  "on_env f = (\<lambda>(e, c). let (r, e) = f e in (r, (e, c)))"

definition on_pin :: "(client_pin \<Rightarrow> client_pin) \<Rightarrow> ('p, unit) pin_op" where
  "on_pin f = (\<lambda>(e, c). (Inr (), (e, f c)))"

definition get_pin :: "(client_pin \<Rightarrow> status + 'a) \<Rightarrow> ('p, 'a) pin_op" where
  "get_pin f = (\<lambda>(e, c). (f c, (e, c)))"

definition new_client_pin :: "crypto \<Rightarrow> nat \<Rightarrow> client_pin \<times> nat" where
  "new_client_pin C n =
     (let (v1, n) = new_pin_protocol C n; (v2, n) = new_pin_protocol C n
      in (\<lparr>protocol_v1 = v1, protocol_v2 = v2, consecutive_pin_mismatches = 0,
           token_state_of = new_token_state\<rparr>, n))"

definition get_pin_protocol :: "pin_uv_auth_protocol \<Rightarrow> client_pin \<Rightarrow> pin_protocol" where
  "get_pin_protocol pr c = (case pr of V1 \<Rightarrow> protocol_v1 c | V2 \<Rightarrow> protocol_v2 c)"

text \<open>Running a method of the protocol state that draws random numbers.\<close>

definition with_pin_protocol ::
  "pin_uv_auth_protocol \<Rightarrow> (pin_protocol \<times> nat \<Rightarrow> pin_protocol \<times> nat) \<Rightarrow> ('p, unit) pin_op" where
  "with_pin_protocol pr f = (\<lambda>(e, c).
     let (p, n) = f (get_pin_protocol pr c, draws e)
     in (Inr (), (e\<lparr>draws := n\<rparr>,
          case pr of V1 \<Rightarrow> c\<lparr>protocol_v1 := p\<rparr> | V2 \<Rightarrow> c\<lparr>protocol_v2 := p\<rparr>)))"

definition get_shared_secret ::
  "'p platform \<Rightarrow> pin_uv_auth_protocol \<Rightarrow> cose_key \<Rightarrow> ('p, shared_secret) pin_op" where
  "get_shared_secret P pr key = get_pin (\<lambda>c. decapsulate (crypto_of P) (get_pin_protocol pr c) key pr)"

definition encrypt_with :: "'p platform \<Rightarrow> shared_secret \<Rightarrow> bytes \<Rightarrow> ('p, bytes) pin_op" where
  "encrypt_with P s pt = (\<lambda>(e, c).
     let (r, n) = ss_encrypt (crypto_of P) s pt (draws e) in (r, (e\<lparr>draws := n\<rparr>, c)))"

section \<open>Storing a PIN\<close>

definition pin_auth_length :: nat where "pin_auth_length = 16"
definition pin_padded_length :: nat where "pin_padded_length = 64"

definition decrypt_pin :: "crypto \<Rightarrow> shared_secret \<Rightarrow> bytes \<Rightarrow> status + bytes" where
  "decrypt_pin C s new_pin_enc =
     rbind (ss_decrypt C s new_pin_enc) (\<lambda>decrypted_pin.
       if length decrypted_pin \<noteq> pin_padded_length then Inl CTAP1_ERR_INVALID_PARAMETER
       else Inr (takeWhile (\<lambda>c. c \<noteq> 0) decrypted_pin))"

text \<open>\<open>str::from_utf8(&pin).unwrap_or("").chars().count()\<close>\<close>

definition code_points :: "bytes \<Rightarrow> nat" where
  "code_points pin = (case utf8_count pin of None \<Rightarrow> 0 | Some n \<Rightarrow> n)"

definition check_and_store_new_pin :: "'p platform \<Rightarrow> shared_secret \<Rightarrow> bytes \<Rightarrow> ('p, unit) env_op" where
  "check_and_store_new_pin P s new_pin_enc =
     sbind (slift (\<lambda>_. decrypt_pin (crypto_of P) s new_pin_enc)) (\<lambda>pin.
     sbind (min_pin_length P) (\<lambda>min_len.
       let pin_length = code_points pin
       in if pin_length < unat min_len \<or> length pin = pin_padded_length
          then sfail CTAP2_ERR_PIN_POLICY_VIOLATION
          else set_pin P (take pin_auth_length (sha256 (crypto_of P) pin)) (of_nat pin_length)))"

section \<open>Verifying a PIN\<close>

definition verify_pin_hash_enc ::
  "'p platform \<Rightarrow> pin_uv_auth_protocol \<Rightarrow> shared_secret \<Rightarrow> bytes \<Rightarrow> ('p, unit) pin_op" where
  "verify_pin_hash_enc P pr s pin_hash_enc =
     sbind (on_env (pin_hash P)) (\<lambda>stored.
     sbind (case stored of
              None \<Rightarrow> sfail CTAP2_ERR_PUAT_REQUIRED
            | Some h \<Rightarrow>
                sbind (get_pin (\<lambda>c. if consecutive_pin_mismatches c \<ge> 3
                                    then Inl CTAP2_ERR_PIN_AUTH_BLOCKED else Inr ())) (\<lambda>_.
                sbind (on_env (decr_pin_retries P)) (\<lambda>_.
                sbind (slift (\<lambda>_. map_sum (\<lambda>_. CTAP2_ERR_PIN_INVALID) id
                         (ss_decrypt (crypto_of P) s pin_hash_enc))) (\<lambda>dec.
                if h = dec then sret ()
                else sbind (with_pin_protocol pr (regenerate (crypto_of P))) (\<lambda>_.
                     sbind (on_env (pin_retries P)) (\<lambda>retries.
                     if retries = 0 then sfail CTAP2_ERR_PIN_BLOCKED
                     else sbind (on_pin (\<lambda>c. c\<lparr>consecutive_pin_mismatches := consecutive_pin_mismatches c + 1\<rparr>)) (\<lambda>_.
                     sbind (get_pin (\<lambda>c. if consecutive_pin_mismatches c \<ge> 3
                                    then Inl CTAP2_ERR_PIN_AUTH_BLOCKED else Inr ())) (\<lambda>_.
                     sfail CTAP2_ERR_PIN_INVALID))))))))
       (\<lambda>_. sbind (on_env (reset_pin_retries P)) (\<lambda>_.
            on_pin (\<lambda>c. c\<lparr>consecutive_pin_mismatches := 0\<rparr>))))"

section \<open>Subcommands\<close>

definition empty_pin_response :: client_pin_response where
  "empty_pin_response = \<lparr>cpr_key_agreement = None, cpr_pin_uv_auth_token = None, cpr_retries = None,
     cpr_power_cycle_state = None\<rparr>"

definition process_get_pin_retries :: "'p platform \<Rightarrow> ('p, client_pin_response) pin_op" where
  "process_get_pin_retries P =
     sbind (on_env (pin_retries P)) (\<lambda>retries. get_pin (\<lambda>c.
       Inr (empty_pin_response\<lparr>cpr_retries := Some (ucast retries),
              cpr_power_cycle_state := Some (consecutive_pin_mismatches c \<ge> 3)\<rparr>)))"

definition process_get_key_agreement ::
  "'p platform \<Rightarrow> client_pin_params \<Rightarrow> ('p, client_pin_response) pin_op" where
  "process_get_key_agreement P params = get_pin (\<lambda>c.
     Inr (empty_pin_response\<lparr>cpr_key_agreement :=
       Some (get_public_key (crypto_of P) (get_pin_protocol (cpp_protocol params) c))\<rparr>))"

definition required :: "'a option \<Rightarrow> ('p, 'a) pin_op" where
  "required x = slift (\<lambda>_. ok_or_missing x)"

definition process_set_pin :: "'p platform \<Rightarrow> client_pin_params \<Rightarrow> ('p, unit) pin_op" where
  "process_set_pin P params =
     sbind (required (cpp_key_agreement params)) (\<lambda>key_agreement.
     sbind (required (cpp_pin_uv_auth_param params)) (\<lambda>auth_param.
     sbind (required (cpp_new_pin_enc params)) (\<lambda>new_pin_enc.
     sbind (on_env (pin_hash P)) (\<lambda>stored.
       if stored \<noteq> None then sfail CTAP2_ERR_PIN_AUTH_INVALID else
     sbind (get_shared_secret P (cpp_protocol params) key_agreement) (\<lambda>s.
     sbind (slift (\<lambda>_. ss_verify (crypto_of P) s new_pin_enc auth_param)) (\<lambda>_.
     sbind (on_env (check_and_store_new_pin P s new_pin_enc)) (\<lambda>_.
       on_env (reset_pin_retries P))))))))"

definition reset_tokens :: "'p platform \<Rightarrow> ('p, unit) pin_op" where
  "reset_tokens P =
     sbind (with_pin_protocol V1 (reset_pin_uv_auth_token (crypto_of P))) (\<lambda>_.
       with_pin_protocol V2 (reset_pin_uv_auth_token (crypto_of P)))"

definition check_retries_left :: "'p platform \<Rightarrow> ('p, unit) pin_op" where
  "check_retries_left P =
     sbind (on_env (pin_retries P)) (\<lambda>n. if n = 0 then sfail CTAP2_ERR_PIN_BLOCKED else sret ())"

definition process_change_pin :: "'p platform \<Rightarrow> client_pin_params \<Rightarrow> ('p, unit) pin_op" where
  "process_change_pin P params =
     sbind (required (cpp_key_agreement params)) (\<lambda>key_agreement.
     sbind (required (cpp_pin_uv_auth_param params)) (\<lambda>auth_param.
     sbind (required (cpp_new_pin_enc params)) (\<lambda>new_pin_enc.
     sbind (required (cpp_pin_hash_enc params)) (\<lambda>pin_hash_enc.
     sbind (check_retries_left P) (\<lambda>_.
     sbind (get_shared_secret P (cpp_protocol params) key_agreement) (\<lambda>s.
     sbind (slift (\<lambda>_. ss_verify (crypto_of P) s (new_pin_enc @ pin_hash_enc) auth_param)) (\<lambda>_.
     sbind (verify_pin_hash_enc P (cpp_protocol params) s pin_hash_enc) (\<lambda>_.
     sbind (on_env (check_and_store_new_pin P s new_pin_enc)) (\<lambda>_.
       reset_tokens P)))))))))"

definition process_get_pin_token ::
  "'p platform \<Rightarrow> client_pin_params \<Rightarrow> instant \<Rightarrow> ('p, client_pin_response) pin_op" where
  "process_get_pin_token P params now =
     sbind (required (cpp_key_agreement params)) (\<lambda>key_agreement.
     sbind (required (cpp_pin_hash_enc params)) (\<lambda>pin_hash_enc.
       if cpp_permissions params \<noteq> None \<or> cpp_permissions_rp_id params \<noteq> None
       then sfail CTAP1_ERR_INVALID_PARAMETER else
     sbind (check_retries_left P) (\<lambda>_.
     sbind (get_shared_secret P (cpp_protocol params) key_agreement) (\<lambda>s.
     sbind (verify_pin_hash_enc P (cpp_protocol params) s pin_hash_enc) (\<lambda>_.
     sbind (on_env (has_force_pin_change P)) (\<lambda>force.
       if force then sfail CTAP2_ERR_PIN_INVALID else
     sbind (reset_tokens P) (\<lambda>_.
     sbind (on_pin (\<lambda>c. c\<lparr>token_state_of := set_default_permissions (begin_using_token now (token_state_of c))\<rparr>)) (\<lambda>_.
     sbind (get_pin (\<lambda>c. Inr (pin_uv_auth_token (get_pin_protocol (cpp_protocol params) c)))) (\<lambda>token.
     sbind (encrypt_with P s token) (\<lambda>enc.
       sret (empty_pin_response\<lparr>cpr_pin_uv_auth_token := Some enc\<rparr>)))))))))))"

definition process_get_token_with_permissions ::
  "'p platform \<Rightarrow> client_pin_params \<Rightarrow> instant \<Rightarrow> ('p, client_pin_response) pin_op" where
  "process_get_token_with_permissions P params now =
     sbind (required (cpp_permissions params)) (\<lambda>permissions.
       let rp = cpp_permissions_rp_id params
       in if permissions = 0 then sfail CTAP1_ERR_INVALID_PARAMETER
          else if permissions AND 0x03 \<noteq> 0 \<and> rp = None then sfail CTAP1_ERR_INVALID_PARAMETER
          else sbind (process_get_pin_token P
                 (params\<lparr>cpp_permissions := None, cpp_permissions_rp_id := None\<rparr>) now) (\<lambda>response.
               sbind (on_pin (\<lambda>c. c\<lparr>token_state_of :=
                 set_permissions_rp_id rp (set_permissions permissions (token_state_of c))\<rparr>)) (\<lambda>_.
               sret response)))"

definition process_client_pin ::
  "'p platform \<Rightarrow> client_pin_params \<Rightarrow> instant \<Rightarrow> ('p, client_pin_response option) pin_op" where
  "process_client_pin P params now =
     (if \<not> allows_pin_protocol_v1 (custom P) \<and> cpp_protocol params = V1
      then sfail CTAP1_ERR_INVALID_PARAMETER
      else case cpp_sub_command params of
          GetPinRetries \<Rightarrow> sbind (process_get_pin_retries P) (\<lambda>r. sret (Some r))
        | GetKeyAgreement \<Rightarrow> sbind (process_get_key_agreement P params) (\<lambda>r. sret (Some r))
        | SetPin \<Rightarrow> sbind (process_set_pin P params) (\<lambda>_. sret None)
        | ChangePin \<Rightarrow> sbind (process_change_pin P params) (\<lambda>_. sret None)
        | GetPinToken \<Rightarrow> sbind (process_get_pin_token P params now) (\<lambda>r. sret (Some r))
        | GetPinUvAuthTokenUsingUvWithPermissions \<Rightarrow> sfail CTAP2_ERR_INVALID_SUBCOMMAND
        | GetUvRetries \<Rightarrow> sfail CTAP2_ERR_INVALID_SUBCOMMAND
        | GetPinUvAuthTokenUsingPinWithPermissions \<Rightarrow>
            sbind (process_get_token_with_permissions P params now) (\<lambda>r. sret (Some r)))"

section \<open>Uses of the token\<close>

definition cp_verify_pin_uv_auth_token ::
  "crypto \<Rightarrow> bytes \<Rightarrow> bytes \<Rightarrow> pin_uv_auth_protocol \<Rightarrow> client_pin \<Rightarrow> status + unit" where
  "cp_verify_pin_uv_auth_token C contents param pr c =
     (if \<not> in_use (token_state_of c) then Inl CTAP2_ERR_PIN_AUTH_INVALID
      else verify_pin_uv_auth_token C (pin_uv_auth_token (get_pin_protocol pr c)) contents param pr)"

definition reset_client_pin :: "crypto \<Rightarrow> client_pin \<times> nat \<Rightarrow> client_pin \<times> nat" where
  "reset_client_pin C = (\<lambda>(c, n).
     let (v1, n) = regenerate C (protocol_v1 c, n);
         (v1, n) = reset_pin_uv_auth_token C (v1, n);
         (v2, n) = regenerate C (protocol_v2 c, n);
         (v2, n) = reset_pin_uv_auth_token C (v2, n)
     in (c\<lparr>protocol_v1 := v1, protocol_v2 := v2, consecutive_pin_mismatches := 0,
           token_state_of := stop_using_token (token_state_of c)\<rparr>, n))"

definition process_hmac_secret ::
  "crypto \<Rightarrow> client_pin \<Rightarrow> hmac_secret_input \<Rightarrow> bytes \<Rightarrow> (nat, status, bytes) op" where
  "process_hmac_secret C c input cred_random =
     sbind (slift (\<lambda>_. decapsulate C (get_pin_protocol (hs_protocol input) c) (hs_key_agreement input)
       (hs_protocol input))) (\<lambda>s.
     sbind (slift (\<lambda>_. ss_verify C s (hs_salt_enc input) (hs_salt_auth input))) (\<lambda>_.
     sbind (slift (\<lambda>_. ss_decrypt C s (hs_salt_enc input))) (\<lambda>salts.
       if length salts \<noteq> 32 \<and> length salts \<noteq> 64 then sfail CTAP1_ERR_INVALID_PARAMETER
       else let output = hmac_256 C cred_random (take 32 salts);
                output = (if length salts = 64 then output @ hmac_256 C cred_random (drop 32 salts) else output)
            in ss_encrypt C s output)))"

definition clear_token_flags :: "client_pin \<Rightarrow> client_pin" where
  "clear_token_flags c =
     c\<lparr>token_state_of := clear_permissions_except_lbw (clear_user_verified_flag (token_state_of c))\<rparr>"

definition cp_update_timeouts :: "instant \<Rightarrow> client_pin \<Rightarrow> client_pin" where
  "cp_update_timeouts now c = c\<lparr>token_state_of := usage_timer_observer now (token_state_of c)\<rparr>"

definition check_user_verified_flag :: "client_pin \<Rightarrow> status + unit" where
  "check_user_verified_flag c =
     (if get_user_verified_flag_value (token_state_of c) then Inr () else Inl CTAP2_ERR_PIN_AUTH_INVALID)"

definition cp_has_permission :: "pin_permission \<Rightarrow> client_pin \<Rightarrow> status + unit" where
  "cp_has_permission p c = has_permission p (token_state_of c)"

definition has_no_rp_id_permission :: "client_pin \<Rightarrow> status + unit" where
  "has_no_rp_id_permission c = has_no_permissions_rp_id (token_state_of c)"

definition or_else :: "'e + 'a \<Rightarrow> 'e + 'a \<Rightarrow> 'e + 'a" where
  "or_else r s = (case r of Inl _ \<Rightarrow> s | Inr x \<Rightarrow> Inr x)"

definition has_no_or_rp_id_permission :: "rust_string \<Rightarrow> client_pin \<Rightarrow> status + unit" where
  "has_no_or_rp_id_permission rp c =
     or_else (has_no_permissions_rp_id (token_state_of c)) (has_permissions_rp_id rp (token_state_of c))"

definition has_no_or_rp_id_hash_permission :: "crypto \<Rightarrow> bytes \<Rightarrow> client_pin \<Rightarrow> status + unit" where
  "has_no_or_rp_id_hash_permission C h c =
     or_else (has_no_permissions_rp_id (token_state_of c))
       (has_permissions_rp_id_hash (sha256 C) h (token_state_of c))"

definition ensure_rp_id_permission :: "rust_string \<Rightarrow> client_pin \<Rightarrow> (status + unit) \<times> client_pin" where
  "ensure_rp_id_permission rp c =
     (if is_ok (has_no_permissions_rp_id (token_state_of c))
      then (Inr (), c\<lparr>token_state_of := set_permissions_rp_id (Some rp) (token_state_of c)\<rparr>)
      else (has_permissions_rp_id rp (token_state_of c), c))"

end
