(* ===== verification/Client_Pin_Props.thy ===== *)
theory Client_Pin_Props
  imports Client_Pin Storage_Props
begin

text \<open>
  What authenticatorClientPIN promises on a working device: the outcome of a PIN attempt on every
  branch, the lockout, who gets a token, what setting a PIN stores, and the hmac-secret outputs.
\<close>

section \<open>Running operations\<close>

lemma pin_op_simps [simp]:
  "on_env f (e, c) = (fst (f e), (snd (f e), c))"
  "on_pin g (e, c) = (Inr (), (e, g c))"
  "get_pin h (e, c) = (h c, (e, c))"
  "required x (e, c) = (ok_or_missing x, (e, c))"
  by (simp_all add: on_env_def on_pin_def get_pin_def required_def split_beta)

lemma sbind_run: "sbind m f s = (case m s of (Inl e, s') \<Rightarrow> (Inl e, s') | (Inr x, s') \<Rightarrow> f x s')"
  by (simp add: sbind_def)

lemma pin_hash_ok:
  "env_inv P view e \<Longrightarrow> pin_hash P e = (map_sum id (map_option pin_prop_hash) (fst (pin_properties P e)), e)"
  by (simp add: pin_hash_def sbind_run pin_properties_ok split: option.split)

text \<open>The PIN entry is not touched by the retries.\<close>

lemma pin_hash_cong:
  assumes "env_inv P view e" "env_inv P view e'"
    and "content view (store_of e') pin_properties_key = content view (store_of e) pin_properties_key"
    and "pin_hash P e = (Inr h, e)"
  shows "pin_hash P e' = (Inr h, e')"
  using assms(4) unfolding pin_hash_ok [OF assms(1)] pin_hash_ok [OF assms(2)]
  by (cases "content view (store_of e) pin_properties_key")
     (simp_all add: pin_properties_ok [OF assms(1)] pin_properties_ok [OF assms(2)] assms(3) split: if_splits)

lemma retries_not_properties [simp]: "pin_properties_key \<noteq> pin_retries_key"
  by (simp add: storage_keys)

section \<open>One PIN attempt\<close>

text \<open>What a wrong PIN does to the PIN state: a new key agreement key for the protocol in use.\<close>

definition regenerated :: "crypto \<Rightarrow> pin_uv_auth_protocol \<Rightarrow> nat \<Rightarrow> client_pin \<Rightarrow> client_pin" where
  "regenerated C pr n c =
     (let p = (get_pin_protocol pr c)\<lparr>key_agreement_key := ecdh_random C n\<rparr>
      in case pr of V1 \<Rightarrow> c\<lparr>protocol_v1 := p\<rparr> | V2 \<Rightarrow> c\<lparr>protocol_v2 := p\<rparr>)"

lemma with_regenerate [simp]:
  "with_pin_protocol pr (regenerate C) (e, c) =
     (Inr (), (e\<lparr>draws := Suc (draws e)\<rparr>, regenerated C pr (draws e) c))"
  by (simp add: with_pin_protocol_def regenerate_def gensk_def regenerated_def Let_def)

lemma regenerated_mismatches [simp]:
  "consecutive_pin_mismatches (regenerated C pr n c) = consecutive_pin_mismatches c"
  "token_state_of (regenerated C pr n c) = token_state_of c"
  by (simp_all add: regenerated_def Let_def split: pin_uv_auth_protocol.split)

lemma retries_draws: "pin_retries P (e\<lparr>draws := n\<rparr>) = (fst (pin_retries P e), (snd (pin_retries P e))\<lparr>draws := n\<rparr>)"
  by (simp add: pin_retries_def sbind_run find_entry_def with_store_def split: sum.split option.split)

lemma verify_pin_hash_enc_ok:
  assumes inv: "env_inv P view e" and bits: "11 \<le> usize_bits P"
    and stored: "pin_hash P e = (Inr stored, e)" and retries: "pin_retries P e = (Inr n, e)"
  shows "\<exists>r e' c'. verify_pin_hash_enc P pr s ct (e, c) = (r, (e', c')) \<and> env_inv P view e' \<and>
    (case stored of
       None \<Rightarrow> r = Inl CTAP2_ERR_PUAT_REQUIRED \<and> e' = e \<and> c' = c
     | Some h \<Rightarrow>
         if consecutive_pin_mismatches c \<ge> 3 then r = Inl CTAP2_ERR_PIN_AUTH_BLOCKED \<and> e' = e \<and> c' = c
         else (case ss_decrypt (crypto_of P) s ct of
           Inl _ \<Rightarrow> r = Inl CTAP2_ERR_PIN_INVALID \<and> c' = c \<and> pin_retries P e' = (Inr (saturating_pred n), e')
         | Inr dec \<Rightarrow>
             if dec = h then r = Inr () \<and> c' = c\<lparr>consecutive_pin_mismatches := 0\<rparr> \<and>
               pin_retries P e' = (Inr (max_pin_retries (custom P)), e')
             else pin_retries P e' = (Inr (saturating_pred n), e') \<and>
               (let m = consecutive_pin_mismatches c + 1; c2 = regenerated (crypto_of P) pr (draws e) c
                in if saturating_pred n = 0 then r = Inl CTAP2_ERR_PIN_BLOCKED \<and> c' = c2
                   else c' = c2\<lparr>consecutive_pin_mismatches := m\<rparr> \<and>
                        r = Inl (if m \<ge> 3 then CTAP2_ERR_PIN_AUTH_BLOCKED else CTAP2_ERR_PIN_INVALID))))"
proof -
  obtain e1 where e1: "decr_pin_retries P e = (Inr (), e1)" "env_inv P view e1"
    "pin_retries P e1 = (Inr (saturating_pred n), e1)" "draws e1 = draws e"
    using decr_pin_retries_ok [OF inv retries bits] by blast
  obtain e2 where e2: "reset_pin_retries P e1 = (Inr (), e2)" "env_inv P view e2"
    "pin_retries P e2 = (Inr (max_pin_retries (custom P)), e2)"
    using reset_pin_retries_ok [OF e1(2) bits] by blast
  show ?thesis
  proof (cases stored)
    case None
    then show ?thesis using inv stored by (simp add: verify_pin_hash_enc_def sbind_run)
  next
    case (Some h)
    show ?thesis
    proof (cases "consecutive_pin_mismatches c \<ge> 3")
      case True
      then show ?thesis using inv stored Some by (simp add: verify_pin_hash_enc_def sbind_run)
    next
      case False
      show ?thesis
      proof (cases "ss_decrypt (crypto_of P) s ct")
        case (Inl err)
        then show ?thesis using stored Some False e1 by (simp add: verify_pin_hash_enc_def sbind_run)
      next
        case (Inr dec)
        show ?thesis
        proof (cases "dec = h")
          case True
          then show ?thesis
            using stored Some False Inr e1 e2 by (simp add: verify_pin_hash_enc_def sbind_run)
        next
          case wrong: False
          then show ?thesis
            using stored Some False Inr e1
            by (auto simp: verify_pin_hash_enc_def sbind_run retries_draws Let_def)
        qed
      qed
    qed
  qed
qed

text \<open>C11: the outcome of a PIN attempt on every branch. Without a PIN, or after three consecutive
  mismatches, nothing changes. Otherwise a retry is spent first; a ciphertext that does not decrypt
  is an invalid PIN; a wrong hash also changes the key agreement key, and counts as a mismatch
  unless it was the last retry; the right hash restores retries and mismatches.\<close>

theorem verify_pin_hash_enc_spec:
  assumes inv: "env_inv P view e" and bits: "11 \<le> usize_bits P"
    and stored: "pin_hash P e = (Inr stored, e)" and retries: "pin_retries P e = (Inr n, e)"
  shows "\<exists>r e' c'. verify_pin_hash_enc P pr s ct (e, c) = (r, (e', c')) \<and> env_inv P view e' \<and>
    (case stored of
       None \<Rightarrow> r = Inl CTAP2_ERR_PUAT_REQUIRED \<and> e' = e \<and> c' = c
     | Some h \<Rightarrow>
         if consecutive_pin_mismatches c \<ge> 3 then r = Inl CTAP2_ERR_PIN_AUTH_BLOCKED \<and> e' = e \<and> c' = c
         else (case ss_decrypt (crypto_of P) s ct of
           Inl _ \<Rightarrow> r = Inl CTAP2_ERR_PIN_INVALID \<and> c' = c \<and> pin_retries P e' = (Inr (saturating_pred n), e')
         | Inr dec \<Rightarrow>
             if dec = h then r = Inr () \<and> c' = c\<lparr>consecutive_pin_mismatches := 0\<rparr> \<and>
               pin_retries P e' = (Inr (max_pin_retries (custom P)), e')
             else pin_retries P e' = (Inr (saturating_pred n), e') \<and>
               (let m = consecutive_pin_mismatches c + 1; c2 = regenerated (crypto_of P) pr (draws e) c
                in if saturating_pred n = 0 then r = Inl CTAP2_ERR_PIN_BLOCKED \<and> c' = c2
                   else c' = c2\<lparr>consecutive_pin_mismatches := m\<rparr> \<and>
                        r = Inl (if m \<ge> 3 then CTAP2_ERR_PIN_AUTH_BLOCKED else CTAP2_ERR_PIN_INVALID))))"
  using assms by (rule verify_pin_hash_enc_ok)

section \<open>Lockout\<close>

text \<open>C10: with a PIN set and no retries left, or after three consecutive mismatches, no client PIN command
  changes anything, and none returns a token.\<close>

theorem pin_lockout:
  assumes inv: "env_inv P view e" and pin: "pin_hash P e = (Inr (Some h), e)"
    and retries: "pin_retries P e = (Inr n, e)"
    and locked: "n = 0 \<or> consecutive_pin_mismatches c \<ge> 3"
  shows "\<exists>r. process_client_pin P params now (e, c) = (r, (e, c)) \<and>
    (case r of Inr (Some response) \<Rightarrow> cpr_pin_uv_auth_token response = None
     | Inr None \<Rightarrow> False
     | Inl _ \<Rightarrow> True)"
proof -
  have left: "check_retries_left P (e, c) = (if n = 0 then (Inl CTAP2_ERR_PIN_BLOCKED, (e, c)) else (Inr (), (e, c)))"
    by (simp add: check_retries_left_def sbind_run retries)
  have token: "\<exists>err. process_get_pin_token P params now (e, c) = (Inl err, (e, c))" for params
    using locked
    by (cases "n = 0")
       (auto simp: process_get_pin_token_def sbind_run left get_shared_secret_def verify_pin_hash_enc_def pin
          split: sum.split)
  have change: "\<exists>err. process_change_pin P params (e, c) = (Inl err, (e, c))"
    using locked
    by (cases "n = 0")
       (auto simp: process_change_pin_def sbind_run left get_shared_secret_def verify_pin_hash_enc_def pin
          split: sum.split)
  have set: "\<exists>err. process_set_pin P params (e, c) = (Inl err, (e, c))"
    by (auto simp: process_set_pin_def sbind_run pin split: sum.split)
  have perms: "\<exists>err. process_get_token_with_permissions P params now (e, c) = (Inl err, (e, c))"
    using token [of "params\<lparr>cpp_permissions := None, cpp_permissions_rp_id := None\<rparr>"]
    by (auto simp: process_get_token_with_permissions_def sbind_run Let_def split: sum.split)
  show ?thesis
    using token [of params] change set perms
    by (auto simp: process_client_pin_def sbind_run process_get_pin_retries_def retries
        process_get_key_agreement_def empty_pin_response_def split: client_pin_subcommand.split)
qed

section \<open>Tokens\<close>

lemma verify_pin_hash_enc_InrD:
  assumes inv: "env_inv P view e" and bits: "11 \<le> usize_bits P" and retries: "pin_retries P e = (Inr n, e)"
    and run: "verify_pin_hash_enc P pr s ct (e, c) = (Inr (), (e', c'))"
  shows "\<exists>h. pin_hash P e = (Inr (Some h), e) \<and> consecutive_pin_mismatches c < 3 \<and>
    ss_decrypt (crypto_of P) s ct = Inr h \<and> env_inv P view e' \<and>
    c' = c\<lparr>consecutive_pin_mismatches := 0\<rparr> \<and> pin_retries P e' = (Inr (max_pin_retries (custom P)), e')"
proof -
  obtain stored where stored: "pin_hash P e = (Inr stored, e)"
    using run by (auto simp: verify_pin_hash_enc_def sbind_run pin_hash_ok [OF inv] split: sum.splits)
  show ?thesis
    using verify_pin_hash_enc_ok [OF inv bits stored retries, of pr s ct c] stored run
    by (auto simp: Let_def not_le split: option.splits sum.splits if_splits)
qed

lemma reset_tokens_run:
  "reset_tokens P (e, c) = (Inr (), (e\<lparr>draws := Suc (Suc (draws e))\<rparr>,
     c\<lparr>protocol_v1 := (protocol_v1 c)\<lparr>pin_uv_auth_token := random_u8x32 (crypto_of P) (draws e)\<rparr>,
       protocol_v2 := (protocol_v2 c)\<lparr>pin_uv_auth_token := random_u8x32 (crypto_of P) (Suc (draws e))\<rparr>\<rparr>))"
  by (simp add: reset_tokens_def sbind_run with_pin_protocol_def reset_pin_uv_auth_token_def
      gen_uniform_u8x32_def get_pin_protocol_def Let_def)

definition fresh_token :: "crypto \<Rightarrow> bytes \<Rightarrow> bool" where
  "fresh_token C t \<longleftrightarrow> (\<exists>n. t = random_u8x32 C n)"

lemma process_get_pin_token_InrD:
  assumes inv: "env_inv P view e" and bits: "11 \<le> usize_bits P" and C: "crypto_ok (crypto_of P)"
    and run: "process_get_pin_token P params now (e, c) = (Inr response, (e', c'))"
  shows "\<exists>key ct s h t. cpp_key_agreement params = Some key \<and> cpp_pin_hash_enc params = Some ct \<and>
    decapsulate (crypto_of P) (get_pin_protocol (cpp_protocol params) c) key (cpp_protocol params) = Inr s \<and>
    pin_hash P e = (Inr (Some h), e) \<and> ss_decrypt (crypto_of P) s ct = Inr h \<and>
    consecutive_pin_mismatches c < 3 \<and> consecutive_pin_mismatches c' = 0 \<and>
    response = empty_pin_response\<lparr>cpr_pin_uv_auth_token := Some t\<rparr> \<and>
    ss_decrypt (crypto_of P) s t = Inr (pin_uv_auth_token (get_pin_protocol (cpp_protocol params) c')) \<and>
    fresh_token (crypto_of P) (pin_uv_auth_token (get_pin_protocol (cpp_protocol params) c')) \<and>
    token_state_of c' = set_default_permissions (begin_using_token now (token_state_of c))"
proof -
  let ?pr = "cpp_protocol params" and ?C = "crypto_of P"
  obtain key ct where params: "cpp_key_agreement params = Some key" "cpp_pin_hash_enc params = Some ct"
    using run by (auto simp: process_get_pin_token_def sbind_run ok_or_missing_def ok_or_def split: option.splits)
  obtain n where n: "pin_retries P e = (Inr n, e)" "n \<noteq> 0"
    using run
    by (auto simp: process_get_pin_token_def sbind_run params ok_or_missing_def check_retries_left_def
        pin_retries_ok [OF inv] split: option.splits if_splits)
  obtain s where s: "decapsulate ?C (get_pin_protocol ?pr c) key ?pr = Inr s"
    using run by (auto simp: process_get_pin_token_def sbind_run params ok_or_missing_def check_retries_left_def
        n get_shared_secret_def split: if_splits sum.splits)
  obtain e1 c1 where v: "verify_pin_hash_enc P ?pr s ct (e, c) = (Inr (), (e1, c1))"
    using run
    by (cases "verify_pin_hash_enc P ?pr s ct (e, c)")
       (auto simp: process_get_pin_token_def sbind_run params ok_or_missing_def check_retries_left_def
        n get_shared_secret_def s split: if_splits sum.splits)
  obtain h where h: "pin_hash P e = (Inr (Some h), e)" "consecutive_pin_mismatches c < 3"
    "ss_decrypt ?C s ct = Inr h" "env_inv P view e1" "c1 = c\<lparr>consecutive_pin_mismatches := 0\<rparr>"
    using verify_pin_hash_enc_InrD [OF inv bits n(1) v] by blast
  have "\<exists>b. has_force_pin_change P e1 = (b, e1)"
    by (cases "content view (store_of e1) force_pin_change_key")
       (simp_all add: has_force_pin_change_def flag_entry_ok [OF h(4)])
  then obtain b where force: "has_force_pin_change P e1 = (b, e1)" by blast
  let ?c2 = "c1\<lparr>protocol_v1 := (protocol_v1 c1)\<lparr>pin_uv_auth_token := random_u8x32 ?C (draws e1)\<rparr>,
       protocol_v2 := (protocol_v2 c1)\<lparr>pin_uv_auth_token := random_u8x32 ?C (Suc (draws e1))\<rparr>,
       token_state_of := set_default_permissions (begin_using_token now (token_state_of c1))\<rparr>"
  let ?token = "pin_uv_auth_token (get_pin_protocol ?pr ?c2)"
  have len: "length ?token mod 16 = 0" and fresh: "fresh_token ?C ?token"
    using crypto_okD(3) [OF C] by (auto simp: get_pin_protocol_def fresh_token_def split: pin_uv_auth_protocol.split)
  obtain t m where t: "ss_encrypt ?C s ?token (Suc (Suc (draws e1))) = (Inr t, m)" "ss_decrypt ?C s t = Inr ?token"
    using ss.encrypt_blocks [OF C len] by blast
  have "(Inr response, (e', c')) = (Inr (empty_pin_response\<lparr>cpr_pin_uv_auth_token := Some t\<rparr>), (e1\<lparr>draws := m\<rparr>, ?c2))"
    using run t(1)
    by (auto simp: process_get_pin_token_def sbind_run params ok_or_missing_def check_retries_left_def
        n get_shared_secret_def s v force reset_tokens_run encrypt_with_def split: if_splits sum.splits)
  then have resp: "response = empty_pin_response\<lparr>cpr_pin_uv_auth_token := Some t\<rparr>" and c': "?c2 = c'" by simp_all
  have "consecutive_pin_mismatches ?c2 = 0"
    "token_state_of ?c2 = set_default_permissions (begin_using_token now (token_state_of c))"
    by (simp_all add: h(5))
  then have "consecutive_pin_mismatches c' = 0"
    "token_state_of c' = set_default_permissions (begin_using_token now (token_state_of c))"
    unfolding c' .
  then show ?thesis
    using params s h(1-3) t(2) fresh resp unfolding c' by blast
qed

text \<open>The converse: the right hash gets a token.\<close>

lemma process_get_pin_token_succeeds:
  assumes inv: "env_inv P view e" and bits: "11 \<le> usize_bits P" and C: "crypto_ok (crypto_of P)"
    and pin: "pin_hash P e = (Inr (Some h), e)" and retries: "pin_retries P e = (Inr n, e)" "n \<noteq> 0"
    and mism: "consecutive_pin_mismatches c < 3"
    and force: "content view (store_of e) force_pin_change_key = None"
    and params: "cpp_key_agreement params = Some key" "cpp_pin_hash_enc params = Some ct"
      "cpp_permissions params = None" "cpp_permissions_rp_id params = None"
    and s: "decapsulate (crypto_of P) (get_pin_protocol (cpp_protocol params) c) key (cpp_protocol params) = Inr s"
    and dec: "ss_decrypt (crypto_of P) s ct = Inr h"
  shows "\<exists>t e' c'. process_get_pin_token P params now (e, c) =
    (Inr (empty_pin_response\<lparr>cpr_pin_uv_auth_token := Some t\<rparr>), (e', c'))"
proof -
  let ?pr = "cpp_protocol params" and ?C = "crypto_of P"
  obtain e1 where e1: "decr_pin_retries P e = (Inr (), e1)" "env_inv P view e1"
    "pin_retries P e1 = (Inr (saturating_pred n), e1)"
    "\<forall>k. k \<noteq> pin_retries_key \<longrightarrow> content view (store_of e1) k = content view (store_of e) k"
    using decr_pin_retries_ok [OF inv retries(1) bits] by blast
  obtain e2 where e2: "reset_pin_retries P e1 = (Inr (), e2)" "env_inv P view e2"
    "\<forall>k. k \<noteq> pin_retries_key \<longrightarrow> content view (store_of e2) k = content view (store_of e1) k"
    using reset_pin_retries_ok [OF e1(2) bits] by blast
  let ?c1 = "c\<lparr>consecutive_pin_mismatches := 0\<rparr>"
  have v: "verify_pin_hash_enc P ?pr s ct (e, c) = (Inr (), (e2, ?c1))"
    using mism by (simp add: verify_pin_hash_enc_def sbind_run pin e1(1) dec e2(1) flip: not_le)
  have "force_pin_change_key \<noteq> pin_retries_key" by (simp add: storage_keys)
  then have f: "has_force_pin_change P e2 = (Inr False, e2)"
    using e1(4) e2(3) force by (simp add: has_force_pin_change_def flag_entry_ok [OF e2(2)])
  let ?c2 = "?c1\<lparr>protocol_v1 := (protocol_v1 c)\<lparr>pin_uv_auth_token := random_u8x32 ?C (draws e2)\<rparr>,
       protocol_v2 := (protocol_v2 c)\<lparr>pin_uv_auth_token := random_u8x32 ?C (Suc (draws e2))\<rparr>,
       token_state_of := set_default_permissions (begin_using_token now (token_state_of c))\<rparr>"
  have len: "length (pin_uv_auth_token (get_pin_protocol ?pr ?c2)) mod 16 = 0"
    using crypto_okD(3) [OF C] by (simp add: get_pin_protocol_def split: pin_uv_auth_protocol.split)
  obtain t m where "ss_encrypt ?C s (pin_uv_auth_token (get_pin_protocol ?pr ?c2)) (Suc (Suc (draws e2))) = (Inr t, m)"
    using ss.encrypt_blocks [OF C len] by blast
  then have "process_get_pin_token P params now (e, c) =
      (Inr (empty_pin_response\<lparr>cpr_pin_uv_auth_token := Some t\<rparr>), (e2\<lparr>draws := m\<rparr>, ?c2))"
    using retries(2)
    by (simp add: process_get_pin_token_def sbind_run params ok_or_missing_def check_retries_left_def retries(1)
        get_shared_secret_def s v f reset_tokens_run encrypt_with_def)
  then show ?thesis by blast
qed

text \<open>An environment with a PIN, whose hash is 16 times 7, and the state after power-up.\<close>

lemma toy_pin_env:
  "\<exists>e. env_inv toy_platform map_of e \<and> pin_hash toy_platform e = (Inr (Some (replicate 16 7)), e) \<and>
     pin_retries toy_platform e = (Inr 8, e) \<and>
     content map_of (store_of e) force_pin_change_key = None"
proof -
  have inv: "env_inv toy_platform map_of (toy_env [])" using toy_env_inv by simp
  obtain e where e: "env_inv toy_platform map_of e" "pin_hash toy_platform e = (Inr (Some (replicate 16 7)), e)"
    "has_force_pin_change toy_platform e = (Inr False, e)"
    "\<forall>k. k \<noteq> pin_properties_key \<and> k \<noteq> force_pin_change_key \<longrightarrow>
       content map_of (store_of e) k = content map_of (store_of (toy_env [])) k"
    using set_pin_ok [OF inv, of "replicate 16 7" 4] by auto
  have "content map_of (store_of e) pin_retries_key = None"
    using e(4) by (simp add: toy_env_content storage_keys)
  then have "pin_retries toy_platform e = (Inr 8, e)"
    by (simp add: pin_retries_ok [OF e(1)] default_customization_def)
  moreover have "content map_of (store_of e) force_pin_change_key = None"
    using e(3) by (simp add: has_force_pin_change_def flag_entry_ok [OF e(1)] split: option.splits if_splits)
  ultimately show ?thesis using e(1,2) by blast
qed

definition toy_pin :: client_pin where
  "toy_pin = fst (new_client_pin toy_crypto 0)"

lemma toy_pin_mismatches [simp]: "consecutive_pin_mismatches toy_pin = 0"
  by (simp add: toy_pin_def new_client_pin_def split_beta Let_def)

definition toy_params :: "client_pin_subcommand \<Rightarrow> bytes \<Rightarrow> client_pin_params" where
  "toy_params sub ct = \<lparr>cpp_protocol = V2, cpp_sub_command = sub,
     cpp_key_agreement = Some (cose_key_of_ecdh (ecdh_public toy_crypto [1])), cpp_pin_uv_auth_param = None,
     cpp_new_pin_enc = None, cpp_pin_hash_enc = Some ct, cpp_permissions = None, cpp_permissions_rp_id = None\<rparr>"

lemma toy_secret:
  "\<exists>s. decapsulate toy_crypto p (cose_key_of_ecdh (ecdh_public toy_crypto [1])) V2 = Inr s"
  by (simp add: decapsulate_def toy_crypto_def ecdh_of_cose_key_def cose_key_of_ecdh_def)

text \<open>C2: a command that returns a token was given, under the shared secret of its key agreement, the
  hash of the PIN, while fewer than three mismatches were counted. The token is fresh, only readable
  with the shared secret, in use for 30 seconds, and has the default permissions or exactly the
  requested ones.\<close>

theorem token_needs_pin:
  assumes inv: "env_inv P view e" and bits: "11 \<le> usize_bits P" and C: "crypto_ok (crypto_of P)"
    and run: "process_client_pin P params now (e, c) = (Inr (Some response), (e', c'))"
    and token: "cpr_pin_uv_auth_token response = Some t"
  shows "\<exists>key ct s h. cpp_key_agreement params = Some key \<and> cpp_pin_hash_enc params = Some ct \<and>
    decapsulate (crypto_of P) (get_pin_protocol (cpp_protocol params) c) key (cpp_protocol params) = Inr s \<and>
    pin_hash P e = (Inr (Some h), e) \<and> ss_decrypt (crypto_of P) s ct = Inr h \<and>
    consecutive_pin_mismatches c < 3 \<and>
    ss_decrypt (crypto_of P) s t = Inr (pin_uv_auth_token (get_pin_protocol (cpp_protocol params) c')) \<and>
    fresh_token (crypto_of P) (pin_uv_auth_token (get_pin_protocol (cpp_protocol params) c')) \<and>
    token_state_of c' =
      \<lparr>permissions_set = (if cpp_sub_command params = GetPinToken then 0x03 else the (cpp_permissions params)),
       permissions_rp_id = (if cpp_sub_command params = GetPinToken then None else cpp_permissions_rp_id params),
       usage_timer = Granted (now + from_millis 30000), user_verified = True, in_use = True\<rparr>"
proof -
  note defs = set_default_permissions_def set_permissions_def set_permissions_rp_id_def begin_using_token_def
    granted_def initial_usage_time_limit_def
  consider (plain) "cpp_sub_command params = GetPinToken"
      "process_get_pin_token P params now (e, c) = (Inr response, (e', c'))"
    | (perms) "cpp_sub_command params = GetPinUvAuthTokenUsingPinWithPermissions"
      "process_get_token_with_permissions P params now (e, c) = (Inr response, (e', c'))"
    using run token
    by (auto simp: process_client_pin_def sbind_Inr_iff process_get_pin_retries_def process_get_key_agreement_def
        empty_pin_response_def split: if_splits client_pin_subcommand.splits)
  then show ?thesis
  proof cases
    case plain
    then show ?thesis
      using process_get_pin_token_InrD [OF inv bits C plain(2)] token by (auto simp: defs)
  next
    case perms
    let ?params = "params\<lparr>cpp_permissions := None, cpp_permissions_rp_id := None\<rparr>"
    obtain p where p: "cpp_permissions params = Some p"
      using perms(2) by (auto simp: process_get_token_with_permissions_def sbind_run ok_or_missing_def ok_or_def
          split: option.splits)
    obtain c1 where c1: "process_get_pin_token P ?params now (e, c) = (Inr response, (e', c1))"
      "c' = c1\<lparr>token_state_of := set_permissions_rp_id (cpp_permissions_rp_id params)
        (set_permissions p (token_state_of c1))\<rparr>"
      using perms(2)
      by (auto simp: process_get_token_with_permissions_def sbind_run ok_or_missing_def p Let_def
          split: if_splits prod.splits sum.splits)
    have same: "get_pin_protocol (cpp_protocol params) c' = get_pin_protocol (cpp_protocol params) c1"
      unfolding c1(2) by (simp add: get_pin_protocol_def split: pin_uv_auth_protocol.split)
    have ts: "token_state_of c' = set_permissions_rp_id (cpp_permissions_rp_id params) (set_permissions p (token_state_of c1))"
      unfolding c1(2) by simp
    show ?thesis
      using process_get_pin_token_InrD [OF inv bits C c1(1)] token perms(1) p
      unfolding same ts by (auto simp: defs)
  qed
qed

lemma token_needs_pin_witness:
  "\<exists>e c params response e' c' t s.
     process_client_pin toy_platform params 5 (e, c) = (Inr (Some response), (e', c')) \<and>
     cpr_pin_uv_auth_token response = Some t \<and>
     ss_decrypt toy_crypto s t = Inr (pin_uv_auth_token (get_pin_protocol V2 c')) \<and>
     permissions_set (token_state_of c') = 0x03"
proof -
  obtain e where e: "env_inv toy_platform map_of e"
    "pin_hash toy_platform e = (Inr (Some (replicate 16 7)), e)" "pin_retries toy_platform e = (Inr 8, e)"
    "content map_of (store_of e) force_pin_change_key = None"
    using toy_pin_env by blast
  obtain s where s: "decapsulate toy_crypto (get_pin_protocol V2 toy_pin)
      (cose_key_of_ecdh (ecdh_public toy_crypto [1])) V2 = Inr s"
    using toy_secret by blast
  obtain ct where ct: "ss_decrypt toy_crypto s ct = Inr (replicate 16 7)"
    using ss.encrypt_blocks [OF toy_crypto_ok, of "replicate 16 7" s] by auto
  let ?params = "toy_params GetPinToken ct"
  have params: "cpp_key_agreement ?params = Some (cose_key_of_ecdh (ecdh_public toy_crypto [1]))"
    "cpp_pin_hash_enc ?params = Some ct" "cpp_permissions ?params = None" "cpp_permissions_rp_id ?params = None"
    "cpp_protocol ?params = V2" "cpp_sub_command ?params = GetPinToken"
    by (simp_all add: toy_params_def)
  have C: "crypto_ok (crypto_of toy_platform)" using toy_crypto_ok by simp
  obtain t e' c' where "process_get_pin_token toy_platform ?params 5 (e, toy_pin) =
      (Inr (empty_pin_response\<lparr>cpr_pin_uv_auth_token := Some t\<rparr>), (e', c'))"
    using process_get_pin_token_succeeds [OF e(1) _ C e(2,3) _ _ e(4) params(1-4), of toy_pin s 5] s ct params(5)
    by auto
  then have run: "process_client_pin toy_platform ?params 5 (e, toy_pin) =
      (Inr (Some (empty_pin_response\<lparr>cpr_pin_uv_auth_token := Some t\<rparr>)), (e', c'))"
    by (simp add: process_client_pin_def params(5,6) sbind_run)
  from token_needs_pin [OF e(1) _ C run] show ?thesis
    using run params(5,6) by fastforce
qed

lemma pin_lockout_witness:
  "\<exists>e r. pin_hash toy_platform e = (Inr (Some (replicate 16 7)), e) \<and>
     process_client_pin toy_platform (toy_params ChangePin []) 5
       (e, toy_pin\<lparr>consecutive_pin_mismatches := 3\<rparr>) =
     (r, (e, toy_pin\<lparr>consecutive_pin_mismatches := 3\<rparr>))"
proof -
  obtain e where e: "env_inv toy_platform map_of e"
    "pin_hash toy_platform e = (Inr (Some (replicate 16 7)), e)" "pin_retries toy_platform e = (Inr 8, e)"
    using toy_pin_env by blast
  from pin_lockout [OF e, of "toy_pin\<lparr>consecutive_pin_mismatches := 3\<rparr>" "toy_params ChangePin []" 5] e(2)
  show ?thesis by auto
qed

lemma word_3_1: "\<not> (3 :: u8) \<le> 1" "(0 :: u8) < 3"
  by (simp_all add: word_le_nat_alt word_less_nat_alt)

lemma verify_pin_hash_enc_spec_witness:
  "\<exists>e s ct e' c'. pin_hash toy_platform e = (Inr (Some (replicate 16 7)), e) \<and>
     verify_pin_hash_enc toy_platform V2 s ct (e, toy_pin) = (Inl CTAP2_ERR_PIN_INVALID, (e', c')) \<and>
     pin_retries toy_platform e' = (Inr 7, e') \<and> consecutive_pin_mismatches c' = 1"
proof -
  obtain e where e: "env_inv toy_platform map_of e"
    "pin_hash toy_platform e = (Inr (Some (replicate 16 7)), e)" "pin_retries toy_platform e = (Inr 8, e)"
    using toy_pin_env by blast
  obtain s ct where ct: "ss_decrypt toy_crypto s ct = Inr (replicate 16 9)"
    using ss.encrypt_blocks [OF toy_crypto_ok, of "replicate 16 9" _ 0] by fastforce
  have ne: "replicate 16 (9 :: u8) \<noteq> replicate 16 7" by simp
  obtain e' where e': "verify_pin_hash_enc toy_platform V2 s ct (e, toy_pin) = (Inl CTAP2_ERR_PIN_INVALID,
      (e', (regenerated toy_crypto V2 (draws e) toy_pin)\<lparr>consecutive_pin_mismatches := 1\<rparr>))"
    "pin_retries toy_platform e' = (Inr 7, e')"
    using verify_pin_hash_enc_spec [OF e(1) _ e(2,3), of V2 s ct toy_pin] ct ne word_3_1
    by (auto simp: saturating_pred_def Let_def)
  show ?thesis
    by (intro exI conjI, rule e(2), rule e'(1), rule e'(2)) simp
qed

end
