(* ===== verification/Commands.thy ===== *)
theory Commands
  imports Client_Pin Data_Props
begin

text \<open>
  The CTAP2 commands of \<open>src/ctap/command.rs\<close> and how a request is deserialized into one. Lengths
  and offsets are cast to \<open>usize\<close>, whose width \<open>ub\<close> is a parameter.
\<close>

section \<open>Parameters\<close>

definition array_of :: "(cvalue \<Rightarrow> status + 'a) \<Rightarrow> cvalue \<Rightarrow> status + 'a list" where
  "array_of f v = rbind (extract_array v) (collect_results f)"

record make_credential_params =
  mcp_client_data_hash :: bytes
  mcp_rp :: rp_entity
  mcp_user :: user_entity
  mcp_pub_key_cred_params :: "credential_parameter list"
  mcp_exclude_list :: "credential_descriptor list option"
  mcp_extensions :: make_credential_extensions
  mcp_options :: make_credential_options
  mcp_pin_uv_auth_param :: "bytes option"
  mcp_pin_uv_auth_protocol :: "pin_uv_auth_protocol option"
  mcp_enterprise_attestation :: "u64 option"

definition default_make_credential_extensions :: make_credential_extensions where
  "default_make_credential_extensions =
     \<lparr>mce_hmac_secret = False, mce_cred_protect = None, mce_min_pin_length = False, mce_cred_blob = None,
      mce_large_blob_key = None\<rparr>"

definition default_make_credential_options :: make_credential_options where
  "default_make_credential_options = \<lparr>mco_rk = False, mco_uv = False\<rparr>"

definition or_default :: "'a \<Rightarrow> 'a option \<Rightarrow> 'a" where
  "or_default d x = (case x of None \<Rightarrow> d | Some y \<Rightarrow> y)"

definition make_credential_params_of_cbor :: "cvalue \<Rightarrow> status + make_credential_params" where
  "make_credential_params_of_cbor v =
     rbind (extract_map v) (\<lambda>m.
       let fs = destructure (map Unsigned [1, 2, 3, 4, 5, 6, 7, 8, 9, 10]) m in
       rbind (rbind (ok_or_missing (fs ! 0)) extract_byte_string) (\<lambda>hash.
       rbind (rbind (ok_or_missing (fs ! 1)) rp_entity_of_cbor) (\<lambda>rp.
       rbind (rbind (ok_or_missing (fs ! 2)) user_entity_of_cbor) (\<lambda>user.
       rbind (rbind (ok_or_missing (fs ! 3)) (array_of credential_parameter_of_cbor)) (\<lambda>params.
       rbind (optional (array_of credential_descriptor_of_cbor) (fs ! 4)) (\<lambda>exclude_list.
       rbind (optional make_credential_extensions_of_cbor (fs ! 5)) (\<lambda>extensions.
       rbind (optional make_credential_options_of_cbor (fs ! 6)) (\<lambda>options.
       rbind (optional extract_byte_string (fs ! 7)) (\<lambda>auth_param.
       rbind (optional protocol_of_cbor (fs ! 8)) (\<lambda>protocol.
       rbind (optional extract_unsigned (fs ! 9)) (\<lambda>enterprise.
         Inr \<lparr>mcp_client_data_hash = hash, mcp_rp = rp, mcp_user = user, mcp_pub_key_cred_params = params,
              mcp_exclude_list = exclude_list,
              mcp_extensions = or_default default_make_credential_extensions extensions,
              mcp_options = or_default default_make_credential_options options,
              mcp_pin_uv_auth_param = auth_param, mcp_pin_uv_auth_protocol = protocol,
              mcp_enterprise_attestation = enterprise\<rparr>)))))))))))"

record get_assertion_params =
  gap_rp_id :: rust_string
  gap_client_data_hash :: bytes
  gap_allow_list :: "credential_descriptor list option"
  gap_extensions :: get_assertion_extensions
  gap_options :: get_assertion_options
  gap_pin_uv_auth_param :: "bytes option"
  gap_pin_uv_auth_protocol :: "pin_uv_auth_protocol option"

definition default_get_assertion_extensions :: get_assertion_extensions where
  "default_get_assertion_extensions =
     \<lparr>gae_hmac_secret = None, gae_cred_blob = False, gae_large_blob_key = None\<rparr>"

definition get_assertion_params_of_cbor :: "cvalue \<Rightarrow> status + get_assertion_params" where
  "get_assertion_params_of_cbor v =
     rbind (extract_map v) (\<lambda>m.
       let fs = destructure (map Unsigned [1, 2, 3, 4, 5, 6, 7]) m in
       rbind (rbind (ok_or_missing (fs ! 0)) extract_text_string) (\<lambda>rp.
       rbind (rbind (ok_or_missing (fs ! 1)) extract_byte_string) (\<lambda>hash.
       rbind (optional (array_of credential_descriptor_of_cbor) (fs ! 2)) (\<lambda>allow_list.
       rbind (optional get_assertion_extensions_of_cbor (fs ! 3)) (\<lambda>extensions.
       rbind (optional get_assertion_options_of_cbor (fs ! 4)) (\<lambda>options.
       rbind (optional extract_byte_string (fs ! 5)) (\<lambda>auth_param.
       rbind (optional protocol_of_cbor (fs ! 6)) (\<lambda>protocol.
         Inr \<lparr>gap_rp_id = rp, gap_client_data_hash = hash, gap_allow_list = allow_list,
              gap_extensions = or_default default_get_assertion_extensions extensions,
              gap_options = or_default default_get_assertion_options options,
              gap_pin_uv_auth_param = auth_param, gap_pin_uv_auth_protocol = protocol\<rparr>))))))))"

record large_blobs_params =
  lbp_get :: "nat option"
  lbp_set :: "bytes option"
  lbp_offset :: nat
  lbp_length :: "nat option"
  lbp_pin_uv_auth_param :: "bytes option"
  lbp_pin_uv_auth_protocol :: "pin_uv_auth_protocol option"

definition min_large_blob_len :: nat where
  "min_large_blob_len = 17"

text \<open>The combinations of parameters that are refused.\<close>

definition large_blobs_params_valid :: "large_blobs_params \<Rightarrow> bool" where
  "large_blobs_params_valid p \<longleftrightarrow>
     \<not> (lbp_get p = None \<and> lbp_set p = None) \<and>
     \<not> (lbp_get p \<noteq> None \<and> lbp_set p \<noteq> None) \<and>
     \<not> (lbp_get p \<noteq> None \<and>
        (lbp_length p \<noteq> None \<or> lbp_pin_uv_auth_param p \<noteq> None \<or> lbp_pin_uv_auth_protocol p \<noteq> None)) \<and>
     \<not> (lbp_set p \<noteq> None \<and> lbp_offset p = 0 \<and>
        (case lbp_length p of None \<Rightarrow> True | Some len \<Rightarrow> len < min_large_blob_len)) \<and>
     \<not> (lbp_set p \<noteq> None \<and> lbp_offset p \<noteq> 0 \<and> lbp_length p \<noteq> None)"

definition large_blobs_params_of_cbor :: "nat \<Rightarrow> cvalue \<Rightarrow> status + large_blobs_params" where
  "large_blobs_params_of_cbor ub v =
     rbind (extract_map v) (\<lambda>m.
       let fs = destructure (map Unsigned [1, 2, 3, 4, 5, 6]) m in
       rbind (optional extract_unsigned (fs ! 0)) (\<lambda>get.
       rbind (optional extract_byte_string (fs ! 1)) (\<lambda>set.
       rbind (rbind (ok_or (fs ! 2) CTAP1_ERR_INVALID_PARAMETER) extract_unsigned) (\<lambda>offset.
       rbind (optional extract_unsigned (fs ! 3)) (\<lambda>length.
       rbind (optional extract_byte_string (fs ! 4)) (\<lambda>auth_param.
       rbind (optional protocol_of_cbor (fs ! 5)) (\<lambda>protocol.
         let p = \<lparr>lbp_get = map_option (usize_of_u64 ub) get, lbp_set = set,
                  lbp_offset = usize_of_u64 ub offset, lbp_length = map_option (usize_of_u64 ub) length,
                  lbp_pin_uv_auth_param = auth_param, lbp_pin_uv_auth_protocol = protocol\<rparr>
         in if large_blobs_params_valid p then Inr p else Inl CTAP1_ERR_INVALID_PARAMETER)))))))"

record config_params =
  cfp_sub_command :: config_subcommand
  cfp_sub_command_params :: "set_min_pin_length_params option"
  cfp_pin_uv_auth_param :: "bytes option"
  cfp_pin_uv_auth_protocol :: "pin_uv_auth_protocol option"

definition config_params_of_cbor :: "cvalue \<Rightarrow> status + config_params" where
  "config_params_of_cbor v =
     rbind (extract_map v) (\<lambda>m.
       let fs = destructure (map Unsigned [1, 2, 3, 4]) m in
       rbind (rbind (ok_or_missing (fs ! 0)) config_subcommand_of_cbor) (\<lambda>sub_command.
       rbind (case sub_command of
                SetMinPinLength \<Rightarrow>
                  rbind (rbind (ok_or_missing (fs ! 1)) set_min_pin_length_params_of_cbor) (\<lambda>p. Inr (Some p))
              | _ \<Rightarrow> Inr None) (\<lambda>params.
       rbind (optional extract_byte_string (fs ! 2)) (\<lambda>auth_param.
       rbind (optional protocol_of_cbor (fs ! 3)) (\<lambda>protocol.
         Inr \<lparr>cfp_sub_command = sub_command, cfp_sub_command_params = params,
              cfp_pin_uv_auth_param = auth_param, cfp_pin_uv_auth_protocol = protocol\<rparr>)))))"

record attestation_material =
  atm_certificate :: bytes
  atm_private_key :: bytes

definition attestation_material_of_cbor :: "cvalue \<Rightarrow> status + attestation_material" where
  "attestation_material_of_cbor v =
     rbind (extract_map v) (\<lambda>m.
       let fs = destructure (map Unsigned [1, 2]) m in
       rbind (rbind (ok_or_missing (fs ! 0)) extract_byte_string) (\<lambda>certificate.
       rbind (rbind (ok_or_missing (fs ! 1)) extract_byte_string) (\<lambda>private_key.
         if length private_key \<noteq> 32 then Inl CTAP1_ERR_INVALID_PARAMETER
         else Inr \<lparr>atm_certificate = certificate, atm_private_key = private_key\<rparr>)))"

record management_params =
  mgp_sub_command :: credential_management_subcommand
  mgp_sub_command_params :: "credential_management_params option"
  mgp_pin_uv_auth_protocol :: "pin_uv_auth_protocol option"
  mgp_pin_uv_auth_param :: "bytes option"

definition management_params_of_cbor :: "cvalue \<Rightarrow> status + management_params" where
  "management_params_of_cbor v =
     rbind (extract_map v) (\<lambda>m.
       let fs = destructure (map Unsigned [1, 2, 3, 4]) m in
       rbind (rbind (ok_or_missing (fs ! 0)) credential_management_subcommand_of_cbor) (\<lambda>sub_command.
       rbind (optional credential_management_params_of_cbor (fs ! 1)) (\<lambda>params.
       rbind (optional protocol_of_cbor (fs ! 2)) (\<lambda>protocol.
       rbind (optional extract_byte_string (fs ! 3)) (\<lambda>auth_param.
         Inr \<lparr>mgp_sub_command = sub_command, mgp_sub_command_params = params,
              mgp_pin_uv_auth_protocol = protocol, mgp_pin_uv_auth_param = auth_param\<rparr>)))))"

record vendor_configure_params =
  vcp_lockdown :: bool
  vcp_attestation_material :: "attestation_material option"

definition vendor_configure_params_of_cbor :: "cvalue \<Rightarrow> status + vendor_configure_params" where
  "vendor_configure_params_of_cbor v =
     rbind (extract_map v) (\<lambda>m.
       let fs = destructure (map Unsigned [1, 2]) m in
       rbind (case fs ! 0 of None \<Rightarrow> Inr False | Some x \<Rightarrow> extract_bool x) (\<lambda>lockdown.
       rbind (optional attestation_material_of_cbor (fs ! 1)) (\<lambda>material.
         Inr \<lparr>vcp_lockdown = lockdown, vcp_attestation_material = material\<rparr>)))"

record vendor_upgrade_params =
  vup_offset :: nat
  vup_data :: bytes
  vup_hash :: bytes

definition vendor_upgrade_params_of_cbor :: "nat \<Rightarrow> cvalue \<Rightarrow> status + vendor_upgrade_params" where
  "vendor_upgrade_params_of_cbor ub v =
     rbind (extract_map v) (\<lambda>m.
       let fs = destructure (map Unsigned [1, 2, 3]) m in
       rbind (rbind (ok_or_missing (fs ! 0)) extract_unsigned) (\<lambda>offset.
       rbind (rbind (ok_or_missing (fs ! 1)) extract_byte_string) (\<lambda>data.
       rbind (rbind (ok_or_missing (fs ! 2)) extract_byte_string) (\<lambda>hash.
         if length hash \<noteq> 32 then Inl CTAP1_ERR_INVALID_PARAMETER
         else Inr \<lparr>vup_offset = usize_of_u64 ub offset, vup_data = data, vup_hash = hash\<rparr>))))"

section \<open>Commands\<close>

datatype command =
    AuthenticatorMakeCredential make_credential_params
  | AuthenticatorGetAssertion get_assertion_params
  | AuthenticatorGetInfo
  | AuthenticatorClientPin client_pin_params
  | AuthenticatorReset
  | AuthenticatorGetNextAssertion
  | AuthenticatorCredentialManagement management_params
  | AuthenticatorSelection
  | AuthenticatorLargeBlobs large_blobs_params
  | AuthenticatorConfig config_params
  | AuthenticatorVendorConfigure vendor_configure_params
  | AuthenticatorVendorUpgrade vendor_upgrade_params
  | AuthenticatorVendorUpgradeInfo

text \<open>A command with parameters reads them from the bytes after the first.\<close>

definition with_params :: "nat \<Rightarrow> bytes \<Rightarrow> (cvalue \<Rightarrow> status + 'a) \<Rightarrow> ('a \<Rightarrow> command) \<Rightarrow> status + command" where
  "with_params ub bs f mk = rbind (ctap_cbor_read ub bs) (\<lambda>v. rbind (f v) (\<lambda>p. Inr (mk p)))"

definition deserialize_command :: "nat \<Rightarrow> bytes \<Rightarrow> status + command" where
  "deserialize_command ub bs =
     (case bs of
        [] \<Rightarrow> Inl CTAP2_ERR_MISSING_PARAMETER
      | c # r \<Rightarrow>
          if c = 0x01 then with_params ub r make_credential_params_of_cbor AuthenticatorMakeCredential
          else if c = 0x02 then with_params ub r get_assertion_params_of_cbor AuthenticatorGetAssertion
          else if c = 0x04 then Inr AuthenticatorGetInfo
          else if c = 0x06 then with_params ub r client_pin_params_of_cbor AuthenticatorClientPin
          else if c = 0x07 then Inr AuthenticatorReset
          else if c = 0x08 then Inr AuthenticatorGetNextAssertion
          else if c = 0x0A \<or> c = 0x41
          then with_params ub r management_params_of_cbor AuthenticatorCredentialManagement
          else if c = 0x0B then Inr AuthenticatorSelection
          else if c = 0x0C then with_params ub r (large_blobs_params_of_cbor ub) AuthenticatorLargeBlobs
          else if c = 0x0D then with_params ub r config_params_of_cbor AuthenticatorConfig
          else if c = 0x40 then with_params ub r vendor_configure_params_of_cbor AuthenticatorVendorConfigure
          else if c = 0x42 then with_params ub r (vendor_upgrade_params_of_cbor ub) AuthenticatorVendorUpgrade
          else if c = 0x43 then Inr AuthenticatorVendorUpgradeInfo
          else Inl CTAP1_ERR_INVALID_COMMAND)"

end
