(* ===== verification/Responses.thy ===== *)
theory Responses
  imports Commands
begin

text \<open>
  The responses of \<open>src/ctap/response.rs\<close> and their conversion to CBOR.
\<close>

record make_credential_response =
  mcr_fmt :: rust_string
  mcr_auth_data :: bytes
  mcr_att_stmt :: packed_attestation
  mcr_ep_att :: "bool option"
  mcr_large_blob_key :: "bytes option"

definition cbor_of_make_credential_response :: "make_credential_response \<Rightarrow> cvalue" where
  "cbor_of_make_credential_response r =
     Map (map_options (zip (map Unsigned [1, 2, 3, 4, 5])
       [Some (TextString (mcr_fmt r)), Some (ByteString (mcr_auth_data r)),
        Some (cbor_of_packed_attestation (mcr_att_stmt r)), map_option bool_value (mcr_ep_att r),
        map_option ByteString (mcr_large_blob_key r)]))"

record get_assertion_response =
  gar_credential :: "credential_descriptor option"
  gar_auth_data :: bytes
  gar_signature :: bytes
  gar_user :: "user_entity option"
  gar_number_of_credentials :: "u64 option"
  gar_large_blob_key :: "bytes option"

definition cbor_of_get_assertion_response :: "get_assertion_response \<Rightarrow> cvalue" where
  "cbor_of_get_assertion_response r =
     Map (map_options (zip (map Unsigned [1, 2, 3, 4, 5, 7])
       [map_option cbor_of_credential_descriptor (gar_credential r), Some (ByteString (gar_auth_data r)),
        Some (ByteString (gar_signature r)), map_option cbor_of_user_entity (gar_user r),
        map_option Unsigned (gar_number_of_credentials r), map_option ByteString (gar_large_blob_key r)]))"

record get_info_response =
  gir_versions :: "rust_string list"
  gir_extensions :: "rust_string list option"
  gir_aaguid :: bytes
  gir_options :: "(rust_string \<times> bool) list option"
  gir_max_msg_size :: "u64 option"
  gir_pin_protocols :: "u64 list option"
  gir_max_credential_count_in_list :: "u64 option"
  gir_max_credential_id_length :: "u64 option"
  gir_transports :: "transport list option"
  gir_algorithms :: "credential_parameter list option"
  gir_max_serialized_large_blob_array :: "u64 option"
  gir_force_pin_change :: "bool option"
  gir_min_pin_length :: u8
  gir_firmware_version :: "u64 option"
  gir_max_cred_blob_length :: "u64 option"
  gir_max_rp_ids_for_set_min_pin_length :: "u64 option"
  gir_certifications :: "(rust_string \<times> int) list option"
  gir_remaining_discoverable_credentials :: "u64 option"

definition cbor_of_get_info_response :: "get_info_response \<Rightarrow> cvalue" where
  "cbor_of_get_info_response r =
     (let options_cbor = map_option (\<lambda>os. Map (map (\<lambda>(k, b). (TextString k, bool_value b)) os)) (gir_options r);
          certifications_cbor =
            map_option (\<lambda>cs. Map (map (\<lambda>(k, i). (TextString k, from_i64 i)) cs)) (gir_certifications r)
      in Map (map_options (zip
           (map Unsigned [1, 2, 3, 4, 5, 6, 7, 8, 9, 10, 11, 12, 13, 14, 15, 16, 19, 20])
           [Some (Array (map TextString (gir_versions r))),
            map_option (\<lambda>xs. Array (map TextString xs)) (gir_extensions r),
            Some (ByteString (gir_aaguid r)), options_cbor, map_option Unsigned (gir_max_msg_size r),
            map_option (\<lambda>xs. Array (map Unsigned xs)) (gir_pin_protocols r),
            map_option Unsigned (gir_max_credential_count_in_list r),
            map_option Unsigned (gir_max_credential_id_length r),
            map_option (\<lambda>xs. Array (map cbor_of_transport xs)) (gir_transports r),
            map_option (\<lambda>xs. Array (map cbor_of_credential_parameter xs)) (gir_algorithms r),
            map_option Unsigned (gir_max_serialized_large_blob_array r),
            map_option bool_value (gir_force_pin_change r), Some (Unsigned (ucast (gir_min_pin_length r))),
            map_option Unsigned (gir_firmware_version r), map_option Unsigned (gir_max_cred_blob_length r),
            map_option Unsigned (gir_max_rp_ids_for_set_min_pin_length r), certifications_cbor,
            map_option Unsigned (gir_remaining_discoverable_credentials r)])))"

record large_blobs_response =
  lbr_config :: bytes

definition cbor_of_large_blobs_response :: "large_blobs_response \<Rightarrow> cvalue" where
  "cbor_of_large_blobs_response r = Map (map_options [(Unsigned 1, Some (ByteString (lbr_config r)))])"

record management_response =
  mgr_existing_count :: "u64 option"
  mgr_max_remaining_count :: "u64 option"
  mgr_rp :: "rp_entity option"
  mgr_rp_id_hash :: "bytes option"
  mgr_total_rps :: "u64 option"
  mgr_user :: "user_entity option"
  mgr_credential_id :: "credential_descriptor option"
  mgr_public_key :: "cose_key option"
  mgr_total_credentials :: "u64 option"
  mgr_cred_protect :: "credential_protection_policy option"
  mgr_large_blob_key :: "bytes option"

definition default_management_response :: management_response where
  "default_management_response =
     \<lparr>mgr_existing_count = None, mgr_max_remaining_count = None, mgr_rp = None, mgr_rp_id_hash = None,
      mgr_total_rps = None, mgr_user = None, mgr_credential_id = None, mgr_public_key = None,
      mgr_total_credentials = None, mgr_cred_protect = None, mgr_large_blob_key = None\<rparr>"

definition cbor_of_management_response :: "management_response \<Rightarrow> cvalue" where
  "cbor_of_management_response r =
     Map (map_options (zip (map Unsigned [1, 2, 3, 4, 5, 6, 7, 8, 9, 10, 11])
       [map_option Unsigned (mgr_existing_count r), map_option Unsigned (mgr_max_remaining_count r),
        map_option cbor_of_rp_entity (mgr_rp r), map_option ByteString (mgr_rp_id_hash r),
        map_option Unsigned (mgr_total_rps r), map_option cbor_of_user_entity (mgr_user r),
        map_option cbor_of_credential_descriptor (mgr_credential_id r),
        map_option cbor_of_cose_key (mgr_public_key r), map_option Unsigned (mgr_total_credentials r),
        map_option cbor_of_policy (mgr_cred_protect r), map_option ByteString (mgr_large_blob_key r)]))"

record vendor_configure_response =
  vcr_cert_programmed :: bool
  vcr_pkey_programmed :: bool

definition cbor_of_vendor_configure_response :: "vendor_configure_response \<Rightarrow> cvalue" where
  "cbor_of_vendor_configure_response r =
     Map (map_options (zip (map Unsigned [1, 2])
       [Some (bool_value (vcr_cert_programmed r)), Some (bool_value (vcr_pkey_programmed r))]))"

record vendor_upgrade_info_response =
  vur_info :: u32

definition cbor_of_vendor_upgrade_info_response :: "vendor_upgrade_info_response \<Rightarrow> cvalue" where
  "cbor_of_vendor_upgrade_info_response r =
     Map (map_options [(Unsigned 1, Some (Unsigned (ucast (vur_info r))))])"

datatype response_data =
    MakeCredentialData make_credential_response
  | GetAssertionData get_assertion_response
  | GetNextAssertionData get_assertion_response
  | GetInfoData get_info_response
  | ClientPinData "client_pin_response option"
  | ResetData
  | CredentialManagementData "management_response option"
  | SelectionData
  | LargeBlobsData "large_blobs_response option"
  | ConfigData
  | VendorConfigureData vendor_configure_response
  | VendorUpgradeData
  | VendorUpgradeInfoData vendor_upgrade_info_response

fun cbor_of_response :: "response_data \<Rightarrow> cvalue option" where
  "cbor_of_response (MakeCredentialData d) = Some (cbor_of_make_credential_response d)"
| "cbor_of_response (GetAssertionData d) = Some (cbor_of_get_assertion_response d)"
| "cbor_of_response (GetNextAssertionData d) = Some (cbor_of_get_assertion_response d)"
| "cbor_of_response (GetInfoData d) = Some (cbor_of_get_info_response d)"
| "cbor_of_response (ClientPinData d) = map_option cbor_of_client_pin_response d"
| "cbor_of_response ResetData = None"
| "cbor_of_response (CredentialManagementData d) = map_option cbor_of_management_response d"
| "cbor_of_response SelectionData = None"
| "cbor_of_response (LargeBlobsData d) = map_option cbor_of_large_blobs_response d"
| "cbor_of_response ConfigData = None"
| "cbor_of_response (VendorConfigureData d) = Some (cbor_of_vendor_configure_response d)"
| "cbor_of_response VendorUpgradeData = None"
| "cbor_of_response (VendorUpgradeInfoData d) = Some (cbor_of_vendor_upgrade_info_response d)"

end
