(* ===== verification/Effects.thy ===== *)
theory Effects
  imports Client_Pin
begin

text \<open>
  What an operation may do to its state: \<open>within R f\<close> says that every run of \<open>f\<close>, failing runs
  included, relates the state before to the state after by \<open>R\<close>. For a preorder \<open>R\<close> this passes
  through sequencing, which is the locale \<open>effect_bound\<close>; an operation within equality only reads.
\<close>

section \<open>Bounds on effects\<close>

definition within :: "('s \<Rightarrow> 's \<Rightarrow> bool) \<Rightarrow> ('s, 'e, 'a) op \<Rightarrow> bool" where
  "within R f \<longleftrightarrow> (\<forall>s. R s (snd (f s)))"

lemma withinD: "within R f \<Longrightarrow> f s = (r, s') \<Longrightarrow> R s s'"
  by (metis snd_conv within_def)

lemma withinI: "(\<And>s. R s (snd (f s))) \<Longrightarrow> within R f"
  by (simp add: within_def)

lemma within_mono: "within R f \<Longrightarrow> (\<And>s s'. R s s' \<Longrightarrow> S s s') \<Longrightarrow> within S f"
  by (simp add: within_def)

locale effect_bound =
  fixes R :: "'s \<Rightarrow> 's \<Rightarrow> bool"
  assumes refl: "R s s"
    and trans: "R s t \<Longrightarrow> R t u \<Longrightarrow> R s u"
begin

lemma ret: "within R (sret x)" "within R (sfail e)" "within R (slift h)"
  by (simp_all add: within_def refl)

lemma bind:
  assumes "within R f" "\<And>x. within R (g x)"
  shows "within R (sbind f g)"
proof (rule withinI)
  fix s
  obtain r t where f: "f s = (r, t)" by fastforce
  have "R s t" using withinD [OF assms(1) f] .
  moreover have "R t (snd (g x t))" for x using assms(2) [of x] by (simp add: within_def)
  ultimately show "R s (snd (sbind f g s))"
    using f by (cases r) (auto intro: trans)
qed

lemma reader: "within (=) f \<Longrightarrow> within R f"
  by (metis refl withinI within_def)

lemmas intros = ret bind reader

end

interpretation reading: effect_bound "(=)"
  by unfold_locales auto

section \<open>Operations on a part of the state\<close>

text \<open>A handler gets several structures by mutable reference; a pair holds them.\<close>

definition beside :: "('s, 'e, 'a) op \<Rightarrow> ('s \<times> 't, 'e, 'a) op" where
  "beside f = (\<lambda>(s, t). let (r, s) = f s in (r, (s, t)))"

definition on_second :: "('t \<Rightarrow> ('e + 'a) \<times> 't) \<Rightarrow> ('s \<times> 't, 'e, 'a) op" where
  "on_second f = (\<lambda>(s, t). let (r, t) = f t in (r, (s, t)))"

lemma beside_simps [simp]:
  "beside f (s, t) = (fst (f s), (snd (f s), t))"
  "on_second g (s, t) = (fst (g t), (s, snd (g t)))"
  by (simp_all add: beside_def on_second_def split: prod.split)

lemma within_beside: "within R f \<Longrightarrow> within (\<lambda>s s'. R (fst s) (fst s') \<and> snd s' = snd s) (beside f)"
  by (auto simp: within_def)

lemma within_on_second: "within (\<lambda>s s'. fst s' = fst s) (on_second g)"
  by (auto simp: within_def)

section \<open>Operations that only read\<close>

lemma reads_with_store: "within (=) (with_store (slift f))"
  by (simp add: within_def with_store_def)

lemmas reading_rules = reading.ret reading.bind reads_with_store

lemma reads_find_entry: "within (=) (find_entry P k)" "within (=) (find_entry_handle P k)"
  by (simp_all add: find_entry_def find_entry_handle_def reads_with_store)

lemma reads_pin: "within (=) (pin_properties P)" "within (=) (pin_hash P)"
    "within (=) (pin_code_point_length P)" "within (=) (pin_retries P)" "within (=) (min_pin_length P)"
  by (auto simp: pin_properties_def pin_hash_def pin_code_point_length_def pin_retries_def min_pin_length_def
      intro!: reading_rules reads_find_entry split: option.split)

lemma reads_flags: "within (=) (flag_entry P k)" "within (=) (has_force_pin_change P)"
    "within (=) (enterprise_attestation P)" "within (=) (has_always_uv P)"
  by (auto simp: flag_entry_def has_force_pin_change_def enterprise_attestation_def has_always_uv_def
      intro!: reading_rules reads_find_entry split: option.split)

lemma reads_values: "within (=) (aaguid P)" "within (=) (global_signature_counter P)"
    "within (=) (cred_random_secret P b)" "within (=) (get_large_blob_array P i n)"
  by (auto simp: aaguid_def global_signature_counter_def cred_random_secret_def get_large_blob_array_def Let_def
      intro!: reading_rules reads_find_entry split: option.split)

lemma reads_attestation: "within (=) (helper_get P)" "within (=) (attestation_get P i)"
    "within (=) f \<Longrightarrow> within (=) (from_attestation_store f)"
  by (auto simp: within_def helper_get_def attestation_get_def from_attestation_store_def
      split: prod.split) (metis snd_conv)

lemma reads_get_pin: "within (=) (get_pin f)"
  by (simp add: within_def get_pin_def split: prod.split)

lemma within_on_env: "within (=) f \<Longrightarrow> within (=) (on_env f)"
  by (auto simp: within_def on_env_def split: prod.split) (metis snd_conv)

text \<open>The result of a reader determines its run.\<close>

lemma reader_run: "within (=) f \<Longrightarrow> f s = (fst (f s), s)"
  by (metis prod.collapse within_def)

lemma reader_state: "within (=) f \<Longrightarrow> f s = (r, s') \<Longrightarrow> s' = s"
  by (metis withinD)

end
