(* ===== verification/Large_Blobs.thy ===== *)
theory Large_Blobs
  imports Effects Responses
begin

text \<open>
  The authenticatorLargeBlobs command, \<open>src/ctap/large_blobs.rs\<close>: reading a range of the stored
  array, and writing it in a sequence of fragments that are collected in \<open>LargeBlobs\<close>. The check of
  the pinUvAuthToken, which this command shares with the configuration and credential management
  commands, is \<open>check_token\<close>.
\<close>

section \<open>Authorization by a token\<close>

text \<open>The signed data may fail to be built, after the presence of the parameters was checked.\<close>

definition check_token ::
  "'p platform \<Rightarrow> status + bytes \<Rightarrow> pin_permission \<Rightarrow> bytes option \<Rightarrow> pin_uv_auth_protocol option \<Rightarrow>
     ('p, unit) pin_op" where
  "check_token P to_sign permission param protocol = get_pin (\<lambda>c.
     rbind (ok_or param CTAP2_ERR_PUAT_REQUIRED) (\<lambda>param.
     rbind (ok_or protocol CTAP2_ERR_MISSING_PARAMETER) (\<lambda>protocol.
     rbind to_sign (\<lambda>m.
     rbind (cp_verify_pin_uv_auth_token (crypto_of P) m param protocol c) (\<lambda>_.
       cp_has_permission permission c)))))"

text \<open>Who the token lets through.\<close>

definition token_grants ::
  "crypto \<Rightarrow> client_pin \<Rightarrow> bytes \<Rightarrow> pin_permission \<Rightarrow> bytes option \<Rightarrow> pin_uv_auth_protocol option \<Rightarrow> bool" where
  "token_grants C c m permission param protocol \<longleftrightarrow>
     in_use (token_state_of c) \<and> permissions_set (token_state_of c) AND permission_bit permission \<noteq> 0 \<and>
     (\<exists>pr. protocol = Some pr \<and> param = Some (authenticate C (pin_uv_auth_token (get_pin_protocol pr c)) m pr))"

section \<open>State\<close>

record large_blobs =
  lb_buffer :: bytes
  lb_expected_length :: nat
  lb_expected_next_offset :: nat

definition new_large_blobs :: large_blobs where
  "new_large_blobs = \<lparr>lb_buffer = [], lb_expected_length = 0, lb_expected_next_offset = 0\<rparr>"

definition truncated_hash_len :: nat where "truncated_hash_len = 16"

type_synonym ('p, 'a) blob_op = "(('p env \<times> client_pin) \<times> large_blobs, status, 'a) op"

section \<open>Writing\<close>

definition start_blob :: "nat \<Rightarrow> large_blobs_params \<Rightarrow> large_blobs \<Rightarrow> (status + unit) \<times> large_blobs" where
  "start_blob max_size p l =
     (if lbp_offset p \<noteq> 0 then (Inr (), l)
      else case lbp_length p of
             None \<Rightarrow> (Inl CTAP1_ERR_INVALID_PARAMETER, l)
           | Some len \<Rightarrow>
               (let l = l\<lparr>lb_expected_length := len\<rparr>
                in if len > max_size then (Inl CTAP2_ERR_LARGE_BLOB_STORAGE_FULL, l)
                   else (Inr (), l\<lparr>lb_expected_next_offset := 0\<rparr>)))"

definition blob_signed_data :: "crypto \<Rightarrow> nat \<Rightarrow> bytes \<Rightarrow> bytes" where
  "blob_signed_data C offset frag =
     replicate 32 0xFF @ [0x0C, 0x00] @ le_bytes (of_nat offset) @ sha256 C frag"

definition authorize_blob :: "'p platform \<Rightarrow> large_blobs_params \<Rightarrow> bytes \<Rightarrow> ('p, unit) pin_op" where
  "authorize_blob P p frag =
     sbind (on_env (pin_hash P)) (\<lambda>stored.
     sbind (if stored \<noteq> None then sret True else on_env (has_always_uv P)) (\<lambda>needed.
       if needed
       then check_token P (Inr (blob_signed_data (crypto_of P) (lbp_offset p) frag)) LargeBlobWrite
              (lbp_pin_uv_auth_param p) (lbp_pin_uv_auth_protocol p)
       else sret ()))"

definition append_blob :: "nat \<Rightarrow> bytes \<Rightarrow> large_blobs \<Rightarrow> (status + unit) \<times> large_blobs" where
  "append_blob offset frag l =
     (if offset + length frag > lb_expected_length l then (Inl CTAP1_ERR_INVALID_PARAMETER, l)
      else let buffer = (if offset = 0 then [] else lb_buffer l) @ frag
           in (Inr (), l\<lparr>lb_buffer := buffer, lb_expected_next_offset := length buffer\<rparr>))"

definition hash_matches :: "crypto \<Rightarrow> bytes \<Rightarrow> bool" where
  "hash_matches C blob =
     (let i = length blob - truncated_hash_len
      in take truncated_hash_len (sha256 C (take i blob)) = drop i blob)"

text \<open>
  The subtraction in \<open>hash_matches\<close> would underflow for a buffer shorter than the hash; the parameters
  the command is deserialized from and \<open>blob_inv\<close> below exclude that. The buffer is only cleared
  when the commit succeeds or the hash does not match.
\<close>

definition finish_blob :: "'p platform \<Rightarrow> ('p, unit) blob_op" where
  "finish_blob P =
     sbind (on_second (\<lambda>l. (Inr l, l))) (\<lambda>l.
       if lb_expected_next_offset l \<noteq> lb_expected_length l then sret ()
       else sbind (on_second (\<lambda>l. (Inr (), l\<lparr>lb_expected_length := 0, lb_expected_next_offset := 0\<rparr>))) (\<lambda>_.
            if \<not> hash_matches (crypto_of P) (lb_buffer l)
            then on_second (\<lambda>l. (Inl CTAP2_ERR_INTEGRITY_FAILURE, l\<lparr>lb_buffer := []\<rparr>))
            else sbind (beside (on_env (commit_large_blob_array P (lb_buffer l)))) (\<lambda>_.
                 on_second (\<lambda>l. (Inr (), l\<lparr>lb_buffer := []\<rparr>)))))"

definition set_blob :: "'p platform \<Rightarrow> large_blobs_params \<Rightarrow> bytes \<Rightarrow> ('p, unit) blob_op" where
  "set_blob P p frag =
     sbind (on_second (start_blob (max_large_blob_array_size (custom P)) p)) (\<lambda>_.
     sbind (on_second (\<lambda>l. (if lbp_offset p \<noteq> lb_expected_next_offset l
                           then Inl CTAP1_ERR_INVALID_SEQ else Inr (), l))) (\<lambda>_.
     sbind (beside (authorize_blob P p frag)) (\<lambda>_.
     sbind (on_second (append_blob (lbp_offset p) frag)) (\<lambda>_.
       finish_blob P))))"

section \<open>The command\<close>

definition process_large_blobs ::
  "'p platform \<Rightarrow> large_blobs_params \<Rightarrow> ('p, large_blobs_response option) blob_op" where
  "process_large_blobs P p =
     (let max_fragment_size = max_msg_size (custom P) - 64
      in case lbp_get p of
           Some n \<Rightarrow>
             if n > max_fragment_size \<or> lbp_offset p + n \<ge> 2 ^ usize_bits P
             then sfail CTAP1_ERR_INVALID_LENGTH
             else sbind (beside (on_env (get_large_blob_array P (lbp_offset p) n))) (\<lambda>config.
                  sret (Some \<lparr>lbr_config = config\<rparr>))
         | None \<Rightarrow>
             (case lbp_set p of
                None \<Rightarrow> sfail CTAP1_ERR_INVALID_PARAMETER
              | Some frag \<Rightarrow>
                  if length frag > max_fragment_size then sfail CTAP1_ERR_INVALID_LENGTH
                  else sbind (set_blob P p frag) (\<lambda>_. sret None)))"

end
