(* ===== verification/Large_Blob_Props.thy ===== *)
theory Large_Blob_Props
  imports Large_Blobs Effects Storage_Props
begin

text \<open>
  What the authenticatorLargeBlobs command promises: which fragments are let through, what can be
  committed, that a whole upload arrives, and how a refused length is kept.
\<close>

section \<open>Authorization\<close>

lemma check_token_iff:
  assumes "crypto_ok (crypto_of P)"
  shows "check_token P (Inr m) perm param pr (e, c) = (Inr (), s) \<longleftrightarrow>
    s = (e, c) \<and> token_grants (crypto_of P) c m perm param pr"
  by (cases param; cases pr)
     (auto simp: check_token_def get_pin_def token_grants_def cp_verify_pin_uv_auth_token_def
      cp_has_permission_def has_permission_def verify_token_iff [OF assms] rbind_Inr_iff and.commute
      split: if_splits)

lemma reads_check_token: "within (=) (check_token P m perm param pr)"
  by (simp add: check_token_def reads_get_pin)

lemma reads_authorize_blob: "within (=) (authorize_blob P p frag)"
  unfolding authorize_blob_def
  by (intro reading.bind within_on_env reads_pin)
     (auto intro!: reading_rules within_on_env reads_flags reads_check_token split: if_splits)

text \<open>Whether a token is needed to write.\<close>

definition uv_required :: "'p platform \<Rightarrow> 'p env \<Rightarrow> bool" where
  "uv_required P e \<longleftrightarrow> fst (pin_hash P e) \<noteq> Inr None \<or> fst (has_always_uv P e) = Inr True"

lemma authorize_blob_grants:
  assumes "crypto_ok (crypto_of P)" "authorize_blob P p frag (e, c) = (Inr (), s)" "uv_required P e"
  shows "token_grants (crypto_of P) c (blob_signed_data (crypto_of P) (lbp_offset p) frag) LargeBlobWrite
    (lbp_pin_uv_auth_param p) (lbp_pin_uv_auth_protocol p)"
proof -
  have run: "pin_hash P e = (fst (pin_hash P e), e)" "has_always_uv P e = (fst (has_always_uv P e), e)"
    by (rule reader_run, rule reads_pin, rule reader_run, rule reads_flags)
  then show ?thesis
    using assms(2,3) check_token_iff [OF assms(1)]
    by (cases "fst (pin_hash P e)"; cases "fst (has_always_uv P e)")
       (auto simp: authorize_blob_def on_env_def sbind_def uv_required_def split: if_splits prod.splits sum.splits)
qed

lemma authorize_blob_passes:
  assumes "crypto_ok (crypto_of P)" "fst (pin_hash P e) = Inr h" "fst (has_always_uv P e) = Inr u"
    and "token_grants (crypto_of P) c (blob_signed_data (crypto_of P) (lbp_offset p) frag) LargeBlobWrite
      (lbp_pin_uv_auth_param p) (lbp_pin_uv_auth_protocol p)"
  shows "authorize_blob P p frag (e, c) = (Inr (), (e, c))"
proof -
  have "pin_hash P e = (Inr h, e)" "has_always_uv P e = (Inr u, e)"
    using reader_run [OF reads_pin(2), of P e] reader_run [OF reads_flags(4), of P e] assms(2,3) by simp_all
  then show ?thesis
    using check_token_iff [OF assms(1), of _ LargeBlobWrite _ _ e c "(e, c)"] assms(4)
    by (simp add: authorize_blob_def on_env_def sbind_def)
qed

section \<open>The steps of a write\<close>

definition blob_inv :: "large_blobs \<Rightarrow> bool" where
  "blob_inv l \<longleftrightarrow>
     (lb_expected_next_offset l \<noteq> 0 \<longrightarrow> length (lb_buffer l) = lb_expected_next_offset l) \<and>
     (lb_expected_length l \<noteq> 0 \<longrightarrow> min_large_blob_len \<le> lb_expected_length l)"

lemma set_blob_run:
  "set_blob P p frag ((e, c), l) =
     (case start_blob (max_large_blob_array_size (custom P)) p l of
        (Inl x, l1) \<Rightarrow> (Inl x, ((e, c), l1))
      | (Inr _, l1) \<Rightarrow>
          if lbp_offset p \<noteq> lb_expected_next_offset l1 then (Inl CTAP1_ERR_INVALID_SEQ, ((e, c), l1))
          else case authorize_blob P p frag (e, c) of
            (Inl x, _) \<Rightarrow> (Inl x, ((e, c), l1))
          | (Inr _, _) \<Rightarrow>
              (case append_blob (lbp_offset p) frag l1 of
                 (Inl x, l2) \<Rightarrow> (Inl x, ((e, c), l2))
               | (Inr _, l2) \<Rightarrow> finish_blob P ((e, c), l2)))"
  using reader_run [OF reads_authorize_blob, of P p frag "(e, c)"]
  by (cases "authorize_blob P p frag (e, c)") (auto simp: set_blob_def sbind_def split: prod.split sum.split)

lemma finish_blob_run:
  "finish_blob P ((e, c), l) =
     (if lb_expected_next_offset l \<noteq> lb_expected_length l then (Inr (), ((e, c), l))
      else let l' = l\<lparr>lb_expected_length := 0, lb_expected_next_offset := 0\<rparr>
           in if \<not> hash_matches (crypto_of P) (lb_buffer l)
              then (Inl CTAP2_ERR_INTEGRITY_FAILURE, ((e, c), l'\<lparr>lb_buffer := []\<rparr>))
              else case commit_large_blob_array P (lb_buffer l) e of
                     (Inl x, e') \<Rightarrow> (Inl x, ((e', c), l'))
                   | (Inr _, e') \<Rightarrow> (Inr (), ((e', c), l'\<lparr>lb_buffer := []\<rparr>)))"
  by (auto simp: finish_blob_def sbind_def on_env_def Let_def split: prod.split sum.split)

text \<open>A fragment that completes a transfer: either the whole array in the first request, as long as it
  announces, or the fragment the transfer waits for, after exactly the bytes received so far, which
  brings the array to the announced length.\<close>

definition completes :: "large_blobs_params \<Rightarrow> bytes \<Rightarrow> large_blobs \<Rightarrow> bool" where
  "completes p frag l \<longleftrightarrow>
     (if lbp_offset p = 0 then lbp_length p = Some (length frag)
      else lbp_offset p = lb_expected_next_offset l \<and> length (lb_buffer l) = lbp_offset p \<and>
        length (lb_buffer l) + length frag = lb_expected_length l)"

text \<open>The announced length is the one of the last first fragment, or none after the end of a transfer.\<close>

definition announces :: "large_blobs_params \<Rightarrow> large_blobs \<Rightarrow> large_blobs \<Rightarrow> bool" where
  "announces p l l' \<longleftrightarrow> lb_expected_length l' \<in> {0, lb_expected_length l} \<or>
     lbp_offset p = 0 \<and> lbp_length p = Some (lb_expected_length l')"

lemma start_blob_inv:
  assumes "blob_inv l" "large_blobs_params_valid p" "lbp_set p \<noteq> None" "start_blob cap p l = (r, l1)"
  shows "blob_inv l1" and "lbp_offset p = 0 \<Longrightarrow> r = Inr () \<Longrightarrow> lb_expected_length l1 \<noteq> 0"
    and "lb_buffer l1 = lb_buffer l" and "announces p l l1" and "lbp_offset p \<noteq> 0 \<Longrightarrow> l1 = l"
    and "lbp_offset p = 0 \<Longrightarrow> r = Inr () \<Longrightarrow> lbp_length p = Some (lb_expected_length l1)"
  using assms by (auto simp: start_blob_def blob_inv_def announces_def large_blobs_params_valid_def Let_def min_large_blob_len_def
      split: if_splits option.splits)

lemma append_blob_inv:
  assumes "blob_inv l1" "lbp_offset p = lb_expected_next_offset l1" "append_blob (lbp_offset p) frag l1 = (Inr (), l2)"
  shows "blob_inv l2" and "lb_expected_next_offset l2 = length (lb_buffer l2)"
    and "lb_expected_length l2 = lb_expected_length l1"
    and "lb_buffer l2 = (if lbp_offset p = 0 then [] else lb_buffer l1) @ frag"
    and "lbp_offset p + length frag \<le> lb_expected_length l1"
  using assms by (auto simp: append_blob_def blob_inv_def Let_def split: if_splits)

lemma blob_inv_cleared: "blob_inv (l\<lparr>lb_expected_length := 0, lb_expected_next_offset := 0\<rparr>)"
  by (simp add: blob_inv_def)

text \<open>A write only touches the store in \<open>commit_large_blob_array\<close>, at the end of a checked buffer.\<close>

lemma set_blob_commit:
  assumes C: "crypto_ok (crypto_of P)" and valid: "large_blobs_params_valid p" "lbp_set p = Some frag"
    and inv: "blob_inv l" and run: "set_blob P p frag ((e, c), l) = (r, ((e', c'), l'))"
  defines "blob \<equiv> (if lbp_offset p = 0 then [] else lb_buffer l) @ frag"
  shows "blob_inv l' \<and> c' = c \<and> announces p l l' \<and>
    (e' \<noteq> e \<longrightarrow> e' = snd (commit_large_blob_array P blob e) \<and> completes p frag l \<and>
       min_large_blob_len \<le> length blob \<and> hash_matches (crypto_of P) blob \<and>
       (uv_required P e \<longrightarrow> token_grants (crypto_of P) c (blob_signed_data (crypto_of P) (lbp_offset p) frag)
          LargeBlobWrite (lbp_pin_uv_auth_param p) (lbp_pin_uv_auth_protocol p)))"
proof -
  obtain r1 l1 where s: "start_blob (max_large_blob_array_size (custom P)) p l = (r1, l1)" by fastforce
  have l1: "blob_inv l1" "lbp_offset p = 0 \<Longrightarrow> r1 = Inr () \<Longrightarrow> lb_expected_length l1 \<noteq> 0" "lb_buffer l1 = lb_buffer l"
      "announces p l l1" "lbp_offset p \<noteq> 0 \<Longrightarrow> l1 = l"
      "lbp_offset p = 0 \<Longrightarrow> r1 = Inr () \<Longrightarrow> lbp_length p = Some (lb_expected_length l1)"
    using start_blob_inv [OF inv valid(1) _ s] valid(2) by auto
  obtain ra ea where a: "authorize_blob P p frag (e, c) = (ra, ea)"
    by (cases "authorize_blob P p frag (e, c)")
  obtain r2 l2 where b: "append_blob (lbp_offset p) frag l1 = (r2, l2)" by fastforce
  consider (stop) "e' = e \<and> c' = c \<and> l' = l1"
    | (go) "r1 = Inr ()" "lbp_offset p = lb_expected_next_offset l1" "ra = Inr ()" "r2 = Inr ()"
        "finish_blob P ((e, c), l2) = (r, ((e', c'), l'))"
  proof (cases "r1 = Inr () \<and> lbp_offset p = lb_expected_next_offset l1 \<and> ra = Inr () \<and> r2 = Inr ()")
    case True
    then show ?thesis using that(2) run s a b by (simp add: set_blob_run)
  next
    case False
    have "l2 = l1" if "r2 \<noteq> Inr ()"
      using b that by (auto simp: append_blob_def Let_def split: if_splits)
    then show ?thesis
      using False that(1) run s a b by (auto simp: set_blob_run split: sum.splits if_splits)
  qed
  then show ?thesis
  proof cases
    case stop
    then show ?thesis using l1 by simp
  next
    case go
    note l2 = append_blob_inv [OF l1(1) go(2) b [unfolded go(4)]]
    have grants: "uv_required P e \<Longrightarrow> token_grants (crypto_of P) c
        (blob_signed_data (crypto_of P) (lbp_offset p) frag) LargeBlobWrite
        (lbp_pin_uv_auth_param p) (lbp_pin_uv_auth_protocol p)"
      using authorize_blob_grants [OF C] a go(3) by simp
    have buffer: "lb_buffer l2 = blob"
      using l2(4) l1(3) by (simp add: blob_def)
    have done_sure: "min_large_blob_len \<le> length blob \<and> completes p frag l"
      if "lb_expected_next_offset l2 = lb_expected_length l2"
    proof -
      have len: "length blob = lb_expected_length l1" using that l2(2,3) buffer by simp
      moreover have "lb_expected_length l1 \<noteq> 0"
        using l1(2) go(1) l2(5) by (cases "lbp_offset p = 0") auto
      moreover have "completes p frag l"
        using len l1(5,6) go(1,2) inv by (auto simp: completes_def blob_def blob_inv_def)
      ultimately show ?thesis using l1(1) by (simp add: blob_inv_def)
    qed
    then have "announces p l l'"
      using go(5) l1(4) l2(3) by (auto simp: finish_blob_run announces_def Let_def split: if_splits prod.splits sum.splits)
    then show ?thesis
      using go(5) l2(1) grants buffer done_sure
      by (auto simp: finish_blob_run Let_def blob_inv_def split: if_splits prod.splits sum.splits)
  qed
qed

text \<open>C20: whatever the state of the transfer, an authenticatorLargeBlobs request changes the persistent
  data only by committing the collected buffer, and only if its fragment completes the transfer (it is the
  fragment the transfer waits for and brings the array to exactly the announced length, or it is the
  whole array of the announced length), the array is at least 17 bytes long, its
  last 16 bytes are the truncated hash of the rest, and, when a PIN is set or user verification is
  always required, the request is authenticated by the token in use with the large blob permission.
  The announced length only changes to that of a first fragment, or to none. A read changes nothing, and
  no request changes the PIN state.\<close>

theorem large_blob_commit_checked:
  assumes C: "crypto_ok (crypto_of P)" and valid: "large_blobs_params_valid p" and inv: "blob_inv l"
    and run: "process_large_blobs P p ((e, c), l) = (r, ((e', c'), l'))"
  shows "blob_inv l' \<and> c' = c \<and> announces p l l' \<and>
    (e' \<noteq> e \<longrightarrow> (\<exists>frag. lbp_set p = Some frag \<and> completes p frag l \<and>
      (let blob = (if lbp_offset p = 0 then [] else lb_buffer l) @ frag in
       e' = snd (commit_large_blob_array P blob e) \<and>
       min_large_blob_len \<le> length blob \<and> hash_matches (crypto_of P) blob \<and>
       (uv_required P e \<longrightarrow> token_grants (crypto_of P) c (blob_signed_data (crypto_of P) (lbp_offset p) frag)
          LargeBlobWrite (lbp_pin_uv_auth_param p) (lbp_pin_uv_auth_protocol p)))))"
proof (cases "lbp_get p")
  case (Some n)
  have "within (=) (on_env (get_large_blob_array P (lbp_offset p) n) :: ('a, bytes) pin_op)"
    by (intro within_on_env reads_values)
  then have "snd (on_env (get_large_blob_array P (lbp_offset p) n) (e, c)) = (e, c)"
    by (metis within_def)
  then show ?thesis
    using run Some inv
    by (auto simp: process_large_blobs_def announces_def Let_def sbind_def split: if_splits prod.splits sum.splits)
next
  case None
  then obtain frag where frag: "lbp_set p = Some frag"
    using valid by (auto simp: large_blobs_params_valid_def)
  show ?thesis
  proof (cases "max_msg_size (custom P) - 64 < length frag")
    case True
    then show ?thesis using run None frag inv by (simp add: process_large_blobs_def announces_def)
  next
    case False
    then obtain r0 where "set_blob P p frag ((e, c), l) = (r0, ((e', c'), l'))"
      using run None frag
      by (auto simp: process_large_blobs_def sbind_def split: prod.splits sum.splits)
    then show ?thesis
      using set_blob_commit [OF C valid frag inv] frag by (auto simp: Let_def)
  qed
qed

section \<open>Uploading\<close>

text \<open>A client that holds a token: the requests it sends for the fragments of an array.\<close>

definition fragment_params ::
  "crypto \<Rightarrow> bytes \<Rightarrow> pin_uv_auth_protocol \<Rightarrow> nat \<Rightarrow> nat \<Rightarrow> bytes \<Rightarrow> large_blobs_params" where
  "fragment_params C token pr size_of offset frag =
     \<lparr>lbp_get = None, lbp_set = Some frag, lbp_offset = offset,
      lbp_length = (if offset = 0 then Some size_of else None),
      lbp_pin_uv_auth_param = Some (authenticate C token (blob_signed_data C offset frag) pr),
      lbp_pin_uv_auth_protocol = Some pr\<rparr>"

fun upload ::
  "'p platform \<Rightarrow> bytes \<Rightarrow> pin_uv_auth_protocol \<Rightarrow> nat \<Rightarrow> nat \<Rightarrow> bytes list \<Rightarrow> ('p, unit) blob_op" where
  "upload P token pr size_of offset [] = sret ()"
| "upload P token pr size_of offset (f # fs) =
     sbind (process_large_blobs P (fragment_params (crypto_of P) token pr size_of offset f)) (\<lambda>_.
       upload P token pr size_of (offset + length f) fs)"

text \<open>The token of the client is the one in use and allows writing large blobs.\<close>

definition may_write_blobs :: "client_pin \<Rightarrow> bytes \<Rightarrow> pin_uv_auth_protocol \<Rightarrow> bool" where
  "may_write_blobs c token pr \<longleftrightarrow>
     in_use (token_state_of c) \<and> permissions_set (token_state_of c) AND permission_bit LargeBlobWrite \<noteq> 0 \<and>
     token = pin_uv_auth_token (get_pin_protocol pr c)"

definition upload_ready :: "'p platform \<Rightarrow> 'p env \<Rightarrow> client_pin \<Rightarrow> bytes \<Rightarrow> pin_uv_auth_protocol \<Rightarrow> bool" where
  "upload_ready P e c token pr \<longleftrightarrow>
     is_ok (fst (pin_hash P e)) \<and> is_ok (fst (has_always_uv P e)) \<and> may_write_blobs c token pr"

text \<open>A fragment that does not complete the array, and one that does.\<close>

lemma send_fragment:
  assumes C: "crypto_ok (crypto_of P)" and ready: "upload_ready P e c token pr"
    and l: "if offset = 0 then size_of \<le> max_large_blob_array_size (custom P) \<and> sent = []
      else lb_buffer l = sent \<and> lb_expected_next_offset l = length sent \<and> lb_expected_length l = size_of"
    and len: "length sent = offset" "length sent + length f \<le> size_of"
    and size: "length f \<le> max_msg_size (custom P) - 64"
  shows "process_large_blobs P (fragment_params (crypto_of P) token pr size_of offset f) ((e, c), l) =
    (let l' = l\<lparr>lb_buffer := sent @ f, lb_expected_length := size_of,
           lb_expected_next_offset := length (sent @ f)\<rparr>;
         (r, s) = finish_blob P ((e, c), l') in (map_sum id (\<lambda>_. None) r, s))"
proof -
  have "authorize_blob P (fragment_params (crypto_of P) token pr size_of offset f) f (e, c) = (Inr (), (e, c))"
    using ready authorize_blob_passes [OF C]
    by (fastforce simp: token_grants_def fragment_params_def may_write_blobs_def upload_ready_def is_ok_iff)
  moreover have "append_blob offset f (l\<lparr>lb_expected_length := size_of, lb_expected_next_offset := 0\<rparr>) =
      (Inr (), l\<lparr>lb_buffer := sent @ f, lb_expected_length := size_of,
        lb_expected_next_offset := length (sent @ f)\<rparr>)" if "offset = 0"
    using that l len by (cases l) (simp add: append_blob_def Let_def)
  moreover have "append_blob offset f l =
      (Inr (), l\<lparr>lb_buffer := sent @ f, lb_expected_length := size_of,
        lb_expected_next_offset := length (sent @ f)\<rparr>)" if "offset \<noteq> 0"
    using that l len by (cases l) (simp add: append_blob_def Let_def)
  ultimately show ?thesis
    using l len size
    by (cases "offset = 0")
       (auto simp: process_large_blobs_def sbind_def set_blob_run start_blob_def
        fragment_params_def Let_def split: prod.split sum.split)
qed

lemma upload_rest:
  assumes C: "crypto_ok (crypto_of P)" and ready: "upload_ready P e c token pr"
    and "fs \<noteq> []" "\<forall>f\<in>set fs. f \<noteq> [] \<and> length f \<le> max_msg_size (custom P) - 64"
    and "if offset = 0 then size_of \<le> max_large_blob_array_size (custom P) \<and> sent = []
      else lb_buffer l = sent \<and> lb_expected_next_offset l = length sent \<and> lb_expected_length l = size_of"
    and "length sent = offset" "length (sent @ concat fs) = size_of"
    and "hash_matches (crypto_of P) (sent @ concat fs)"
    and "commit_large_blob_array P (sent @ concat fs) e = (Inr (), e')"
  shows "upload P token pr size_of offset fs ((e, c), l) = (Inr (), ((e', c), new_large_blobs))"
  using assms(3-)
proof (induction fs arbitrary: offset sent l)
  case Nil
  then show ?case by simp
next
  case (Cons f fs)
  let ?l = "l\<lparr>lb_buffer := sent @ f, lb_expected_length := size_of, lb_expected_next_offset := length (sent @ f)\<rparr>"
  have step: "process_large_blobs P (fragment_params (crypto_of P) token pr size_of offset f) ((e, c), l) =
      (let (r, s) = finish_blob P ((e, c), ?l) in (map_sum id (\<lambda>_. None) r, s))"
    using send_fragment [OF C ready Cons.prems(3,4), of f] Cons.prems(2,5) by simp
  show ?case
  proof (cases "fs = []")
    case True
    then have "finish_blob P ((e, c), ?l) = (Inr (), ((e', c), new_large_blobs))"
      using Cons.prems(5-7) by (simp add: finish_blob_run new_large_blobs_def)
    then show ?thesis using True step by simp
  next
    case False
    then have "concat fs \<noteq> []" using Cons.prems(2) by (cases fs) auto
    then have "length (sent @ f) \<noteq> size_of" using Cons.prems(5) by auto
    then have "finish_blob P ((e, c), ?l) = (Inr (), ((e, c), ?l))"
      by (simp add: finish_blob_run)
    moreover have "upload P token pr size_of (offset + length f) fs ((e, c), ?l) =
        (Inr (), ((e', c), new_large_blobs))"
      using Cons.prems False by (intro Cons.IH [where sent = "sent @ f"]) auto
    ultimately show ?thesis using step by (simp add: sbind_def)
  qed
qed

text \<open>C21: a client with a token that may write large blobs can upload an array of any size up to the
  limit: sending its fragments in order, whatever the state of an earlier transfer, every request
  succeeds, the transfer state ends as it was at power-up, and reading returns the uploaded array.\<close>

theorem large_blob_upload:
  assumes C: "crypto_ok (crypto_of P)" and ready: "upload_ready P e c token pr"
    and inv: "env_inv P view e" and held: "holds_chunks view 2000 2004 cs (store_of e)"
    and bits: "11 \<le> usize_bits P" and limit: "max_large_blob_array_size (custom P) \<le> 4 * max_value_length"
    and frags: "fs \<noteq> []" "\<forall>f\<in>set fs. f \<noteq> [] \<and> length f \<le> max_msg_size (custom P) - 64"
    and blob: "length (concat fs) \<le> max_large_blob_array_size (custom P)" "hash_matches (crypto_of P) (concat fs)"
    and range: "i + n < 2 ^ usize_bits P"
  shows "\<exists>e'. upload P token pr (length (concat fs)) 0 fs ((e, c), l) = (Inr (), ((e', c), new_large_blobs)) \<and>
    get_large_blob_array P i n e' = (Inr (take n (drop i (concat fs))), e')"
proof -
  have ne: "concat fs \<noteq> []" using frags by (cases fs) auto
  obtain e' where "commit_large_blob_array P (concat fs) e = (Inr (), e')"
    "get_large_blob_array P i n e' = (Inr (take n (drop i (concat fs))), e')"
    using commit_large_blob_ok [OF inv held bits limit range, of "concat fs"] blob
    unfolding if_P [OF blob(1)] if_not_P [OF ne] by blast
  then show ?thesis
    using upload_rest [OF C ready frags, of 0 "length (concat fs)" "[]" l e'] blob by simp
qed

text \<open>Examples with a token in use; the truncated hash of the toy SHA-256 is a padded prefix.\<close>

definition toy_blob_pin :: client_pin where
  "toy_blob_pin = (fst (new_client_pin toy_crypto 0))\<lparr>token_state_of := new_token_state\<lparr>permissions_set := 0x10,
     user_verified := True, in_use := True\<rparr>\<rparr>"

definition toy_blob :: bytes where
  "toy_blob = 7 # 7 # replicate 15 0"

lemma toy_blob_hash: "hash_matches toy_crypto toy_blob"
  by (simp add: hash_matches_def toy_blob_def toy_crypto_def pad32_def truncated_hash_len_def)

lemma toy_reads: "pin_hash toy_platform (toy_env []) = (Inr None, toy_env [])"
    "has_always_uv toy_platform (toy_env []) = (Inr False, toy_env [])"
  using toy_env_inv
  by (simp_all add: pin_hash_def pin_properties_def sbind_def find_entry_ok toy_env_content has_always_uv_def
      flag_entry_def default_customization_def)

lemma toy_upload_ready: "upload_ready toy_platform (toy_env []) toy_blob_pin
    (pin_uv_auth_token (get_pin_protocol V2 toy_blob_pin)) V2"
  by (simp add: upload_ready_def toy_reads may_write_blobs_def toy_blob_pin_def)

lemma large_blob_upload_witness:
  "\<exists>e'. upload toy_platform (pin_uv_auth_token (get_pin_protocol V2 toy_blob_pin)) V2 17 0
      [take 10 toy_blob, drop 10 toy_blob] ((toy_env [], toy_blob_pin), new_large_blobs) =
      (Inr (), ((e', toy_blob_pin), new_large_blobs)) \<and>
    get_large_blob_array toy_platform 1 100 e' = (Inr (drop 1 toy_blob), e')"
proof -
  have held: "holds_chunks map_of 2000 2004 [] (store_of (toy_env []))"
    by (simp add: holds_chunks_def toy_env_content)
  have len: "length toy_blob = 17" "toy_blob \<noteq> []" by (simp_all add: toy_blob_def)
  show ?thesis
    using large_blob_upload [OF _ toy_upload_ready _ held, of "[take 10 toy_blob, drop 10 toy_blob]" 1 100
        new_large_blobs] toy_env_inv toy_blob_hash toy_crypto_ok len
    by (auto simp: default_customization_def max_value_length_def)
qed

lemma large_blob_commit_checked_witness:
  "\<exists>r e' c' l'. process_large_blobs toy_platform
      (fragment_params toy_crypto (pin_uv_auth_token (get_pin_protocol V2 toy_blob_pin)) V2 17 0 toy_blob)
      ((toy_env [], toy_blob_pin), new_large_blobs) = (r, ((e', c'), l')) \<and> blob_inv l' \<and> c' = toy_blob_pin"
proof -
  let ?p = "fragment_params toy_crypto (pin_uv_auth_token (get_pin_protocol V2 toy_blob_pin)) V2 17 0 toy_blob"
  obtain r e' c' l' where run: "process_large_blobs toy_platform ?p ((toy_env [], toy_blob_pin), new_large_blobs) =
      (r, ((e', c'), l'))"
    by (metis prod.exhaust)
  have "large_blobs_params_valid ?p"
    by (simp add: large_blobs_params_valid_def fragment_params_def min_large_blob_len_def)
  moreover have "blob_inv new_large_blobs"
    by (simp add: blob_inv_def new_large_blobs_def)
  ultimately show ?thesis
    using large_blob_commit_checked [OF _ _ _ run] toy_crypto_ok run by auto
qed

section \<open>A refused length is kept\<close>

text \<open>A transfer that announces a longer array than the limit is refused, but the announced length
  replaces the one of the transfer in progress, whose next fragment is then accepted although it may
  exceed the limit.\<close>

theorem large_blob_length_escapes:
  assumes C: "crypto_ok (crypto_of P)" and ready: "upload_ready P e c token pr"
    and l: "0 < lb_expected_next_offset l" "lb_expected_next_offset l = length (lb_buffer l)"
    and size: "length f \<le> max_msg_size (custom P) - 64" "length g \<le> max_msg_size (custom P) - 64"
    and big: "max_large_blob_array_size (custom P) < n" "length (lb_buffer l @ g) < n"
  defines "send off h \<equiv> process_large_blobs P (fragment_params (crypto_of P) token pr n off h)"
  shows "\<exists>l1 l2. send 0 f ((e, c), l) = (Inl CTAP2_ERR_LARGE_BLOB_STORAGE_FULL, ((e, c), l1)) \<and>
    send (length (lb_buffer l)) g ((e, c), l1) = (Inr None, ((e, c), l2)) \<and> lb_buffer l2 = lb_buffer l @ g"
proof -
  let ?l1 = "l\<lparr>lb_expected_length := n\<rparr>"
  have "send 0 f ((e, c), l) = (Inl CTAP2_ERR_LARGE_BLOB_STORAGE_FULL, ((e, c), ?l1))"
    using size(1) big(1) by (simp add: send_def process_large_blobs_def sbind_def set_blob_run start_blob_def
        fragment_params_def Let_def)
  moreover have "send (length (lb_buffer l)) g ((e, c), ?l1) =
      (let l' = ?l1\<lparr>lb_buffer := lb_buffer l @ g, lb_expected_length := n,
           lb_expected_next_offset := length (lb_buffer l @ g)\<rparr>;
         (r, s) = finish_blob P ((e, c), l') in (map_sum id (\<lambda>_. None) r, s))"
    unfolding send_def using l size(2) big(2) by (intro send_fragment [OF C ready]) auto
  ultimately show ?thesis
    using big(2) by (auto simp: finish_blob_run Let_def)
qed

lemma large_blob_length_escapes_witness:
  "\<exists>b g l1 l2. length b = 2000 \<and> process_large_blobs toy_platform
      (fragment_params toy_crypto (pin_uv_auth_token (get_pin_protocol V2 toy_blob_pin)) V2 4000 0 [])
      ((toy_env [], toy_blob_pin), \<lparr>lb_buffer = b, lb_expected_length = 2010, lb_expected_next_offset = 2000\<rparr>) =
      (Inl CTAP2_ERR_LARGE_BLOB_STORAGE_FULL, ((toy_env [], toy_blob_pin), l1)) \<and>
    process_large_blobs toy_platform
      (fragment_params toy_crypto (pin_uv_auth_token (get_pin_protocol V2 toy_blob_pin)) V2 4000 2000 g)
      ((toy_env [], toy_blob_pin), l1) = (Inr None, ((toy_env [], toy_blob_pin), l2)) \<and>
    length (lb_buffer l2) = 3000"
proof -
  obtain b g :: bytes where b: "length b = 2000" "length g = 1000"
    using Ex_list_of_length by metis
  let ?l = "\<lparr>lb_buffer = b, lb_expected_length = 2010, lb_expected_next_offset = 2000\<rparr>"
  have "length (b @ g) = 3000" using b by simp
  then show ?thesis
    using large_blob_length_escapes [OF _ toy_upload_ready, of ?l "[]" g 4000] toy_crypto_ok b
    by (intro exI [of _ b] exI [of _ g]) (force simp: default_customization_def)
qed

end
