(* ===== verification/Credential_Id.thy ===== *)
theory Credential_Id
  imports Credential_Store
begin

text \<open>
  Credential IDs of non-discoverable credentials, \<open>src/ctap/credential_id.rs\<close>: the credential is
  encrypted into its own ID, which the relying party keeps, and recovered from it. The private keys of
  \<open>src/ctap/crypto_wrapper.rs\<close> are here as well, with the curve operations as parameters.
\<close>

section \<open>The key store\<close>

text \<open>\<open>?\<close> on a result of the key store, and its ECDSA operations (\<open>src/api/key_store.rs\<close>).\<close>

definition from_key_store :: "('p env, key_store_error, 'a) op \<Rightarrow> ('p, 'a) env_op" where
  "from_key_store f e = (let (r, e) = f e in (map_sum status_of_key_store id r, e))"

definition derive_ecdsa :: "'p platform \<Rightarrow> bytes \<Rightarrow> key_store_error + bytes" where
  "derive_ecdsa P seed = (if \<not> ecdsa_valid (crypto_of P) seed then Inl KeyStoreError else Inr seed)"

definition generate_ecdsa_seed :: "'p platform \<Rightarrow> ('p env, key_store_error, bytes) op" where
  "generate_ecdsa_seed P e = (Inr (ecdsa_random (crypto_of P) (draws e)), e\<lparr>draws := Suc (draws e)\<rparr>)"

section \<open>Private keys\<close>

text \<open>\<open>unwrap\<close> of the generated seed and of its length cannot fail; an unknown algorithm panics, which
  is \<open>None\<close> here and excluded where the algorithm was checked.\<close>

definition new_private_key :: "'p platform \<Rightarrow> signature_algorithm \<Rightarrow> 'p env \<Rightarrow> (private_key \<times> 'p env) option" where
  "new_private_key P a e =
     (case a of
        Es256 \<Rightarrow> (case generate_ecdsa_seed P e of
                   (Inr seed, e) \<Rightarrow> Some (Ecdsa seed, e)
                 | (Inl _, e) \<Rightarrow> None)
      | Eddsa \<Rightarrow> (let (b, n) = gen_uniform_u8x32 (crypto_of P) (draws e)
                  in map_option (\<lambda>k. (k, e\<lparr>draws := n\<rparr>)) (new_ed25519_from_bytes b))
      | UnknownAlgorithm \<Rightarrow> None)"

definition ecdsa_key_from_seed :: "'p platform \<Rightarrow> bytes \<Rightarrow> status + bytes" where
  "ecdsa_key_from_seed P seed = map_sum status_of_key_store id (derive_ecdsa P seed)"

definition ecdsa_key :: "'p platform \<Rightarrow> private_key \<Rightarrow> status + bytes" where
  "ecdsa_key P k = (case k of Ecdsa seed \<Rightarrow> ecdsa_key_from_seed P seed | _ \<Rightarrow> Inl internal_error)"

definition cose_key_of_ecdsa :: "bytes \<times> bytes \<Rightarrow> cose_key" where
  "cose_key_of_ecdsa pk =
     \<lparr>x_bytes = fst pk, y_bytes = snd pk, algorithm = es256_algorithm, key_type = 2, curve = 1\<rparr>"

definition cose_key_of_ed25519 :: "bytes \<Rightarrow> cose_key" where
  "cose_key_of_ed25519 pk =
     \<lparr>x_bytes = pk, y_bytes = replicate 32 0, algorithm = eddsa_algorithm, key_type = 1, curve = 6\<rparr>"

definition get_pub_key :: "'p platform \<Rightarrow> private_key \<Rightarrow> status + cose_key" where
  "get_pub_key P k =
     (case k of
        Ecdsa seed \<Rightarrow>
          rbind (ecdsa_key_from_seed P seed) (\<lambda>sk. Inr (cose_key_of_ecdsa (ecdsa_public (crypto_of P) sk)))
      | Ed25519 seed \<Rightarrow> Inr (cose_key_of_ed25519 (ed25519_public (crypto_of P) seed)))"

definition sign_and_encode :: "'p platform \<Rightarrow> private_key \<Rightarrow> bytes \<Rightarrow> status + bytes" where
  "sign_and_encode P k m =
     (case k of
        Ecdsa seed \<Rightarrow> rbind (ecdsa_key_from_seed P seed) (\<lambda>sk. Inr (ecdsa_sign (crypto_of P) sk m))
      | Ed25519 seed \<Rightarrow> Inr (ed25519_sign (crypto_of P) seed m))"

section \<open>Padding\<close>

definition max_padding_length :: u8 where "max_padding_length = 0xBF"

definition add_padding :: "bytes \<Rightarrow> status + bytes" where
  "add_padding bs =
     (if bs = [] \<or> length bs > unat max_padding_length then Inl internal_error
      else let pad_length = max_padding_length - (of_nat (length bs) - 1)
           in Inr (bs @ replicate (unat pad_length) pad_length))"

definition remove_padding :: "bytes \<Rightarrow> status + bytes" where
  "remove_padding bs =
     (if length bs \<noteq> unat max_padding_length + 1 then Inl internal_error
      else let pad_length = last bs
           in if pad_length = 0 \<or> pad_length > max_padding_length then Inl internal_error
              else let n = length bs - unat pad_length
                   in if \<not> list_all (\<lambda>x. x = pad_length) (drop n bs) then Inl internal_error
                      else Inr (take n bs))"

section \<open>Encryption\<close>

definition legacy_credential_id_size :: nat where "legacy_credential_id_size = 112"
definition cbor_credential_id_size :: nat where "cbor_credential_id_size = 241"
definition cbor_credential_id_version :: u8 where "cbor_credential_id_version = 0x01"

record id_source =
  ids_private_key :: private_key
  ids_rp_id_hash :: bytes
  ids_cred_protect :: "credential_protection_policy option"
  ids_cred_blob :: "bytes option"

definition cbor_of_id_source :: "id_source \<Rightarrow> cvalue" where
  "cbor_of_id_source s =
     Map (map_options (zip (map Unsigned [0, 1, 2, 3])
       [Some (cbor_of_private_key (ids_private_key s)), Some (ByteString (ids_rp_id_hash s)),
        map_option cbor_of_policy (ids_cred_protect s), map_option ByteString (ids_cred_blob s)]))"

definition encrypt_to_credential_id :: "'p platform \<Rightarrow> id_source \<Rightarrow> ('p, bytes) env_op" where
  "encrypt_to_credential_id P s =
     sbind (slift (\<lambda>_. let (r, out) = ctap_cbor_write (cbor_of_id_source s) [] in rbind r (\<lambda>_. Inr out))) (\<lambda>payload.
     sbind (slift (\<lambda>_. add_padding payload)) (\<lambda>payload.
     sbind (from_key_store (key_handle_encryption P)) (\<lambda>key.
     sbind (\<lambda>e. let (r, n) = aes256_cbc_encrypt (crypto_of P) key payload True (draws e)
                in (r, e\<lparr>draws := n\<rparr>)) (\<lambda>encrypted.
     let cred_id = cbor_credential_id_version # encrypted
     in sbind (from_key_store (key_handle_authentication P)) (\<lambda>auth.
        sret (cred_id @ hmac_256 (crypto_of P) auth cred_id))))))"

section \<open>Decryption\<close>

definition decrypt_legacy_credential_id :: "'p platform \<Rightarrow> bytes \<Rightarrow> ('p, id_source option) env_op" where
  "decrypt_legacy_credential_id P bs =
     sbind (from_key_store (key_handle_encryption P)) (\<lambda>key.
     sbind (slift (\<lambda>_. aes256_cbc_decrypt (crypto_of P) key bs True)) (\<lambda>plaintext.
       sret (if length plaintext \<noteq> 64 then None
             else case new_ecdsa_from_bytes (take 32 plaintext) of
                    None \<Rightarrow> None
                  | Some k \<Rightarrow> Some \<lparr>ids_private_key = k, ids_rp_id_hash = drop 32 plaintext,
                                   ids_cred_protect = None, ids_cred_blob = None\<rparr>)))"

definition id_source_of_cbor :: "cvalue \<Rightarrow> status + id_source option" where
  "id_source_of_cbor v =
     rbind (extract_map v) (\<lambda>m.
       let fs = destructure (map Unsigned [0, 1, 2, 3]) m
       in case (fs ! 0, fs ! 1) of
            (Some private_key, Some rp_id_hash) \<Rightarrow>
              rbind (private_key_of_cbor private_key) (\<lambda>k.
              rbind (extract_byte_string rp_id_hash) (\<lambda>h.
                if length h \<noteq> 32 then Inl internal_error else
              rbind (optional policy_of_cbor (fs ! 2)) (\<lambda>policy.
              rbind (optional extract_byte_string (fs ! 3)) (\<lambda>blob.
                Inr (Some \<lparr>ids_private_key = k, ids_rp_id_hash = h, ids_cred_protect = policy,
                           ids_cred_blob = blob\<rparr>)))))
          | _ \<Rightarrow> Inr None)"

definition decrypt_cbor_credential_id :: "'p platform \<Rightarrow> bytes \<Rightarrow> ('p, id_source option) env_op" where
  "decrypt_cbor_credential_id P bs =
     sbind (from_key_store (key_handle_encryption P)) (\<lambda>key.
     slift (\<lambda>_. rbind (aes256_cbc_decrypt (crypto_of P) key bs True) (\<lambda>plaintext.
       rbind (remove_padding plaintext) (\<lambda>plaintext.
       rbind (ctap_cbor_read (usize_bits P) plaintext) id_source_of_cbor))))"

definition credential_of_id :: "bytes \<Rightarrow> id_source \<Rightarrow> credential_source" where
  "credential_of_id cred_id s =
     \<lparr>cs_type = PublicKey, cs_id = cred_id, cs_private_key = ids_private_key s, cs_rp_id = [],
      cs_user_handle = [], cs_user_display_name = None, cs_cred_protect = ids_cred_protect s,
      cs_creation_order = 0, cs_user_name = None, cs_user_icon = None,
      cs_cred_blob = ids_cred_blob s, cs_large_blob_key = None\<rparr>"

definition decrypt_credential_id ::
  "'p platform \<Rightarrow> bytes \<Rightarrow> bytes \<Rightarrow> ('p, credential_source option) env_op" where
  "decrypt_credential_id P cred_id rp_id_hash =
     (if length cred_id < legacy_credential_id_size then sret None
      else let n = length cred_id - 32
      in sbind (from_key_store (key_handle_authentication P)) (\<lambda>auth.
         if \<not> verify_hmac_256 (crypto_of P) auth (take n cred_id) (drop n cred_id) then sret None
         else sbind (if length cred_id = legacy_credential_id_size
                     then decrypt_legacy_credential_id P (take n cred_id)
                     else if hd cred_id \<noteq> cbor_credential_id_version
                             \<or> length cred_id \<noteq> cbor_credential_id_size then sret None
                     else decrypt_cbor_credential_id P (drop 1 (take n cred_id))) (\<lambda>source.
              sret (case source of
                      None \<Rightarrow> None
                    | Some s \<Rightarrow> if rp_id_hash \<noteq> ids_rp_id_hash s then None
                                else Some (credential_of_id cred_id s)))))"

end
