(* ===== verification/Config_Command.thy ===== *)
theory Config_Command
  imports Large_Blobs Credential_Store
begin

text \<open>
  The authenticatorConfig command, \<open>src/ctap/config_command.rs\<close>: enterprise attestation, the
  alwaysUv flag and the minimum PIN length.
\<close>

definition process_enable_enterprise_attestation :: "'p platform \<Rightarrow> ('p, unit) env_op" where
  "process_enable_enterprise_attestation P =
     (if enterprise_mode (custom P) \<noteq> None then enable_enterprise_attestation P
      else sfail CTAP1_ERR_INVALID_PARAMETER)"

definition process_toggle_always_uv :: "'p platform \<Rightarrow> ('p, unit) env_op" where
  "process_toggle_always_uv P = toggle_always_uv P"

definition process_set_min_pin_length :: "'p platform \<Rightarrow> set_min_pin_length_params \<Rightarrow> ('p, unit) env_op" where
  "process_set_min_pin_length P params =
     sbind (min_pin_length P) (\<lambda>stored.
       let new_length = or_default stored (new_min_pin_length params)
       in if new_length < stored then sfail CTAP2_ERR_PIN_POLICY_VIOLATION
          else let force = or_default False (force_change_pin params)
     in sbind (if force then sbind (pin_hash P) (\<lambda>h. if h = None then sfail CTAP2_ERR_PIN_NOT_SET else sret ())
               else sret ()) (\<lambda>_.
     sbind (pin_code_point_length P) (\<lambda>old_length.
       let force = force \<or> (case old_length of None \<Rightarrow> False | Some old \<Rightarrow> new_length > old)
     in sbind (if force then force_pin_change P else sret ()) (\<lambda>_.
     sbind (set_min_pin_length P new_length) (\<lambda>_.
       case smpl_rp_ids params of
         None \<Rightarrow> sret ()
       | Some ids \<Rightarrow> set_min_pin_length_rp_ids P ids)))))"

text \<open>The data the platform signs: \<open>0xff\<close> 32 times, \<open>0x0d\<close>, the subcommand and its parameters.\<close>

definition config_signed_data ::
  "config_subcommand \<Rightarrow> set_min_pin_length_params option \<Rightarrow> status + bytes" where
  "config_signed_data sub_command params =
     (let data = replicate 32 0xFF @ [0x0D, ucast (config_subcommand_code sub_command)]
      in case params of
           None \<Rightarrow> Inr data
         | Some p \<Rightarrow> (let (r, out) = ctap_cbor_write (cbor_of_set_min_pin_length_params p) data
                      in rbind r (\<lambda>_. Inr out)))"

definition authorize_config :: "'p platform \<Rightarrow> config_params \<Rightarrow> ('p, unit) pin_op" where
  "authorize_config P params =
     sbind (if cfp_sub_command params = ToggleAlwaysUv then sret False
            else on_env (has_always_uv P)) (\<lambda>enforce_uv.
     sbind (on_env (pin_hash P)) (\<lambda>stored.
       if stored \<noteq> None \<or> enforce_uv
       then check_token P (config_signed_data (cfp_sub_command params) (cfp_sub_command_params params))
              AuthenticatorConfiguration (cfp_pin_uv_auth_param params) (cfp_pin_uv_auth_protocol params)
       else sret ()))"

definition process_config :: "'p platform \<Rightarrow> config_params \<Rightarrow> ('p, unit) pin_op" where
  "process_config P params =
     sbind (authorize_config P params) (\<lambda>_.
       case cfp_sub_command params of
         EnableEnterpriseAttestation \<Rightarrow> on_env (process_enable_enterprise_attestation P)
       | ToggleAlwaysUv \<Rightarrow> on_env (process_toggle_always_uv P)
       | SetMinPinLength \<Rightarrow>
           (case cfp_sub_command_params params of
              Some p \<Rightarrow> on_env (process_set_min_pin_length P p)
            | None \<Rightarrow> sfail CTAP2_ERR_MISSING_PARAMETER)
       | _ \<Rightarrow> sfail CTAP1_ERR_INVALID_PARAMETER)"

end
