(* ===== verification/Frames.thy ===== *)
theory Frames
  imports Effects Storage_Props Credential_Id Config_Command
begin

text \<open>
  Which entries of the store an operation may change on a working device: \<open>changes P view K\<close> relates
  an environment to one that is as good and differs in the entries \<open>K\<close> at most. It is a preorder, so
  the rules of \<open>effect_bound\<close> compute the frame of a handler from those of its parts.
\<close>

definition changes ::
  "'p platform \<Rightarrow> ('p \<Rightarrow> string \<Rightarrow> bytes option) \<Rightarrow> nat set \<Rightarrow> 'p env \<Rightarrow> 'p env \<Rightarrow> bool" where
  "changes P view K e e' \<longleftrightarrow>
     (env_inv P view e \<longrightarrow> env_inv P view e' \<and>
       (\<forall>k. k \<notin> K \<longrightarrow> content view (store_of e') k = content view (store_of e) k))"

interpretation changing: effect_bound "changes P view K"
  by unfold_locales (auto simp: changes_def)

lemma changes_mono: "changes P view K e e' \<Longrightarrow> K \<subseteq> L \<Longrightarrow> changes P view L e e'"
  by (auto simp: changes_def)

lemma within_changes_mono: "within (changes P view K) f \<Longrightarrow> K \<subseteq> L \<Longrightarrow> within (changes P view L) f"
  unfolding within_def using changes_mono by blast

lemma changes_if:
  "within (changes P view K) f \<Longrightarrow> within (changes P view K) g \<Longrightarrow> within (changes P view K) (if b then f else g)"
  by simp

lemma changes_insert: "k \<in> K \<Longrightarrow> k < 2 ^ usize_bits P \<Longrightarrow> within (changes P view K) (insert_entry P k v)"
  unfolding within_def changes_def
proof (intro allI impI)
  fix e assume "k \<in> K" "k < 2 ^ usize_bits P" "env_inv P view e"
  then show "env_inv P view (snd (insert_entry P k v e)) \<and>
    (\<forall>j. j \<notin> K \<longrightarrow> content view (store_of (snd (insert_entry P k v e))) j = content view (store_of e) j)"
    using insert_entry_ok [where ub = "usize_bits P" and P = P and view = view and e = e and k = k and v = v] by auto
qed

lemma changes_remove: "k \<in> K \<Longrightarrow> k < 2 ^ usize_bits P \<Longrightarrow> within (changes P view K) (remove_entry P k)"
  unfolding within_def changes_def
proof (intro allI impI)
  fix e assume "k \<in> K" "k < 2 ^ usize_bits P" "env_inv P view e"
  then show "env_inv P view (snd (remove_entry P k e)) \<and>
    (\<forall>j. j \<notin> K \<longrightarrow> content view (store_of (snd (remove_entry P k e))) j = content view (store_of e) j)"
    using remove_entry_ok [where ub = "usize_bits P" and P = P and view = view and e = e and k = k] by auto
qed

text \<open>Drawing random numbers changes no entry.\<close>

lemma changes_draws:
  "(\<And>e. store_of (snd (f e)) = store_of e) \<Longrightarrow> within (changes P view K) f"
  by (simp add: within_def changes_def)

lemma changes_from_key_store:
  "within (changes P view K) f \<Longrightarrow> within (changes P view K) (from_key_store f)"
  by (auto simp: within_def from_key_store_def split: prod.split) (metis snd_conv)

lemma changes_master_keys:
  assumes "key_store_key \<in> K" "11 \<le> usize_bits P"
  shows "within (changes P view K) (get_master_keys P)"
  unfolding within_def changes_def
proof (intro allI impI)
  fix e assume inv: "env_inv P view e"
  note find = st.find [OF inv, of key_store_key]
  note ins = st.insert_one [OF inv storage_keys_fit(10) [OF assms(2)]]
  show "env_inv P view (snd (get_master_keys P e)) \<and>
    (\<forall>j. j \<notin> K \<longrightarrow> content view (store_of (snd (get_master_keys P e))) j = content view (store_of e) j)"
  proof (cases "content view (store_of e) key_store_key")
    case None
    define v where "v = random_u8x32 (crypto_of P) (draws e) @ random_u8x32 (crypto_of P) (Suc (draws e))"
    have "snd (get_master_keys P e) =
        e\<lparr>store_of := snd (insert_key (pddb_of P) key_store_key v (store_of e)), draws := Suc (Suc (draws e))\<rparr>"
      using None find by (simp add: get_master_keys_def gen_uniform_u8x32_def v_def split_beta)
    then show ?thesis
      using ins [of v] assms(1) by (auto simp: insert_key_def)
  qed (use find inv in \<open>simp add: get_master_keys_def\<close>)
qed

lemma changes_key_handles:
  assumes "key_store_key \<in> K" "11 \<le> usize_bits P"
  shows "within (changes P view K) (from_key_store (key_handle_encryption P))"
    and "within (changes P view K) (from_key_store (key_handle_authentication P))"
  unfolding key_handle_encryption_def key_handle_authentication_def
  by (intro changes_from_key_store changing.bind changes_master_keys [OF assms] changing.ret)+

text \<open>What a read of one entry says depends on that entry only.\<close>

lemma min_pin_length_ok:
  "env_inv P view e \<Longrightarrow> min_pin_length P e =
     (case content view (store_of e) min_pin_length_key of
        None \<Rightarrow> (Inr (default_min_pin_length (custom P)), e)
      | Some v \<Rightarrow> (if length v = 1 then Inr (v ! 0) else Inl internal_error, e))"
  by (simp add: min_pin_length_def sbind_def find_entry_ok split: option.split)

lemma reads_entry_cong:
  assumes "env_inv P view e" "env_inv P view e'" "content view (store_of e') k = content view (store_of e) k"
  shows "fst (find_entry P k e') = fst (find_entry P k e)"
  using assms by (simp add: find_entry_ok)

lemma reads_cong:
  assumes "env_inv P view e" "env_inv P view e'"
  shows "content view (store_of e') min_pin_length_key = content view (store_of e) min_pin_length_key \<Longrightarrow>
      fst (min_pin_length P e') = fst (min_pin_length P e)"
    and "content view (store_of e') pin_properties_key = content view (store_of e) pin_properties_key \<Longrightarrow>
      fst (pin_properties P e') = fst (pin_properties P e)"
    and "content view (store_of e') k = content view (store_of e) k \<Longrightarrow> fst (flag_entry P k e') = fst (flag_entry P k e)"
  by (simp_all add: min_pin_length_def pin_properties_def flag_entry_def sbind_def
      find_entry_ok [OF assms(1)] find_entry_ok [OF assms(2)] split: option.split)

end
