(* ===== verification/Config_Props.thy ===== *)
theory Config_Props
  imports Frames Large_Blob_Props
begin

text \<open>
  What authenticatorConfig promises: nothing changes without the token once a PIN is set, and the
  minimum PIN length only grows and forces a change of a PIN that became too short.
\<close>

section \<open>Frames\<close>

lemma reads_authorize_config: "within (=) (authorize_config P params)"
  unfolding authorize_config_def
  by (intro reading.bind)
     (auto intro!: reading_rules within_on_env reads_flags reads_pin reads_check_token split: if_splits)

lemma enable_enterprise_fails:
  "process_enable_enterprise_attestation P e = (Inl CTAP1_ERR_INVALID_PARAMETER, e) \<or>
   process_enable_enterprise_attestation P e = (Inl CTAP2_ERR_VENDOR_INTERNAL_ERROR, e)"
  by (simp add: process_enable_enterprise_attestation_def enable_enterprise_attestation_def sbind_def
      from_attestation_store_def attestation_get_def)

lemma changes_toggle:
  "11 \<le> usize_bits P \<Longrightarrow> within (changes P view {always_uv_key}) (process_toggle_always_uv P)"
  unfolding process_toggle_always_uv_def toggle_always_uv_def
  by (auto intro!: changing.ret changing.bind changing.reader [OF reads_flags(4)] changes_insert changes_remove storage_keys_fit(2))

lemma changes_rp_ids:
  "11 \<le> usize_bits P \<Longrightarrow> within (changes P view {min_pin_length_rp_ids_key}) (set_min_pin_length_rp_ids P ids)"
  unfolding set_min_pin_length_rp_ids_def Let_def
  by (auto intro!: changing.ret changing.bind changes_insert storage_keys_fit(6))

section \<open>The minimum PIN length\<close>

text \<open>
  The promise of a run that starts with minimum length \<open>n\<close>: it ends with one that is at least as
  large, and a PIN that the change made too short must be changed.
\<close>

definition min_length_kept :: "'p platform \<Rightarrow> u8 \<Rightarrow> 'p env \<Rightarrow> 'p env \<Rightarrow> bool" where
  "min_length_kept P n e e' \<longleftrightarrow>
     (\<exists>n'. min_pin_length P e' = (Inr n', e') \<and> n \<le> n' \<and>
        (\<forall>len. fst (pin_code_point_length P e) = Inr (Some len) \<longrightarrow> n \<le> len \<longrightarrow> len < n' \<longrightarrow>
           has_force_pin_change P e' = (Inr True, e')))"

lemma min_length_kept_frame:
  assumes "min_length_kept P n e e1" "env_inv P view e1" "changes P view K e1 e'"
    and "min_pin_length_key \<notin> K" "force_pin_change_key \<notin> K"
  shows "min_length_kept P n e e'"
proof -
  have e': "env_inv P view e'" "\<forall>k. k \<notin> K \<longrightarrow> content view (store_of e') k = content view (store_of e1) k"
    using assms(2,3) by (auto simp: changes_def)
  have "fst (min_pin_length P e') = fst (min_pin_length P e1)"
      "fst (has_force_pin_change P e') = fst (has_force_pin_change P e1)"
    using reads_cong [OF assms(2) e'(1)] e'(2) assms(4,5) by (simp_all add: has_force_pin_change_def)
  then show ?thesis
    using assms(1) reader_run [OF reads_pin(5), of P e'] reader_run [OF reads_flags(2), of P e']
    by (auto simp: min_length_kept_def)
qed

lemma insert_keeps:
  assumes "env_inv P view e" "insert_entry P k v e = (r, e')" "k < 2 ^ usize_bits P"
  shows "r = Inr ()" and "env_inv P view e'"
    and "content view (store_of e') = (content view (store_of e))(k \<mapsto> v)"
  using insert_entry_ok [OF assms(1,3), of v] assms(2) by auto

lemma process_set_min_run:
  fixes p :: set_min_pin_length_params and n :: u8
  defines "n' \<equiv> or_default n (new_min_pin_length p)" and "force \<equiv> or_default False (force_change_pin p)"
  assumes "min_pin_length P e = (Inr n, e)" "\<not> n' < n"
    and "force \<longrightarrow> (\<exists>x. pin_hash P e = (Inr (Some x), e))" "pin_code_point_length P e = (Inr old, e)"
  shows "process_set_min_pin_length P p e =
    sbind (if force \<or> (case old of None \<Rightarrow> False | Some l \<Rightarrow> n' > l) then force_pin_change P else sret ()) (\<lambda>_.
    sbind (set_min_pin_length P n') (\<lambda>_.
      case smpl_rp_ids p of None \<Rightarrow> sret () | Some ids \<Rightarrow> set_min_pin_length_rp_ids P ids)) e"
  using assms(3-6) unfolding n'_def force_def by (auto simp: process_set_min_pin_length_def Let_def)

lemma set_min_pin_length_kept:
  assumes inv: "env_inv P view e" and bits: "11 \<le> usize_bits P" and n: "min_pin_length P e = (Inr n, e)"
    and run: "process_set_min_pin_length P p e = (r, e')"
  shows "min_length_kept P n e e'"
proof -
  have same: "min_length_kept P n e e"
    using n by (auto simp: min_length_kept_def dest: leD)
  note fits = storage_keys_fit [OF bits]
  define n' where "n' = or_default n (new_min_pin_length p)"
  define force where "force = or_default False (force_change_pin p)"
  show ?thesis
  proof (cases "n' < n")
    case True
    then show ?thesis
      using run n same by (simp add: process_set_min_pin_length_def Let_def n'_def)
  next
    case False
    obtain h where h: "pin_hash P e = (h, e)" using reader_run [OF reads_pin(2)] by blast
    obtain len where len: "pin_code_point_length P e = (len, e)" using reader_run [OF reads_pin(3)] by blast
    show ?thesis
    proof (cases "is_ok len \<and> (force \<longrightarrow> is_ok h \<and> h \<noteq> Inr None)")
      case False
      then have "e' = e"
        using run n h len \<open>\<not> n' < n\<close>
        by (cases h; cases len; cases force)
          (simp_all add: process_set_min_pin_length_def Let_def sbind_def n'_def [symmetric] force_def [symmetric]
            split: if_splits)
      then show ?thesis using same by simp
    next
      case True
      then obtain old where old: "len = Inr old" by (auto simp: is_ok_iff)
      define forced where "forced \<longleftrightarrow> force \<or> (case old of None \<Rightarrow> False | Some l \<Rightarrow> n' > l)"
      define e1 where "e1 = (if forced then snd (force_pin_change P e) else e)"
      define e2 where "e2 = snd (set_min_pin_length P n' e1)"
      have e1: "env_inv P view e1"
          "content view (store_of e1) = (if forced then (content view (store_of e))(force_pin_change_key \<mapsto> []) else content view (store_of e))"
          "forced \<Longrightarrow> force_pin_change P e = (Inr (), e1)"
        using insert_keeps [OF inv _ fits(4), of "[]"] inv
        by (cases "insert_entry P force_pin_change_key [] e"; simp add: e1_def force_pin_change_def)+
      have e2: "env_inv P view e2" "set_min_pin_length P n' e1 = (Inr (), e2)"
          "content view (store_of e2) = (content view (store_of e1))(min_pin_length_key \<mapsto> [n'])"
        using insert_keeps [OF e1(1) _ fits(7), of "[n']"]
        by (cases "insert_entry P min_pin_length_key [n'] e1"; simp add: e2_def set_min_pin_length_def)+
      have kept: "min_length_kept P n e e2"
        unfolding min_length_kept_def
      proof (intro exI [of _ n'] conjI allI impI)
        show "min_pin_length P e2 = (Inr n', e2)" using e2 by (simp add: min_pin_length_ok)
        show "n \<le> n'" using False by simp
        fix l assume "fst (pin_code_point_length P e) = Inr (Some l)" "n \<le> l" "l < n'"
        then have "content view (store_of e2) force_pin_change_key = Some []"
          using e1(2) e2(3) len old by (simp add: forced_def storage_keys)
        then show "has_force_pin_change P e2 = (Inr True, e2)"
          by (simp add: has_force_pin_change_def flag_entry_def find_entry_ok [OF e2(1)])
      qed
      have rest: "(case smpl_rp_ids p of None \<Rightarrow> sret () | Some ids \<Rightarrow> set_min_pin_length_rp_ids P ids) e2 = (r, e')"
      proof -
        have "force \<longrightarrow> (\<exists>x. pin_hash P e = (Inr (Some x), e))"
          using True h by (cases h) auto
        then have "sbind (if forced then force_pin_change P else sret ()) (\<lambda>_. sbind (set_min_pin_length P n') (\<lambda>_.
            case smpl_rp_ids p of None \<Rightarrow> sret () | Some ids \<Rightarrow> set_min_pin_length_rp_ids P ids)) e = (r, e')"
          using process_set_min_run [of P e n p old] n len old run \<open>\<not> n' < n\<close>
          unfolding n'_def force_def forced_def by simp
        moreover have "\<not> forced \<Longrightarrow> e1 = e" by (simp add: e1_def)
        ultimately show ?thesis
          using e1(3) e2(2) by (cases forced) simp_all
      qed
      have frame: "within (changes P view {min_pin_length_rp_ids_key})
          (case smpl_rp_ids p of None \<Rightarrow> sret () | Some ids \<Rightarrow> set_min_pin_length_rp_ids P ids)"
        using changes_rp_ids [OF bits] by (auto simp: changing.ret split: option.split)
      show ?thesis
        by (rule min_length_kept_frame [OF kept e2(1) withinD [OF frame rest]]) (simp_all add: storage_keys)
    qed
  qed
qed

section \<open>The command\<close>

definition config_action :: "'p platform \<Rightarrow> config_params \<Rightarrow> ('p, unit) env_op" where
  "config_action P params =
     (case cfp_sub_command params of
        EnableEnterpriseAttestation \<Rightarrow> process_enable_enterprise_attestation P
      | ToggleAlwaysUv \<Rightarrow> process_toggle_always_uv P
      | SetMinPinLength \<Rightarrow>
          (case cfp_sub_command_params params of
             Some p \<Rightarrow> process_set_min_pin_length P p
           | None \<Rightarrow> sfail CTAP2_ERR_MISSING_PARAMETER)
      | _ \<Rightarrow> sfail CTAP1_ERR_INVALID_PARAMETER)"

lemma process_config_run:
  "process_config P params (e, c) =
     (case fst (authorize_config P params (e, c)) of
        Inl x \<Rightarrow> (Inl x, (e, c))
      | Inr _ \<Rightarrow> (fst (config_action P params e), (snd (config_action P params e), c)))"
  using reader_run [OF reads_authorize_config, of P params "(e, c)"]
  by (cases "fst (authorize_config P params (e, c))"; cases "cfp_sub_command params")
     (simp_all add: process_config_def sbind_def config_action_def on_env_def split_beta split: option.split)

text \<open>AuthenticatorConfig never lowers the minimum PIN length, whatever else it does or fails to do;
  when it raises the minimum above the length of the current PIN, the device afterwards requires the
  PIN to be changed. It never touches the PIN state.\<close>

theorem config_min_pin_length:
  assumes inv: "env_inv P view e" and bits: "11 \<le> usize_bits P" and n: "min_pin_length P e = (Inr n, e)"
    and run: "process_config P params (e, c) = (r, (e', c'))"
  shows "c' = c \<and> min_length_kept P n e e'"
proof -
  have same: "min_length_kept P n e e"
    using n by (auto simp: min_length_kept_def dest: leD)
  consider "e' = e" "c' = c" | a where "config_action P params e = (a, e')" "c' = c"
    using run by (cases "config_action P params e")
      (auto simp: process_config_run split: sum.splits)
  then show ?thesis
  proof cases
    case 2
    show ?thesis
    proof (cases "cfp_sub_command params")
      case EnableEnterpriseAttestation
      then show ?thesis
        using 2 same enable_enterprise_fails [of P e] by (auto simp: config_action_def)
    next
      case ToggleAlwaysUv
      then have "changes P view {always_uv_key} e e'"
        using 2 withinD [OF changes_toggle [OF bits]] by (auto simp: config_action_def)
      then show ?thesis
        using 2 min_length_kept_frame [OF same inv] by (simp add: storage_keys)
    next
      case SetMinPinLength
      then show ?thesis
        using 2 same set_min_pin_length_kept [OF inv bits n]
        by (auto simp: config_action_def split: option.splits)
    next
      case VendorPrototype
      then show ?thesis using 2 same by (simp add: config_action_def)
    qed
  qed (use same in simp)
qed

text \<open>Once a PIN is set, or when user verification is always required (which a request to toggle
  that requirement need not respect), authenticatorConfig changes nothing unless the request is
  authenticated, over the subcommand and its parameters, by the token in use with the permission to
  configure the authenticator.\<close>

theorem config_needs_token:
  assumes C: "crypto_ok (crypto_of P)" and run: "process_config P params (e, c) = (r, (e', c'))"
    and changed: "e' \<noteq> e"
    and needed: "fst (pin_hash P e) \<noteq> Inr None \<or>
      fst (has_always_uv P e) = Inr True \<and> cfp_sub_command params \<noteq> ToggleAlwaysUv"
  shows "\<exists>m. config_signed_data (cfp_sub_command params) (cfp_sub_command_params params) = Inr m \<and>
    token_grants (crypto_of P) c m AuthenticatorConfiguration
      (cfp_pin_uv_auth_param params) (cfp_pin_uv_auth_protocol params)"
proof -
  have reads: "pin_hash P e = (fst (pin_hash P e), e)" "has_always_uv P e = (fst (has_always_uv P e), e)"
    by (rule reader_run, rule reads_pin, rule reader_run, rule reads_flags)
  have ok: "fst (authorize_config P params (e, c)) = Inr ()"
    using run changed by (auto simp: process_config_run split: sum.splits)
  define ct where "ct = check_token P (config_signed_data (cfp_sub_command params) (cfp_sub_command_params params))
      AuthenticatorConfiguration (cfp_pin_uv_auth_param params) (cfp_pin_uv_auth_protocol params) (e, c)"
  have "fst ct = Inr ()"
    using reads needed ok
    by (cases "fst (pin_hash P e)"; cases "fst (has_always_uv P e)")
       (auto simp: authorize_config_def on_env_def sbind_def ct_def split: if_splits prod.splits sum.splits)
  then obtain s where s: "check_token P (config_signed_data (cfp_sub_command params) (cfp_sub_command_params params))
      AuthenticatorConfiguration (cfp_pin_uv_auth_param params) (cfp_pin_uv_auth_protocol params) (e, c) = (Inr (), s)"
    unfolding ct_def by (metis prod.collapse)
  then obtain m where m: "config_signed_data (cfp_sub_command params) (cfp_sub_command_params params) = Inr m"
    by (auto simp: check_token_def get_pin_def rbind_Inr_iff split: if_splits)
  then show ?thesis
    using s check_token_iff [OF C] by auto
qed

section \<open>Examples\<close>

definition toy_config :: "config_subcommand \<Rightarrow> set_min_pin_length_params option \<Rightarrow> config_params" where
  "toy_config sub params = \<lparr>cfp_sub_command = sub, cfp_sub_command_params = params,
     cfp_pin_uv_auth_param = Some (authenticate toy_crypto (pin_uv_auth_token (get_pin_protocol V2 toy_blob_pin))
       (replicate 32 0xFF @ [0x0D, 0x02]) V2),
     cfp_pin_uv_auth_protocol = Some V2\<rparr>"

lemma config_min_pin_length_witness:
  "\<exists>r e' c'. process_config toy_platform (toy_config SetMinPinLength (Some \<lparr>new_min_pin_length = Some 6,
      smpl_rp_ids = None, force_change_pin = None\<rparr>)) (toy_env [], toy_blob_pin) = (r, (e', c')) \<and>
    min_length_kept toy_platform 4 (toy_env []) e'"
proof -
  have inv: "env_inv toy_platform map_of (toy_env [])" using toy_env_inv by simp
  have "min_pin_length toy_platform (toy_env []) = (Inr 4, toy_env [])"
    using min_pin_length_ok [OF inv] by (simp add: toy_env_content default_customization_def)
  note kept = config_min_pin_length [OF inv _ this]
  obtain r e' c' where run: "process_config toy_platform (toy_config SetMinPinLength (Some
      \<lparr>new_min_pin_length = Some 6, smpl_rp_ids = None, force_change_pin = None\<rparr>)) (toy_env [], toy_blob_pin) =
      (r, (e', c'))"
    by (metis prod.exhaust)
  show ?thesis
    using kept [OF _ run] run by (intro exI [of _ r] exI [of _ e'] exI [of _ c']) simp
qed

lemma config_needs_token_witness:
  "\<exists>e r e' c'. process_config toy_platform (toy_config ToggleAlwaysUv None)
      (e, toy_blob_pin\<lparr>token_state_of := (token_state_of toy_blob_pin)\<lparr>permissions_set := 0x20\<rparr>\<rparr>) = (r, (e', c')) \<and>
    e' \<noteq> e \<and> (\<exists>m. token_grants toy_crypto
      (toy_blob_pin\<lparr>token_state_of := (token_state_of toy_blob_pin)\<lparr>permissions_set := 0x20\<rparr>\<rparr>) m AuthenticatorConfiguration
      (cfp_pin_uv_auth_param (toy_config ToggleAlwaysUv None)) (Some V2))"
proof -
  let ?c = "toy_blob_pin\<lparr>token_state_of := (token_state_of toy_blob_pin)\<lparr>permissions_set := 0x20\<rparr>\<rparr>"
  let ?p = "toy_config ToggleAlwaysUv None"
  have inv: "env_inv toy_platform map_of (toy_env [])" using toy_env_inv by simp
  obtain e where e: "env_inv toy_platform map_of e"
    "content map_of (store_of e) = [pin_properties_key \<mapsto> 4 # replicate 16 7]"
    using insert_entry_ok [OF inv, of pin_properties_key "4 # replicate 16 7"] storage_keys_fit(9) [of 32]
    by (auto simp: toy_env_content)
  have pin: "pin_hash toy_platform e = (Inr (Some (replicate 16 7)), e)"
    using e by (simp add: pin_hash_def pin_properties_def sbind_def find_entry_ok [OF e(1)])
  have uv: "has_always_uv toy_platform e = (Inr False, e)"
    using e(2) by (simp add: has_always_uv_def flag_entry_def sbind_def find_entry_ok [OF e(1)]
        default_customization_def storage_keys)
  have "token_grants toy_crypto ?c (replicate 32 0xFF @ [0x0D, 0x02]) AuthenticatorConfiguration
      (cfp_pin_uv_auth_param ?p) (cfp_pin_uv_auth_protocol ?p)"
    by (simp add: token_grants_def toy_config_def toy_blob_pin_def get_pin_protocol_def)
  then have "check_token toy_platform (Inr (replicate 32 0xFF @ [0x0D, 0x02])) AuthenticatorConfiguration
      (cfp_pin_uv_auth_param ?p) (cfp_pin_uv_auth_protocol ?p) (e, ?c) = (Inr (), (e, ?c))"
    using check_token_iff [of toy_platform] toy_crypto_ok by simp
  moreover have "config_signed_data ToggleAlwaysUv None = Inr (replicate 32 0xFF @ [0x0D, 0x02])"
    by (simp add: config_signed_data_def)
  ultimately have auth: "fst (authorize_config toy_platform ?p (e, ?c)) = Inr ()"
    using pin by (simp add: authorize_config_def on_env_def sbind_def toy_config_def)
  obtain e' where e': "insert_entry toy_platform always_uv_key [] e = (Inr (), e')"
    "content map_of (store_of e') = (content map_of (store_of e))(always_uv_key \<mapsto> [])"
    using insert_entry_ok [OF e(1), of always_uv_key "[]"] storage_keys_fit(2) [of 32] by auto
  have "process_toggle_always_uv toy_platform e = (Inr (), e')"
    using uv e'(1) by (simp add: process_toggle_always_uv_def toggle_always_uv_def default_customization_def sbind_def)
  then have run: "process_config toy_platform ?p (e, ?c) = (Inr (), (e', ?c))"
    using auth by (simp add: process_config_run config_action_def toy_config_def)
  have "content map_of (store_of e') always_uv_key \<noteq> content map_of (store_of e) always_uv_key"
    using e(2) e'(2) by (simp add: storage_keys)
  then have ne: "e' \<noteq> e" by auto
  have "cfp_pin_uv_auth_protocol ?p = Some V2" by (simp add: toy_config_def)
  then have "\<exists>m. token_grants toy_crypto ?c m AuthenticatorConfiguration (cfp_pin_uv_auth_param ?p) (Some V2)"
    using config_needs_token [OF _ run ne] pin toy_crypto_ok by auto
  then show ?thesis
    using run ne by (intro exI [of _ e] exI [of _ "Inr ()"] exI [of _ e'] exI [of _ ?c] conjI)
qed

end
