(* ===== verification/Credential_Id_Props.thy ===== *)
theory Credential_Id_Props
  imports Credential_Id Storage_Props Credential_Props Effects
begin

text \<open>
  Credential IDs are read back by the authenticator that made them, and by nothing else: the round
  trip of padding, CBOR, encryption and authentication, and what an accepted ID says.
\<close>

section \<open>Padding\<close>

lemma unat_pad:
  assumes "1 \<le> n" "n \<le> 191"
  shows "unat (max_padding_length - (of_nat n - 1)) = 192 - n"
proof -
  have n: "unat (of_nat n :: u8) = n" using assms by (simp add: unat_of_nat)
  then have "unat (of_nat n - 1 :: u8) = n - 1"
    using assms by (subst unat_sub) (auto simp: word_le_nat_alt)
  moreover have "(of_nat n - 1 :: u8) \<le> max_padding_length"
    using calculation assms by (simp add: word_le_nat_alt max_padding_length_def)
  then have "unat (max_padding_length - (of_nat n - 1)) = unat max_padding_length - unat (of_nat n - 1 :: u8)"
    by (rule unat_sub)
  ultimately show ?thesis
    using assms by (simp only:) (simp add: max_padding_length_def)
qed

lemma add_padding_ok:
  assumes "bs \<noteq> []" "length bs \<le> 191"
  shows "\<exists>p. add_padding bs = Inr p \<and> length p = 192 \<and> remove_padding p = Inr bs"
proof -
  define pad where "pad = max_padding_length - (of_nat (length bs) - 1)"
  have n: "1 \<le> length bs" using assms(1) by (cases bs) auto
  then have pad: "unat pad = 192 - length bs"
    using unat_pad [of "length bs"] assms by (simp add: pad_def)
  then have last: "last (bs @ replicate (unat pad) pad) = pad"
    using assms by simp
  have "pad \<noteq> 0" "\<not> pad > max_padding_length"
    using pad n assms by (auto simp: word_less_nat_alt max_padding_length_def)
  then have "remove_padding (bs @ replicate (unat pad) pad) = Inr bs"
    using pad last assms n by (simp add: remove_padding_def Let_def max_padding_length_def list_all_iff)
  moreover have "add_padding bs = Inr (bs @ replicate (unat pad) pad)"
    using assms by (simp add: add_padding_def pad_def Let_def) (simp add: max_padding_length_def)
  ultimately show ?thesis
    using assms pad n by (intro exI [of _ "bs @ replicate (unat pad) pad"]) simp
qed

section \<open>The encrypted map\<close>

definition id_source_ok :: "id_source \<Rightarrow> bool" where
  "id_source_ok s \<longleftrightarrow>
     length (private_key_bytes (ids_private_key s)) = 32 \<and> length (ids_rp_id_hash s) = 32 \<and>
     (case ids_cred_blob s of None \<Rightarrow> True | Some b \<Rightarrow> length b \<le> 64)"

lemma sorted_id_keys: "sorted_keys (map Unsigned [0, 1, 2, 3])"
  by (simp add: less_cvalue_def cmp_of_def)

lemma id_source_round_trip:
  "id_source_ok s \<Longrightarrow> id_source_of_cbor (cbor_of_id_source s) = Inr (Some s)"
  by (simp add: id_source_of_cbor_def cbor_of_id_source_def id_source_ok_def destructure_zip sorted_id_keys
      private_key_round_trip optional_map del: list.map)

lemma small_fits: "n < 2048 \<Longrightarrow> 11 \<le> ub \<Longrightarrow> n < 2 ^ ub \<and> n < 2 ^ 64" for n :: nat
  using key_fits [of n ub] key_fits [of n 64] by simp

lemma storable_id_source:
  assumes "id_source_ok s" "11 \<le> ub"
  shows "storable ub 2 (cbor_of_id_source s)"
proof -
  have bytes: "bytes_ok ub b" if "length b \<le> 64" for b
    using small_fits [OF _ assms(2), of "length b"] that by (simp add: bytes_ok_def)
  have "storable ub (Suc 1) (cbor_of_id_source s)"
    unfolding cbor_of_id_source_def
  proof (rule storable_Map [OF sorted_id_keys])
    fix v
    assume "Some v \<in> set [Some (cbor_of_private_key (ids_private_key s)), Some (ByteString (ids_rp_id_hash s)),
        map_option cbor_of_policy (ids_cred_protect s), map_option ByteString (ids_cred_blob s)]"
    then show "storable ub 1 v"
      using assms(1) storable_private_key [of ub "ids_private_key s"] bytes
      by (auto simp: id_source_ok_def dest: sym [of "Some v"] split: option.splits)
  qed auto
  then show ?thesis by (simp add: numeral_2_eq_2)
qed

lemma length_head_small: "n < 256 \<Longrightarrow> length (head l (of_nat n)) = (if n < 24 then 1 else 2)"
  by (auto simp: head_eq shift_of_def unat_of_nat word_less_nat_alt word_le_nat_alt)

text \<open>The map takes at most 143 bytes, so it can be padded to 192.\<close>

lemma length_enc_small:
  "length b < 256 \<Longrightarrow> length (enc (ByteString b)) = length b + (if length b < 24 then 1 else 2)"
  by (simp add: length_head_small)

lemma length_enc_unsigned: "n < 24 \<Longrightarrow> length (enc (Unsigned (of_nat n))) = 1"
  by (simp add: length_head_small)

lemma length_enc_policy: "length (enc (cbor_of_policy p)) = 1"
  by (cases p) (simp_all add: cbor_of_policy_def from_i64_def integer_value_def head_eq shift_of_def
      word_le_nat_alt)

lemma length_enc_private_key:
  "length (private_key_bytes k) = 32 \<Longrightarrow> length (enc (cbor_of_private_key k)) = 36"
  by (cases k) (auto simp: cbor_of_private_key_def signature_algorithm_of_def algorithm_code_def
      es256_algorithm_def eddsa_algorithm_def from_i64_def integer_value_def private_key_bytes_def
      head_eq shift_of_def word_le_nat_alt)

lemma length_enc_id_source:
  assumes "id_source_ok s"
  shows "length (enc (cbor_of_id_source s)) \<le> 143"
proof -
  have keys: "length (head 0 n) = 1" if "n \<in> {0, 1, 2, 3}" for n
    using that by (auto simp: head_eq shift_of_def word_le_nat_alt)
  have maps: "length (head 5 n) = 1" if "n \<in> {2, 3, 4}" for n
    using that by (auto simp: head_eq shift_of_def word_le_nat_alt)
  have hash: "length (head 2 32) = 2"
    by (simp add: head_eq shift_of_def word_le_nat_alt)
  have blob: "length (head 2 (of_nat n)) \<le> 2" if "n \<le> 64" for n
    using that by (simp add: length_head_small)
  show ?thesis
    using assms length_enc_private_key [of "ids_private_key s"] length_enc_policy
    by (cases "ids_cred_protect s"; cases "ids_cred_blob s")
       (auto simp: cbor_of_id_source_def id_source_ok_def keys maps hash intro: order_trans [OF add_mono [OF blob]])
qed

section \<open>Master keys\<close>

definition master_of :: "bytes \<Rightarrow> master_keys" where
  "master_of v = \<lparr>mk_encryption = take 32 v, mk_authentication = take 32 (drop 32 v)\<rparr>"

text \<open>The device holds master keys \<open>v\<close>.\<close>

definition holds_master :: "'p platform \<Rightarrow> ('p \<Rightarrow> string \<Rightarrow> bytes option) \<Rightarrow> bytes \<Rightarrow> 'p env \<Rightarrow> bool" where
  "holds_master P view v e \<longleftrightarrow>
     env_inv P view e \<and> content view (store_of e) key_store_key = Some v \<and> length v = 64"

lemma holds_masterD:
  assumes "holds_master P view v e"
  shows "get_master_keys P e = (Inr (master_of v), e)"
    and "from_key_store (key_handle_encryption P) e = (Inr (take 32 v), e)"
    and "from_key_store (key_handle_authentication P) e = (Inr (take 32 (drop 32 v)), e)"
proof -
  have inv: "env_inv P view e" using assms by (simp add: holds_master_def)
  have "find_key (pddb_of P) key_store_key (store_of e) = Inr (Some v)" "length v = 64"
    using assms st.find [OF inv, of key_store_key] by (simp_all add: holds_master_def)
  then show "get_master_keys P e = (Inr (master_of v), e)"
    by (simp add: get_master_keys_def master_of_def)
  then show "from_key_store (key_handle_encryption P) e = (Inr (take 32 v), e)"
    "from_key_store (key_handle_authentication P) e = (Inr (take 32 (drop 32 v)), e)"
    by (simp_all add: from_key_store_def key_handle_encryption_def key_handle_authentication_def sbind_def
        master_of_def)
qed

lemma master_keys_drawn:
  assumes C: "crypto_ok (crypto_of P)" and inv: "env_inv P view e" and bits: "11 \<le> usize_bits P"
    and key: "case content view (store_of e) key_store_key of None \<Rightarrow> True | Some v \<Rightarrow> length v = 64"
  shows "\<exists>v e'. get_master_keys P e = (Inr (master_of v), e') \<and> holds_master P view v e' \<and>
    (\<forall>k. k \<noteq> key_store_key \<longrightarrow> content view (store_of e') k = content view (store_of e) k)"
proof (cases "content view (store_of e) key_store_key")
  case (Some v)
  then have "holds_master P view v e" using inv key by (simp add: holds_master_def)
  then show ?thesis using holds_masterD(1) by blast
next
  case None
  let ?v = "random_u8x32 (crypto_of P) (draws e) @ random_u8x32 (crypto_of P) (Suc (draws e))"
  obtain s' where s': "transaction (pddb_of P) [Insert key_store_key ?v] (store_of e) = (Inr (), s')"
    "store_inv (usize_bits P) (pddb_of P) view s'" "content view s' = (content view (store_of e))(key_store_key \<mapsto> ?v)"
    using st.insert_one [OF inv storage_keys_fit(10) [OF bits], of ?v] by auto
  have len: "length ?v = 64" using crypto_okD(3) [OF C] by simp
  have "get_master_keys P e = (Inr (master_of ?v), e\<lparr>store_of := s', draws := Suc (Suc (draws e))\<rparr>)"
    using None s'(1) len
    by (simp add: get_master_keys_def st.find [OF inv] gen_uniform_u8x32_def insert_key_def master_of_def)
  then show ?thesis
    using s' len by (intro exI [of _ ?v] exI) (auto simp: holds_master_def)
qed

lemma encryption_key_drawn:
  assumes "crypto_ok (crypto_of P)" "env_inv P view e" "11 \<le> usize_bits P"
    "case content view (store_of e) key_store_key of None \<Rightarrow> True | Some v \<Rightarrow> length v = 64"
  shows "\<exists>v e'. from_key_store (key_handle_encryption P) e = (Inr (take 32 v), e') \<and> holds_master P view v e' \<and>
    (\<forall>k. k \<noteq> key_store_key \<longrightarrow> content view (store_of e') k = content view (store_of e) k)"
proof -
  obtain v e' where v: "get_master_keys P e = (Inr (master_of v), e')" "holds_master P view v e'"
    "\<forall>k. k \<noteq> key_store_key \<longrightarrow> content view (store_of e') k = content view (store_of e) k"
    using master_keys_drawn [OF assms] by blast
  then have "from_key_store (key_handle_encryption P) e = (Inr (take 32 v), e')"
    by (simp add: from_key_store_def key_handle_encryption_def sbind_def master_of_def)
  then show ?thesis using v by blast
qed

section \<open>The round trip\<close>

lemma decrypt_own_id:
  assumes C: "crypto_ok (crypto_of P)" and keys: "holds_master P view v e" and bits: "11 \<le> usize_bits P"
    and ok: "id_source_ok s" and len: "length ct = 208"
    and padded: "remove_padding p = Inr (enc (cbor_of_id_source s))"
    and dec: "aes256_cbc_decrypt (crypto_of P) (take 32 v) ct True = Inr p"
  defines "signed_part \<equiv> cbor_credential_id_version # ct"
  defines "cred \<equiv> signed_part @ hmac_256 (crypto_of P) (take 32 (drop 32 v)) signed_part"
  shows "length cred = 241" and
    "decrypt_credential_id P cred h e = (Inr (if h = ids_rp_id_hash s then Some (credential_of_id cred s) else None), e)"
proof -
  let ?mac = "hmac_256 (crypto_of P) (take 32 (drop 32 v)) signed_part"
  have mac: "length ?mac = 32" by (rule length_hmac_256 [OF C])
  then show cred: "length cred = 241" using len by (simp add: cred_def signed_part_def)
  have parts: "take 209 cred = signed_part" "drop 209 cred = ?mac" "hd cred = cbor_credential_id_version"
    using len by (simp_all add: cred_def signed_part_def)
  have "ctap_cbor_read (usize_bits P) (enc (cbor_of_id_source s)) = Inr (cbor_of_id_source s)"
    using storable_id_source [OF ok bits] ctap_cbor_round_trip by (fastforce simp: storable_def)
  then have "decrypt_cbor_credential_id P ct e = (Inr (Some s), e)"
    by (simp add: decrypt_cbor_credential_id_def holds_masterD [OF keys] dec padded id_source_round_trip [OF ok])
  moreover have "drop (Suc 0) signed_part = ct" by (simp add: signed_part_def)
  ultimately show "decrypt_credential_id P cred h e =
      (Inr (if h = ids_rp_id_hash s then Some (credential_of_id cred s) else None), e)"
    using cred parts
    by (auto simp: decrypt_credential_id_def legacy_credential_id_size_def cbor_credential_id_size_def Let_def
        verify_hmac_256_def holds_masterD [OF keys] sbind_def)
qed

lemma encrypt_decrypt_ok:
  assumes C: "crypto_ok (crypto_of P)" and inv: "env_inv P view e" and bits: "11 \<le> usize_bits P"
    and key: "case content view (store_of e) key_store_key of None \<Rightarrow> True | Some v \<Rightarrow> length v = 64"
    and ok: "id_source_ok s"
  shows "\<exists>cred v e'. encrypt_to_credential_id P s e = (Inr cred, e') \<and> length cred = 241 \<and> holds_master P view v e' \<and>
    (\<forall>k. k \<noteq> key_store_key \<longrightarrow> content view (store_of e') k = content view (store_of e) k) \<and>
    (\<forall>h e''. holds_master P view v e'' \<longrightarrow> decrypt_credential_id P cred h e'' =
      (Inr (if h = ids_rp_id_hash s then Some (credential_of_id cred s) else None), e''))"
proof -
  let ?pt = "enc (cbor_of_id_source s)"
  have w: "ctap_cbor_write (cbor_of_id_source s) [] = (Inr (), ?pt)"
    using storable_id_source [OF ok bits] ctap_cbor_round_trip [of "usize_bits P" "cbor_of_id_source s"]
    by (simp add: storable_def)
  have "?pt \<noteq> []" by (simp add: cbor_of_id_source_def head_eq)
  then obtain p where p: "add_padding ?pt = Inr p" "length p = 192" "remove_padding p = Inr ?pt"
    using add_padding_ok length_enc_id_source [OF ok] by force
  obtain v e1 where e1: "from_key_store (key_handle_encryption P) e = (Inr (take 32 v), e1)"
    "holds_master P view v e1" "\<forall>k. k \<noteq> key_store_key \<longrightarrow> content view (store_of e1) k = content view (store_of e) k"
    using encryption_key_drawn [OF C inv bits key] by blast
  obtain ct where ct: "aes256_cbc_encrypt (crypto_of P) (take 32 v) p True (draws e1) = (Inr ct, Suc (draws e1))"
    "length ct = 208" "aes256_cbc_decrypt (crypto_of P) (take 32 v) ct True = Inr p"
    using aes256_cbc_encrypt_ok [OF C, of p "take 32 v" True "draws e1"] p(2) by auto
  let ?e = "e1\<lparr>draws := Suc (draws e1)\<rparr>"
  let ?signed = "cbor_credential_id_version # ct"
  let ?cred = "?signed @ hmac_256 (crypto_of P) (take 32 (drop 32 v)) ?signed"
  have keys: "holds_master P view v ?e" using e1(2) by (simp add: holds_master_def)
  have "encrypt_to_credential_id P s e = (Inr ?cred, ?e)"
    using w p(1) e1(1) ct(1) holds_masterD(3) [OF keys]
    by (simp add: encrypt_to_credential_id_def sbind_def Let_def)
  then show ?thesis
    using decrypt_own_id [OF C _ bits ok ct(2) p(3) ct(3)] keys e1(3)
    by (intro exI [of _ ?cred] exI [of _ v] exI [of _ ?e]) simp
qed

text \<open>C22: a credential ID that the authenticator encrypts takes 241 bytes and can always be made for a
  credential whose blob is within the limit of 64 bytes; as long as the master keys are kept, every
  later state decrypts it to the same key, protection policy and blob for the relying party it was
  made for, and to nothing for another one.\<close>

theorem credential_id_round_trip:
  assumes C: "crypto_ok (crypto_of P)" and inv: "env_inv P view e" and bits: "11 \<le> usize_bits P"
    and key: "case content view (store_of e) key_store_key of None \<Rightarrow> True | Some v \<Rightarrow> length v = 64"
    and ok: "id_source_ok s"
  shows "\<exists>cred v e'. encrypt_to_credential_id P s e = (Inr cred, e') \<and> length cred = 241 \<and> holds_master P view v e' \<and>
    (\<forall>k. k \<noteq> key_store_key \<longrightarrow> content view (store_of e') k = content view (store_of e) k) \<and>
    (\<forall>h e''. holds_master P view v e'' \<longrightarrow> decrypt_credential_id P cred h e'' =
      (Inr (if h = ids_rp_id_hash s then Some (credential_of_id cred s) else None), e''))"
  using assms by (rule encrypt_decrypt_ok)

definition toy_id_source :: id_source where
  "toy_id_source = \<lparr>ids_private_key = Ecdsa (replicate 32 7), ids_rp_id_hash = replicate 32 8,
     ids_cred_protect = Some UserVerificationRequired, ids_cred_blob = None\<rparr>"

lemma credential_id_round_trip_witness:
  "\<exists>cred e'. encrypt_to_credential_id toy_platform toy_id_source (toy_env []) = (Inr cred, e') \<and>
     decrypt_credential_id toy_platform cred (replicate 32 8) e' = (Inr (Some (credential_of_id cred toy_id_source)), e')"
proof -
  have ok: "id_source_ok toy_id_source"
    by (simp add: id_source_ok_def toy_id_source_def private_key_bytes_def)
  have h: "ids_rp_id_hash toy_id_source = replicate 32 8" by (simp add: toy_id_source_def)
  have inv: "env_inv toy_platform map_of (toy_env [])" using toy_env_inv by simp
  obtain cred v e' where "encrypt_to_credential_id toy_platform toy_id_source (toy_env []) = (Inr cred, e')"
    "holds_master toy_platform map_of v e'"
    "\<forall>h e''. holds_master toy_platform map_of v e'' \<longrightarrow> decrypt_credential_id toy_platform cred h e'' =
      (Inr (if h = ids_rp_id_hash toy_id_source then Some (credential_of_id cred toy_id_source) else None), e'')"
    using credential_id_round_trip [OF _ inv _ _ ok] toy_crypto_ok by (auto simp: toy_env_content)
  then show ?thesis using h by (intro exI [of _ cred] exI [of _ e']) simp
qed

section \<open>Authenticity\<close>

lemma decrypt_authentic:
  assumes "decrypt_credential_id P cred h e = (Inr (Some c), e')"
  shows "length cred \<in> {112, 241} \<and> c = credential_of_id cred \<lparr>ids_private_key = cs_private_key c,
      ids_rp_id_hash = h, ids_cred_protect = cs_cred_protect c, ids_cred_blob = cs_cred_blob c\<rparr> \<and>
    (\<exists>auth e1. from_key_store (key_handle_authentication P) e = (Inr auth, e1) \<and>
       drop (length cred - 32) cred = hmac_256 (crypto_of P) auth (take (length cred - 32) cred))"
proof -
  let ?n = "length cred - 32"
  have long: "\<not> length cred < legacy_credential_id_size"
    using assms by (auto simp: decrypt_credential_id_def)
  note run = assms [unfolded decrypt_credential_id_def Let_def if_not_P [OF long]]
  obtain auth e1 where auth: "from_key_store (key_handle_authentication P) e = (Inr auth, e1)"
    and rest: "(if \<not> verify_hmac_256 (crypto_of P) auth (take ?n cred) (drop ?n cred) then sret None
         else sbind (if length cred = legacy_credential_id_size
                     then decrypt_legacy_credential_id P (take ?n cred)
                     else if hd cred \<noteq> cbor_credential_id_version
                             \<or> length cred \<noteq> cbor_credential_id_size then sret None
                     else decrypt_cbor_credential_id P (drop 1 (take ?n cred))) (\<lambda>source.
              sret (case source of
                      None \<Rightarrow> None
                    | Some s \<Rightarrow> if h \<noteq> ids_rp_id_hash s then None
                                else Some (credential_of_id cred s)))) e1 = (Inr (Some c), e')"
    using run [unfolded sbind_Inr_iff [of "from_key_store _"]] by blast
  have mac: "verify_hmac_256 (crypto_of P) auth (take ?n cred) (drop ?n cred)"
    using rest by (cases "verify_hmac_256 (crypto_of P) auth (take ?n cred) (drop ?n cred)") simp_all
  obtain source where source: "c = credential_of_id cred source" "h = ids_rp_id_hash source"
    and len: "length cred = legacy_credential_id_size \<or> length cred = cbor_credential_id_size"
    using rest mac by (force simp: sbind_Inr_iff split: if_split_asm option.split_asm)
  then show ?thesis
    using auth mac len
    by (cases source) (auto simp: verify_hmac_256_def credential_of_id_def legacy_credential_id_size_def
        cbor_credential_id_size_def)
qed

text \<open>The authenticator only recovers a credential from an ID whose last 32 bytes are the HMAC of the
  rest under its own authentication key, and which has one of the two known lengths.\<close>

theorem credential_id_authentic:
  assumes "decrypt_credential_id P cred h e = (Inr (Some c), e')"
  shows "length cred \<in> {112, 241} \<and> cs_id c = cred \<and>
    (\<exists>auth e1. from_key_store (key_handle_authentication P) e = (Inr auth, e1) \<and>
       drop (length cred - 32) cred = hmac_256 (crypto_of P) auth (take (length cred - 32) cred))"
  using decrypt_authentic [OF assms] by (auto simp: credential_of_id_def dest: arg_cong [of c _ cs_id])

lemma credential_id_authentic_witness:
  "\<exists>cred c e' e1. decrypt_credential_id toy_platform cred (replicate 32 8) e' = (Inr (Some c), e1) \<and>
     cs_id c = cred \<and> length cred \<in> {112, 241}"
proof -
  have ok: "id_source_ok toy_id_source" "ids_rp_id_hash toy_id_source = replicate 32 8"
    by (simp_all add: id_source_ok_def toy_id_source_def private_key_bytes_def)
  have inv: "env_inv toy_platform map_of (toy_env [])" using toy_env_inv by simp
  obtain cred v e' where "holds_master toy_platform map_of v e'"
    "\<forall>h e''. holds_master toy_platform map_of v e'' \<longrightarrow> decrypt_credential_id toy_platform cred h e'' =
      (Inr (if h = ids_rp_id_hash toy_id_source then Some (credential_of_id cred toy_id_source) else None), e'')"
    using encrypt_decrypt_ok [OF _ inv _ _ ok(1)] toy_crypto_ok by (auto simp: toy_env_content)
  then have "decrypt_credential_id toy_platform cred (replicate 32 8) e' =
      (Inr (Some (credential_of_id cred toy_id_source)), e')"
    using ok(2) by simp
  then show ?thesis using credential_id_authentic by blast
qed

end
