(* ===== verification/Stateful.thy ===== *)
theory Stateful
  imports Data_Requests Hid
begin

text \<open>
  The state that spans several commands, \<open>StatefulCommand\<close> and \<open>StatefulPermission\<close> of
  \<open>src/ctap/mod.rs\<close>: which multi-step command is in progress, until when, and on which channel. The
  build has no vendor HID, so a channel is its CTAPHID channel ID.
\<close>

record assertion_input =
  ai_client_data_hash :: bytes
  ai_auth_data :: bytes
  ai_extensions :: get_assertion_extensions
  ai_has_uv :: bool

text \<open>The keys are sorted by ascending creation order; \<open>pop\<close> takes the last one.\<close>

record assertion_state =
  as_assertion_input :: assertion_input
  as_next_credential_keys :: "nat list"

datatype stateful_command =
    StatefulReset
  | StatefulGetAssertion assertion_state
  | EnumerateRps nat
  | EnumerateCredentials "nat list"

record stateful_permission =
  sp_permission :: timed_permission
  sp_command :: "stateful_command option"
  sp_channel :: "channel_id option"

text \<open>The reset window of a build with the feature \<open>xous\<close>.\<close>

definition reset_timeout_duration :: nat where
  "reset_timeout_duration = from_millis 20000"

definition stateful_command_timeout_duration :: nat where
  "stateful_command_timeout_duration = from_millis 30000"

definition new_reset :: "instant \<Rightarrow> stateful_permission" where
  "new_reset now = \<lparr>sp_permission = granted now reset_timeout_duration,
     sp_command = Some StatefulReset, sp_channel = None\<rparr>"

definition sp_clear :: "stateful_permission \<Rightarrow> stateful_permission" where
  "sp_clear s = s\<lparr>sp_permission := Waiting, sp_command := None, sp_channel := None\<rparr>"

definition clear_old_channels :: "channel_id \<Rightarrow> stateful_permission \<Rightarrow> stateful_permission" where
  "clear_old_channels channel s =
     (case sp_channel s of
        Some c \<Rightarrow> if c \<noteq> channel then sp_clear s else s
      | None \<Rightarrow> s)"

definition clear_timer :: "instant \<Rightarrow> stateful_permission \<Rightarrow> stateful_permission" where
  "clear_timer now s = (if \<not> is_granted (sp_permission s) now then sp_clear s else s)"

definition get_command :: "stateful_permission \<Rightarrow> status + stateful_command" where
  "get_command s = ok_or (sp_command s) CTAP2_ERR_NOT_ALLOWED"

text \<open>
  \<open>set_command\<close> panics when it is given \<open>Reset\<close>, which is \<open>None\<close> here; its three callers pass the other
  commands and use \<open>start_command\<close>.
\<close>

definition start_command ::
  "instant \<Rightarrow> stateful_command \<Rightarrow> channel_id \<Rightarrow> stateful_permission \<Rightarrow> stateful_permission" where
  "start_command now new_command channel s =
     s\<lparr>sp_permission := granted now stateful_command_timeout_duration, sp_command := Some new_command,
       sp_channel := Some channel\<rparr>"

definition set_command ::
  "instant \<Rightarrow> stateful_command \<Rightarrow> channel_id \<Rightarrow> stateful_permission \<Rightarrow> stateful_permission option" where
  "set_command now new_command channel s =
     (case new_command of
        StatefulReset \<Rightarrow> None
      | _ \<Rightarrow> Some (start_command now new_command channel s))"

definition next_assertion_credential ::
  "stateful_permission \<Rightarrow> (status + assertion_input \<times> nat) \<times> stateful_permission" where
  "next_assertion_credential s =
     (case sp_command s of
        Some (StatefulGetAssertion a) \<Rightarrow>
          (if as_next_credential_keys a = [] then (Inl CTAP2_ERR_NOT_ALLOWED, s)
           else (Inr (as_assertion_input a, last (as_next_credential_keys a)),
                 s\<lparr>sp_command := Some (StatefulGetAssertion
                     (a\<lparr>as_next_credential_keys := butlast (as_next_credential_keys a)\<rparr>))\<rparr>))
      | _ \<Rightarrow> (Inl CTAP2_ERR_NOT_ALLOWED, s))"

text \<open>The index counts the answers of one enumeration, so it does not overflow \<open>usize\<close>.\<close>

definition next_enumerate_rp :: "stateful_permission \<Rightarrow> (status + nat) \<times> stateful_permission" where
  "next_enumerate_rp s =
     (case sp_command s of
        Some (EnumerateRps i) \<Rightarrow> (Inr i, s\<lparr>sp_command := Some (EnumerateRps (i + 1))\<rparr>)
      | _ \<Rightarrow> (Inl CTAP2_ERR_NOT_ALLOWED, s))"

definition next_enumerate_credential :: "stateful_permission \<Rightarrow> (status + nat) \<times> stateful_permission" where
  "next_enumerate_credential s =
     (case sp_command s of
        Some (EnumerateCredentials ks) \<Rightarrow>
          (if ks = [] then (Inl CTAP2_ERR_NOT_ALLOWED, s)
           else (Inr (last ks), s\<lparr>sp_command := Some (EnumerateCredentials (butlast ks))\<rparr>))
      | _ \<Rightarrow> (Inl CTAP2_ERR_NOT_ALLOWED, s))"

text \<open>A command in progress has a deadline, and belongs to a channel unless it is the initial reset.\<close>

definition stateful_inv :: "stateful_permission \<Rightarrow> bool" where
  "stateful_inv s \<longleftrightarrow>
     (case sp_command s of
        None \<Rightarrow> sp_permission s = Waiting \<and> sp_channel s = None
      | Some StatefulReset \<Rightarrow> sp_channel s = None \<and> sp_permission s \<noteq> Waiting
      | Some _ \<Rightarrow> sp_channel s \<noteq> None \<and> sp_permission s \<noteq> Waiting)"

lemma stateful_inv_steps:
  "stateful_inv (new_reset now)"
  "stateful_inv (sp_clear s)"
  "stateful_inv s \<Longrightarrow> stateful_inv (clear_old_channels channel s)"
  "stateful_inv s \<Longrightarrow> stateful_inv (clear_timer now s)"
  "new \<noteq> StatefulReset \<Longrightarrow> stateful_inv (start_command now new channel s)"
  "stateful_inv s \<Longrightarrow> stateful_inv (snd (next_assertion_credential s))"
  "stateful_inv s \<Longrightarrow> stateful_inv (snd (next_enumerate_rp s))"
  "stateful_inv s \<Longrightarrow> stateful_inv (snd (next_enumerate_credential s))"
  by (auto simp: stateful_inv_def new_reset_def sp_clear_def clear_old_channels_def clear_timer_def
      start_command_def next_assertion_credential_def next_enumerate_rp_def next_enumerate_credential_def
      granted_def split: option.splits stateful_command.splits)

end
