(* ===== verification/Credential_Management.thy ===== *)
theory Credential_Management
  imports Large_Blobs Credential_Store Credential_Id Stateful "HOL-Library.List_Lexorder"
begin

text \<open>
  The authenticatorCredentialManagement command, \<open>src/ctap/credential_management.rs\<close>: metadata,
  enumeration of relying parties and credentials over several requests, deletion and update. The
  handlers mutate the environment, the PIN state and the state of the command in progress.
\<close>

type_synonym ('p, 'a) management_op = "(('p env \<times> client_pin) \<times> stateful_permission, status, 'a) op"

section \<open>Responses\<close>

text \<open>A \<open>BTreeSet\<close> of strings is the sorted list without duplicates; strings compare by their bytes.\<close>

definition get_stored_rp_ids :: "'p platform \<Rightarrow> ('p, rust_string list) env_op" where
  "get_stored_rp_ids P =
     sbind (iter_credentials P) (\<lambda>(items, iter_result).
     sbind (slift (\<lambda>_. iter_result)) (\<lambda>_.
       sret (sort (remdups (map (\<lambda>(_, c). cs_rp_id c) items)))))"

definition enumerate_rps_response :: "crypto \<Rightarrow> rust_string \<Rightarrow> u64 option \<Rightarrow> management_response" where
  "enumerate_rps_response C rp total_rps =
     default_management_response\<lparr>mgr_rp := Some \<lparr>rp_id = rp, rp_name = None, rp_icon = None\<rparr>,
       mgr_rp_id_hash := Some (sha256 C rp), mgr_total_rps := total_rps\<rparr>"

definition enumerate_credentials_response ::
  "'p platform \<Rightarrow> credential_source \<Rightarrow> u64 option \<Rightarrow> status + management_response" where
  "enumerate_credentials_response P c total_credentials =
     rbind (get_pub_key P (cs_private_key c)) (\<lambda>public_key.
       Inr (default_management_response\<lparr>
         mgr_user := Some \<lparr>user_id = cs_user_handle c, user_name = cs_user_name c,
                           user_display_name = cs_user_display_name c, user_icon = cs_user_icon c\<rparr>,
         mgr_credential_id := Some \<lparr>desc_type = cs_type c, desc_id = cs_id c, desc_transports = None\<rparr>,
         mgr_public_key := Some public_key, mgr_total_credentials := total_credentials,
         mgr_cred_protect := cs_cred_protect c, mgr_large_blob_key := cs_large_blob_key c\<rparr>))"

section \<open>Subcommands\<close>

definition check_rp_id_permissions :: "'p platform \<Rightarrow> bytes \<Rightarrow> ('p, unit) pin_op" where
  "check_rp_id_permissions P cred_id = (\<lambda>(e, c).
     if is_ok (has_no_rp_id_permission c) then (Inr (), (e, c))
     else sbind (on_env (find_credential_item P cred_id)) (\<lambda>(_, credential).
            get_pin (has_no_or_rp_id_permission (cs_rp_id credential))) (e, c))"

definition process_get_creds_metadata :: "'p platform \<Rightarrow> ('p, management_response) env_op" where
  "process_get_creds_metadata P =
     sbind (count_credentials P) (\<lambda>count.
     sbind (remaining_credentials P) (\<lambda>remaining.
       sret (default_management_response\<lparr>mgr_existing_count := Some (of_nat count),
               mgr_max_remaining_count := Some (of_nat remaining)\<rparr>)))"

definition process_enumerate_rps_begin ::
  "'p platform \<Rightarrow> channel_id \<Rightarrow> instant \<Rightarrow> ('p, management_response) management_op" where
  "process_enumerate_rps_begin P channel now =
     sbind (beside (on_env (get_stored_rp_ids P))) (\<lambda>rp_set.
     sbind (if length rp_set > 1
            then on_second (\<lambda>s. (Inr (), start_command now (EnumerateRps 1) channel s))
            else sret ()) (\<lambda>_.
       if rp_set = [] then sfail CTAP2_ERR_NO_CREDENTIALS
       else sret (enumerate_rps_response (crypto_of P) (hd rp_set) (Some (of_nat (length rp_set))))))"

definition process_enumerate_rps_get_next_rp :: "'p platform \<Rightarrow> ('p, management_response) management_op" where
  "process_enumerate_rps_get_next_rp P =
     sbind (on_second next_enumerate_rp) (\<lambda>i.
     sbind (beside (on_env (get_stored_rp_ids P))) (\<lambda>rp_set.
       if i < length rp_set then sret (enumerate_rps_response (crypto_of P) (rp_set ! i) None)
       else sfail CTAP2_ERR_NOT_ALLOWED))"

definition process_enumerate_credentials_begin ::
  "'p platform \<Rightarrow> credential_management_params \<Rightarrow> channel_id \<Rightarrow> instant \<Rightarrow>
     ('p, management_response) management_op" where
  "process_enumerate_credentials_begin P params channel now =
     sbind (slift (\<lambda>_. ok_or_missing (cmp_rp_id_hash params))) (\<lambda>h.
     sbind (beside (get_pin (has_no_or_rp_id_hash_permission (crypto_of P) h))) (\<lambda>_.
     sbind (beside (on_env (iter_credentials P))) (\<lambda>(items, iter_result).
       let rp_credentials = map fst (filter (\<lambda>(_, c). sha256 (crypto_of P) (cs_rp_id c) = h) items)
     in sbind (slift (\<lambda>_. iter_result)) (\<lambda>_.
       if rp_credentials = [] then sfail CTAP2_ERR_NO_CREDENTIALS
       else sbind (beside (on_env (get_credential P (last rp_credentials)))) (\<lambda>credential.
            sbind (if length rp_credentials > 1
                   then on_second (\<lambda>s. (Inr (), start_command now
                          (EnumerateCredentials (butlast rp_credentials)) channel s))
                   else sret ()) (\<lambda>_.
              slift (\<lambda>_. enumerate_credentials_response P credential
                (Some (of_nat (length rp_credentials))))))))))"

definition process_enumerate_credentials_get_next ::
  "'p platform \<Rightarrow> ('p, management_response) management_op" where
  "process_enumerate_credentials_get_next P =
     sbind (on_second next_enumerate_credential) (\<lambda>k.
     sbind (beside (on_env (get_credential P k))) (\<lambda>credential.
       slift (\<lambda>_. enumerate_credentials_response P credential None)))"

definition process_delete_credential :: "'p platform \<Rightarrow> credential_management_params \<Rightarrow> ('p, unit) pin_op" where
  "process_delete_credential P params =
     sbind (required (cmp_credential_id params)) (\<lambda>d.
     sbind (check_rp_id_permissions P (desc_id d)) (\<lambda>_.
       on_env (delete_credential P (desc_id d))))"

definition process_update_user_information ::
  "'p platform \<Rightarrow> credential_management_params \<Rightarrow> ('p, unit) pin_op" where
  "process_update_user_information P params =
     sbind (required (cmp_credential_id params)) (\<lambda>d.
     sbind (required (cmp_user params)) (\<lambda>user.
     sbind (check_rp_id_permissions P (desc_id d)) (\<lambda>_.
       on_env (update_credential P (desc_id d) user))))"

section \<open>The command\<close>

definition keeps_enumeration :: "credential_management_subcommand \<Rightarrow> stateful_permission \<Rightarrow> bool" where
  "keeps_enumeration sub s =
     (case (sub, get_command s) of
        (EnumerateRpsGetNextRp, Inr (EnumerateRps _)) \<Rightarrow> True
      | (EnumerateCredentialsGetNextCredential, Inr (EnumerateCredentials _)) \<Rightarrow> True
      | _ \<Rightarrow> False)"

definition management_signed_data ::
  "credential_management_subcommand \<Rightarrow> credential_management_params option \<Rightarrow> status + bytes" where
  "management_signed_data sub params =
     (let data = [ucast (credential_management_subcommand_code sub)]
      in case params of
           None \<Rightarrow> Inr data
         | Some p \<Rightarrow> (let (r, out) = ctap_cbor_write (cbor_of_credential_management_params p) data
                      in rbind r (\<lambda>_. Inr out)))"

definition authorize_management :: "'p platform \<Rightarrow> management_params \<Rightarrow> ('p, unit) pin_op" where
  "authorize_management P params =
     (if mgp_sub_command params \<in> {EnumerateRpsGetNextRp, EnumerateCredentialsGetNextCredential} then sret ()
      else check_token P (management_signed_data (mgp_sub_command params) (mgp_sub_command_params params))
             CredentialManagement (mgp_pin_uv_auth_param params) (mgp_pin_uv_auth_protocol params))"

definition process_credential_management ::
  "'p platform \<Rightarrow> management_params \<Rightarrow> channel_id \<Rightarrow> instant \<Rightarrow>
     ('p, management_response option) management_op" where
  "process_credential_management P params channel now =
     sbind (on_second (\<lambda>s. (Inr (), if keeps_enumeration (mgp_sub_command params) s then s else sp_clear s))) (\<lambda>_.
     sbind (beside (authorize_management P params)) (\<lambda>_.
       case mgp_sub_command params of
         GetCredsMetadata \<Rightarrow>
           sbind (beside (get_pin has_no_rp_id_permission)) (\<lambda>_.
           sbind (beside (on_env (process_get_creds_metadata P))) (\<lambda>r. sret (Some r)))
       | EnumerateRpsBegin \<Rightarrow>
           sbind (beside (get_pin has_no_rp_id_permission)) (\<lambda>_.
           sbind (process_enumerate_rps_begin P channel now) (\<lambda>r. sret (Some r)))
       | EnumerateRpsGetNextRp \<Rightarrow>
           sbind (process_enumerate_rps_get_next_rp P) (\<lambda>r. sret (Some r))
       | EnumerateCredentialsBegin \<Rightarrow>
           sbind (slift (\<lambda>_. ok_or_missing (mgp_sub_command_params params))) (\<lambda>p.
           sbind (process_enumerate_credentials_begin P p channel now) (\<lambda>r. sret (Some r)))
       | EnumerateCredentialsGetNextCredential \<Rightarrow>
           sbind (process_enumerate_credentials_get_next P) (\<lambda>r. sret (Some r))
       | DeleteCredential \<Rightarrow>
           sbind (slift (\<lambda>_. ok_or_missing (mgp_sub_command_params params))) (\<lambda>p.
           sbind (beside (process_delete_credential P p)) (\<lambda>_. sret None))
       | UpdateUserInformation \<Rightarrow>
           sbind (slift (\<lambda>_. ok_or_missing (mgp_sub_command_params params))) (\<lambda>p.
           sbind (beside (process_update_user_information P p)) (\<lambda>_. sret None))))"

end
