(* ===== verification/Ctap_State.thy ===== *)
theory Ctap_State
  imports Credential_Management Config_Command Large_Blobs
begin

text \<open>
  \<open>CtapState\<close> of \<open>src/ctap/mod.rs\<close> and the helpers its handlers share. The handlers are operations on
  the environment and this state; they may also panic, so their errors are status codes or \<open>Panic\<close>.
  The state machine of the CTAP1 user presence is in the state but only a build without the feature
  \<open>xous\<close> reads it.
\<close>

section \<open>State and calls of components\<close>

record ctap_state =
  ctap_client_pin :: client_pin
  ctap_u2f_up :: u2f_presence
  ctap_stateful :: stateful_permission
  ctap_large_blobs :: large_blobs

datatype fault = Status status | Panic

type_synonym ('p, 'a) ctap_op = "('p env \<times> ctap_state, fault, 'a) op"

definition err :: "status \<Rightarrow> ('p, 'a) ctap_op" where
  "err x = sfail (Status x)"

definition panic :: "('p, 'a) ctap_op" where
  "panic = sfail Panic"

definition env_call :: "('p, 'a) env_op \<Rightarrow> ('p, 'a) ctap_op" where
  "env_call f = (\<lambda>(e, c). let (r, e) = f e in (map_sum Status id r, (e, c)))"

definition pin_call :: "('p, 'a) pin_op \<Rightarrow> ('p, 'a) ctap_op" where
  "pin_call f = (\<lambda>(e, c).
     let (r, (e, p)) = f (e, ctap_client_pin c) in (map_sum Status id r, (e, c\<lparr>ctap_client_pin := p\<rparr>)))"

definition stateful_call :: "(stateful_permission \<Rightarrow> (status + 'a) \<times> stateful_permission) \<Rightarrow> ('p, 'a) ctap_op" where
  "stateful_call g = (\<lambda>(e, c).
     let (r, s) = g (ctap_stateful c) in (map_sum Status id r, (e, c\<lparr>ctap_stateful := s\<rparr>)))"

definition blobs_call :: "('p, 'a) blob_op \<Rightarrow> ('p, 'a) ctap_op" where
  "blobs_call f = (\<lambda>(e, c).
     let (r, ((e, p), l)) = f ((e, ctap_client_pin c), ctap_large_blobs c)
     in (map_sum Status id r, (e, c\<lparr>ctap_client_pin := p, ctap_large_blobs := l\<rparr>)))"

definition management_call :: "('p, 'a) management_op \<Rightarrow> ('p, 'a) ctap_op" where
  "management_call f = (\<lambda>(e, c).
     let (r, ((e, p), s)) = f ((e, ctap_client_pin c), ctap_stateful c)
     in (map_sum Status id r, (e, c\<lparr>ctap_client_pin := p, ctap_stateful := s\<rparr>)))"

definition result_call :: "status + 'a \<Rightarrow> ('p, 'a) ctap_op" where
  "result_call r = slift (\<lambda>_. map_sum Status id r)"

section \<open>Constants\<close>

definition up_flag :: u8 where "up_flag = 0x01"
definition uv_flag :: u8 where "uv_flag = 0x04"
definition at_flag :: u8 where "at_flag = 0x40"
definition ed_flag :: u8 where "ed_flag = 0x80"

definition touch_timeout :: nat where "touch_timeout = from_millis 30000"
definition u2f_up_prompt_timeout :: nat where "u2f_up_prompt_timeout = from_millis 10000"

definition fresh_u2f_up :: u2f_presence where
  "fresh_u2f_up = new_u2f_presence u2f_up_prompt_timeout touch_timeout"

definition supported_cred_params :: "credential_parameter list" where
  "supported_cred_params =
     [\<lparr>cred_type = PublicKey, alg = Es256\<rparr>, \<lparr>cred_type = PublicKey, alg = Eddsa\<rparr>]"

definition get_preferred_cred_param :: "credential_parameter list \<Rightarrow> credential_parameter option" where
  "get_preferred_cred_param params = find (\<lambda>p. p \<in> set supported_cred_params) params"

section \<open>Strings\<close>

text \<open>A byte offset is a character boundary unless it points at a UTF-8 continuation byte.\<close>

definition is_char_boundary :: "rust_string \<Rightarrow> nat \<Rightarrow> bool" where
  "is_char_boundary s n \<longleftrightarrow> n = 0 \<or> n = length s \<or> n < length s \<and> \<not> utf8_cont (s ! n)"

fun boundary_at_most :: "rust_string \<Rightarrow> nat \<Rightarrow> nat" where
  "boundary_at_most s 0 = 0"
| "boundary_at_most s (Suc n) = (if is_char_boundary s (Suc n) then Suc n else boundary_at_most s n)"

definition truncate_to_char_boundary :: "rust_string \<Rightarrow> nat \<Rightarrow> rust_string" where
  "truncate_to_char_boundary s n = (if n \<ge> length s then s else take (boundary_at_most s n) s)"

section \<open>User presence\<close>

text \<open>
  \<open>check_user_presence\<close> asks the user once and reports what the platform answers; the answer to the
  \<open>n\<close>-th prompt is \<open>touch n\<close>.
\<close>

definition check_user_presence :: "'p platform \<Rightarrow> channel_id \<Rightarrow> rust_string \<Rightarrow> ('p, unit) env_op" where
  "check_user_presence P channel reason = (\<lambda>e.
     (map_sum status_of_presence id (touch P (prompts e) reason channel), e\<lparr>prompts := Suc (prompts e)\<rparr>))"

text \<open>\<open>format!("{}\n{}", name, text)\<close>\<close>

definition two_lines :: "rust_string \<Rightarrow> rust_string \<Rightarrow> rust_string" where
  "two_lines a b = a @ [10] @ b"

section \<open>Signature counter and authenticator data\<close>

definition bytes_to_u32 :: "bytes \<Rightarrow> u32 list" where
  "bytes_to_u32 bs = map (\<lambda>i. of_le_bytes (take 4 (drop (4 * i) bs))) [0..<8]"

definition gen_uniform_u32x8 :: "crypto \<Rightarrow> nat \<Rightarrow> u32 list \<times> nat" where
  "gen_uniform_u32x8 C n = (let (b, n) = gen_uniform_u8x32 C n in (bytes_to_u32 b, n))"

definition increment_global_signature_counter :: "'p platform \<Rightarrow> ('p, unit) env_op" where
  "increment_global_signature_counter P =
     (if use_signature_counter (custom P)
      then (\<lambda>e. let (ws, n) = gen_uniform_u32x8 (crypto_of P) (draws e)
                in incr_global_signature_counter P (ws ! 0 mod 8 + 1) (e\<lparr>draws := n\<rparr>))
      else sret ())"

definition generate_auth_data :: "'p platform \<Rightarrow> bytes \<Rightarrow> u8 \<Rightarrow> ('p, bytes) env_op" where
  "generate_auth_data P rp_id_hash flag_byte =
     sbind (global_signature_counter P) (\<lambda>counter. sret (rp_id_hash @ [flag_byte] @ be_bytes 4 counter))"

section \<open>Checks shared by the handlers\<close>

definition pin_uv_auth_precheck ::
  "'p platform \<Rightarrow> bytes option \<Rightarrow> pin_uv_auth_protocol option \<Rightarrow> channel_id \<Rightarrow> ('p, unit) env_op" where
  "pin_uv_auth_precheck P param protocol channel =
     (case param of
        None \<Rightarrow> sret ()
      | Some auth_param \<Rightarrow>
          if auth_param = []
          then sbind (check_user_presence P channel (locale_text P ''vault2.fido.pin_uv_auth'')) (\<lambda>_.
               sbind (pin_hash P) (\<lambda>stored.
                 if stored = None then sfail CTAP2_ERR_PIN_NOT_SET else sfail CTAP2_ERR_PIN_INVALID))
          else slift (\<lambda>_. rbind (ok_or protocol CTAP2_ERR_MISSING_PARAMETER) (\<lambda>_. Inr ())))"

definition check_cred_protect_for_listed_credential :: "credential_source option \<Rightarrow> bool \<Rightarrow> bool" where
  "check_cred_protect_for_listed_credential credential has_uv =
     (case credential of
        Some c \<Rightarrow> has_uv \<or> cs_cred_protect c \<noteq> Some UserVerificationRequired
      | None \<Rightarrow> False)"

text \<open>User verification by a token, the same for makeCredential and getAssertion but for the permission.\<close>

definition verify_user ::
  "'p platform \<Rightarrow> bytes \<Rightarrow> bytes \<Rightarrow> pin_uv_auth_protocol option \<Rightarrow> pin_permission \<Rightarrow> rust_string \<Rightarrow> ('p, unit) pin_op" where
  "verify_user P client_data_hash auth_param protocol permission rp =
     sbind (on_env (pin_hash P)) (\<lambda>stored.
       if stored = None then sfail CTAP2_ERR_PIN_NOT_SET else
     sbind (slift (\<lambda>_. ok_or protocol CTAP2_ERR_MISSING_PARAMETER)) (\<lambda>pr.
     sbind (get_pin (cp_verify_pin_uv_auth_token (crypto_of P) client_data_hash auth_param pr)) (\<lambda>_.
     sbind (get_pin (cp_has_permission permission)) (\<lambda>_.
     sbind (get_pin check_user_verified_flag) (\<lambda>_.
       on_second (ensure_rp_id_permission rp))))))"

section \<open>Power-up and timeouts\<close>

text \<open>Initializing the storage is tried five times; a device where it fails still starts.\<close>

fun init_attempts :: "nat \<Rightarrow> 'p platform \<Rightarrow> 'p env \<Rightarrow> 'p env" where
  "init_attempts 0 P e = e"
| "init_attempts (Suc n) P e =
     (case init P e of (Inr _, e) \<Rightarrow> e | (Inl _, e) \<Rightarrow> init_attempts n P e)"

definition new_ctap_state :: "'p platform \<Rightarrow> instant \<Rightarrow> 'p env \<Rightarrow> ctap_state \<times> 'p env" where
  "new_ctap_state P now e =
     (let e = init_attempts 5 P e; (p, n) = new_client_pin (crypto_of P) (draws e)
      in (\<lparr>ctap_client_pin = p, ctap_u2f_up = fresh_u2f_up, ctap_stateful = new_reset now,
           ctap_large_blobs = new_large_blobs\<rparr>, e\<lparr>draws := n\<rparr>))"

definition update_timeouts :: "instant \<Rightarrow> ctap_state \<Rightarrow> ctap_state" where
  "update_timeouts now c =
     c\<lparr>ctap_stateful := clear_timer now (ctap_stateful c),
       ctap_client_pin := cp_update_timeouts now (ctap_client_pin c)\<rparr>"

end
