(* ===== verification/Make_Credential.thy ===== *)
theory Make_Credential
  imports Ctap_State
begin

text \<open>
  The authenticatorMakeCredential command, \<open>process_make_credential\<close> of \<open>src/ctap/mod.rs\<close>, in the
  order of the code: attestation mode, user verification, the exclude list, the user's consent, the
  extensions, the new key, the credential (stored or encrypted into its ID), the authenticator data
  and the attestation signature.
\<close>

section \<open>Before the user is asked\<close>

text \<open>Whether an enterprise attestation is requested and allowed.\<close>

definition enterprise_requested :: "'p platform \<Rightarrow> u64 option \<Rightarrow> rust_string \<Rightarrow> ('p, bool) env_op" where
  "enterprise_requested P enterprise rp =
     (case enterprise of
        None \<Rightarrow> sret False
      | Some mode \<Rightarrow>
          sbind (slift (\<lambda>_. ok_or (enterprise_mode (custom P)) CTAP1_ERR_INVALID_PARAMETER)) (\<lambda>authenticator_mode.
          sbind (enterprise_attestation P) (\<lambda>enabled.
            if \<not> enabled then sfail CTAP1_ERR_INVALID_PARAMETER else
          sbind (slift (\<lambda>_. enterprise_mode_of_u64 mode)) (\<lambda>requested.
            sret (if requested = PlatformManaged \<and> authenticator_mode = PlatformManaged then True
                  else is_enterprise_rp_id (custom P) rp)))))"

definition make_credential_flags :: "'p platform \<Rightarrow> make_credential_params \<Rightarrow> ('p, u8) pin_op" where
  "make_credential_flags P params =
     (case mcp_pin_uv_auth_param params of
        Some auth_param \<Rightarrow>
          sbind (verify_user P (mcp_client_data_hash params) auth_param (mcp_pin_uv_auth_protocol params)
            MakeCredential (rp_id (mcp_rp params))) (\<lambda>_. sret uv_flag)
      | None \<Rightarrow>
          if mco_uv (mcp_options params) then sfail CTAP2_ERR_INVALID_OPTION else
          sbind (on_env (has_always_uv P)) (\<lambda>always_uv.
            if always_uv then sfail CTAP2_ERR_PUAT_REQUIRED else
          sbind (if mco_rk (mcp_options params)
                 then sbind (on_env (pin_hash P)) (\<lambda>stored.
                        if stored \<noteq> None then sfail CTAP2_ERR_PUAT_REQUIRED else sret ())
                 else sret ()) (\<lambda>_. sret 0x00)))"

text \<open>The result of asking the user about an excluded credential is ignored.\<close>

definition ignore_result :: "('s, 'e, unit) op \<Rightarrow> ('s, 'e, unit) op" where
  "ignore_result f = (\<lambda>s. (Inr (), snd (f s)))"

fun check_exclude_list ::
  "'p platform \<Rightarrow> rust_string \<Rightarrow> bytes \<Rightarrow> bool \<Rightarrow> channel_id \<Rightarrow> rust_string \<Rightarrow> credential_descriptor list \<Rightarrow>
     ('p, unit) env_op" where
  "check_exclude_list P rp rp_id_hash has_uv channel name [] = sret ()"
| "check_exclude_list P rp rp_id_hash has_uv channel name (d # ds) =
     sbind (find_credential P rp (desc_id d)) (\<lambda>stored.
     sbind (if check_cred_protect_for_listed_credential stored has_uv then sret True
            else sbind (decrypt_credential_id P (desc_id d) rp_id_hash) (\<lambda>decrypted.
                   sret (check_cred_protect_for_listed_credential decrypted has_uv))) (\<lambda>excluded.
       if excluded
       then sbind (ignore_result (check_user_presence P channel
              (two_lines name (locale_text P ''vault2.fido.exclude_list'')))) (\<lambda>_.
            sfail CTAP2_ERR_CREDENTIAL_EXCLUDED)
       else check_exclude_list P rp rp_id_hash has_uv channel name ds))"

section \<open>Extensions\<close>

definition chosen_cred_protect ::
  "customization \<Rightarrow> credential_protection_policy option \<Rightarrow> credential_protection_policy option" where
  "chosen_cred_protect C requested =
     (if policy_code (or_default UserVerificationOptional requested)
         < policy_code (or_default UserVerificationOptional (default_cred_protect C))
      then default_cred_protect C else requested)"

definition accepted_cred_blob :: "customization \<Rightarrow> bytes option \<Rightarrow> bytes option" where
  "accepted_cred_blob C blob =
     (case blob of Some b \<Rightarrow> if length b \<le> max_cred_blob_length C then Some b else None | None \<Rightarrow> None)"

definition reads_min_pin_length :: "'p platform \<Rightarrow> make_credential_params \<Rightarrow> ('p, bool) env_op" where
  "reads_min_pin_length P params =
     (if mce_min_pin_length (mcp_extensions params)
      then sbind (min_pin_length_rp_ids P) (\<lambda>ids. sret (rp_id (mcp_rp params) \<in> set ids))
      else sret False)"

definition new_large_blob_key :: "'p platform \<Rightarrow> make_credential_params \<Rightarrow> ('p, bytes option) env_op" where
  "new_large_blob_key P params =
     (if mco_rk (mcp_options params) \<and> mce_large_blob_key (mcp_extensions params) = Some True
      then sbind (random_bytes P) (\<lambda>k. sret (Some k))
      else sret None)"

section \<open>The credential\<close>

definition new_key :: "'p platform \<Rightarrow> signature_algorithm \<Rightarrow> ('p, private_key) ctap_op" where
  "new_key P a = (\<lambda>(e, c).
     case new_private_key P a e of
       Some (k, e) \<Rightarrow> (Inr k, (e, c))
     | None \<Rightarrow> (Inl Panic, (e, c)))"

definition cropped :: "rust_string option \<Rightarrow> rust_string option" where
  "cropped x = map_option (\<lambda>s. truncate_to_char_boundary s 64) x"

definition make_credential_id ::
  "'p platform \<Rightarrow> make_credential_params \<Rightarrow> private_key \<Rightarrow> bytes \<Rightarrow> credential_protection_policy option \<Rightarrow>
     bytes option \<Rightarrow> bytes option \<Rightarrow> ('p, bytes) env_op" where
  "make_credential_id P params key rp_id_hash policy blob large_blob_key =
     (if mco_rk (mcp_options params)
      then sbind (random_bytes P) (\<lambda>random_id.
           sbind (new_creation_order P) (\<lambda>order.
             let user = mcp_user params
             in sbind (store_credential P \<lparr>cs_type = PublicKey, cs_id = random_id, cs_private_key = key,
                  cs_rp_id = rp_id (mcp_rp params), cs_user_handle = user_id user,
                  cs_user_display_name = cropped (user_display_name user), cs_cred_protect = policy,
                  cs_creation_order = order, cs_user_name = cropped (user_name user),
                  cs_user_icon = cropped (user_icon user), cs_cred_blob = blob,
                  cs_large_blob_key = large_blob_key\<rparr>) (\<lambda>_. sret random_id)))
      else encrypt_to_credential_id P \<lparr>ids_private_key = key, ids_rp_id_hash = rp_id_hash,
             ids_cred_protect = policy, ids_cred_blob = blob\<rparr>)"

definition write_cbor :: "cvalue \<Rightarrow> bytes \<Rightarrow> status + bytes" where
  "write_cbor v out = (let (r, out) = ctap_cbor_write v out in rbind r (\<lambda>_. Inr out))"

definition make_credential_extensions_output ::
  "'p platform \<Rightarrow> make_credential_params \<Rightarrow> credential_protection_policy option \<Rightarrow> bytes option \<Rightarrow> bool \<Rightarrow>
     ('p, cvalue) env_op" where
  "make_credential_extensions_output P params policy blob with_min_length =
     (let ext = mcp_extensions params
      in sbind (if with_min_length then sbind (min_pin_length P) (\<lambda>n. sret (Some n)) else sret None) (\<lambda>min_length.
         sret (Map (map_options (zip (map text_key [''credBlob'', ''credProtect'', ''hmac-secret'', ''minPinLength''])
           [map_option (\<lambda>_. bool_value (blob \<noteq> None)) (mce_cred_blob ext),
            (if mce_cred_protect ext = None then None else map_option cbor_of_policy policy),
            (if mce_hmac_secret ext then Some (bool_value True) else None),
            map_option (\<lambda>n. Unsigned (ucast n)) min_length])))))"

definition make_credential_auth_data ::
  "'p platform \<Rightarrow> make_credential_params \<Rightarrow> private_key \<Rightarrow> bytes \<Rightarrow> bytes \<Rightarrow> u8 \<Rightarrow>
     credential_protection_policy option \<Rightarrow> bytes option \<Rightarrow> bool \<Rightarrow> bool \<Rightarrow> ('p, bytes) env_op" where
  "make_credential_auth_data P params key rp_id_hash cred_id flags policy blob with_min_length with_extensions =
     sbind (generate_auth_data P rp_id_hash flags) (\<lambda>auth_data.
     sbind (aaguid P) (\<lambda>guid.
       if length cred_id > 0xFF then sfail CTAP2_ERR_VENDOR_INTERNAL_ERROR else
     sbind (slift (\<lambda>_. get_pub_key P key)) (\<lambda>public_key.
     sbind (slift (\<lambda>_. write_cbor (cbor_of_cose_key public_key)
       (auth_data @ guid @ [0x00, of_nat (length cred_id)] @ cred_id))) (\<lambda>auth_data.
       if with_extensions
       then sbind (make_credential_extensions_output P params policy blob with_min_length) (\<lambda>output.
            slift (\<lambda>_. write_cbor output auth_data))
       else sret auth_data))))"

section \<open>Attestation\<close>

text \<open>A stored attestation key that is not a valid ECDSA key panics in \<open>unwrap\<close>.\<close>

definition attest ::
  "'p platform \<Rightarrow> attestation_id option \<Rightarrow> private_key \<Rightarrow> bytes \<Rightarrow> ('p, bytes \<times> bytes list option) ctap_op" where
  "attest P i key signature_data =
     (case i of
        Some i \<Rightarrow>
          sbind (env_call (sbind (from_attestation_store (attestation_get P i))
            (\<lambda>a. slift (\<lambda>_. ok_or a CTAP2_ERR_VENDOR_INTERNAL_ERROR)))) (\<lambda>a.
            if \<not> ecdsa_valid (crypto_of P) (att_private_key a) then panic
            else sret (ecdsa_sign (crypto_of P) (att_private_key a) signature_data, Some [att_certificate a]))
      | None \<Rightarrow> sbind (result_call (sign_and_encode P key signature_data)) (\<lambda>sig. sret (sig, None)))"

section \<open>The command\<close>

definition finish_make_credential ::
  "'p platform \<Rightarrow> make_credential_params \<Rightarrow> signature_algorithm \<Rightarrow> bool \<Rightarrow> u8 \<Rightarrow> bytes \<Rightarrow>
     ('p, make_credential_response) ctap_op" where
  "finish_make_credential P params a ep_att flags rp_id_hash =
     (let ext = mcp_extensions params;
          policy = chosen_cred_protect (custom P) (mce_cred_protect ext);
          blob = accepted_cred_blob (custom P) (mce_cred_blob ext)
      in sbind (env_call (reads_min_pin_length P params)) (\<lambda>with_min_length.
         let with_extensions = (mce_hmac_secret ext \<or> mce_cred_protect ext \<noteq> None \<or> with_min_length \<or>
               mce_cred_blob ext \<noteq> None);
             flags = (if with_extensions then flags OR ed_flag else flags)
      in sbind (env_call (new_large_blob_key P params)) (\<lambda>large_blob_key.
         sbind (new_key P a) (\<lambda>key.
         sbind (env_call (make_credential_id P params key rp_id_hash policy blob large_blob_key)) (\<lambda>cred_id.
         sbind (env_call (make_credential_auth_data P params key rp_id_hash cred_id flags policy blob
           with_min_length with_extensions)) (\<lambda>auth_data.
         let attestation_id = (if ep_att then Some Enterprise
               else if use_batch_attestation (custom P) then Some Batch else None)
         in sbind (attest P attestation_id key (auth_data @ mcp_client_data_hash params)) (\<lambda>(sig, x5c).
            sret \<lparr>mcr_fmt = utf8 ''packed'', mcr_auth_data = auth_data,
                  mcr_att_stmt = \<lparr>pa_alg = algorithm_code Es256, pa_sig = sig, pa_x5c = x5c,
                    pa_ecdaa_key_id = None\<rparr>,
                  mcr_ep_att = (if ep_att then Some True else None),
                  mcr_large_blob_key = large_blob_key\<rparr>)))))))"

definition process_make_credential ::
  "'p platform \<Rightarrow> make_credential_params \<Rightarrow> channel_id \<Rightarrow> ('p, make_credential_response) ctap_op" where
  "process_make_credential P params channel =
     sbind (env_call (pin_uv_auth_precheck P (mcp_pin_uv_auth_param params)
       (mcp_pin_uv_auth_protocol params) channel)) (\<lambda>_.
     sbind (result_call (ok_or (get_preferred_cred_param (mcp_pub_key_cred_params params))
       CTAP2_ERR_UNSUPPORTED_ALGORITHM)) (\<lambda>cred_param.
       let rp = rp_id (mcp_rp params);
           has_uv = (mcp_pin_uv_auth_param params \<noteq> None);
           rp_id_hash = sha256 (crypto_of P) rp;
           name = or_default rp (rp_name (mcp_rp params))
     in sbind (env_call (enterprise_requested P (mcp_enterprise_attestation params) rp)) (\<lambda>ep_att.
        sbind (pin_call (make_credential_flags P params)) (\<lambda>flags.
        sbind (env_call (check_exclude_list P rp rp_id_hash has_uv channel name
          (or_default [] (mcp_exclude_list params)))) (\<lambda>_.
        sbind (env_call (check_user_presence P channel
          (two_lines name (locale_text P ''vault2.fido.make_credentials'')))) (\<lambda>_.
        sbind (pin_call (on_pin clear_token_flags)) (\<lambda>_.
          finish_make_credential P params (alg cred_param) ep_att (flags OR up_flag OR at_flag) rp_id_hash)))))))"

end
