(* ===== verification/Get_Assertion.thy ===== *)
theory Get_Assertion
  imports Ctap_State
begin

text \<open>
  The authenticatorGetAssertion and authenticatorGetNextAssertion commands of \<open>src/ctap/mod.rs\<close>: user
  verification, the choice of the credential (from the allow list, or the most recent discoverable
  one), the user's consent, the signature counter, and the signed response; the remaining credentials
  are kept for the next requests.
\<close>

section \<open>The response for one credential\<close>

definition generate_cred_random :: "'p platform \<Rightarrow> private_key \<Rightarrow> bool \<Rightarrow> ('p, bytes) env_op" where
  "generate_cred_random P key has_uv =
     sbind (cred_random_secret P has_uv) (\<lambda>secret. sret (hmac_256 (crypto_of P) secret (private_key_bytes key)))"

definition hmac_secret_output ::
  "'p platform \<Rightarrow> credential_source \<Rightarrow> bool \<Rightarrow> hmac_secret_input option \<Rightarrow> ('p, bytes option) pin_op" where
  "hmac_secret_output P credential has_uv input =
     (case input of
        None \<Rightarrow> sret None
      | Some i \<Rightarrow>
          sbind (on_env (generate_cred_random P (cs_private_key credential) has_uv)) (\<lambda>cred_random.
          sbind (\<lambda>(e, c). let (r, n) = process_hmac_secret (crypto_of P) c i cred_random (draws e)
                          in (r, (e\<lparr>draws := n\<rparr>, c))) (\<lambda>out. sret (Some out))))"

definition assertion_auth_data ::
  "'p platform \<Rightarrow> credential_source \<Rightarrow> assertion_input \<Rightarrow> ('p, bytes) pin_op" where
  "assertion_auth_data P credential input =
     (let ext = ai_extensions input
      in if gae_hmac_secret ext \<noteq> None \<or> gae_cred_blob ext
         then sbind (hmac_secret_output P credential (ai_has_uv input) (gae_hmac_secret ext)) (\<lambda>encrypted.
              slift (\<lambda>_.
                let (r, out) = ctap_cbor_write (Map (map_options (zip (map text_key [''credBlob'', ''hmac-secret''])
                      [(if gae_cred_blob ext then Some (ByteString (or_default [] (cs_cred_blob credential))) else None),
                       map_option ByteString encrypted]))) (ai_auth_data input)
                in rbind r (\<lambda>_. Inr out)))
         else sret (ai_auth_data input))"

text \<open>Names and icon of the user are only returned after user verification.\<close>

definition assertion_user :: "credential_source \<Rightarrow> bool \<Rightarrow> user_entity option" where
  "assertion_user credential has_uv =
     (if cs_user_handle credential = [] then None
      else Some \<lparr>user_id = cs_user_handle credential,
                 user_name = (if has_uv then cs_user_name credential else None),
                 user_display_name = (if has_uv then cs_user_display_name credential else None),
                 user_icon = (if has_uv then cs_user_icon credential else None)\<rparr>)"

definition assertion_response ::
  "'p platform \<Rightarrow> credential_source \<Rightarrow> assertion_input \<Rightarrow> nat option \<Rightarrow> ('p, get_assertion_response) pin_op" where
  "assertion_response P credential input number_of_credentials =
     sbind (assertion_auth_data P credential input) (\<lambda>auth_data.
     sbind (slift (\<lambda>_. sign_and_encode P (cs_private_key credential) (auth_data @ ai_client_data_hash input)))
       (\<lambda>signature.
       sret \<lparr>gar_credential = Some \<lparr>desc_type = PublicKey, desc_id = cs_id credential, desc_transports = None\<rparr>,
             gar_auth_data = auth_data, gar_signature = signature,
             gar_user = assertion_user credential (ai_has_uv input),
             gar_number_of_credentials = map_option of_nat number_of_credentials,
             gar_large_blob_key =
               (if gae_large_blob_key (ai_extensions input) = Some True then cs_large_blob_key credential
                else None)\<rparr>))"

section \<open>Choosing the credential\<close>

fun get_any_credential_from_allow_list ::
  "'p platform \<Rightarrow> rust_string \<Rightarrow> bytes \<Rightarrow> bool \<Rightarrow> credential_descriptor list \<Rightarrow>
     ('p, credential_source option) env_op" where
  "get_any_credential_from_allow_list P rp rp_id_hash has_uv [] = sret None"
| "get_any_credential_from_allow_list P rp rp_id_hash has_uv (d # ds) =
     sbind (find_credential P rp (desc_id d)) (\<lambda>stored.
       if check_cred_protect_for_listed_credential stored has_uv then sret stored
       else sbind (decrypt_credential_id P (desc_id d) rp_id_hash) (\<lambda>decrypted.
              if check_cred_protect_for_listed_credential decrypted has_uv then sret decrypted
              else get_any_credential_from_allow_list P rp rp_id_hash has_uv ds))"

text \<open>
  The keys of the credentials of a relying party that may be used, by ascending creation order. The
  orders of stored credentials are distinct, so that the sort of the code is unstable does not matter.
\<close>

definition usable_keys :: "rust_string \<Rightarrow> bool \<Rightarrow> (nat \<times> credential_source) list \<Rightarrow> nat list" where
  "usable_keys rp has_uv items =
     map fst (sort_key (\<lambda>(_, c). cs_creation_order c)
       (filter (\<lambda>(_, c). cs_rp_id c = rp \<and> (has_uv \<or> is_discoverable c)) items))"

definition choose_resident_credential ::
  "'p platform \<Rightarrow> rust_string \<Rightarrow> bool \<Rightarrow> ('p, credential_source option \<times> nat list) env_op" where
  "choose_resident_credential P rp has_uv =
     sbind (iter_credentials P) (\<lambda>(items, iter_result).
     sbind (slift (\<lambda>_. iter_result)) (\<lambda>_.
       let keys = usable_keys rp has_uv items
       in if keys = [] then sret (None, [])
          else sbind (get_credential P (last keys)) (\<lambda>c. sret (Some c, butlast keys))))"

definition choose_credential ::
  "'p platform \<Rightarrow> get_assertion_params \<Rightarrow> bytes \<Rightarrow> bool \<Rightarrow> ('p, credential_source option \<times> nat list) env_op" where
  "choose_credential P params rp_id_hash has_uv =
     (case gap_allow_list params of
        Some allow_list \<Rightarrow>
          sbind (get_any_credential_from_allow_list P (gap_rp_id params) rp_id_hash has_uv allow_list)
            (\<lambda>c. sret (c, []))
      | None \<Rightarrow> choose_resident_credential P (gap_rp_id params) has_uv)"

section \<open>The commands\<close>

definition get_assertion_flags :: "'p platform \<Rightarrow> get_assertion_params \<Rightarrow> ('p, u8) pin_op" where
  "get_assertion_flags P params =
     sbind (case gap_pin_uv_auth_param params of
              Some auth_param \<Rightarrow>
                sbind (verify_user P (gap_client_data_hash params) auth_param (gap_pin_uv_auth_protocol params)
                  GetAssertion (gap_rp_id params)) (\<lambda>_. sret uv_flag)
            | None \<Rightarrow>
                if gao_uv (gap_options params) then sfail CTAP2_ERR_INVALID_OPTION else
                sbind (if gao_up (gap_options params) then on_env (has_always_uv P) else sret False) (\<lambda>always_uv.
                  if always_uv then sfail CTAP2_ERR_PUAT_REQUIRED else sret 0x00)) (\<lambda>flags.
       let flags = (if gao_up (gap_options params) then flags OR up_flag else flags);
           ext = gap_extensions params
       in sret (if gae_hmac_secret ext \<noteq> None \<or> gae_cred_blob ext then flags OR ed_flag else flags))"

definition ask_for_assertion :: "'p platform \<Rightarrow> get_assertion_params \<Rightarrow> channel_id \<Rightarrow> ('p, unit) ctap_op" where
  "ask_for_assertion P params channel =
     (if gao_up (gap_options params)
      then sbind (env_call (check_user_presence P channel
             (two_lines (gap_rp_id params) (locale_text P ''vault2.fido.get_assertion'')))) (\<lambda>_.
           pin_call (on_pin clear_token_flags))
      else sret ())"

definition remember_assertions ::
  "assertion_input \<Rightarrow> nat list \<Rightarrow> channel_id \<Rightarrow> instant \<Rightarrow> ('p, nat option) ctap_op" where
  "remember_assertions input next_keys channel now =
     (if next_keys = [] then sret None
      else sbind (stateful_call (\<lambda>s. (Inr (), start_command now (StatefulGetAssertion
             \<lparr>as_assertion_input = input, as_next_credential_keys = next_keys\<rparr>) channel s))) (\<lambda>_.
           sret (Some (length next_keys + 1))))"

definition process_get_assertion ::
  "'p platform \<Rightarrow> get_assertion_params \<Rightarrow> channel_id \<Rightarrow> instant \<Rightarrow> ('p, get_assertion_response) ctap_op" where
  "process_get_assertion P params channel now =
     sbind (env_call (pin_uv_auth_precheck P (gap_pin_uv_auth_param params)
       (gap_pin_uv_auth_protocol params) channel)) (\<lambda>_.
       if gae_hmac_secret (gap_extensions params) \<noteq> None \<and> \<not> gao_up (gap_options params)
       then err CTAP2_ERR_UNSUPPORTED_OPTION
       else let has_uv = (gap_pin_uv_auth_param params \<noteq> None);
                rp_id_hash = sha256 (crypto_of P) (gap_rp_id params)
     in sbind (pin_call (get_assertion_flags P params)) (\<lambda>flags.
        sbind (env_call (choose_credential P params rp_id_hash has_uv)) (\<lambda>(credential, next_keys).
        sbind (result_call (ok_or credential CTAP2_ERR_NO_CREDENTIALS)) (\<lambda>credential.
        sbind (ask_for_assertion P params channel) (\<lambda>_.
        sbind (env_call (increment_global_signature_counter P)) (\<lambda>_.
        sbind (env_call (generate_auth_data P rp_id_hash flags)) (\<lambda>auth_data.
        let input = \<lparr>ai_client_data_hash = gap_client_data_hash params, ai_auth_data = auth_data,
              ai_extensions = gap_extensions params, ai_has_uv = has_uv\<rparr>
        in sbind (remember_assertions input next_keys channel now) (\<lambda>number.
             pin_call (assertion_response P credential input number)))))))))"

definition process_get_next_assertion :: "'p platform \<Rightarrow> ('p, get_assertion_response) ctap_op" where
  "process_get_next_assertion P =
     sbind (stateful_call next_assertion_credential) (\<lambda>(input, k).
     sbind (env_call (get_credential P k)) (\<lambda>credential.
       pin_call (assertion_response P credential input None)))"

end
