(* ===== verification/Ctap.thy ===== *)
theory Ctap
  imports Make_Credential Get_Assertion
begin

text \<open>
  The dispatcher of CTAP2, \<open>process_command\<close> of \<open>src/ctap/mod.rs\<close>, with the remaining handlers:
  getInfo, reset, selection and the vendor commands. The environment of the badge
  (\<open>src/env/xous/mod.rs\<close>) cannot lock its firmware and has no upgrade storage.
\<close>

section \<open>Information\<close>

definition get_info_options ::
  "'p platform \<Rightarrow> bool \<Rightarrow> ('p, (rust_string \<times> bool) list) env_op" where
  "get_info_options P always_uv =
     sbind (if enterprise_mode (custom P) \<noteq> None
            then sbind (enterprise_attestation P) (\<lambda>b. sret [(utf8 ''ep'', b)]) else sret []) (\<lambda>ep.
     sbind (pin_hash P) (\<lambda>stored.
       sret (ep @ [(utf8 ''rk'', True), (utf8 ''up'', True), (utf8 ''alwaysUv'', always_uv), (utf8 ''credMgmt'', True),
         (utf8 ''authnrCfg'', True), (utf8 ''clientPin'', stored \<noteq> None), (utf8 ''largeBlobs'', True),
         (utf8 ''pinUvAuthToken'', True), (utf8 ''setMinPINLength'', True), (utf8 ''makeCredUvNotRqd'', \<not> always_uv)])))"

definition process_get_info :: "'p platform \<Rightarrow> ('p, get_info_response) env_op" where
  "process_get_info P =
     sbind (has_always_uv P) (\<lambda>always_uv.
     sbind (get_info_options P always_uv) (\<lambda>options.
     sbind (aaguid P) (\<lambda>guid.
     sbind (has_force_pin_change P) (\<lambda>force.
     sbind (min_pin_length P) (\<lambda>min_length.
     sbind (remaining_credentials P) (\<lambda>remaining.
       sret \<lparr>gir_versions = (if always_uv then [] else [utf8 ''U2F_V2'']) @ [utf8 ''FIDO_2_0'', utf8 ''FIDO_2_1_PRE''],
             gir_extensions = Some (map utf8 [''hmac-secret'', ''credProtect'', ''minPinLength'', ''credBlob'',
               ''largeBlobKey'']),
             gir_aaguid = guid, gir_options = Some options,
             gir_max_msg_size = Some (of_nat (max_msg_size (custom P))),
             gir_pin_protocols = Some (2 # (if allows_pin_protocol_v1 (custom P) then [1] else [])),
             gir_max_credential_count_in_list = map_option of_nat (max_credential_count_in_list (custom P)),
             gir_max_credential_id_length = Some (of_nat cbor_credential_id_size),
             gir_transports = Some [Usb], gir_algorithms = Some supported_cred_params,
             gir_max_serialized_large_blob_array = Some (of_nat (max_large_blob_array_size (custom P))),
             gir_force_pin_change = Some force, gir_min_pin_length = min_length,
             gir_firmware_version = None,
             gir_max_cred_blob_length = Some (of_nat (max_cred_blob_length (custom P))),
             gir_max_rp_ids_for_set_min_pin_length = Some (of_nat (max_rp_ids_length (custom P))),
             gir_certifications = None,
             gir_remaining_discoverable_credentials = Some (of_nat remaining)\<rparr>))))))"

section \<open>Reset and selection\<close>

definition check_reset_allowed :: "('p, unit) ctap_op" where
  "check_reset_allowed =
     stateful_call (\<lambda>s. (rbind (get_command s) (\<lambda>c.
       case c of StatefulReset \<Rightarrow> Inr () | _ \<Rightarrow> Inl CTAP2_ERR_NOT_ALLOWED), s))"

definition reset_ctap_pin :: "'p platform \<Rightarrow> ('p, unit) pin_op" where
  "reset_ctap_pin P = (\<lambda>(e, c).
     let (c, n) = reset_client_pin (crypto_of P) (c, draws e) in (Inr (), (e\<lparr>draws := n\<rparr>, c)))"

definition process_reset :: "'p platform \<Rightarrow> channel_id \<Rightarrow> ('p, unit) ctap_op" where
  "process_reset P channel =
     sbind check_reset_allowed (\<lambda>_.
     sbind (env_call (check_user_presence P channel (locale_text P ''vault2.u2f.factoryreset''))) (\<lambda>_.
     sbind (env_call (reset P)) (\<lambda>_.
     sbind (pin_call (reset_ctap_pin P)) (\<lambda>_.
       supdate (\<lambda>(e, c). (e, c\<lparr>ctap_u2f_up := fresh_u2f_up\<rparr>))))))"

definition process_selection :: "'p platform \<Rightarrow> channel_id \<Rightarrow> ('p, unit) env_op" where
  "process_selection P channel =
     check_user_presence P channel (locale_text P ''vault2.u2f.authenticator_selection'')"

section \<open>Vendor commands\<close>

text \<open>\<open>FirmwareProtection::lock\<close> of the badge.\<close>

definition firmware_lock :: bool where
  "firmware_lock = False"

definition process_vendor_configure ::
  "'p platform \<Rightarrow> vendor_configure_params \<Rightarrow> channel_id \<Rightarrow> ('p, vendor_configure_response) env_op" where
  "process_vendor_configure P params channel =
     sbind (if vcp_attestation_material params \<noteq> None \<or> vcp_lockdown params
            then check_user_presence P channel (locale_text P ''vault2.u2f.vendor_configure'')
            else sret ()) (\<lambda>_.
     sbind (from_attestation_store (attestation_get P Batch)) (\<lambda>current.
     sbind (case vcp_attestation_material params of
              None \<Rightarrow> sret \<lparr>vcr_cert_programmed = current \<noteq> None, vcr_pkey_programmed = current \<noteq> None\<rparr>
            | Some data \<Rightarrow>
                sbind (if current = None
                       then from_attestation_store (attestation_set P Batch (Some
                              \<lparr>att_private_key = atm_private_key data, att_certificate = atm_certificate data\<rparr>))
                       else sret ()) (\<lambda>_.
                  sret \<lparr>vcr_cert_programmed = True, vcr_pkey_programmed = True\<rparr>)) (\<lambda>response.
       if vcp_lockdown params \<and>
          (\<not> (vcr_pkey_programmed response \<and> vcr_cert_programmed response) \<or> \<not> firmware_lock)
       then sfail CTAP2_ERR_VENDOR_INTERNAL_ERROR else sret response)))"

definition process_vendor_upgrade :: "'p platform \<Rightarrow> vendor_upgrade_params \<Rightarrow> ('p, unit) env_op" where
  "process_vendor_upgrade P params =
     (if vup_hash params \<noteq> sha256 (crypto_of P) (vup_data params) then sfail CTAP2_ERR_INTEGRITY_FAILURE
      else sfail CTAP1_ERR_INVALID_COMMAND)"

definition process_vendor_upgrade_info :: "('p, vendor_upgrade_info_response) env_op" where
  "process_vendor_upgrade_info = sfail CTAP1_ERR_INVALID_COMMAND"

definition process_vendor_command ::
  "'p platform \<Rightarrow> command \<Rightarrow> channel_id \<Rightarrow> ('p, response_data) ctap_op" where
  "process_vendor_command P cm channel =
     (case cm of
        AuthenticatorVendorConfigure params \<Rightarrow>
          sbind (env_call (process_vendor_configure P params channel)) (\<lambda>r. sret (VendorConfigureData r))
      | AuthenticatorVendorUpgrade params \<Rightarrow>
          sbind (env_call (process_vendor_upgrade P params)) (\<lambda>_. sret VendorUpgradeData)
      | AuthenticatorVendorUpgradeInfo \<Rightarrow>
          sbind (env_call process_vendor_upgrade_info) (\<lambda>r. sret (VendorUpgradeInfoData r))
      | AuthenticatorGetInfo \<Rightarrow> sbind (env_call (process_get_info P)) (\<lambda>r. sret (GetInfoData r))
      | _ \<Rightarrow> err CTAP1_ERR_INVALID_COMMAND)"

section \<open>Dispatch\<close>

definition process_fido_command ::
  "'p platform \<Rightarrow> command \<Rightarrow> channel_id \<Rightarrow> instant \<Rightarrow> ('p, response_data) ctap_op" where
  "process_fido_command P cm channel now =
     (case cm of
        AuthenticatorMakeCredential params \<Rightarrow>
          sbind (process_make_credential P params channel) (\<lambda>r. sret (MakeCredentialData r))
      | AuthenticatorGetAssertion params \<Rightarrow>
          sbind (process_get_assertion P params channel now) (\<lambda>r. sret (GetAssertionData r))
      | AuthenticatorGetNextAssertion \<Rightarrow>
          sbind (process_get_next_assertion P) (\<lambda>r. sret (GetNextAssertionData r))
      | AuthenticatorGetInfo \<Rightarrow> sbind (env_call (process_get_info P)) (\<lambda>r. sret (GetInfoData r))
      | AuthenticatorClientPin params \<Rightarrow>
          sbind (pin_call (process_client_pin P params now)) (\<lambda>r. sret (ClientPinData r))
      | AuthenticatorReset \<Rightarrow> sbind (process_reset P channel) (\<lambda>_. sret ResetData)
      | AuthenticatorCredentialManagement params \<Rightarrow>
          sbind (management_call (process_credential_management P params channel now))
            (\<lambda>r. sret (CredentialManagementData r))
      | AuthenticatorSelection \<Rightarrow> sbind (env_call (process_selection P channel)) (\<lambda>_. sret SelectionData)
      | AuthenticatorLargeBlobs params \<Rightarrow>
          sbind (blobs_call (process_large_blobs P params)) (\<lambda>r. sret (LargeBlobsData r))
      | AuthenticatorConfig params \<Rightarrow> sbind (pin_call (process_config P params)) (\<lambda>_. sret ConfigData)
      | _ \<Rightarrow> process_vendor_command P cm channel)"

text \<open>The commands that continue what is in progress; any other command ends it.\<close>

definition continues :: "command \<Rightarrow> stateful_permission \<Rightarrow> bool" where
  "continues cm s =
     (case (cm, get_command s) of
        (AuthenticatorGetNextAssertion, Inr (StatefulGetAssertion _)) \<Rightarrow> True
      | (AuthenticatorReset, Inr StatefulReset) \<Rightarrow> True
      | (AuthenticatorGetInfo, Inr StatefulReset) \<Rightarrow> True
      | (AuthenticatorSelection, Inr StatefulReset) \<Rightarrow> True
      | (AuthenticatorMakeCredential _, Inr StatefulReset) \<Rightarrow> True
      | (AuthenticatorCredentialManagement _, Inr (EnumerateRps _)) \<Rightarrow> True
      | (AuthenticatorCredentialManagement _, Inr (EnumerateCredentials _)) \<Rightarrow> True
      | _ \<Rightarrow> False)"

definition prepare_stateful ::
  "command \<Rightarrow> channel_id \<Rightarrow> instant \<Rightarrow> stateful_permission \<Rightarrow> stateful_permission" where
  "prepare_stateful cm channel now s =
     (let s = clear_timer now (clear_old_channels channel s)
      in if continues cm s then s else sp_clear s)"

definition process_parsed_command ::
  "'p platform \<Rightarrow> command \<Rightarrow> channel_id \<Rightarrow> instant \<Rightarrow> ('p, response_data) ctap_op" where
  "process_parsed_command P cm channel now =
     sbind (supdate (\<lambda>(e, c). (e, c\<lparr>ctap_u2f_up := fresh_u2f_up,
       ctap_stateful := prepare_stateful cm channel now (ctap_stateful c)\<rparr>))) (\<lambda>_.
       process_fido_command P cm channel now)"

definition response_bytes :: "status + response_data \<Rightarrow> bytes" where
  "response_bytes r =
     (case r of
        Inl x \<Rightarrow> [status_code x]
      | Inr response_data \<Rightarrow>
          (case cbor_of_response response_data of
             None \<Rightarrow> [status_code CTAP2_OK]
           | Some v \<Rightarrow>
               (case ctap_cbor_write v [status_code CTAP2_OK] of
                  (Inl _, _) \<Rightarrow> [status_code CTAP2_ERR_VENDOR_INTERNAL_ERROR]
                | (Inr _, out) \<Rightarrow> out)))"

text \<open>A command that panics has no response: \<open>None\<close>.\<close>

definition process_ctap_command ::
  "'p platform \<Rightarrow> bytes \<Rightarrow> channel_id \<Rightarrow> instant \<Rightarrow> 'p env \<times> ctap_state \<Rightarrow> bytes option \<times> ('p env \<times> ctap_state)" where
  "process_ctap_command P command_cbor channel now s =
     (case deserialize_command (usize_bits P) command_cbor of
        Inl x \<Rightarrow> (Some (response_bytes (Inl x)), s)
      | Inr cm \<Rightarrow>
          (case process_parsed_command P cm channel now s of
             (Inl (Status x), s) \<Rightarrow> (Some (response_bytes (Inl x)), s)
           | (Inl Panic, s) \<Rightarrow> (None, s)
           | (Inr r, s) \<Rightarrow> (Some (response_bytes (Inr r)), s)))"

end
