(* ===== verification/Apdu.thy ===== *)
theory Apdu
  imports Prelude
begin

text \<open>
  The APDU frames of CTAP1, \<open>src/ctap/apdu.rs\<close>: status words and the parser, its inverse on what it
  accepts, and a comparison with the command encodings of ISO 7816-4.
\<close>

section \<open>Status words and frames\<close>

datatype apdu_status = SwSuccess | SwGetResponse | SwMemErr | SwWrongData | SwWrongLength
  | SwCondUseNotSatisfied | SwCommandNotAllowed | SwFileNotFound | SwIncorrectP1P2 | SwInsInvalid
  | SwClaInvalid | SwInternalException

fun status_word :: "apdu_status \<Rightarrow> u16" where
  "status_word SwSuccess = 0x9000"
| "status_word SwGetResponse = 0x6100"
| "status_word SwMemErr = 0x6501"
| "status_word SwWrongData = 0x6A80"
| "status_word SwWrongLength = 0x6700"
| "status_word SwCondUseNotSatisfied = 0x6985"
| "status_word SwCommandNotAllowed = 0x6986"
| "status_word SwFileNotFound = 0x6A82"
| "status_word SwIncorrectP1P2 = 0x6A86"
| "status_word SwInsInvalid = 0x6D00"
| "status_word SwClaInvalid = 0x6E00"
| "status_word SwInternalException = 0x6F00"

record apdu_header =
  cla :: u8
  ins :: u8
  p1 :: u8
  p2 :: u8

definition header_of :: "bytes \<Rightarrow> apdu_header" where
  "header_of h = \<lparr>cla = h ! 0, ins = h ! 1, p1 = h ! 2, p2 = h ! 3\<rparr>"

datatype apdu_case = Le1 | Lc1Data | Lc1DataLe1 | Lc3Data | Lc3DataLe1 | Lc3DataLe2 | Le3

datatype apdu_type = Instruction | Short apdu_case | Extended apdu_case

record apdu =
  apdu_head :: apdu_header
  lc :: u16
  apdu_data :: bytes
  le :: u32
  case_type :: apdu_type

section \<open>The parser\<close>

text \<open>\<open>BigEndian::read_u16\<close>\<close>

definition read_u16 :: "bytes \<Rightarrow> u16" where
  "read_u16 bs = of_nat (be_nat (take 2 bs))"

text \<open>A zero length expected byte or pair of bytes stands for the largest length.\<close>

definition short_le :: "u8 \<Rightarrow> u32" where
  "short_le b = (if b = 0 then 0x100 else ucast b)"

definition extended_le :: "u16 \<Rightarrow> u32" where
  "extended_le w = (if w = 0 then 0x10000 else ucast w)"

definition parse_extended :: "apdu_header \<Rightarrow> bytes \<Rightarrow> apdu_status + apdu" where
  "parse_extended h payload =
     (let n = unat (read_u16 (drop 1 payload))
      in if length payload < n + 3 then Inl SwWrongLength
      else let le_len = length payload - (n + 3)
      in if le_len > 3 then Inl SwWrongLength
      else if hd payload = 0
      then rbind (if le_len = 0 then Inr (0, Lc3Data)
                  else if le_len = 1 then Inr (short_le (last payload), Lc3DataLe1)
                  else if le_len = 2 then Inr (extended_le (read_u16 (drop (length payload - 2) payload)), Lc3DataLe2)
                  else if payload ! (length payload - 3) \<noteq> 0 then Inl SwInternalException
                  else Inr (extended_le (read_u16 (drop (length payload - 2) payload)), Le3)) (\<lambda>(e, c).
             Inr \<lparr>apdu_head = h, lc = of_nat n, apdu_data = drop 3 (take (length payload - le_len) payload),
                  le = e, case_type = Extended c\<rparr>)
      else Inl SwInternalException)"

definition apdu_of_payload :: "apdu_header \<Rightarrow> bytes \<Rightarrow> apdu_status + apdu" where
  "apdu_of_payload h payload =
     (if payload = []
         then Inr \<lparr>apdu_head = h, lc = 0, apdu_data = [], le = 0, case_type = Instruction\<rparr>
      else let b = hd payload
      in if length payload = 1
         then Inr \<lparr>apdu_head = h, lc = 0, apdu_data = [], le = short_le b, case_type = Short Le1\<rparr>
      else if length payload = 1 + unat b \<and> b \<noteq> 0
         then Inr \<lparr>apdu_head = h, lc = ucast b, apdu_data = drop 1 payload, le = 0, case_type = Short Lc1Data\<rparr>
      else if length payload = 2 + unat b \<and> b \<noteq> 0
         then Inr \<lparr>apdu_head = h, lc = ucast b, apdu_data = drop 1 (take (length payload - 1) payload),
                   le = short_le (last payload), case_type = Short Lc1DataLe1\<rparr>
      else if length payload > 2 then parse_extended h payload
      else Inl SwInternalException)"

definition apdu_of_frame :: "bytes \<Rightarrow> apdu_status + apdu" where
  "apdu_of_frame frame =
     (if length frame < 4 then Inl SwWrongData
      else apdu_of_payload (header_of (take 4 frame)) (drop 4 frame))"

section \<open>The frames of the parser's own forms\<close>

text \<open>An encoder for the forms the parser distinguishes, which are not those of ISO 7816-4 (see below).\<close>

definition header_bytes :: "apdu_header \<Rightarrow> bytes" where
  "header_bytes h = [cla h, ins h, p1 h, p2 h]"

definition le_byte :: "u32 \<Rightarrow> u8" where
  "le_byte e = ucast e"

definition encode_payload :: "apdu \<Rightarrow> bytes" where
  "encode_payload a =
     (case case_type a of
        Instruction \<Rightarrow> []
      | Short Le1 \<Rightarrow> [ucast (le a)]
      | Short Lc1Data \<Rightarrow> ucast (lc a) # apdu_data a
      | Short Lc1DataLe1 \<Rightarrow> ucast (lc a) # apdu_data a @ [ucast (le a)]
      | Extended Lc3Data \<Rightarrow> 0 # be_bytes 2 (lc a) @ apdu_data a
      | Extended Lc3DataLe1 \<Rightarrow> 0 # be_bytes 2 (lc a) @ apdu_data a @ [ucast (le a)]
      | Extended Lc3DataLe2 \<Rightarrow> 0 # be_bytes 2 (lc a) @ apdu_data a @ be_bytes 2 (le a)
      | Extended Le3 \<Rightarrow> 0 # be_bytes 2 (lc a) @ apdu_data a @ 0 # be_bytes 2 (le a)
      | _ \<Rightarrow> [])"

definition encode_frame :: "apdu \<Rightarrow> bytes" where
  "encode_frame a = header_bytes (apdu_head a) @ encode_payload a"

text \<open>The frames each form can carry.\<close>

definition apdu_ok :: "apdu \<Rightarrow> bool" where
  "apdu_ok a \<longleftrightarrow>
     length (apdu_data a) = unat (lc a) \<and>
     (case case_type a of
        Instruction \<Rightarrow> lc a = 0 \<and> le a = 0
      | Short Le1 \<Rightarrow> lc a = 0 \<and> 0 < le a \<and> le a \<le> 0x100
      | Short Lc1Data \<Rightarrow> 0 < lc a \<and> lc a < 0x100 \<and> le a = 0
      | Short Lc1DataLe1 \<Rightarrow> 0 < lc a \<and> lc a < 0x100 \<and> 0 < le a \<and> le a \<le> 0x100
      | Extended Lc3Data \<Rightarrow> le a = 0
      | Extended Lc3DataLe1 \<Rightarrow> 0 < le a \<and> le a \<le> 0x100
      | Extended Lc3DataLe2 \<Rightarrow> 0 < le a \<and> le a \<le> 0x10000
      | Extended Le3 \<Rightarrow> 0 < le a \<and> le a \<le> 0x10000
      | _ \<Rightarrow> False)"

section \<open>Lengths\<close>

lemma wrapped_le_iff:
  fixes w :: "'a::len word" and e :: u32
  assumes n: "LENGTH('a) < 32"
  shows "(if w = 0 then 2 ^ LENGTH('a) else ucast w) = e \<longleftrightarrow> 0 < e \<and> e \<le> 2 ^ LENGTH('a) \<and> w = ucast e"
proof -
  have small: "(2::nat) ^ LENGTH('a) < 2 ^ 32" using n by (intro power_strict_increasing) auto
  then have p: "unat (2 ^ LENGTH('a) :: u32) = 2 ^ LENGTH('a)"
    using unat_of_nat [of "2 ^ LENGTH('a)", where 'a = 32] by simp
  have up: "unat (ucast v :: u32) = unat v" for v :: "'a word"
    using less_trans [OF unsigned_less [of v, where 'a = nat], of "2 ^ 32"] small
    by (simp add: unsigned_ucast_eq take_bit_nat_eq_self_iff)
  have down: "unat (ucast e :: 'a word) = unat e mod 2 ^ LENGTH('a)"
    by (simp add: unsigned_ucast_eq take_bit_eq_mod)
  have w: "unat w < 2 ^ LENGTH('a)" "w = 0 \<longleftrightarrow> unat w = 0" by (simp_all add: unsigned_less unat_eq_zero)
  have weq: "w = ucast e \<longleftrightarrow> unat w = unat e mod 2 ^ LENGTH('a)" by (simp add: word_unat_eq_iff down)
  have wide: "(if w = 0 then 2 ^ LENGTH('a) else ucast w) = e \<longleftrightarrow>
      (if unat w = 0 then 2 ^ LENGTH('a) else unat w) = unat e"
    using w p up [of w] by (auto simp: word_unat_eq_iff [of _ e])
  show ?thesis
    unfolding wide weq word_less_nat_alt word_le_nat_alt p
    using w(1) by (cases "unat e = 2 ^ LENGTH('a)") (auto simp del: unsigned_less)
qed

lemma short_le_iff: "short_le b = e \<longleftrightarrow> 0 < e \<and> e \<le> 0x100 \<and> b = ucast e"
  using wrapped_le_iff [of b e] by (cases "b = 0") (simp_all add: short_le_def)

lemma extended_le_iff: "extended_le w = e \<longleftrightarrow> 0 < e \<and> e \<le> 0x10000 \<and> w = ucast e"
  using wrapped_le_iff [of w e] by (cases "w = 0") (simp_all add: extended_le_def)

lemma read_u16_be_bytes: "read_u16 (be_bytes 2 w @ bs) = ucast w"
  by (simp add: read_u16_def be_nat_be_bytes word_unat_eq_iff unsigned_ucast_eq take_bit_eq_mod unat_of_nat)

lemma be_bytes_read_u16:
  assumes "length bs \<ge> 2"
  shows "be_bytes 2 (read_u16 bs) = take 2 bs"
proof (rule be_nat_inj)
  have "be_nat (take 2 bs) < 65536"
    using be_nat_less [of "take 2 bs"] assms by simp
  then show "be_nat (be_bytes 2 (read_u16 bs)) = be_nat (take 2 bs)"
    by (simp add: be_nat_be_bytes read_u16_def unat_of_nat)
qed (use assms in simp)

lemma ucast_16_be: "unat (ucast (e :: u32) :: u16) mod 256 ^ 2 = unat e mod 256 ^ 2"
  by (simp add: unsigned_ucast_eq take_bit_eq_mod)

lemma be_bytes_extended_le: "be_bytes 2 (extended_le w) = be_bytes 2 w"
proof -
  have "w = ucast (extended_le w)" using extended_le_iff by blast
  then have "be_nat (be_bytes 2 w) = be_nat (be_bytes 2 (extended_le w))"
    by (metis (no_types) be_nat_be_bytes ucast_16_be)
  then show ?thesis using be_nat_inj by fastforce
qed

section \<open>Parsing what the encoder writes\<close>

lemma length_header_bytes [simp]: "length (header_bytes h) = 4"
  by (simp add: header_bytes_def)

lemma header_of_bytes: "length h = 4 \<Longrightarrow> header_bytes (header_of h) = h"
  by (auto simp: header_bytes_def header_of_def numeral_eq_Suc length_Suc_conv)

lemma header_of_header_bytes [simp]: "header_of (header_bytes h) = h"
  by (simp add: header_bytes_def header_of_def)

lemma ucast_lc: "(0::u16) < w \<Longrightarrow> w < 0x100 \<Longrightarrow> unat (ucast w :: u8) = unat w \<and> ucast (ucast w :: u8) = w \<and> (ucast w :: u8) \<noteq> 0"
proof -
  assume w: "0 < w" "w < 0x100"
  then have u: "unat (ucast w :: u8) = unat w"
    by (simp add: word_less_nat_alt unsigned_ucast_eq take_bit_nat_eq_self_iff)
  then have "unat (ucast (ucast w :: u8) :: u16) = unat w"
    using w by (simp add: word_less_nat_alt unsigned_ucast_eq [of "ucast w :: u8"] take_bit_nat_eq_self_iff)
  then show ?thesis
    using u w by (auto simp: word_unat_eq_iff word_less_nat_alt)
qed

lemma parse_extended_split:
  assumes d: "length d = unat w"
  shows "parse_extended h (b # be_bytes 2 w @ d @ r) =
    (if length r > 3 then Inl SwWrongLength
     else if b \<noteq> 0 then Inl SwInternalException
     else rbind (if length r = 0 then Inr (0, Lc3Data)
            else if length r = 1 then Inr (short_le (last r), Lc3DataLe1)
            else if length r = 2 then Inr (extended_le (read_u16 r), Lc3DataLe2)
            else if hd r \<noteq> 0 then Inl SwInternalException
            else Inr (extended_le (read_u16 (tl r)), Le3)) (\<lambda>(e, c).
       Inr \<lparr>apdu_head = h, lc = w, apdu_data = d, le = e, case_type = Extended c\<rparr>))"
proof -
  define p where "p = b # be_bytes 2 w @ d @ r"
  have p: "p = (b # be_bytes 2 w @ d) @ r" and hd: "hd p = b" by (simp_all add: p_def)
  have len: "length p = unat w + 3 + length r" using d by (simp add: p_def)
  have n: "read_u16 (drop 1 p) = w"
    using read_u16_be_bytes [of w "d @ r"] by (simp add: p_def)
  have "drop 3 (take (length p - length r) p) = d"
    using d len by (simp only: p take_append) (simp add: numeral_eq_Suc)
  then have d': "drop 3 (take (length p - k) p) = d" if "length r = k" for k using that by simp
  have d0: "drop 3 p = d" if "r = []" using d' [of 0] that by simp
  have tail: "drop (length p - k) p = drop (length r - k) r" if "k \<le> length r" for k
    using d len that by (simp only: p drop_append) simp
  have last: "last p = last r" if "length r = Suc 0" using that by (cases r) (auto simp: p_def last_append)
  have two: "drop (length p - 2) p = r" if "length r = 2" using that tail [of 2] by simp
  have three: "drop (length p - 2) p = tl r" "p ! (length p - 3) = hd r" if r: "length r = 3"
  proof -
    have "r ! 0 = hd r" "drop 1 r = tl r" using r by (cases r, auto)+
    then show "drop (length p - 2) p = tl r" "p ! (length p - 3) = hd r"
      using r d len tail [of 2] by (simp_all only: p nth_append) auto
  qed
  have le_len: "length p - (unat w + 3) = length r" and ge: "\<not> length p < unat w + 3" using len by simp_all
  consider "length r = 0" | "length r = 1" | "length r = 2" | "length r = 3" | "length r > 3" by linarith
  then have "parse_extended h p = (if length r > 3 then Inl SwWrongLength
     else if b \<noteq> 0 then Inl SwInternalException
     else rbind (if length r = 0 then Inr (0, Lc3Data)
            else if length r = 1 then Inr (short_le (last r), Lc3DataLe1)
            else if length r = 2 then Inr (extended_le (read_u16 r), Lc3DataLe2)
            else if hd r \<noteq> 0 then Inl SwInternalException
            else Inr (extended_le (read_u16 (tl r)), Le3)) (\<lambda>(e, c).
       Inr \<lparr>apdu_head = h, lc = w, apdu_data = d, le = e, case_type = Extended c\<rparr>))"
    unfolding parse_extended_def n le_len Let_def
    using hd by cases (simp_all add: ge d' d0 last two three)
  then show ?thesis unfolding p_def .
qed

lemma apdu_of_encoded:
  assumes "apdu_ok a"
  shows "apdu_of_frame (encode_frame a) = Inr a"
proof -
  obtain h w d e c where a: "a = \<lparr>apdu_head = h, lc = w, apdu_data = d, le = e, case_type = c\<rparr>"
    by (cases a)
  have frame: "apdu_of_frame (encode_frame a) = apdu_of_payload h (encode_payload a)"
    by (simp add: apdu_of_frame_def encode_frame_def a)
  have d: "length d = unat w" using assms by (simp add: apdu_ok_def a)
  have short: "apdu_of_frame (encode_frame a) = Inr a" if c: "c = Short k" for k
  proof (cases k)
    case Le1
    then have "encode_payload a = [ucast e]" "short_le (ucast e) = e" "w = 0" "d = []"
      using assms short_le_iff [of "ucast e" e] c by (auto simp: apdu_ok_def a encode_payload_def)
    then show ?thesis unfolding frame using c Le1 by (simp add: a apdu_of_payload_def)
  next
    case Lc1Data
    then have "encode_payload a = ucast w # d" "e = 0" "0 < w" "w < 0x100"
      using assms c by (simp_all add: apdu_ok_def a encode_payload_def)
    then show ?thesis
      unfolding frame using c Lc1Data ucast_lc [of w] d by (cases d) (auto simp: a apdu_of_payload_def Let_def unat_eq_zero split: if_splits)
  next
    case Lc1DataLe1
    then have "encode_payload a = ucast w # d @ [ucast e]" "short_le (ucast e) = e" "0 < w" "w < 0x100"
      using assms short_le_iff [of "ucast e" e] c by (simp_all add: apdu_ok_def a encode_payload_def)
    moreover have "take (unat w) (d @ [ucast e]) = d" using d by simp
    ultimately show ?thesis
      unfolding frame using c Lc1DataLe1 ucast_lc [of w] d by (cases d) (auto simp: a apdu_of_payload_def Let_def unat_eq_zero split: if_splits)
  qed (use assms c in \<open>simp_all add: apdu_ok_def a\<close>)
  have long: "apdu_of_payload h (0 # be_bytes 2 w @ d @ r) = parse_extended h (0 # be_bytes 2 w @ d @ r)" for r
    by (simp add: apdu_of_payload_def)
  have extended: "apdu_of_frame (encode_frame a) = Inr a" if c: "c = Extended k" for k
    using assms c short_le_iff [of "ucast e" e] extended_le_iff [of "ucast e" e]
      long [of "[]"] parse_extended_split [OF d, of h 0 "[]"]
      long [of "[ucast e]"] parse_extended_split [OF d, of h 0 "[ucast e]"]
      long [of "be_bytes 2 e"] parse_extended_split [OF d, of h 0 "be_bytes 2 e"]
      long [of "0 # be_bytes 2 e"] parse_extended_split [OF d, of h 0 "0 # be_bytes 2 e"]
      read_u16_be_bytes [of e "[]"]
    unfolding frame by (cases k) (simp_all add: apdu_ok_def a encode_payload_def)
  show ?thesis
    using assms short extended frame
    by (cases c) (auto simp: apdu_ok_def a encode_payload_def apdu_of_payload_def)
qed


lemma ucast_u8:
  "unat (ucast (b::u8) :: u16) = unat b" "ucast (ucast b :: u16) = b" "b \<noteq> 0 \<longrightarrow> (0::u16) < ucast b"
  "(ucast b :: u16) < 0x100"
proof -
  show u: "unat (ucast b :: u16) = unat b"
    using less_trans [OF unat_u8_less [of b], of "2 ^ 16"] by (simp add: unsigned_ucast_eq take_bit_nat_eq_self_iff)
  show "ucast (ucast b :: u16) = b"
    using unat_u8_less [of b] u by (simp add: word_unat_eq_iff [of _ b] unsigned_ucast_eq [of "ucast b :: u16"] take_bit_eq_mod)
  show "b \<noteq> 0 \<longrightarrow> (0::u16) < ucast b" using u by (simp add: word_less_nat_alt unat_gt_0)
  show "(ucast b :: u16) < 0x100" using u unat_u8_less [of b] by (simp add: word_less_nat_alt)
qed

lemma apdu_of_payload_sound:
  assumes run: "apdu_of_payload h payload = Inr a"
  shows "apdu_ok a \<and> payload = encode_payload a \<and> apdu_head a = h"
proof (cases payload)
  case Nil
  then show ?thesis using run by (auto simp: apdu_of_payload_def apdu_ok_def encode_payload_def)
next
  case (Cons b q)
  have b: "unat (ucast b :: u16) = unat b" "ucast (ucast b :: u16) = b" "b \<noteq> 0 \<longrightarrow> (0::u16) < ucast b"
    "(ucast b :: u16) < 0x100"
    by (rule ucast_u8)+
  consider (le1) "q = []" | (lc1) "q \<noteq> []" "length q = unat b" "b \<noteq> 0"
    | (lc1le1) "q \<noteq> []" "length q = Suc (unat b)" "b \<noteq> 0"
    | (ext) "length q > 1" "parse_extended h payload = Inr a"
    using run by (auto simp: apdu_of_payload_def Cons split: if_splits)
  then show ?thesis
  proof cases
    case le1
    then have "a = \<lparr>apdu_head = h, lc = 0, apdu_data = [], le = short_le b, case_type = Short Le1\<rparr>"
      using run by (simp add: apdu_of_payload_def Cons)
    then show ?thesis
      using le1 short_le_iff [of b "short_le b"] by (simp add: apdu_ok_def encode_payload_def Cons)
  next
    case lc1
    then have "a = \<lparr>apdu_head = h, lc = ucast b, apdu_data = q, le = 0, case_type = Short Lc1Data\<rparr>"
      using run by (auto simp: apdu_of_payload_def Cons Let_def split: if_splits)
    then show ?thesis using lc1 b by (simp add: apdu_ok_def encode_payload_def Cons)
  next
    case lc1le1
    then obtain d x where q: "q = d @ [x]" by (cases q rule: rev_cases) auto
    then have "a = \<lparr>apdu_head = h, lc = ucast b, apdu_data = d, le = short_le x, case_type = Short Lc1DataLe1\<rparr>"
      using run lc1le1 by (auto simp: apdu_of_payload_def Cons Let_def split: if_splits)
    then show ?thesis
      using lc1le1 b q short_le_iff [of x "short_le x"] by (simp add: apdu_ok_def encode_payload_def Cons)
  next
    case ext
    then obtain b1 b2 t where q: "q = [b1, b2] @ t"
      by (cases q; cases "tl q") auto
    define w where "w = read_u16 [b1, b2]"
    have bs: "be_bytes 2 w = [b1, b2]" by (simp add: w_def be_bytes_read_u16)
    have n: "unat (read_u16 (drop 1 payload)) = unat w" by (simp add: Cons q w_def read_u16_def)
    define d r where "d = take (unat w) t" and "r = drop (unat w) t"
    have "\<not> length payload < unat w + 3"
      using ext(2) unfolding parse_extended_def n Let_def by auto
    then have d: "length d = unat w" by (simp add: Cons q d_def)
    have p: "payload = b # be_bytes 2 w @ d @ r" by (simp add: Cons q bs d_def r_def)
    note run = ext(2) [unfolded p parse_extended_split [OF d]]
    have r: "length r \<le> 3" "b = 0" using run by (auto split: if_splits)
    then consider "r = []" | x where "r = [x]" | x y where "r = [x, y]" | x y z where "r = [x, y, z]"
      by (auto simp: numeral_eq_Suc le_Suc_eq length_Suc_conv)
    then show ?thesis
    proof cases
      case 1
      then show ?thesis using run r d p by (auto simp: apdu_ok_def encode_payload_def)
    next
      case (2 x)
      then show ?thesis
        using run r d p short_le_iff [of x "short_le x"] by (auto simp: apdu_ok_def encode_payload_def)
    next
      case (3 x y)
      then show ?thesis
        using run r d p extended_le_iff [of "read_u16 r" "extended_le (read_u16 r)"] be_bytes_read_u16 [of r]
        by (auto simp: apdu_ok_def encode_payload_def be_bytes_extended_le)
    next
      case (4 x y z)
      then show ?thesis
        using run r d p extended_le_iff [of "read_u16 (tl r)" "extended_le (read_u16 (tl r))"] be_bytes_read_u16 [of "tl r"]
        by (auto simp: apdu_ok_def encode_payload_def be_bytes_extended_le split: if_splits)
    qed
  qed
qed

text \<open>The parser accepts exactly the frames of its own forms, and gives back what was encoded.\<close>

lemma apdu_parse_iff: "apdu_of_frame frame = Inr a \<longleftrightarrow> apdu_ok a \<and> frame = encode_frame a"
proof
  assume run: "apdu_of_frame frame = Inr a"
  then have "length (take 4 frame) = 4" by (simp add: apdu_of_frame_def split: if_splits)
  then have "apdu_ok a \<and> header_bytes (apdu_head a) = take 4 frame \<and> encode_payload a = drop 4 frame"
    using run apdu_of_payload_sound [of "header_of (take 4 frame)" "drop 4 frame" a] header_of_bytes [of "take 4 frame"]
    by (simp add: apdu_of_frame_def split: if_splits)
  then show "apdu_ok a \<and> frame = encode_frame a"
    by (simp add: encode_frame_def)
qed (use apdu_of_encoded in blast)

section \<open>The encodings of ISO 7816-4\<close>

text \<open>The seven command encodings of ISO 7816-4, section 5.1: the command data, and \<open>ne\<close> as the largest
  number of response bytes expected, 0 without \<open>Le\<close>. \<open>of_nat\<close> wraps: an \<open>ne\<close> of 256, or of 65536 in
  an extended encoding, is written as zeros.\<close>

datatype iso_case = Case1 | Case2S | Case3S | Case4S | Case2E | Case3E | Case4E

definition iso_ok :: "iso_case \<Rightarrow> bytes \<Rightarrow> nat \<Rightarrow> bool" where
  "iso_ok c d ne \<longleftrightarrow>
     (if c \<in> {Case1, Case2S, Case2E} then d = []
      else 1 \<le> length d \<and> length d \<le> (if c \<in> {Case3S, Case4S} then 255 else 65535)) \<and>
     (if c \<in> {Case1, Case3S, Case3E} then ne = 0
      else 1 \<le> ne \<and> ne \<le> (if c \<in> {Case2S, Case4S} then 256 else 65536))"

definition iso_encode :: "iso_case \<Rightarrow> apdu_header \<Rightarrow> bytes \<Rightarrow> nat \<Rightarrow> bytes" where
  "iso_encode c h d ne = header_bytes h @
     (let nc = length d; b2 = (\<lambda>n. be_bytes 2 (of_nat n :: u16))
      in case c of
           Case1 \<Rightarrow> []
         | Case2S \<Rightarrow> [of_nat ne]
         | Case3S \<Rightarrow> of_nat nc # d
         | Case4S \<Rightarrow> of_nat nc # d @ [of_nat ne]
         | Case2E \<Rightarrow> 0 # b2 ne
         | Case3E \<Rightarrow> 0 # b2 nc @ d
         | Case4E \<Rightarrow> 0 # b2 nc @ d @ b2 ne)"

definition iso_apdu :: "iso_case \<Rightarrow> apdu_header \<Rightarrow> bytes \<Rightarrow> nat \<Rightarrow> apdu" where
  "iso_apdu c h d ne = \<lparr>apdu_head = h, lc = of_nat (length d), apdu_data = d, le = of_nat ne,
     case_type = (case c of Case1 \<Rightarrow> Instruction | Case2S \<Rightarrow> Short Le1 | Case3S \<Rightarrow> Short Lc1Data
       | Case4S \<Rightarrow> Short Lc1DataLe1 | Case4E \<Rightarrow> Extended Lc3DataLe2 | _ \<Rightarrow> Extended Lc3Data)\<rparr>"

text \<open>The frames outside ISO 7816-4 that are accepted: an extended \<open>Lc\<close> of zero without or with \<open>Le\<close>,
  an extended \<open>Lc\<close> with a one-byte \<open>Le\<close>, or with a three-byte \<open>Le\<close>.\<close>

definition lax_frame :: "bytes \<Rightarrow> apdu \<Rightarrow> bool" where
  "lax_frame frame a \<longleftrightarrow>
     (\<exists>h w d tail n c. length d = unat w \<and> frame = header_bytes h @ 0 # be_bytes 2 (w :: u16) @ d @ tail \<and>
        a = \<lparr>apdu_head = h, lc = w, apdu_data = d, le = n, case_type = Extended c\<rparr> \<and>
        (d = [] \<and> tail = [] \<and> n = 0 \<and> c = Lc3Data \<or>
         (\<exists>x. tail = [x] \<and> n = short_le x \<and> c = Lc3DataLe1) \<or>
         (\<exists>x. d = [] \<and> tail = be_bytes 2 x \<and> n = extended_le x \<and> c = Lc3DataLe2) \<or>
         (\<exists>x. tail = 0 # be_bytes 2 x \<and> n = extended_le x \<and> c = Le3)))"

lemma ucast_of_nat_small: "(ucast (of_nat n :: u32) :: u8) = of_nat n" "(ucast (of_nat n :: u32) :: u16) = of_nat n"
  "(ucast (of_nat n :: u16) :: u8) = of_nat n"
  by (simp_all add: word_unat_eq_iff unsigned_ucast_eq take_bit_eq_mod unat_of_nat mod_mod_cancel)

lemma be_bytes_two_narrow: "be_bytes 2 (ucast (e :: u32) :: u16) = be_bytes 2 e"
proof -
  have "be_nat (be_bytes 2 (ucast e :: u16)) = be_nat (be_bytes 2 e)"
    unfolding be_nat_be_bytes by (rule ucast_16_be)
  then show ?thesis using be_nat_inj by fastforce
qed

lemma iso_accepted:
  assumes ok: "iso_ok c d ne" and c: "c \<noteq> Case2E"
  shows "apdu_of_frame (iso_encode c h d ne) = Inr (iso_apdu c h d ne)"
proof -
  let ?a = "iso_apdu c h d ne"
  have nc: "unat (of_nat (length d) :: u16) = length d"
    using ok by (auto simp: iso_ok_def unat_of_nat split: if_splits)
  have ne: "unat (of_nat ne :: u32) = ne"
    using ok by (auto simp: iso_ok_def unat_of_nat split: if_splits)
  have "apdu_ok ?a"
    using ok c nc ne by (cases c) (auto simp: apdu_ok_def iso_apdu_def iso_ok_def word_less_nat_alt word_le_nat_alt)
  moreover have "encode_frame ?a = iso_encode c h d ne"
    using c ok be_bytes_two_narrow [of "of_nat ne :: u32"]
    by (cases c) (simp_all add: encode_frame_def encode_payload_def iso_apdu_def iso_encode_def ucast_of_nat_small iso_ok_def)
  ultimately show ?thesis using apdu_parse_iff by metis
qed

lemma case2e_refused:
  assumes "1 \<le> ne" "ne \<le> 65536"
  shows "apdu_of_frame (iso_encode Case2E h [] ne) =
    (if ne = 65536 then Inr (iso_apdu Case3E h [] 0) else Inl SwWrongLength)"
proof -
  let ?p = "0 # be_bytes 2 (of_nat ne :: u16)"
  have n: "unat (read_u16 (drop 1 ?p)) = ne mod 65536"
    using read_u16_be_bytes [of "of_nat ne :: u16" "[]"] by (simp add: unat_of_nat)
  have "apdu_of_frame (iso_encode Case2E h [] ne) = parse_extended h ?p"
    by (simp add: apdu_of_frame_def iso_encode_def apdu_of_payload_def)
  also have "\<dots> = (if ne = 65536 then Inr (iso_apdu Case3E h [] 0) else Inl SwWrongLength)"
    using assms unfolding parse_extended_def n Let_def by (auto simp: iso_apdu_def)
  finally show ?thesis .
qed

text \<open>A frame that is one of ISO 7816-4, or lax.\<close>

definition iso_or_lax :: "bytes \<Rightarrow> apdu \<Rightarrow> bool" where
  "iso_or_lax frame a \<longleftrightarrow>
     (\<exists>c h d ne. iso_ok c d ne \<and> c \<noteq> Case2E \<and> frame = iso_encode c h d ne \<and> a = iso_apdu c h d ne) \<or>
     lax_frame frame a"

lemma accepted_short:
  assumes ok: "apdu_ok a" and t: "case_type a = Short k"
  shows "iso_or_lax (encode_frame a) a"
proof -
  obtain h w d e where a: "a = \<lparr>apdu_head = h, lc = w, apdu_data = d, le = e, case_type = Short k\<rparr>"
    using t by (cases a) auto
  have d: "length d = unat w" using ok by (simp add: apdu_ok_def a)
  then have w: "of_nat (length d) = w" "(of_nat (length d) :: u8) = ucast w"
    using ucast_of_nat_small(3) [of "unat w"] by simp_all
  have e: "of_nat (unat e) = e" "(of_nat (unat e) :: u8) = ucast e" "(of_nat (unat e) :: u16) = ucast e"
    using ucast_of_nat_small [of "unat e"] by simp_all
  have iso: ?thesis if "iso_ok c d (unat e)" "c \<noteq> Case2E" "encode_frame a = iso_encode c h d (unat e)"
    "a = iso_apdu c h d (unat e)" for c using that unfolding iso_or_lax_def by blast
  consider "k = Le1" | "k = Lc1Data" | "k = Lc1DataLe1"
    using ok by (cases k) (simp_all add: apdu_ok_def a)
  then show ?thesis
  proof cases
    case 1
    then show ?thesis
      using ok w e by (intro iso [of Case2S]) (auto simp: apdu_ok_def a iso_ok_def encode_frame_def
          encode_payload_def iso_encode_def iso_apdu_def word_less_nat_alt word_le_nat_alt)
  next
    case 2
    then show ?thesis
      using ok w e by (intro iso [of Case3S]) (auto simp: apdu_ok_def a iso_ok_def encode_frame_def
          encode_payload_def iso_encode_def iso_apdu_def word_less_nat_alt word_le_nat_alt)
  next
    case 3
    then show ?thesis
      using ok w e by (intro iso [of Case4S]) (auto simp: apdu_ok_def a iso_ok_def encode_frame_def
          encode_payload_def iso_encode_def iso_apdu_def word_less_nat_alt word_le_nat_alt)
  qed
qed

lemma accepted_extended:
  assumes ok: "apdu_ok a" and t: "case_type a = Extended k"
  shows "iso_or_lax (encode_frame a) a"
proof -
  obtain h w d e where a: "a = \<lparr>apdu_head = h, lc = w, apdu_data = d, le = e, case_type = Extended k\<rparr>"
    using t by (cases a) auto
  have d: "length d = unat w" using ok by (simp add: apdu_ok_def a)
  then have w: "of_nat (length d) = w" "(of_nat (length d) :: u8) = ucast w"
    using ucast_of_nat_small(3) [of "unat w"] by simp_all
  have e: "of_nat (unat e) = e" "(of_nat (unat e) :: u8) = ucast e" "(of_nat (unat e) :: u16) = ucast e"
    using ucast_of_nat_small [of "unat e"] by simp_all
  have iso: ?thesis if "iso_ok c d (unat e)" "c \<noteq> Case2E" "encode_frame a = iso_encode c h d (unat e)"
    "a = iso_apdu c h d (unat e)" for c using that unfolding iso_or_lax_def by blast
  have small: "unat w \<le> 65535" using unsigned_less [of w, where 'a = nat] by simp
  have lax: ?thesis if "encode_frame a = header_bytes h @ 0 # be_bytes 2 w @ d @ tail" "k = j"
    "d = [] \<and> tail = [] \<and> e = 0 \<and> j = Lc3Data \<or> (\<exists>x. tail = [x] \<and> e = short_le x \<and> j = Lc3DataLe1) \<or>
     (\<exists>x. d = [] \<and> tail = be_bytes 2 x \<and> e = extended_le x \<and> j = Lc3DataLe2) \<or>
     (\<exists>x. tail = 0 # be_bytes 2 x \<and> e = extended_le x \<and> j = Le3)" for tail j
    using that d unfolding iso_or_lax_def lax_frame_def a by (intro disjI2 exI [of _ h] exI [of _ w] exI [of _ d] exI [of _ tail]
        exI [of _ e] exI [of _ j]) simp
  have short_len: "e = short_le (ucast e)" if "0 < e" "e \<le> 0x100"
    using that short_le_iff [of "ucast e" e] by simp
  have long_len: "e = extended_le (ucast e)" if "0 < e" "e \<le> 0x10000"
    using that extended_le_iff [of "ucast e" e] by simp
  consider (data) "k = Lc3Data" | (le1) "k = Lc3DataLe1" | (le2) "k = Lc3DataLe2" | (le3) "k = Le3"
    using ok by (cases k) (simp_all add: apdu_ok_def a)
  then show ?thesis
  proof cases
    case data
    show ?thesis
    proof (cases "d = []")
      case True
      show ?thesis
        by (rule lax [of "[]" Lc3Data]) (use ok data True in \<open>simp_all add: encode_frame_def encode_payload_def a apdu_ok_def\<close>)
    next
      case False
      then show ?thesis
        using ok data w small d [symmetric] by (intro iso [of Case3E]) (auto simp: apdu_ok_def a iso_ok_def encode_frame_def
            encode_payload_def iso_encode_def iso_apdu_def Suc_le_eq)
    qed
  next
    case le1
    show ?thesis
      by (rule lax [of "[ucast e]" Lc3DataLe1])
        (use ok le1 short_len
          in \<open>simp_all add: encode_frame_def encode_payload_def a apdu_ok_def\<close>)
  next
    case le2
    show ?thesis
    proof (cases "d = []")
      case True
      then show ?thesis
        using ok le2 long_len
        by (intro lax [of "be_bytes 2 e" Lc3DataLe2])
          (auto simp: encode_frame_def encode_payload_def a apdu_ok_def be_bytes_two_narrow [symmetric])
    next
      case False
      then show ?thesis
        using ok le2 w e small d [symmetric] by (intro iso [of Case4E]) (auto simp: apdu_ok_def a iso_ok_def encode_frame_def
            encode_payload_def iso_encode_def iso_apdu_def Suc_le_eq word_less_nat_alt word_le_nat_alt be_bytes_two_narrow)
    qed
  next
    case le3
    then show ?thesis
      using ok long_len
      by (intro lax [of "0 # be_bytes 2 e" Le3])
        (auto simp: encode_frame_def encode_payload_def a apdu_ok_def be_bytes_two_narrow [symmetric])
  qed
qed

lemma accepted_iso:
  assumes ok: "apdu_ok a"
  shows "iso_or_lax (encode_frame a) a"
proof (cases "case_type a")
  case Instruction
  then obtain h where "a = iso_apdu Case1 h [] 0" "encode_frame a = iso_encode Case1 h [] 0"
    using ok by (cases a) (auto simp: apdu_ok_def encode_frame_def encode_payload_def iso_encode_def iso_apdu_def)
  moreover have "iso_ok Case1 [] 0" by (simp add: iso_ok_def)
  ultimately show ?thesis unfolding iso_or_lax_def by blast
qed (use ok accepted_short accepted_extended in blast)+

text \<open>C26: a command in any encoding of ISO 7816-4 but case 2E is parsed to its header, its data and the
  length it expects; case 2E (a three-byte \<open>Le\<close> alone) is refused as a wrong length, or, for the largest
  \<open>Le\<close>, taken for empty extended data with no response expected. Nothing else is accepted but the lax
  extended forms, with an \<open>Lc\<close> of zero or an \<open>Le\<close> of one or three bytes.\<close>

theorem iso_apdu_parse:
  "(iso_ok c d ne \<longrightarrow> apdu_of_frame (iso_encode c h d ne) =
     (if c \<noteq> Case2E then Inr (iso_apdu c h d ne)
      else if ne = 65536 then Inr (iso_apdu Case3E h [] 0) else Inl SwWrongLength)) \<and>
   (apdu_of_frame frame = Inr a \<longrightarrow>
     (\<exists>c h d ne. iso_ok c d ne \<and> c \<noteq> Case2E \<and> frame = iso_encode c h d ne \<and> a = iso_apdu c h d ne) \<or>
     lax_frame frame a)"
proof (intro conjI impI)
  assume "iso_ok c d ne"
  then show "apdu_of_frame (iso_encode c h d ne) =
     (if c \<noteq> Case2E then Inr (iso_apdu c h d ne)
      else if ne = 65536 then Inr (iso_apdu Case3E h [] 0) else Inl SwWrongLength)"
    using iso_accepted [of c d ne h] case2e_refused [of ne h] by (cases "c = Case2E") (auto simp: iso_ok_def)
next
  assume "apdu_of_frame frame = Inr a"
  then have "apdu_ok a" "frame = encode_frame a" using apdu_parse_iff by blast+
  then show "(\<exists>c h d ne. iso_ok c d ne \<and> c \<noteq> Case2E \<and> frame = iso_encode c h d ne \<and> a = iso_apdu c h d ne) \<or>
     lax_frame frame a"
    using accepted_iso unfolding iso_or_lax_def by blast
qed

text \<open>Case 2E with an \<open>Le\<close> of 5 is refused; the frame of a case 4S command is its encoding.\<close>

lemma iso_apdu_parse_witness:
  "apdu_of_frame [0, 1, 0, 0, 0, 0, 5] = Inl SwWrongLength \<and>
   ((\<exists>c h d ne. iso_ok c d ne \<and> c \<noteq> Case2E \<and> [0, 3, 0, 0, 1, 7, 0] = iso_encode c h d ne \<and>
      \<lparr>apdu_head = \<lparr>cla = 0, ins = 3, p1 = 0, p2 = 0\<rparr>, lc = 1, apdu_data = [7], le = 256, case_type = Short Lc1DataLe1\<rparr> =
        iso_apdu c h d ne) \<or>
    lax_frame [0, 3, 0, 0, 1, 7, 0]
      \<lparr>apdu_head = \<lparr>cla = 0, ins = 3, p1 = 0, p2 = 0\<rparr>, lc = 1, apdu_data = [7], le = 256, case_type = Short Lc1DataLe1\<rparr>)"
proof -
  have "iso_ok Case2E [] 5" by (simp add: iso_ok_def)
  moreover have "iso_encode Case2E \<lparr>cla = 0, ins = 1, p1 = 0, p2 = 0\<rparr> [] 5 = [0, 1, 0, 0, 0, 0, 5]"
    by (simp add: iso_encode_def header_bytes_def be_bytes_def upt_rec)
  moreover have "apdu_of_frame [0, 3, 0, 0, 1, 7, 0] =
      Inr \<lparr>apdu_head = \<lparr>cla = 0, ins = 3, p1 = 0, p2 = 0\<rparr>, lc = 1, apdu_data = [7], le = 256, case_type = Short Lc1DataLe1\<rparr>"
    by (simp add: apdu_of_frame_def apdu_of_payload_def header_of_def short_le_def)
  ultimately show ?thesis
    using iso_apdu_parse [of Case2E "[]" 5 "\<lparr>cla = 0, ins = 1, p1 = 0, p2 = 0\<rparr>" "[0, 3, 0, 0, 1, 7, 0]"] by simp
qed

end
