(* ===== verification/Ctap1.thy ===== *)
theory Ctap1
  imports Apdu Ctap
begin

text \<open>
  CTAP1, \<open>src/ctap/ctap1.rs\<close>: the U2F commands Register, Authenticate and Version in APDU frames. Keys
  live in the key handle, the credential ID of \<open>Credential_Id\<close>. The user is asked by
  \<open>poll_approval_ctap1\<close>, whose answer to the \<open>n\<close>-th prompt is \<open>approve_ctap1 n\<close>. The handlers change
  nothing but the environment.
\<close>

section \<open>Commands\<close>

datatype ctap1_flags = CheckOnly | EnforceUpAndSign | DontEnforceUpAndSign

definition ctap1_flags_of :: "u8 \<Rightarrow> apdu_status + ctap1_flags" where
  "ctap1_flags_of b =
     (if b = 0x07 then Inr CheckOnly
      else if b = 0x03 then Inr EnforceUpAndSign
      else if b = 0x08 then Inr DontEnforceUpAndSign
      else Inl SwWrongData)"

datatype u2f_command =
    U2fRegister (u2f_challenge: bytes) (u2f_application: bytes)
  | U2fAuthenticate (u2f_challenge: bytes) (u2f_application: bytes) (u2f_key_handle: bytes) (u2f_flags: ctap1_flags)
  | U2fVersion
  | U2fVendorSpecific bytes

definition u2f_register :: u8 where "u2f_register = 0x01"
definition u2f_authenticate :: u8 where "u2f_authenticate = 0x02"
definition u2f_version :: u8 where "u2f_version = 0x03"

lemmas u2f_instructions = u2f_register_def u2f_authenticate_def u2f_version_def

definition u2f_command_of :: "apdu \<Rightarrow> apdu_status + u2f_command" where
  "u2f_command_of a =
     (let n = unat (lc a); d = apdu_data a; i = ins (apdu_head a)
      in if cla (apdu_head a) \<noteq> 0 then Inl SwClaInvalid
      else if n \<noteq> length d \<and> n + 2 \<noteq> length d then Inl SwWrongLength
      else if i = u2f_register then
        (if n \<noteq> 64 then Inl SwWrongLength else Inr (U2fRegister (take 32 d) (take 32 (drop 32 d))))
      else if i = u2f_authenticate then
        (if n < 65 \<or> n \<noteq> 65 + unat (d ! 64) then Inl SwWrongLength
         else rbind (ctap1_flags_of (p1 (apdu_head a))) (\<lambda>flags.
           Inr (U2fAuthenticate (take 32 d) (take 32 (drop 32 d)) (drop 65 d) flags)))
      else if i = u2f_version then (if n \<noteq> 0 then Inl SwWrongLength else Inr U2fVersion)
      else if 0x40 \<le> i \<and> i \<le> 0xBF then Inr (U2fVendorSpecific d)
      else Inl SwInsInvalid)"

definition u2f_command_of_message :: "bytes \<Rightarrow> apdu_status + u2f_command" where
  "u2f_command_of_message m = rbind (apdu_of_frame m) u2f_command_of"

section \<open>Handlers\<close>

text \<open>Errors are status words; a handler may also panic.\<close>

datatype u2f_fault = Word apdu_status | U2fPanic

type_synonym ('p, 'a) u2f_op = "('p env, u2f_fault, 'a) op"

text \<open>\<open>map_err\<close> of an error of the environment to one status word.\<close>

definition or_word :: "apdu_status \<Rightarrow> ('p, 'a) env_op \<Rightarrow> ('p, 'a) u2f_op" where
  "or_word x f = (\<lambda>e. let (r, e) = f e in (map_sum (\<lambda>_. Word x) id r, e))"

fun word_of_attestation :: "attestation_error \<Rightarrow> apdu_status" where
  "word_of_attestation AttestationStorage = SwMemErr"
| "word_of_attestation AttestationInternal = SwInternalException"
| "word_of_attestation AttestationNoSupport = SwInternalException"

definition u2f_attestation :: "'p platform \<Rightarrow> ('p, attestation) u2f_op" where
  "u2f_attestation P =
     (\<lambda>e. let (r, e) = attestation_get P Batch e
          in (rbind (map_sum (\<lambda>x. Word (word_of_attestation x)) id r) (\<lambda>a. ok_or a (Word SwInternalException)), e))"

definition u2f_new_ecdsa :: "'p platform \<Rightarrow> ('p, private_key) u2f_op" where
  "u2f_new_ecdsa P = (\<lambda>e. case new_private_key P Es256 e of None \<Rightarrow> (Inl U2fPanic, e) | Some (k, e) \<Rightarrow> (Inr k, e))"

text \<open>\<open>to_uncompressed\<close>\<close>

definition uncompressed :: "bytes \<times> bytes \<Rightarrow> bytes" where
  "uncompressed pk = 0x04 # fst pk @ snd pk"

definition legacy_byte :: u8 where "legacy_byte = 0x05"
definition user_presence_indicator_byte :: u8 where "user_presence_indicator_byte = 0x01"

definition register_data :: "bytes \<Rightarrow> bytes \<Rightarrow> bytes \<Rightarrow> bytes \<Rightarrow> bytes" where
  "register_data application challenge key_handle user_pk = 0x00 # application @ challenge @ key_handle @ user_pk"

definition process_register :: "'p platform \<Rightarrow> bytes \<Rightarrow> bytes \<Rightarrow> ('p, bytes) u2f_op" where
  "process_register P challenge application =
     sbind (u2f_new_ecdsa P) (\<lambda>key.
     sbind (or_word SwInternalException (slift (\<lambda>_. ecdsa_key P key))) (\<lambda>sk.
     let pk = ecdsa_public (crypto_of P) sk
     in sbind (or_word SwInternalException (encrypt_to_credential_id P \<lparr>ids_private_key = key,
          ids_rp_id_hash = application, ids_cred_protect = None, ids_cred_blob = None\<rparr>)) (\<lambda>key_handle.
        if length key_handle > 0xFF then sfail (Word SwInternalException) else
        sbind (u2f_attestation P) (\<lambda>a.
          if \<not> ecdsa_valid (crypto_of P) (att_private_key a) then sfail U2fPanic
          else sret (legacy_byte # uncompressed pk @ [of_nat (length key_handle)] @ key_handle @ att_certificate a @
            ecdsa_sign (crypto_of P) (att_private_key a)
              (register_data application challenge key_handle (uncompressed pk)))))))"

definition process_authenticate ::
  "'p platform \<Rightarrow> bytes \<Rightarrow> bytes \<Rightarrow> bytes \<Rightarrow> ctap1_flags \<Rightarrow> ('p, bytes) u2f_op" where
  "process_authenticate P challenge application key_handle flags =
     sbind (or_word SwWrongData (decrypt_credential_id P key_handle application)) (\<lambda>source.
       case source of
         None \<Rightarrow> sfail (Word SwWrongData)
       | Some credential \<Rightarrow>
           sbind (or_word SwWrongData (slift (\<lambda>_. ecdsa_key P (cs_private_key credential)))) (\<lambda>sk.
             if flags = CheckOnly then sfail (Word SwCondUseNotSatisfied) else
           sbind (or_word SwWrongData (increment_global_signature_counter P)) (\<lambda>_.
           sbind (or_word SwWrongData (generate_auth_data P application user_presence_indicator_byte)) (\<lambda>auth_data.
             sret (take 5 (drop (length application) auth_data) @
               ecdsa_sign (crypto_of P) sk (auth_data @ challenge))))))"

text \<open>\<open>consume_up\<close> with the feature \<open>xous\<close>.\<close>

definition consume_approval :: "'p platform \<Rightarrow> string \<Rightarrow> bytes \<Rightarrow> ('p, unit) u2f_op" where
  "consume_approval P text application =
     (\<lambda>e. (if approve_ctap1 P (prompts e) (locale_text P text) application then Inr ()
           else Inl (Word SwCondUseNotSatisfied), e\<lparr>prompts := Suc (prompts e)\<rparr>))"

definition allows_ctap1 :: "'p platform \<Rightarrow> ('p, bool) env_op" where
  "allows_ctap1 P = sbind (has_always_uv P) (\<lambda>always_uv. sret (\<not> always_uv))"

definition process_u2f_command :: "'p platform \<Rightarrow> u2f_command \<Rightarrow> ('p, bytes) u2f_op" where
  "process_u2f_command P cm =
     (case cm of
        U2fRegister challenge application \<Rightarrow>
          sbind (consume_approval P ''vault.u2f.register'' application) (\<lambda>_.
            process_register P challenge application)
      | U2fAuthenticate challenge application key_handle flags \<Rightarrow>
          sbind (if flags = EnforceUpAndSign then consume_approval P ''vault.u2f.authenticate'' application
                 else sret ()) (\<lambda>_.
            process_authenticate P challenge application key_handle flags)
      | U2fVersion \<Rightarrow> sret (utf8 ''U2F_V2'')
      | U2fVendorSpecific _ \<Rightarrow> sfail (Word SwSuccess))"

definition process_ctap1_command :: "'p platform \<Rightarrow> bytes \<Rightarrow> ('p, bytes) u2f_op" where
  "process_ctap1_command P m =
     sbind (or_word SwInternalException (allows_ctap1 P)) (\<lambda>allowed.
       if \<not> allowed then sfail (Word SwCommandNotAllowed) else
     sbind (slift (\<lambda>_. map_sum Word id (u2f_command_of_message m))) (process_u2f_command P))"

end
