(* ===== verification/Ctap_Runs.thy ===== *)
theory Ctap_Runs
  imports Ctap1 Main_Hid Effects
begin

text \<open>
  Which command may be continued: an operation moves the state of the command in progress only by
  ending it, by advancing it, or by starting the command it is about (\<open>moves\<close>). From this, the runs of
  the authenticator since power-up, in which CTAP1 and CTAP2 messages interleave: the reset window closes
  for good with the first other CTAP2 command, and a continuation follows the command it continues, on the
  same channel and in time. U2F messages, on whatever channel, end neither.
\<close>

section \<open>Moves of the command in progress\<close>

definition same_kind :: "stateful_command \<Rightarrow> stateful_command \<Rightarrow> bool" where
  "same_kind x y =
     (case (x, y) of
        (StatefulReset, StatefulReset) \<Rightarrow> True
      | (StatefulGetAssertion _, StatefulGetAssertion _) \<Rightarrow> True
      | (EnumerateRps _, EnumerateRps _) \<Rightarrow> True
      | (EnumerateCredentials _, EnumerateCredentials _) \<Rightarrow> True
      | _ \<Rightarrow> False)"

lemma same_kind_simps [simp]:
  "same_kind x x"
  "same_kind StatefulReset y \<longleftrightarrow> y = StatefulReset"
  "same_kind x StatefulReset \<longleftrightarrow> x = StatefulReset"
  by (auto simp: same_kind_def split: stateful_command.splits)

lemma same_kind_trans: "same_kind x y \<Longrightarrow> same_kind y z \<Longrightarrow> same_kind x z"
  by (auto simp: same_kind_def split: stateful_command.splits)

text \<open>The command that starts a series of requests.\<close>

definition starts :: "command \<Rightarrow> stateful_command \<Rightarrow> bool" where
  "starts cm x =
     (case x of
        StatefulReset \<Rightarrow> False
      | StatefulGetAssertion _ \<Rightarrow> (case cm of AuthenticatorGetAssertion _ \<Rightarrow> True | _ \<Rightarrow> False)
      | EnumerateRps _ \<Rightarrow>
          (case cm of AuthenticatorCredentialManagement m \<Rightarrow> mgp_sub_command m = EnumerateRpsBegin | _ \<Rightarrow> False)
      | EnumerateCredentials _ \<Rightarrow>
          (case cm of AuthenticatorCredentialManagement m \<Rightarrow> mgp_sub_command m = EnumerateCredentialsBegin
           | _ \<Rightarrow> False))"

definition kept :: "stateful_permission \<Rightarrow> stateful_permission \<Rightarrow> stateful_command \<Rightarrow> bool" where
  "kept s s' x \<longleftrightarrow> sp_permission s' = sp_permission s \<and> sp_channel s' = sp_channel s \<and>
     (\<exists>y. sp_command s = Some y \<and> same_kind x y)"

definition started :: "command \<Rightarrow> channel_id \<Rightarrow> instant \<Rightarrow> stateful_permission \<Rightarrow> stateful_command \<Rightarrow> bool" where
  "started cm channel now s' x \<longleftrightarrow> sp_permission s' = granted now stateful_command_timeout_duration \<and>
     sp_channel s' = Some channel \<and> starts cm x"

definition moves ::
  "command \<Rightarrow> channel_id \<Rightarrow> instant \<Rightarrow> stateful_permission \<Rightarrow> stateful_permission \<Rightarrow> bool" where
  "moves cm channel now s s' \<longleftrightarrow>
     (\<forall>x. sp_command s' = Some x \<longrightarrow> kept s s' x \<or> started cm channel now s' x)"

lemma moves_refl: "moves cm channel now s s"
  by (auto simp: moves_def kept_def)

lemma starts_same_kind: "same_kind x y \<Longrightarrow> starts cm y \<Longrightarrow> starts cm x"
  by (cases x; cases y; simp add: same_kind_def starts_def)

lemma kept_moves:
  assumes "kept t u x" "moves cm channel now s t"
  shows "kept s u x \<or> started cm channel now u x"
proof -
  obtain y where y: "sp_command t = Some y" "same_kind x y" and same: "sp_permission u = sp_permission t"
    "sp_channel u = sp_channel t"
    using assms(1) by (auto simp: kept_def)
  consider "kept s t y" | "started cm channel now t y"
    using assms(2) y(1) by (auto simp: moves_def)
  then show ?thesis
    using same y(2) same_kind_trans [of x y] starts_same_kind [of x y]
    by cases (auto simp: kept_def started_def)
qed

lemma moves_trans: "moves cm channel now s t \<Longrightarrow> moves cm channel now t u \<Longrightarrow> moves cm channel now s u"
  using kept_moves unfolding moves_def [of _ _ _ s u] moves_def [of _ _ _ t u] by blast

lemma moves_steps:
  "moves cm channel now s (sp_clear s)"
  "moves cm channel now s (clear_old_channels ch s)"
  "moves cm channel now s (clear_timer t s)"
  "moves cm channel now s (snd (next_assertion_credential s))"
  "moves cm channel now s (snd (next_enumerate_rp s))"
  "moves cm channel now s (snd (next_enumerate_credential s))"
  "starts cm x \<Longrightarrow> moves cm channel now s (start_command now x channel s)"
  by (auto simp: moves_def kept_def started_def sp_clear_def clear_old_channels_def clear_timer_def
      next_assertion_credential_def next_enumerate_rp_def next_enumerate_credential_def start_command_def
      same_kind_def split: option.splits stateful_command.splits)

section \<open>Moves of the handlers\<close>

definition ctap_moves ::
  "command \<Rightarrow> channel_id \<Rightarrow> instant \<Rightarrow> 'p env \<times> ctap_state \<Rightarrow> 'p env \<times> ctap_state \<Rightarrow> bool" where
  "ctap_moves cm channel now s s' \<longleftrightarrow>
     moves cm channel now (ctap_stateful (snd s)) (ctap_stateful (snd s'))"

definition second_moves ::
  "command \<Rightarrow> channel_id \<Rightarrow> instant \<Rightarrow> 's \<times> stateful_permission \<Rightarrow> 's \<times> stateful_permission \<Rightarrow> bool" where
  "second_moves cm channel now s s' \<longleftrightarrow> moves cm channel now (snd s) (snd s')"

interpretation moving: effect_bound "ctap_moves cm channel now"
  by unfold_locales (auto simp: ctap_moves_def intro: moves_refl moves_trans)

interpretation moving_second: effect_bound "second_moves cm channel now"
  by unfold_locales (auto simp: second_moves_def intro: moves_refl moves_trans)

lemma moves_calls:
  "within (ctap_moves cm channel now) (env_call f)"
  "within (ctap_moves cm channel now) (pin_call g)"
  "within (ctap_moves cm channel now) (blobs_call h)"
  "within (ctap_moves cm channel now) (result_call r)"
  "within (ctap_moves cm channel now) (err x)"
  "within (ctap_moves cm channel now) panic"
  by (auto simp: within_def ctap_moves_def env_call_def pin_call_def blobs_call_def result_call_def
      err_def panic_def moves_refl split: prod.split)

lemma moves_stateful_call:
  "(\<And>s. moves cm channel now s (snd (g s))) \<Longrightarrow> within (ctap_moves cm channel now) (stateful_call g)"
  by (auto simp: within_def ctap_moves_def stateful_call_def split: prod.split) (metis snd_conv)

lemma moves_management_call:
  "within (second_moves cm channel now) f \<Longrightarrow> within (ctap_moves cm channel now) (management_call f)"
  by (auto simp: within_def ctap_moves_def second_moves_def management_call_def split: prod.split)
     (metis snd_conv)

lemma moves_second:
  "within (second_moves cm channel now) (beside f)"
  "(\<And>s. moves cm channel now s (snd (g s))) \<Longrightarrow> within (second_moves cm channel now) (on_second g)"
  by (auto simp: within_def second_moves_def moves_refl)

lemmas handler_moves = moving.ret moving.bind moves_calls
lemmas management_moves = moving_second.ret moving_second.bind moves_second moves_steps moves_refl

lemma moves_make_credential: "within (ctap_moves cm channel now) (process_make_credential P params ch)"
  unfolding process_make_credential_def finish_make_credential_def attest_def new_key_def Let_def
  by (intro handler_moves; auto intro!: handler_moves split: prod.split option.split)
     (auto simp: within_def ctap_moves_def moves_refl split: option.split)

lemma moves_get_assertion:
  "within (ctap_moves (AuthenticatorGetAssertion params) channel now) (process_get_assertion P params channel now)"
  unfolding process_get_assertion_def ask_for_assertion_def remember_assertions_def Let_def
  by (intro handler_moves; auto intro!: handler_moves moves_stateful_call moves_steps
      simp: starts_def split: prod.split)

lemma moves_next_assertion: "within (ctap_moves cm channel now) (process_get_next_assertion P)"
  unfolding process_get_next_assertion_def
  by (auto intro!: handler_moves moves_stateful_call moves_steps split: prod.split)

lemma moves_management:
  "within (ctap_moves (AuthenticatorCredentialManagement params) channel now)
     (management_call (process_credential_management P params channel now))"
  unfolding process_credential_management_def process_enumerate_rps_begin_def
    process_enumerate_rps_get_next_rp_def process_enumerate_credentials_begin_def
    process_enumerate_credentials_get_next_def Let_def
  by (cases "mgp_sub_command params")
     (auto intro!: moves_management_call management_moves simp: starts_def split: prod.split)

lemma moves_reset: "within (ctap_moves cm channel now) (process_reset P ch)"
  unfolding process_reset_def check_reset_allowed_def
  by (intro handler_moves moves_stateful_call)
     (auto simp: moves_refl within_def ctap_moves_def split: prod.split)

lemma moves_fido_command: "within (ctap_moves cm channel now) (process_fido_command P cm channel now)"
  unfolding process_fido_command_def process_vendor_command_def
  by (cases cm) (auto intro!: handler_moves moves_make_credential moves_get_assertion moves_next_assertion
      moves_management moves_reset)

section \<open>Continuations\<close>

text \<open>The commands that continue a command in progress, the subcommands of an enumeration included.\<close>

definition follows :: "command \<Rightarrow> stateful_command \<Rightarrow> bool" where
  "follows cm x =
     (case x of
        StatefulReset \<Rightarrow> (case cm of AuthenticatorReset \<Rightarrow> True | AuthenticatorGetInfo \<Rightarrow> True
          | AuthenticatorSelection \<Rightarrow> True | AuthenticatorMakeCredential _ \<Rightarrow> True | _ \<Rightarrow> False)
      | StatefulGetAssertion _ \<Rightarrow> cm = AuthenticatorGetNextAssertion
      | EnumerateRps _ \<Rightarrow> (case cm of
            AuthenticatorCredentialManagement m \<Rightarrow> mgp_sub_command m = EnumerateRpsGetNextRp | _ \<Rightarrow> False)
      | EnumerateCredentials _ \<Rightarrow> (case cm of
            AuthenticatorCredentialManagement m \<Rightarrow> mgp_sub_command m = EnumerateCredentialsGetNextCredential
          | _ \<Rightarrow> False))"

lemma sbind_first_cong: "f s = f t \<Longrightarrow> sbind f g s = sbind f g t"
  by (simp add: sbind_def)

lemma moves_from_none:
  "moves cm channel now s s' \<Longrightarrow> sp_command s = None \<Longrightarrow> sp_command s' = Some x \<Longrightarrow> started cm channel now s' x"
  by (auto simp: moves_def kept_def)

lemma management_follows:
  assumes "management_call (process_credential_management P m channel now) s = (r, s')"
    and "sp_command (ctap_stateful (snd s')) = Some x" "kept (ctap_stateful (snd s)) (ctap_stateful (snd s')) x"
  shows "follows (AuthenticatorCredentialManagement m) x \<or>
    started (AuthenticatorCredentialManagement m) channel now (ctap_stateful (snd s')) x"
proof (cases "keeps_enumeration (mgp_sub_command m) (ctap_stateful (snd s))")
  case True
  then show ?thesis
    using assms(3)
    by (auto simp: keeps_enumeration_def kept_def follows_def get_command_def ok_or_def same_kind_def
        split: credential_management_subcommand.splits stateful_command.splits option.splits)
next
  case False
  obtain e c where s: "s = (e, c)" by (cases s)
  let ?run = "process_credential_management P m channel now"
  have "\<not> keeps_enumeration (mgp_sub_command m) (sp_clear (ctap_stateful c))"
    by (simp add: keeps_enumeration_def get_command_def sp_clear_def split: credential_management_subcommand.split)
  then have "?run ((e, ctap_client_pin c), ctap_stateful c) = ?run ((e, ctap_client_pin c), sp_clear (ctap_stateful c))"
    unfolding process_credential_management_def
    using False by (intro sbind_first_cong) (simp add: s, simp add: sp_clear_def)
  then have "management_call ?run (e, c\<lparr>ctap_stateful := sp_clear (ctap_stateful c)\<rparr>) = (r, s')"
    using assms(1) by (simp add: s management_call_def)
  note withinD [OF moves_management this, unfolded ctap_moves_def]
  then show ?thesis
    using moves_from_none [OF _ _ assms(2)] by (simp add: sp_clear_def)
qed

lemma continues_follows:
  assumes "continues cm s" "sp_command s = Some y" "same_kind x y" "\<forall>m. cm \<noteq> AuthenticatorCredentialManagement m"
  shows "follows cm x"
  using assms by (cases y; cases x; cases cm) (auto simp: continues_def get_command_def follows_def same_kind_def)

lemma prepared:
  assumes "sp_command (prepare_stateful cm channel now s) = Some x"
  shows "prepare_stateful cm channel now s = s" "continues cm s" "is_granted (sp_permission s) now"
    "sp_channel s \<in> {None, Some channel}"
  using assms by (auto simp: prepare_stateful_def Let_def sp_clear_def clear_timer_def
      clear_old_channels_def split: if_splits option.splits)

text \<open>What a request leaves in progress, it continued in time on its channel, or it started.\<close>

lemma parsed_moves:
  assumes run: "process_parsed_command P cm channel now (e, c) = (r, (e', c'))"
    and some: "sp_command (ctap_stateful c') = Some x"
  shows "kept (ctap_stateful c) (ctap_stateful c') x \<and> follows cm x \<and>
      is_granted (sp_permission (ctap_stateful c)) now \<and>
      sp_channel (ctap_stateful c) \<in> {None, Some channel} \<or>
    started cm channel now (ctap_stateful c') x"
proof -
  let ?s = "prepare_stateful cm channel now (ctap_stateful c)"
  let ?c = "c\<lparr>ctap_u2f_up := fresh_u2f_up, ctap_stateful := ?s\<rparr>"
  have fido: "process_fido_command P cm channel now (e, ?c) = (r, (e', c'))"
    using run by (simp add: process_parsed_command_def sbind_def)
  have mv: "moves cm channel now ?s (ctap_stateful c')"
    using withinD [OF moves_fido_command fido] by (simp add: ctap_moves_def)
  show ?thesis
  proof (cases "started cm channel now (ctap_stateful c') x")
    case False
    then have k: "kept ?s (ctap_stateful c') x" using mv some by (auto simp: moves_def)
    then obtain y where y: "sp_command ?s = Some y" "same_kind x y" by (auto simp: kept_def)
    note s = prepared [OF y(1)]
    have "follows cm x"
    proof (cases "\<exists>m. cm = AuthenticatorCredentialManagement m")
      case True
      then obtain m where m: "cm = AuthenticatorCredentialManagement m" by blast
      obtain r0 where "management_call (process_credential_management P m channel now) (e, ?c) = (r0, (e', c'))"
        using fido unfolding m process_fido_command_def command.case
        by (auto simp: sbind_def split: prod.splits sum.splits)
      from management_follows [OF this] show ?thesis using some k m False by simp
    qed (use continues_follows [OF s(2)] y s(1) in auto)
    then show ?thesis using k s by simp
  qed simp
qed

section \<open>Runs since power-up\<close>

text \<open>The events of a run: a CTAP2 request (\<open>CBOR\<close>) or a CTAP1 request (\<open>MSG\<close>) on a channel, or the main
  loop's update of the timeouts. A request that panics ends the run. A CTAP1 request works on the same
  environment, but is not told its channel, and has no part in the state of the commands in progress.\<close>

datatype ctap_event = Request bytes channel_id instant | U2fRequest bytes channel_id instant | Timeouts instant

inductive ctap_run :: "'p platform \<Rightarrow> instant \<Rightarrow> ctap_event list \<Rightarrow> 'p env \<times> ctap_state \<Rightarrow> bool"
  for P :: "'p platform" and t0 :: instant where
  power_up: "new_ctap_state P t0 e0 = (c, e) \<Longrightarrow> ctap_run P t0 [] (e, c)"
| request: "ctap_run P t0 es s \<Longrightarrow> process_ctap_command P bs channel now s = (Some out, s') \<Longrightarrow>
    ctap_run P t0 (es @ [Request bs channel now]) s'"
| u2f_request: "ctap_run P t0 es (e, c) \<Longrightarrow> process_ctap1_command P bs e = (r, e') \<Longrightarrow> r \<noteq> Inl U2fPanic \<Longrightarrow>
    ctap_run P t0 (es @ [U2fRequest bs channel now]) (e', c)"
| timeouts: "ctap_run P t0 es (e, c) \<Longrightarrow> ctap_run P t0 (es @ [Timeouts now]) (e, update_timeouts now c)"

text \<open>The two protocol handlers of \<open>MainHid\<close> on the state of the authenticator, and that every message it
  processes is such an event, or none. A handler that panics does not return: the answers given to it here
  do not matter.\<close>

definition main_ctap1 :: "'p platform \<Rightarrow> ('p env \<times> ctap_state) ctap1_handler" where
  "main_ctap1 P bs now = (\<lambda>(e, c).
     (case process_ctap1_command P bs e of
        (Inr out, e') \<Rightarrow> (Inr out, (e', c))
      | (Inl (Word w), e') \<Rightarrow> (Inl (status_word w), (e', c))
      | (Inl U2fPanic, e') \<Rightarrow> (Inl 0, (e', c))))"

definition main_ctap2 :: "'p platform \<Rightarrow> ('p env \<times> ctap_state) ctap2_handler" where
  "main_ctap2 P bs channel now s =
     (case process_ctap_command P bs channel now s of (Some out, s') \<Rightarrow> (out, s') | (None, s') \<Rightarrow> ([], s'))"

definition message_panics :: "'p platform \<Rightarrow> message \<Rightarrow> instant \<Rightarrow> 'p env \<times> ctap_state \<Rightarrow> bool" where
  "message_panics P m now s \<longleftrightarrow>
     (m_cmd m = Msg \<and> fst (process_ctap1_command P (m_payload m) (fst s)) = Inl U2fPanic \<or>
      m_cmd m = Cbor \<and> fst (process_ctap_command P (m_payload m) (m_cid m) now s) = None)"

fun message_events :: "message \<Rightarrow> instant \<Rightarrow> ctap_event list" where
  "message_events m now =
     (case m_cmd m of
        Msg \<Rightarrow> [U2fRequest (m_payload m) (m_cid m) now]
      | Cbor \<Rightarrow> [Request (m_payload m) (m_cid m) now]
      | _ \<Rightarrow> [])"

lemma run_message:
  assumes run: "ctap_run P t0 es s" and ok: "\<not> message_panics P m now s"
    and step: "process_message (Some (main_ctap1 P)) (main_ctap2 P) m now (h, s) = (r, h', s')"
  shows "ctap_run P t0 (es @ message_events m now) s'"
proof -
  obtain e c where s: "s = (e, c)" by (cases s)
  consider "m_cmd m = Msg" | "m_cmd m = Cbor" | "m_cmd m \<notin> {Msg, Cbor}" by blast
  then show ?thesis
  proof cases
    case 1
    obtain x e' where x: "process_ctap1_command P (m_payload m) e = (x, e')" by fastforce
    then have "s' = (e', c)"
      using step 1 by (auto simp: s process_message_def main_ctap1_def Let_def split: sum.splits u2f_fault.splits)
    then show ?thesis
      using ctap_run.u2f_request [OF run [unfolded s] x] ok x 1 by (simp add: message_panics_def s)
  next
    case 2
    obtain x s2 where x: "process_ctap_command P (m_payload m) (m_cid m) now s = (x, s2)"
      by (cases "process_ctap_command P (m_payload m) (m_cid m) now s")
    with ok 2 obtain out where "x = Some out" by (cases x) (simp_all add: message_panics_def)
    then show ?thesis
      using ctap_run.request [OF run x [unfolded \<open>x = Some out\<close>]] step 2 x
      by (auto simp: process_message_def main_ctap2_def Let_def)
  next
    case 3
    then have "s' = s" using process_message_state [OF 3] step by (metis snd_conv)
    then show ?thesis using run 3 by (simp split: hid_command.split)
  qed
qed

text \<open>An event that leaves a command in progress: bytes that are no command count as none, and so do U2F
  requests.\<close>

definition keeps :: "'p platform \<Rightarrow> stateful_command \<Rightarrow> channel_id option \<Rightarrow> instant \<Rightarrow> ctap_event \<Rightarrow> bool" where
  "keeps P x channel deadline ev =
     (case ev of
        Timeouts t \<Rightarrow> t \<le> deadline
      | U2fRequest _ _ _ \<Rightarrow> True
      | Request bs ch t \<Rightarrow>
          (case deserialize_command (usize_bits P) bs of
             Inl _ \<Rightarrow> True
           | Inr cm \<Rightarrow> follows cm x \<and> t \<le> deadline \<and> channel \<in> {None, Some ch}))"

lemma follows_same_kind: "same_kind x y \<Longrightarrow> follows cm x = follows cm y"
  by (cases x; cases y; simp add: same_kind_def follows_def)

lemma keeps_same_kind: "same_kind x y \<Longrightarrow> keeps P x ch d ev = keeps P y ch d ev"
  using follows_same_kind [of x y] by (simp only: keeps_def)

definition in_progress :: "'p platform \<Rightarrow> instant \<Rightarrow> ctap_event list \<Rightarrow> stateful_permission \<Rightarrow> stateful_command \<Rightarrow> bool" where
  "in_progress P t0 es s x \<longleftrightarrow>
     (if x = StatefulReset
      then sp_permission s = granted t0 reset_timeout_duration \<and> sp_channel s = None \<and>
        (\<forall>ev\<in>set es. keeps P x None (t0 + reset_timeout_duration) ev)
      else \<exists>es1 bs ch t es2 cm. es = es1 @ Request bs ch t # es2 \<and>
        deserialize_command (usize_bits P) bs = Inr cm \<and> starts cm x \<and>
        sp_permission s = granted t stateful_command_timeout_duration \<and> sp_channel s = Some ch \<and>
        (\<forall>ev\<in>set es2. keeps P x (Some ch) (t + stateful_command_timeout_duration) ev))"

lemma in_progress_kept:
  assumes old: "in_progress P t0 es s y" and k: "kept s s' x" "sp_command s = Some y"
    and ev: "\<And>ch d. sp_channel s = ch \<Longrightarrow> sp_permission s = Granted d \<Longrightarrow> keeps P x ch d ev"
  shows "in_progress P t0 (es @ [ev]) s' x"
proof -
  have xy: "same_kind x y" and same: "sp_permission s' = sp_permission s" "sp_channel s' = sp_channel s"
    using k by (auto simp: kept_def)
  show ?thesis
  proof (cases "x = StatefulReset")
    case True
    then show ?thesis
      using xy old ev [of None] same by (auto simp: in_progress_def granted_def)
  next
    case False
    then have "y \<noteq> StatefulReset" using xy by auto
    then obtain es1 bs ch t es2 cm where w: "es = es1 @ Request bs ch t # es2"
      "deserialize_command (usize_bits P) bs = Inr cm" "starts cm y"
      "sp_permission s = granted t stateful_command_timeout_duration" "sp_channel s = Some ch"
      "\<forall>ev\<in>set es2. keeps P y (Some ch) (t + stateful_command_timeout_duration) ev"
      using old by (auto simp: in_progress_def)
    have "\<forall>ev'\<in>set (es2 @ [ev]). keeps P x (Some ch) (t + stateful_command_timeout_duration) ev'"
      using w(6) ev [OF w(5)] w(4) by (auto simp: granted_def keeps_same_kind [OF xy])
    moreover have "es @ [ev] = es1 @ Request bs ch t # (es2 @ [ev])" using w(1) by simp
    ultimately show ?thesis
      using False w(2,4,5) starts_same_kind [OF xy w(3)] same unfolding in_progress_def by (auto intro!: exI)
  qed
qed

lemma kept_refl: "sp_command s = Some x \<Longrightarrow> kept s s x"
  by (simp add: kept_def)

lemma run_in_progress:
  "ctap_run P t0 es s \<Longrightarrow> sp_command (ctap_stateful (snd s)) = Some x \<Longrightarrow>
     in_progress P t0 es (ctap_stateful (snd s)) x"
proof (induction arbitrary: x rule: ctap_run.induct)
  case (power_up e0 c e)
  then show ?case
    by (auto simp: new_ctap_state_def Let_def new_reset_def in_progress_def split: prod.splits)
next
  case (request es s bs channel now out s')
  obtain e c e' c' where s: "s = (e, c)" "s' = (e', c')" by (cases s; cases s')
  let ?ev = "Request bs channel now"
  show ?case
  proof (cases "deserialize_command (usize_bits P) bs")
    case (Inl err)
    then have same: "s' = s" using request.hyps(2) by (simp add: process_ctap_command_def)
    have some: "sp_command (ctap_stateful (snd s)) = Some x" using request.prems same by simp
    show ?thesis
      unfolding same by (rule in_progress_kept [OF request.IH [OF some] kept_refl [OF some] some])
        (simp add: keeps_def Inl)
  next
    case (Inr cm)
    obtain r where "process_parsed_command P cm channel now (e, c) = (r, (e', c'))"
      using request.hyps(2) Inr
      by (auto simp: process_ctap_command_def s split: prod.splits sum.splits fault.splits)
    note mv = parsed_moves [OF this, of x]
    consider (kept) "kept (ctap_stateful c) (ctap_stateful c') x" "follows cm x"
        "is_granted (sp_permission (ctap_stateful c)) now" "sp_channel (ctap_stateful c) \<in> {None, Some channel}"
      | (started) "started cm channel now (ctap_stateful c') x"
      using mv request.prems by (auto simp: s)
    then show ?thesis
    proof cases
      case kept
      then obtain y where y: "sp_command (ctap_stateful c) = Some y" by (auto simp: kept_def)
      have "keeps P x ch d ?ev" if "sp_channel (ctap_stateful c) = ch"
        "sp_permission (ctap_stateful c) = Granted d" for ch d
        using that kept Inr by (auto simp: keeps_def)
      then show ?thesis
        using in_progress_kept [OF request.IH [of y] _ _ , of "ctap_stateful c'" x ?ev] y kept(1) by (simp add: s)
    next
      case started
      then show ?thesis
        using Inr by (fastforce simp: s in_progress_def started_def starts_def)
    qed
  qed
next
  case (u2f_request es e c bs r e' channel now)
  have some: "sp_command (ctap_stateful c) = Some x" using u2f_request.prems by simp
  show ?case
    unfolding snd_conv by (rule in_progress_kept [OF u2f_request.IH [unfolded snd_conv, OF some] kept_refl [OF some] some])
      (simp add: keeps_def)
next
  case (timeouts es e c now)
  have some: "sp_command (ctap_stateful c) = Some x" and now: "is_granted (sp_permission (ctap_stateful c)) now"
    and same: "clear_timer now (ctap_stateful c) = ctap_stateful c"
    using timeouts.prems by (auto simp: update_timeouts_def clear_timer_def sp_clear_def split: if_splits)
  have "in_progress P t0 (es @ [Timeouts now]) (ctap_stateful c) x"
    by (rule in_progress_kept [OF timeouts.IH [unfolded snd_conv, OF some] kept_refl [OF some] some])
      (use now in \<open>auto simp: keeps_def\<close>)
  then show ?case using same by (simp add: update_timeouts_def)
qed

section \<open>The reset window and the next assertions\<close>

lemma reset_run:
  assumes "process_parsed_command P AuthenticatorReset channel now (e, c) = (Inr r, s')"
  shows "sp_command (ctap_stateful c) = Some StatefulReset \<and> is_granted (sp_permission (ctap_stateful c)) now \<and>
    touch P (prompts e) (locale_text P ''vault2.u2f.factoryreset'') channel = Inr ()"
proof -
  let ?s = "prepare_stateful AuthenticatorReset channel now (ctap_stateful c)"
  have s: "sp_command ?s = Some StatefulReset"
    using assms by (auto simp: process_parsed_command_def process_fido_command_def process_reset_def
        check_reset_allowed_def stateful_call_def get_command_def ok_or_def sbind_def
        split: option.splits stateful_command.splits)
  then show ?thesis
    using assms prepared [OF s] by (cases "touch P (prompts e) (locale_text P ''vault2.u2f.factoryreset'') channel")
      (auto simp: process_parsed_command_def process_fido_command_def process_reset_def check_reset_allowed_def
        stateful_call_def get_command_def check_user_presence_def env_call_def sbind_def)
qed

lemma next_assertion_run:
  assumes "process_parsed_command P AuthenticatorGetNextAssertion channel now (e, c) = (Inr r, s')"
  shows "\<exists>a. sp_command (ctap_stateful c) = Some (StatefulGetAssertion a) \<and>
    is_granted (sp_permission (ctap_stateful c)) now \<and> sp_channel (ctap_stateful c) \<in> {None, Some channel}"
proof -
  let ?s = "prepare_stateful AuthenticatorGetNextAssertion channel now (ctap_stateful c)"
  obtain a where s: "sp_command ?s = Some (StatefulGetAssertion a)"
    using assms by (auto simp: process_parsed_command_def process_fido_command_def process_get_next_assertion_def
        stateful_call_def next_assertion_credential_def sbind_def split: option.splits stateful_command.splits)
  then show ?thesis using prepared [OF s] by auto
qed

text \<open>C4: the authenticator is reset only in the first 20 seconds after power-up, when every CTAP2 request
  since then was a reset, getInfo, selection or makeCredential (or no command at all), on whatever channel,
  and after the user confirmed. U2F registrations and signatures may have come in between: they do not close
  the window.\<close>

theorem reset_after_power_up:
  assumes "ctap_run P t0 es s" "process_parsed_command P AuthenticatorReset channel now s = (Inr r, s')"
  shows "now \<le> t0 + reset_timeout_duration \<and>
    (\<forall>ev\<in>set es. keeps P StatefulReset None (t0 + reset_timeout_duration) ev) \<and>
    touch P (prompts (fst s)) (locale_text P ''vault2.u2f.factoryreset'') channel = Inr ()"
proof -
  obtain e c where s: "s = (e, c)" by (cases s)
  note r = reset_run [OF assms(2) [unfolded s]]
  have "in_progress P t0 es (ctap_stateful c) StatefulReset"
    using run_in_progress [OF assms(1)] r by (simp add: s)
  then show ?thesis using r by (auto simp: in_progress_def s)
qed

text \<open>C23: getNextAssertion is answered only after a getAssertion on the same channel, at most 30 seconds
  after it, and with no CTAP2 command but further getNextAssertion requests on that channel in between.
  U2F requests may come in between, at any time and on any channel.\<close>

theorem next_assertion_continues:
  assumes "ctap_run P t0 es s" "process_parsed_command P AuthenticatorGetNextAssertion channel now s = (Inr r, s')"
  shows "\<exists>es1 bs t es2 params. es = es1 @ Request bs channel t # es2 \<and>
    deserialize_command (usize_bits P) bs = Inr (AuthenticatorGetAssertion params) \<and>
    now \<le> t + stateful_command_timeout_duration \<and>
    (\<forall>ev\<in>set es2. case ev of
        Timeouts t' \<Rightarrow> t' \<le> t + stateful_command_timeout_duration
      | U2fRequest _ _ _ \<Rightarrow> True
      | Request bs' channel' t' \<Rightarrow>
          (case deserialize_command (usize_bits P) bs' of
             Inl _ \<Rightarrow> True
           | Inr cm \<Rightarrow> cm = AuthenticatorGetNextAssertion \<and> channel' = channel \<and>
               t' \<le> t + stateful_command_timeout_duration))"
proof -
  obtain e c where s: "s = (e, c)" by (cases s)
  obtain a where a: "sp_command (ctap_stateful c) = Some (StatefulGetAssertion a)"
    "is_granted (sp_permission (ctap_stateful c)) now" "sp_channel (ctap_stateful c) \<in> {None, Some channel}"
    using next_assertion_run [OF assms(2) [unfolded s]] by blast
  obtain es1 bs t es2 cm where w: "es = es1 @ Request bs channel t # es2"
    "deserialize_command (usize_bits P) bs = Inr cm" "starts cm (StatefulGetAssertion a)"
    "now \<le> t + stateful_command_timeout_duration"
    "\<forall>ev\<in>set es2. keeps P (StatefulGetAssertion a) (Some channel) (t + stateful_command_timeout_duration) ev"
    using run_in_progress [OF assms(1)] a by (auto simp: s in_progress_def)
  obtain params where "cm = AuthenticatorGetAssertion params"
    using w(3) by (cases cm) (simp_all add: starts_def)
  then show ?thesis
    using w by (intro exI [of _ es1] exI [of _ bs] exI [of _ t] exI [of _ es2] exI [of _ params])
      (auto simp: keeps_def follows_def split: ctap_event.splits sum.splits)
qed

end
