(* ===== verification/Assertion_Props.thy ===== *)
theory Assertion_Props
  imports Ctap_Runs Frames Credential_Props
begin

text \<open>
  getAssertion on a working device: which resident credential it answers for, what it signs, and what
  it keeps for getNextAssertion.
\<close>

section \<open>Resident credentials of a relying party\<close>

lemma get_credential_ok:
  assumes inv: "cred_inv P view e" and c: "cred_of P view e k = Some c"
  shows "get_credential P k e = (Inr c, e)"
proof -
  obtain v where v: "content view (store_of e) k = Some v" "deserialize_credential (usize_bits P) v = Some c"
    using c by (auto simp: creds_def split: if_splits bind_splits)
  have "\<not> (k < min_credential_key \<or> k \<ge> min_credential_key + max_supported_resident_keys (custom P))"
    using creds_keyD [OF c] cred_invD(3) [OF inv c] by linarith
  then show ?thesis
    using v by (simp add: get_credential_def sbind_def find_entry_ok [OF cred_invD(1) [OF inv]])
qed

definition usable :: "('p \<Rightarrow> string \<Rightarrow> bytes option) \<Rightarrow> 'p platform \<Rightarrow> 'p env \<Rightarrow> rust_string \<Rightarrow> bool \<Rightarrow> nat set" where
  "usable view P e rp has_uv =
     {k. \<exists>c. cred_of P view e k = Some c \<and> cs_rp_id c = rp \<and> (has_uv \<or> is_discoverable c)}"

abbreviation order_at :: "('p \<Rightarrow> string \<Rightarrow> bytes option) \<Rightarrow> 'p platform \<Rightarrow> 'p env \<Rightarrow> nat \<Rightarrow> u64" where
  "order_at view P e k \<equiv> cs_creation_order (the (cred_of P view e k))"

lemma choose_resident_ok:
  assumes inv: "cred_inv P view e"
  shows "\<exists>keys. distinct keys \<and> set keys = usable view P e rp has_uv \<and>
    sorted (map (order_at view P e) keys) \<and>
    choose_resident_credential P rp has_uv e =
      (Inr (if keys = [] then (None, []) else (cred_of P view e (last keys), butlast keys)), e)"
proof -
  let ?m = "cred_of P view e"
  let ?good = "\<lambda>c. cs_rp_id c = rp \<and> (has_uv \<or> is_discoverable c)"
  obtain ks where ks: "iter_credentials P e = (Inr (map (\<lambda>k. (k, the (?m k))) ks, Inr ()), e)"
    "distinct ks" "set ks = dom ?m"
    using iter_credentials_ok [OF inv] by blast
  define items where "items = filter (\<lambda>(_, c). ?good c) (map (\<lambda>k. (k, the (?m k))) ks)"
  define keys where "keys = usable_keys rp has_uv (map (\<lambda>k. (k, the (?m k))) ks)"
  have items: "items = map (\<lambda>k. (k, the (?m k))) (filter (\<lambda>k. ?good (the (?m k))) ks)"
    by (simp add: items_def filter_map o_def)
  have keys: "keys = map fst (sort_key (\<lambda>(_, c). cs_creation_order c) items)"
    by (simp add: keys_def usable_keys_def items_def)
  have fst_items: "map fst items = filter (\<lambda>k. ?good (the (?m k))) ks"
    by (simp add: items o_def)
  have snd_items: "snd p = the (?m (fst p))" if "p \<in> set items" for p
    using that by (auto simp: items)
  have set_keys: "set keys = set (map fst items)"
    unfolding keys by simp
  have "k \<in> set keys \<longleftrightarrow> k \<in> usable view P e rp has_uv" for k
  proof (cases "?m k")
    case None
    then show ?thesis using ks(3) unfolding set_keys fst_items by (simp add: usable_def domIff)
  next
    case (Some c)
    then have "k \<in> set ks" using ks(3) by auto
    then show ?thesis using Some unfolding set_keys fst_items by (simp add: usable_def)
  qed
  then have in_keys: "set keys = usable view P e rp has_uv" by blast
  have "mset keys = mset (map fst items)"
    by (simp add: keys)
  then have dist: "distinct keys"
    using distinct_filter [OF ks(2)] mset_eq_imp_distinct_iff unfolding fst_items by blast
  have "map (order_at view P e) keys =
      map (\<lambda>(_, c). cs_creation_order c) (sort_key (\<lambda>(_, c). cs_creation_order c) items)"
    unfolding keys map_map by (rule map_cong) (auto dest: snd_items)
  then have sorted: "sorted (map (order_at view P e) keys)"
    by simp
  have get: "get_credential P (last keys) e = (Inr (the (?m (last keys))), e)" "?m (last keys) \<noteq> None" if "keys \<noteq> []"
  proof -
    have "last keys \<in> usable view P e rp has_uv"
      using last_in_set [OF that] in_keys by blast
    then obtain c where "?m (last keys) = Some c" by (auto simp: usable_def)
    then show "get_credential P (last keys) e = (Inr (the (?m (last keys))), e)" "?m (last keys) \<noteq> None"
      using get_credential_ok [OF inv] by auto
  qed
  have run: "choose_resident_credential P rp has_uv e =
      (Inr (if keys = [] then (None, []) else (?m (last keys), butlast keys)), e)"
    using ks(1) get by (auto simp: choose_resident_credential_def sbind_def Let_def keys_def [symmetric])
  show ?thesis
    using dist in_keys sorted run by (intro exI [of _ keys]) blast
qed

section \<open>The response\<close>

text \<open>A private key the signing functions accept; keys the authenticator generates are of this kind.\<close>

definition key_usable :: "'p platform \<Rightarrow> private_key \<Rightarrow> bool" where
  "key_usable P k = (case k of Ecdsa seed \<Rightarrow> ecdsa_valid (crypto_of P) seed | Ed25519 _ \<Rightarrow> True)"

definition signature_of :: "'p platform \<Rightarrow> private_key \<Rightarrow> bytes \<Rightarrow> bytes" where
  "signature_of P k m =
     (case k of Ecdsa seed \<Rightarrow> ecdsa_sign (crypto_of P) seed m | Ed25519 seed \<Rightarrow> ed25519_sign (crypto_of P) seed m)"

lemma sign_ok: "key_usable P k \<Longrightarrow> sign_and_encode P k m = Inr (signature_of P k m)"
  by (cases k) (simp_all add: key_usable_def signature_of_def sign_and_encode_def ecdsa_key_from_seed_def
      derive_ecdsa_def)

text \<open>The response to an assertion without extensions.\<close>

definition plain_response ::
  "'p platform \<Rightarrow> credential_source \<Rightarrow> assertion_input \<Rightarrow> nat option \<Rightarrow> get_assertion_response" where
  "plain_response P c input number =
     \<lparr>gar_credential = Some \<lparr>desc_type = PublicKey, desc_id = cs_id c, desc_transports = None\<rparr>,
      gar_auth_data = ai_auth_data input,
      gar_signature = signature_of P (cs_private_key c) (ai_auth_data input @ ai_client_data_hash input),
      gar_user = assertion_user c (ai_has_uv input),
      gar_number_of_credentials = map_option of_nat number,
      gar_large_blob_key =
        (if gae_large_blob_key (ai_extensions input) = Some True then cs_large_blob_key c else None)\<rparr>"

lemma assertion_response_ok:
  "key_usable P (cs_private_key c) \<Longrightarrow> gae_hmac_secret (ai_extensions input) = None \<Longrightarrow>
     \<not> gae_cred_blob (ai_extensions input) \<Longrightarrow>
     assertion_response P c input number s = (Inr (plain_response P c input number), s)"
  by (simp add: assertion_response_def assertion_auth_data_def sbind_def sign_ok plain_response_def Let_def)

section \<open>The signature counter\<close>

lemma increment_counter_ok:
  assumes inv: "env_inv P view e" and n: "global_signature_counter P e = (Inr n, e)" and bits: "11 \<le> usize_bits P"
  shows "\<exists>e' d. increment_global_signature_counter P e = (Inr (), e') \<and> env_inv P view e' \<and>
    global_signature_counter P e' = (Inr (n + d), e') \<and>
    (if use_signature_counter (custom P) then 1 \<le> d \<and> d \<le> 8 else d = 0) \<and> prompts e' = prompts e \<and>
    (\<forall>k. k \<noteq> global_signature_counter_key \<longrightarrow> content view (store_of e') k = content view (store_of e) k)"
proof (cases "use_signature_counter (custom P)")
  case True
  define ws where "ws = gen_uniform_u32x8 (crypto_of P) (draws e)"
  let ?d = "fst ws ! 0 mod 8 + 1" and ?e = "e\<lparr>draws := snd ws\<rparr>"
  have lt: "fst ws ! 0 mod 8 < 8" by (rule word_mod_less_divisor) simp
  then have "unat (fst ws ! 0 mod 8) < 8" by (simp add: word_less_nat_alt)
  then have d: "1 \<le> ?d" "?d \<le> 8"
    by (simp_all add: word_le_nat_alt unat_word_ariths unat_mod)
  have inv': "env_inv P view ?e" and n': "global_signature_counter P ?e = (Inr n, ?e)"
    using inv n by (auto simp: global_signature_counter_ok split: option.splits if_splits)
  obtain e' where e': "insert_entry P global_signature_counter_key (le_bytes (n + ?d)) ?e = (Inr (), e')"
    "env_inv P view e'"
    "content view (store_of e') = (content view (store_of ?e))(global_signature_counter_key \<mapsto> le_bytes (n + ?d))"
    using insert_entry_ok [OF inv' storage_keys_fit(11) [OF bits]] by blast
  have "prompts e' = prompts e"
    using e'(1) by (auto simp: insert_entry_def insert_key_def with_store_def split: prod.splits)
  moreover have "increment_global_signature_counter P e = (Inr (), e')"
    using True n' e'(1) by (simp add: increment_global_signature_counter_def ws_def [symmetric]
        incr_global_signature_counter_def sbind_def split_beta)
  ultimately show ?thesis
    using e'(2,3) d True by (intro exI [of _ e'] exI [of _ ?d]) (simp add: global_signature_counter_ok)
next
  case False
  then show ?thesis
    using inv n by (intro exI [of _ e] exI [of _ 0]) (simp add: increment_global_signature_counter_def)
qed

section \<open>getAssertion and getNextAssertion\<close>

text \<open>A request for a resident credential with the user's presence, without extensions or a token.\<close>

definition plain_request :: "get_assertion_params \<Rightarrow> bool" where
  "plain_request params \<longleftrightarrow> gap_allow_list params = None \<and> gap_pin_uv_auth_param params = None \<and>
     gao_up (gap_options params) \<and> \<not> gao_uv (gap_options params) \<and>
     gae_hmac_secret (gap_extensions params) = None \<and> \<not> gae_cred_blob (gap_extensions params)"

definition plain_input :: "'p platform \<Rightarrow> get_assertion_params \<Rightarrow> u32 \<Rightarrow> assertion_input" where
  "plain_input P params counter =
     \<lparr>ai_client_data_hash = gap_client_data_hash params,
      ai_auth_data = sha256 (crypto_of P) (gap_rp_id params) @ [up_flag] @ be_bytes 4 counter,
      ai_extensions = gap_extensions params, ai_has_uv = False\<rparr>"

lemma cred_of_cong:
  "(\<And>k. k \<in> set credential_keys \<Longrightarrow> content view (store_of e') k = content view (store_of e) k) \<Longrightarrow>
     cred_of P view e' = cred_of P view e"
  by (rule ext) (simp add: creds_def)

lemma cred_inv_cong:
  assumes "cred_inv P view e" "env_inv P view e'"
    and same: "\<And>k. k \<in> set credential_keys \<Longrightarrow> content view (store_of e') k = content view (store_of e) k"
  shows "cred_inv P view e'"
proof -
  have "cred_of P view e' = cred_of P view e" by (rule cred_of_cong) (rule same)
  then show ?thesis using assms(1,2) unfolding cred_inv_def by (simp add: same)
qed

lemma counter_not_credential: "global_signature_counter_key \<notin> set credential_keys"
  by (simp add: in_credential_keys min_credential_key_def storage_keys)

lemma get_assertion_run:
  assumes inv: "cred_inv P view e" and bits: "11 \<le> usize_bits P" and plain: "plain_request params"
    and uv: "has_always_uv P e = (Inr False, e)" and n: "global_signature_counter P e = (Inr n, e)"
    and touched: "\<And>reason. touch P (prompts e) reason channel = Inr ()"
    and keys: "choose_resident_credential P (gap_rp_id params) False e = (Inr (Some cr, next_keys), e)"
    and sig: "key_usable P (cs_private_key cr)"
  shows "\<exists>d e' c'. process_get_assertion P params channel now (e, c) =
      (Inr (plain_response P cr (plain_input P params (n + d))
        (if next_keys = [] then None else Some (length next_keys + 1))), (e', c')) \<and>
    (if use_signature_counter (custom P) then 1 \<le> d \<and> d \<le> 8 else d = 0) \<and>
    cred_inv P view e' \<and> cred_of P view e' = cred_of P view e \<and>
    ctap_stateful c' = (if next_keys = [] then ctap_stateful c
      else start_command now (StatefulGetAssertion \<lparr>as_assertion_input = plain_input P params (n + d),
        as_next_credential_keys = next_keys\<rparr>) channel (ctap_stateful c))"
proof -
  let ?e = "e\<lparr>prompts := Suc (prompts e)\<rparr>"
  have inv': "env_inv P view ?e" and n': "global_signature_counter P ?e = (Inr n, ?e)"
    using cred_invD(1) [OF inv] n by (auto simp: global_signature_counter_ok split: option.splits if_splits)
  obtain e' d where e': "increment_global_signature_counter P ?e = (Inr (), e')" "env_inv P view e'"
    "global_signature_counter P e' = (Inr (n + d), e')"
    "if use_signature_counter (custom P) then 1 \<le> d \<and> d \<le> 8 else d = 0"
    "\<And>k. k \<noteq> global_signature_counter_key \<Longrightarrow> content view (store_of e') k = content view (store_of e) k"
    using increment_counter_ok [OF inv' n' bits] by auto
  have same: "k \<in> set credential_keys \<Longrightarrow> content view (store_of e') k = content view (store_of e) k" for k
    using e'(5) counter_not_credential by (cases "k = global_signature_counter_key") auto
  have ask: "check_user_presence P channel reason e = (Inr (), ?e)" for reason
    by (simp add: check_user_presence_def touched)
  show ?thesis
    using e'(1,3,4) cred_inv_cong [OF inv e'(2) same] cred_of_cong [OF same, of P] keys sig plain uv
    by (intro exI [of _ d] exI [of _ e'])
      (simp add: process_get_assertion_def sbind_def plain_request_def pin_uv_auth_precheck_def
        get_assertion_flags_def choose_credential_def env_call_def pin_call_def result_call_def
        ask_for_assertion_def ask remember_assertions_def stateful_call_def generate_auth_data_def
        assertion_response_ok on_env_def on_pin_def Let_def plain_input_def)
qed

text \<open>The answers to getNextAssertion requests on a channel at the times \<open>ts\<close>.\<close>

fun next_answers ::
  "'p platform \<Rightarrow> channel_id \<Rightarrow> instant list \<Rightarrow> 'p env \<times> ctap_state \<Rightarrow> (fault + response_data) list" where
  "next_answers P channel [] s = []"
| "next_answers P channel (t # ts) s =
     (let (r, s) = process_parsed_command P AuthenticatorGetNextAssertion channel t s
      in r # next_answers P channel ts s)"

definition waits_for :: "assertion_input \<Rightarrow> nat list \<Rightarrow> channel_id \<Rightarrow> instant \<Rightarrow> stateful_permission \<Rightarrow> bool" where
  "waits_for input ks channel deadline s \<longleftrightarrow>
     sp_command s = Some (StatefulGetAssertion \<lparr>as_assertion_input = input, as_next_credential_keys = ks\<rparr>) \<and>
     sp_channel s = Some channel \<and> sp_permission s = Granted deadline"

lemma next_assertion_ok:
  assumes inv: "cred_inv P view e" and w: "waits_for input (ks @ [k]) channel deadline (ctap_stateful c)"
    and t: "t \<le> deadline" and cr: "cred_of P view e k = Some cr" "key_usable P (cs_private_key cr)"
    and plain: "gae_hmac_secret (ai_extensions input) = None" "\<not> gae_cred_blob (ai_extensions input)"
  shows "\<exists>c'. process_parsed_command P AuthenticatorGetNextAssertion channel t (e, c) =
      (Inr (GetNextAssertionData (plain_response P cr input None)), (e, c')) \<and>
    waits_for input ks channel deadline (ctap_stateful c')"
proof -
  let ?s = "ctap_stateful c"
  have s: "prepare_stateful AuthenticatorGetNextAssertion channel t ?s = ?s"
    using w t by (simp add: prepare_stateful_def waits_for_def clear_old_channels_def clear_timer_def
        continues_def get_command_def Let_def)
  have "next_assertion_credential ?s = (Inr (input, k), ?s\<lparr>sp_command := Some (StatefulGetAssertion
      \<lparr>as_assertion_input = input, as_next_credential_keys = ks\<rparr>)\<rparr>)"
    using w by (simp add: waits_for_def next_assertion_credential_def)
  then show ?thesis
    using w cr(2) plain get_credential_ok [OF inv cr(1)]
    by (simp add: process_parsed_command_def process_fido_command_def process_get_next_assertion_def sbind_def
        s stateful_call_def env_call_def pin_call_def assertion_response_ok waits_for_def)
qed

lemma next_answers_ok:
  assumes inv: "cred_inv P view e" and t: "\<forall>t\<in>set ts. t \<le> deadline"
    and plain: "gae_hmac_secret (ai_extensions input) = None" "\<not> gae_cred_blob (ai_extensions input)"
  shows "waits_for input (rev ks) channel deadline (ctap_stateful c) \<Longrightarrow> length ts = length ks \<Longrightarrow>
    \<forall>k\<in>set ks. \<exists>cr. cred_of P view e k = Some cr \<and> key_usable P (cs_private_key cr) \<Longrightarrow>
    next_answers P channel ts (e, c) =
      map (\<lambda>k. Inr (GetNextAssertionData (plain_response P (the (cred_of P view e k)) input None))) ks"
  using t
proof (induction ks arbitrary: ts c)
  case (Cons k ks)
  then obtain t ts' where ts: "ts = t # ts'" by (cases ts) auto
  obtain cr where cr: "cred_of P view e k = Some cr" "key_usable P (cs_private_key cr)"
    using Cons.prems(3) by auto
  have "waits_for input (rev ks @ [k]) channel deadline (ctap_stateful c)" "t \<le> deadline"
    using Cons.prems ts by simp_all
  from next_assertion_ok [OF inv this cr plain] obtain c' where
    "process_parsed_command P AuthenticatorGetNextAssertion channel t (e, c) =
      (Inr (GetNextAssertionData (plain_response P cr input None)), (e, c'))"
    "waits_for input (rev ks) channel deadline (ctap_stateful c')" by blast
  then show ?case
    using Cons.IH [of c' ts'] Cons.prems ts cr(1) by simp
qed simp

lemma assertions_ok:
  assumes inv: "cred_inv P view e" and bits: "11 \<le> usize_bits P" and plain: "plain_request params"
    and uv: "has_always_uv P e = (Inr False, e)" and n: "global_signature_counter P e = (Inr n, e)"
    and touched: "\<forall>reason. touch P (prompts e) reason channel = Inr ()"
    and some: "usable view P e (gap_rp_id params) False \<noteq> {}"
    and sig: "\<forall>k\<in>usable view P e (gap_rp_id params) False. key_usable P (cs_private_key (the (cred_of P view e k)))"
  shows "\<exists>k ks d s'. distinct (k # ks) \<and> set (k # ks) = usable view P e (gap_rp_id params) False \<and>
    sorted (rev (map (order_at view P e) (k # ks))) \<and>
    (if use_signature_counter (custom P) then 1 \<le> d \<and> d \<le> 8 else d = 0) \<and>
    process_parsed_command P (AuthenticatorGetAssertion params) channel now (e, c) =
      (Inr (GetAssertionData (plain_response P (the (cred_of P view e k)) (plain_input P params (n + d))
        (if ks = [] then None else Some (length ks + 1)))), s') \<and>
    (\<forall>ts. length ts = length ks \<longrightarrow> (\<forall>t\<in>set ts. t \<le> now + stateful_command_timeout_duration) \<longrightarrow>
      next_answers P channel ts s' = map (\<lambda>k. Inr (GetNextAssertionData (plain_response P
        (the (cred_of P view e k)) (plain_input P params (n + d)) None))) ks)"
proof -
  let ?U = "usable view P e (gap_rp_id params) False"
  obtain keys where keys: "distinct keys" "set keys = ?U" "sorted (map (order_at view P e) keys)"
    "choose_resident_credential P (gap_rp_id params) False e =
      (Inr (if keys = [] then (None, []) else (cred_of P view e (last keys), butlast keys)), e)"
    using choose_resident_ok [OF inv, of "gap_rp_id params" False] by blast
  have held: "\<exists>cr. cred_of P view e k = Some cr \<and> key_usable P (cs_private_key cr)" if "k \<in> ?U" for k
    using that sig by (auto simp: usable_def)
  obtain ks k where kk: "keys = rev ks @ [k]"
    using keys(2) some by (metis list.set(1) rev_exhaust rev_rev_ident)
  obtain cr where cr: "cred_of P view e k = Some cr" "key_usable P (cs_private_key cr)"
    using held [of k] keys(2) kk by auto
  let ?c = "c\<lparr>ctap_u2f_up := fresh_u2f_up, ctap_stateful := prepare_stateful (AuthenticatorGetAssertion params)
    channel now (ctap_stateful c)\<rparr>"
  have choose: "choose_resident_credential P (gap_rp_id params) False e = (Inr (Some cr, rev ks), e)"
    using keys(4) kk cr(1) by simp
  obtain d e' c' where run: "process_get_assertion P params channel now (e, ?c) =
      (Inr (plain_response P cr (plain_input P params (n + d))
        (if rev ks = [] then None else Some (length (rev ks) + 1))), (e', c'))"
    "if use_signature_counter (custom P) then 1 \<le> d \<and> d \<le> 8 else d = 0"
    "cred_inv P view e'" "cred_of P view e' = cred_of P view e"
    "ctap_stateful c' = (if rev ks = [] then ctap_stateful ?c
      else start_command now (StatefulGetAssertion \<lparr>as_assertion_input = plain_input P params (n + d),
        as_next_credential_keys = rev ks\<rparr>) channel (ctap_stateful ?c))"
    using get_assertion_run [OF inv bits plain uv n spec [OF touched] choose cr(2)] by blast
  have "next_answers P channel ts (e', c') = map (\<lambda>k. Inr (GetNextAssertionData (plain_response P
      (the (cred_of P view e k)) (plain_input P params (n + d)) None))) ks"
    if ts: "length ts = length ks" "\<forall>t\<in>set ts. t \<le> now + stateful_command_timeout_duration" for ts
  proof (cases "ks = []")
    case False
    then have "waits_for (plain_input P params (n + d)) (rev ks) channel
        (now + stateful_command_timeout_duration) (ctap_stateful c')"
      using run(5) by (simp add: waits_for_def start_command_def granted_def)
    moreover have "\<forall>k\<in>set ks. \<exists>cr. cred_of P view e k = Some cr \<and> key_usable P (cs_private_key cr)"
      using held keys(2) kk by auto
    ultimately show ?thesis
      using next_answers_ok [OF run(3) ts(2) _ _ _ ts(1)] plain by (simp add: run(4) plain_request_def plain_input_def)
  qed (use ts in simp)
  moreover have "process_parsed_command P (AuthenticatorGetAssertion params) channel now (e, c) =
      (Inr (GetAssertionData (plain_response P (the (cred_of P view e k)) (plain_input P params (n + d))
        (if ks = [] then None else Some (length ks + 1)))), (e', c'))"
    using run(1) cr(1) by (simp add: process_parsed_command_def process_fido_command_def sbind_def)
  ultimately show ?thesis
    using keys(1-3) run(2) kk
    by (intro exI [of _ k] exI [of _ ks] exI [of _ d] exI [of _ "(e', c')"] conjI) (auto simp: rev_map)
qed

text \<open>C24: getAssertion for a relying party with resident credentials (without a token, so the discoverable
  ones) answers for the one created last, signs the RP ID hash, the user presence flag and a counter
  advanced by 1 to 8, and says how many there are; getNextAssertion on the same channel within 30
  seconds then answers for the others, from the latest to the oldest.\<close>

theorem assertions_newest_first:
  assumes inv: "cred_inv P view e" and bits: "11 \<le> usize_bits P" and plain: "plain_request params"
    and uv: "has_always_uv P e = (Inr False, e)" and n: "global_signature_counter P e = (Inr n, e)"
    and touched: "\<forall>reason. touch P (prompts e) reason channel = Inr ()"
    and some: "usable view P e (gap_rp_id params) False \<noteq> {}"
    and sig: "\<forall>k\<in>usable view P e (gap_rp_id params) False. key_usable P (cs_private_key (the (cred_of P view e k)))"
  shows "\<exists>k ks d s'. distinct (k # ks) \<and> set (k # ks) = usable view P e (gap_rp_id params) False \<and>
    sorted (rev (map (order_at view P e) (k # ks))) \<and>
    (if use_signature_counter (custom P) then 1 \<le> d \<and> d \<le> 8 else d = 0) \<and>
    process_parsed_command P (AuthenticatorGetAssertion params) channel now (e, c) =
      (Inr (GetAssertionData (plain_response P (the (cred_of P view e k)) (plain_input P params (n + d))
        (if ks = [] then None else Some (length ks + 1)))), s') \<and>
    (\<forall>ts. length ts = length ks \<longrightarrow> (\<forall>t\<in>set ts. t \<le> now + stateful_command_timeout_duration) \<longrightarrow>
      next_answers P channel ts s' = map (\<lambda>k. Inr (GetNextAssertionData (plain_response P
        (the (cred_of P view e k)) (plain_input P params (n + d)) None))) ks)"
  using assms by (rule assertions_ok)

section \<open>Examples\<close>

definition toy_credential :: "u8 \<Rightarrow> credential_source" where
  "toy_credential i = \<lparr>cs_type = PublicKey, cs_id = [i], cs_private_key = Ecdsa (replicate 32 7),
     cs_rp_id = utf8 ''example.com'', cs_user_handle = [i], cs_user_display_name = None,
     cs_cred_protect = None, cs_creation_order = ucast i, cs_user_name = None,
     cs_user_icon = None, cs_cred_blob = None, cs_large_blob_key = None\<rparr>"

lemma toy_credential_ok: "source_ok 32 (toy_credential i)"
  by (simp add: source_ok_def toy_credential_def bytes_ok_def string_ok_def private_key_bytes_def
      utf8_def utf8_valid_def)

lemma slot_free:
  assumes "k \<in> set (take cap credential_keys)" "m k = None"
  shows "slot cap m new \<noteq> None"
proof -
  have "find (\<lambda>k. m k = None) (take cap credential_keys) \<noteq> None"
    using assms unfolding find_None_iff by blast
  then show ?thesis by (auto simp: slot_def split: option.split)
qed

lemma toy_two_credentials:
  "\<exists>e k. cred_inv toy_platform map_of e \<and> k \<noteq> 1700 \<and>
     cred_of toy_platform map_of e = [1700 \<mapsto> toy_credential 1, k \<mapsto> toy_credential 2] \<and>
     (\<forall>j. other_key j \<longrightarrow> content map_of (store_of e) j = None)"
proof -
  have cap: "max_supported_resident_keys (custom toy_platform) = 150"
    by (simp add: default_customization_def)
  have ok: "source_ok (usize_bits toy_platform) (toy_credential i)" for i
    using toy_credential_ok by simp
  have empty: "cred_of toy_platform map_of (toy_env []) = Map.empty"
    by (simp add: creds_def toy_env_content fun_eq_iff)
  obtain e1 where e1: "cred_inv toy_platform map_of e1"
    "cred_of toy_platform map_of e1 = [1700 \<mapsto> toy_credential 1]"
    "\<forall>j. other_key j \<longrightarrow> content map_of (store_of e1) j = None"
    using store_credential_ok [OF toy_env_cred_inv ok [of 1]] unfolding cap empty
    by (auto simp: slot_empty min_credential_key_def toy_env_content)
  have "(1701 :: nat) \<in> set (take 150 credential_keys)"
    by (simp add: in_take_keys min_credential_key_def)
  then obtain k where k: "slot 150 [1700 \<mapsto> toy_credential 1] (toy_credential 2) = Some k"
    using slot_free [of 1701 150 "[1700 \<mapsto> toy_credential 1]"] by fastforce
  have "k \<noteq> 1700"
    using slotD(3) [OF k, of "toy_credential 1"]
    by (auto simp: min_credential_key_def same_account_def toy_credential_def)
  moreover obtain e2 where "cred_inv toy_platform map_of e2"
    "cred_of toy_platform map_of e2 = [1700 \<mapsto> toy_credential 1, k \<mapsto> toy_credential 2]"
    "\<forall>j. other_key j \<longrightarrow> content map_of (store_of e2) j = content map_of (store_of e1) j"
    using store_credential_ok [OF e1(1) ok [of 2]] unfolding cap e1(2) k by auto
  ultimately show ?thesis using e1(3) by (intro exI [of _ e2] exI [of _ k]) simp
qed

definition toy_request :: get_assertion_params where
  "toy_request = \<lparr>gap_rp_id = utf8 ''example.com'', gap_client_data_hash = replicate 32 9, gap_allow_list = None,
     gap_extensions = default_get_assertion_extensions, gap_options = default_get_assertion_options,
     gap_pin_uv_auth_param = None, gap_pin_uv_auth_protocol = None\<rparr>"

lemma toy_request_plain: "plain_request toy_request"
  by (simp add: plain_request_def toy_request_def default_get_assertion_extensions_def
      default_get_assertion_options_def)

lemma toy_usable:
  assumes m: "cred_of toy_platform map_of e = [1700 \<mapsto> toy_credential 1, k \<mapsto> toy_credential 2]" and k: "k \<noteq> 1700"
  shows "usable map_of toy_platform e (gap_rp_id toy_request) False = {1700, k}"
    and "\<forall>j\<in>{1700, k}. key_usable toy_platform (cs_private_key (the (cred_of toy_platform map_of e j)))"
  using m [unfolded toy_platform_simps] k
  by (auto simp: usable_def toy_request_def toy_credential_def is_discoverable_def key_usable_def toy_crypto_def
      split: if_splits)

text \<open>On a device with these two credentials the request is answered, and one more.\<close>

lemma toy_answers:
  assumes inv: "cred_inv toy_platform map_of e" and k: "k \<noteq> 1700"
    and m: "cred_of toy_platform map_of e = [1700 \<mapsto> toy_credential 1, k \<mapsto> toy_credential 2]"
    and other: "content map_of (store_of e) always_uv_key = None"
      "content map_of (store_of e) global_signature_counter_key = None"
  shows "has_always_uv toy_platform e = (Inr False, e)" "global_signature_counter toy_platform e = (Inr 1, e)"
    "usable map_of toy_platform e (gap_rp_id toy_request) False \<noteq> {}"
    "\<forall>j\<in>usable map_of toy_platform e (gap_rp_id toy_request) False.
      key_usable toy_platform (cs_private_key (the (cred_of toy_platform map_of e j)))"
  using toy_usable [OF m k] other
  by (simp_all add: has_always_uv_def flag_entry_ok [OF cred_invD(1) [OF inv]]
      global_signature_counter_ok [OF cred_invD(1) [OF inv]] sbind_def default_customization_def)

lemma assertions_newest_first_witness:
  "\<exists>e :: (string \<times> bytes) list env. \<exists>k ks d s'. set (k # ks) = usable map_of toy_platform e (utf8 ''example.com'') False \<and>
     ks \<noteq> [] \<and> process_parsed_command toy_platform (AuthenticatorGetAssertion toy_request) [1, 2, 3, 4] 5
       (e, fst (new_ctap_state toy_platform 0 e)) =
     (Inr (GetAssertionData (plain_response toy_platform (the (cred_of toy_platform map_of e k))
       (plain_input toy_platform toy_request (1 + d)) (Some (length ks + 1)))), s')"
proof -
  obtain e k where e: "cred_inv toy_platform map_of e" "k \<noteq> 1700"
    "cred_of toy_platform map_of e = [1700 \<mapsto> toy_credential 1, k \<mapsto> toy_credential 2]"
    "\<forall>j. other_key j \<longrightarrow> content map_of (store_of e) j = None"
    using toy_two_credentials by blast
  have other: "content map_of (store_of e) always_uv_key = None"
    "content map_of (store_of e) global_signature_counter_key = None"
    using e(4) by (simp_all add: other_key_def in_credential_keys min_credential_key_def storage_keys)
  note ok = toy_answers [OF e(1,2,3) other]
  obtain k' ks d s' where w: "distinct (k' # ks)"
    "set (k' # ks) = usable map_of toy_platform e (gap_rp_id toy_request) False"
    "process_parsed_command toy_platform (AuthenticatorGetAssertion toy_request) [1, 2, 3, 4] 5
       (e, fst (new_ctap_state toy_platform 0 e)) =
      (Inr (GetAssertionData (plain_response toy_platform (the (cred_of toy_platform map_of e k'))
       (plain_input toy_platform toy_request (1 + d)) (if ks = [] then None else Some (length ks + 1)))), s')"
    using assertions_newest_first [OF e(1) _ toy_request_plain ok(1,2) _ ok(3,4),
        where channel = "[1, 2, 3, 4]" and now = 5 and c = "fst (new_ctap_state toy_platform 0 e)"] by auto
  have "ks \<noteq> []"
    using w(1,2) e(2) unfolding toy_usable(1) [OF e(3,2)] by auto
  then show ?thesis
    using w(2,3) by (intro exI [of _ e] exI [of _ k'] exI [of _ ks] exI [of _ d] exI [of _ s'])
      (simp add: toy_request_def)
qed

lemma power_up_ok:
  assumes inv: "env_inv P view e0" and bits: "11 \<le> usize_bits P"
  shows "\<exists>c e secret. new_ctap_state P t0 e0 = (c, e) \<and> env_inv P view e \<and> ctap_stateful c = new_reset t0 \<and>
    content view (store_of e) = init_content secret (content view (store_of e0))"
proof -
  obtain e1 secret where e1: "init P e0 = (Inr (), e1)" "env_inv P view e1"
    "content view (store_of e1) = init_content secret (content view (store_of e0))"
    using init_ok [OF inv bits] by blast
  have "init_attempts 5 P e0 = e1"
    using e1(1) by (simp add: numeral_eq_Suc)
  then show ?thesis
    using e1(2,3) by (cases "new_client_pin (crypto_of P) (draws e1)") (auto simp: new_ctap_state_def)
qed

text \<open>A U2F version request, whatever its answer, changes nothing.\<close>

lemma u2f_version_run: "\<exists>r. process_ctap1_command P [0, 3, 0, 0] e = (r, e) \<and> r \<noteq> Inl U2fPanic"
proof -
  have "u2f_command_of_message [0, 3, 0, 0] = Inr U2fVersion"
    by (simp add: u2f_command_of_message_def apdu_of_frame_def apdu_of_payload_def header_of_def u2f_command_of_def
        u2f_instructions)
  then show ?thesis
    using reader_run [OF reads_flags(4), of P e]
    by (cases "fst (has_always_uv P e)") (auto simp: process_ctap1_command_def allows_ctap1_def or_word_def sbind_def
        process_u2f_command_def split: prod.splits)
qed

lemma reset_after_power_up_witness:
  "\<exists>s s'. ctap_run toy_platform 0 [U2fRequest [0, 3, 0, 0] [9, 9, 9, 9] 6] s \<and>
     process_parsed_command toy_platform AuthenticatorReset [1, 2, 3, 4] 7 s = (Inr ResetData, s') \<and>
     7 \<le> 0 + reset_timeout_duration"
proof -
  have inv: "env_inv toy_platform map_of (toy_env [])" using toy_env_inv by simp
  obtain c e where new: "new_ctap_state toy_platform 0 (toy_env []) = (c, e)" "env_inv toy_platform map_of e"
    "ctap_stateful c = new_reset 0"
    using power_up_ok [OF inv, of 0] by auto
  obtain x where x: "process_ctap1_command toy_platform [0, 3, 0, 0] e = (x, e)" "x \<noteq> Inl U2fPanic"
    using u2f_version_run by blast
  have run: "ctap_run toy_platform 0 [U2fRequest [0, 3, 0, 0] [9, 9, 9, 9] 6] (e, c)"
    using ctap_run.u2f_request [OF ctap_run.power_up [OF new(1)] x] by simp
  have "env_inv toy_platform map_of (e\<lparr>prompts := Suc (prompts e)\<rparr>)" using new(2) by simp
  from reset_ok [OF this] obtain e' where e': "reset toy_platform (e\<lparr>prompts := Suc (prompts e)\<rparr>) = (Inr (), e')"
    by auto
  have "prepare_stateful AuthenticatorReset [1, 2, 3, 4] 7 (new_reset 0) = new_reset 0"
    by (simp add: prepare_stateful_def new_reset_def clear_old_channels_def clear_timer_def continues_def
        get_command_def reset_timeout_duration_def from_millis_def)
  then obtain s' where step: "process_parsed_command toy_platform AuthenticatorReset [1, 2, 3, 4] 7 (e, c) =
      (Inr ResetData, s')"
    using e' new(3) by (simp add: process_parsed_command_def process_fido_command_def process_reset_def
        check_reset_allowed_def stateful_call_def get_command_def check_user_presence_def env_call_def
        pin_call_def reset_ctap_pin_def sbind_def new_reset_def split_beta)
  show ?thesis
    using reset_after_power_up [OF run step] run step by blast
qed

text \<open>The bytes of a request that deserializes to the toy request.\<close>

lemma toy_request_bytes: "\<exists>bs. deserialize_command 32 bs = Inr (AuthenticatorGetAssertion toy_request)"
proof -
  let ?fs = "[Some (TextString (utf8 ''example.com'')), Some (ByteString (replicate 32 9)), None, None, None, None, None]"
  let ?v = "Map (map_options (zip (map Unsigned [1, 2, 3, 4, 5, 6, 7]) ?fs))"
  have sorted: "sorted_keys (map Unsigned [1, 2, 3, 4, 5, 6, 7])"
    by (simp add: less_cvalue_def cmp_of_def)
  have "storable 32 (Suc 1) ?v"
    by (rule storable_Map [OF sorted]) (auto simp: bytes_ok_def string_ok_def utf8_def utf8_valid_def)
  then obtain b where "ctap_cbor_read 32 b = Inr ?v"
    using ctap_cbor_round_trip [of 32 ?v] by (auto simp: storable_def)
  moreover have "get_assertion_params_of_cbor ?v = Inr toy_request"
    by (simp add: get_assertion_params_of_cbor_def destructure_zip [OF sorted] toy_request_def or_default_def)
  ultimately have "deserialize_command 32 (0x02 # b) = Inr (AuthenticatorGetAssertion toy_request)"
    by (simp add: deserialize_command_def with_params_def)
  then show ?thesis by blast
qed

text \<open>The continued request comes after a U2F request on another channel.\<close>

lemma next_assertion_continues_witness:
  "\<exists>es e c s' r. ctap_run toy_platform 0 es (e, c) \<and> length es = 2 \<and>
     process_parsed_command toy_platform AuthenticatorGetNextAssertion [1, 2, 3, 4] 7 (e, c) = (Inr r, s') \<and>
     (\<exists>bs t params. es = [Request bs [1, 2, 3, 4] t, U2fRequest [0, 3, 0, 0] [9, 9, 9, 9] 6] \<and>
        deserialize_command 32 bs = Inr (AuthenticatorGetAssertion params))"
proof -
  obtain e0 k where e0: "cred_inv toy_platform map_of e0" "k \<noteq> 1700"
    "cred_of toy_platform map_of e0 = [1700 \<mapsto> toy_credential 1, k \<mapsto> toy_credential 2]"
    "\<forall>j. other_key j \<longrightarrow> content map_of (store_of e0) j = None"
    using toy_two_credentials by blast
  obtain c e secret where new: "new_ctap_state toy_platform 0 e0 = (c, e)" "env_inv toy_platform map_of e"
    "ctap_stateful c = new_reset 0"
    "content map_of (store_of e) = init_content secret (content map_of (store_of e0))"
    using power_up_ok [OF cred_invD(1) [OF e0(1)], of 0] by auto
  have same: "content map_of (store_of e) j = content map_of (store_of e0) j"
    if "j \<noteq> aaguid_key" "j \<noteq> cred_random_secret_key" for j
    using that unfolding new(4) by (auto simp: init_content_def Let_def)
  have keys: "j \<in> set credential_keys \<Longrightarrow> j \<noteq> aaguid_key \<and> j \<noteq> cred_random_secret_key" for j
    by (auto simp: in_credential_keys min_credential_key_def storage_keys)
  have inv: "cred_inv toy_platform map_of e"
    using cred_inv_cong [OF e0(1) new(2)] same keys by blast
  have m: "cred_of toy_platform map_of e = [1700 \<mapsto> toy_credential 1, k \<mapsto> toy_credential 2]"
    unfolding e0(3) [symmetric] by (rule cred_of_cong) (use same keys in blast)
  have other: "content map_of (store_of e) always_uv_key = None"
    "content map_of (store_of e) global_signature_counter_key = None"
    using e0(4) by (subst same; simp add: other_key_def in_credential_keys min_credential_key_def storage_keys)+
  note ok = toy_answers [OF inv e0(2) m other]
  obtain k' ks d s' where w: "distinct (k' # ks)"
    "set (k' # ks) = usable map_of toy_platform e (gap_rp_id toy_request) False"
    "process_parsed_command toy_platform (AuthenticatorGetAssertion toy_request) [1, 2, 3, 4] 5 (e, c) =
      (Inr (GetAssertionData (plain_response toy_platform (the (cred_of toy_platform map_of e k'))
       (plain_input toy_platform toy_request (1 + d)) (if ks = [] then None else Some (length ks + 1)))), s')"
    "\<forall>ts. length ts = length ks \<longrightarrow> (\<forall>t\<in>set ts. t \<le> 5 + stateful_command_timeout_duration) \<longrightarrow>
      next_answers toy_platform [1, 2, 3, 4] ts s' = map (\<lambda>k. Inr (GetNextAssertionData (plain_response toy_platform
        (the (cred_of toy_platform map_of e k)) (plain_input toy_platform toy_request (1 + d)) None))) ks"
    using assertions_ok [OF inv _ toy_request_plain ok(1,2) _ ok(3,4),
        where channel = "[1, 2, 3, 4]" and now = 5 and c = c] by auto
  have "ks \<noteq> []"
    using w(1,2) e0(2) unfolding toy_usable(1) [OF m e0(2)] by auto
  then have "length ks = 1"
    using w(1,2) distinct_card [OF w(1)] e0(2) unfolding toy_usable(1) [OF m e0(2)] by simp
  then obtain r s2 where "next_answers toy_platform [1, 2, 3, 4] [7] s' = [Inr r]"
    using w(4) [rule_format, of "[7]"] by (cases ks) (auto simp: stateful_command_timeout_duration_def from_millis_def)
  then obtain s2 where step: "process_parsed_command toy_platform AuthenticatorGetNextAssertion [1, 2, 3, 4] 7 s' =
      (Inr r, s2)"
    by (auto simp: Let_def split: prod.splits)
  obtain bs where bs: "deserialize_command 32 bs = Inr (AuthenticatorGetAssertion toy_request)"
    using toy_request_bytes by blast
  have "process_ctap_command toy_platform bs [1, 2, 3, 4] 5 (e, c) \<in> range (\<lambda>out. (Some out, s'))"
    using w(3) bs by (simp add: process_ctap_command_def)
  then have run1: "ctap_run toy_platform 0 [Request bs [1, 2, 3, 4] 5] s'"
    using ctap_run.request [OF ctap_run.power_up [OF new(1)]] by fastforce
  obtain e' c' where s': "s' = (e', c')" by (cases s')
  obtain x where x: "process_ctap1_command toy_platform [0, 3, 0, 0] e' = (x, e')" "x \<noteq> Inl U2fPanic"
    using u2f_version_run by blast
  let ?es = "[Request bs [1, 2, 3, 4] 5, U2fRequest [0, 3, 0, 0] [9, 9, 9, 9] 6]"
  have run: "ctap_run toy_platform 0 ?es s'"
    using ctap_run.u2f_request [OF run1 [unfolded s'] x] by (simp add: s')
  obtain es1 bs' t es2 params where "?es = es1 @ Request bs' [1, 2, 3, 4] t # es2"
    "deserialize_command (usize_bits toy_platform) bs' = Inr (AuthenticatorGetAssertion params)"
    using next_assertion_continues [OF run step] by (elim exE conjE) (rule that)
  then have "?es = [Request bs' [1, 2, 3, 4] t, U2fRequest [0, 3, 0, 0] [9, 9, 9, 9] 6]"
    "deserialize_command 32 bs' = Inr (AuthenticatorGetAssertion params)"
    by (cases es1; auto simp: Cons_eq_append_conv append_eq_Cons_conv)+
  then show ?thesis
    using run step s' by (intro exI [of _ ?es] exI [of _ e'] exI [of _ c']) auto
qed

end
