(* ===== verification/Presence_Props.thy ===== *)
theory Presence_Props
  imports Ctap Frames Credential_Id_Props
begin

text \<open>
  User presence: when the user never confirms, the commands that need the user's consent fail, and
  change no entry of the store but the master keys, which any of them may create.
\<close>

section \<open>Handlers before the prompt\<close>

text \<open>The user confirms none of the prompts to come.\<close>

definition unattended :: "'p platform \<Rightarrow> 'p env \<Rightarrow> bool" where
  "unattended P e \<longleftrightarrow> (\<forall>n\<ge>prompts e. \<forall>reason channel. touch P n reason channel \<noteq> Inr ())"

definition master_ok :: "('p \<Rightarrow> string \<Rightarrow> bytes option) \<Rightarrow> 'p env \<Rightarrow> bool" where
  "master_ok view e \<longleftrightarrow> (case content view (store_of e) key_store_key of None \<Rightarrow> True | Some v \<Rightarrow> length v = 64)"

text \<open>Before the prompt, only the master keys may be written, and they are written well-formed.\<close>

definition asks :: "'p platform \<Rightarrow> ('p \<Rightarrow> string \<Rightarrow> bytes option) \<Rightarrow> 'p env \<Rightarrow> 'p env \<Rightarrow> bool" where
  "asks P view e e' \<longleftrightarrow> changes P view {key_store_key} e e' \<and> prompts e \<le> prompts e' \<and> draws e \<le> draws e' \<and>
     (crypto_ok (crypto_of P) \<longrightarrow> env_inv P view e \<longrightarrow> master_ok view e \<longrightarrow> master_ok view e')"

definition asks_env ::
  "'p platform \<Rightarrow> ('p \<Rightarrow> string \<Rightarrow> bytes option) \<Rightarrow> 'p env \<times> 'c \<Rightarrow> 'p env \<times> 'c \<Rightarrow> bool" where
  "asks_env P view s s' \<longleftrightarrow> asks P view (fst s) (fst s')"

lemma asks_trans:
  assumes "asks P view e e1" "asks P view e1 e2"
  shows "asks P view e e2"
proof -
  have "env_inv P view e \<Longrightarrow> env_inv P view e1" using assms(1) by (simp add: asks_def changes_def)
  then show ?thesis using assms changing.trans [of P view _ e e1 e2] by (auto simp: asks_def)
qed

interpretation asking: effect_bound "asks P view"
  by unfold_locales (auto simp: asks_def [of _ _ s s for s] changing.refl intro: asks_trans)

interpretation asking_env: effect_bound "asks_env P view"
  by unfold_locales (auto simp: asks_env_def intro: asking.refl asking.trans)

lemma unattended_asks: "unattended P e \<Longrightarrow> asks P view e e' \<Longrightarrow> unattended P e'"
  by (simp add: unattended_def asks_def)

lemma asks_presence: "within (asks P view) (check_user_presence P channel reason)"
  by (simp add: within_def asks_def changes_def check_user_presence_def master_ok_def)

lemma asks_ignore: "within R f \<Longrightarrow> within R (ignore_result f)"
  by (simp add: within_def ignore_result_def)

lemma asks_lifts:
  "within (asks P view) f \<Longrightarrow> within (asks_env P view) (on_env f)"
  "within (asks P view) f \<Longrightarrow> within (asks_env P view) (env_call f)"
  "within (asks_env P view) g \<Longrightarrow> within (asks_env P view) (pin_call g)"
  by (auto simp: within_def asks_env_def on_env_def env_call_def pin_call_def split: prod.split)
     (metis fst_conv snd_conv)+

lemma asks_pure:
  "within (asks_env P view) (on_second h)" "within (asks_env P view) (get_pin u)"
  "within (asks_env P view) (on_pin v)" "within (asks_env P view) (result_call r)"
  "within (asks_env P view) (stateful_call w)" "within (asks_env P view) (err x)"
  by (auto simp: within_def asks_env_def get_pin_def on_pin_def result_call_def stateful_call_def err_def
      asking.refl split: prod.split)

lemma asks_pair: "within (asks P view) (Pair r)"
  by (simp add: within_def asking.refl)

lemmas asks_rules = asks_pair asking.ret asking.bind asking_env.ret asking_env.bind asks_presence asks_ignore asks_lifts asks_pure
lemmas asks_readers = asking.reader [OF reads_pin(1)] asking.reader [OF reads_pin(2)]
  asking.reader [OF reads_flags(3)] asking.reader [OF reads_flags(4)]

lemma reads_credentials:
  "within (=) (iter_credentials P)" "within (=) (find_credential_item P i)" "within (=) (find_credential P rp i)"
  "within (=) (get_credential P k)"
proof -
  show iter: "within (=) (iter_credentials P)"
    by (simp add: iter_credentials_def reads_with_store)
  show item: "within (=) (find_credential_item P i)"
    by (auto simp: find_credential_item_def Let_def intro!: reading_rules iter split: prod.split)
  show "within (=) (find_credential P rp i)"
  proof (rule withinI)
    fix e
    obtain r where "find_credential_item P i e = (r, e)" using reader_run [OF item] by blast
    then show "e = snd (find_credential P rp i e)"
      by (cases r) (auto simp: find_credential_def)
  qed
  show "within (=) (get_credential P k)"
    by (auto simp: get_credential_def intro!: reading_rules reads_find_entry)
qed

lemma asks_key_handles:
  assumes "11 \<le> usize_bits P"
  shows "within (asks P view) (from_key_store (key_handle_encryption P))"
    and "within (asks P view) (from_key_store (key_handle_authentication P))"
proof -
  have "prompts (snd (get_master_keys P e)) = prompts e \<and> draws e \<le> draws (snd (get_master_keys P e))" for e
    by (simp add: get_master_keys_def gen_uniform_u8x32_def Let_def split: sum.split option.split prod.split)
  then have same: "prompts (snd (from_key_store (sbind (get_master_keys P) (\<lambda>k. sret (f k))) e)) = prompts e \<and>
      draws e \<le> draws (snd (from_key_store (sbind (get_master_keys P) (\<lambda>k. sret (f k))) e))"
    for f :: "master_keys \<Rightarrow> bytes" and e
    by (simp add: from_key_store_def sbind_def split: prod.split sum.split) (metis snd_conv)
  have good: "master_ok view (snd (from_key_store (sbind (get_master_keys P) (\<lambda>k. sret (f k))) e))"
    if ok: "crypto_ok (crypto_of P)" "env_inv P view e" "master_ok view e" for f :: "master_keys \<Rightarrow> bytes" and e
  proof -
    obtain v e' where "get_master_keys P e = (Inr (master_of v), e')" "holds_master P view v e'"
      using master_keys_drawn [OF ok(1,2) assms] ok(3) by (auto simp: master_ok_def)
    then show ?thesis by (simp add: from_key_store_def holds_master_def master_ok_def)
  qed
  show "within (asks P view) (from_key_store (key_handle_encryption P))"
    "within (asks P view) (from_key_store (key_handle_authentication P))"
    using changes_key_handles [OF _ assms, of "{key_store_key}" view] same [of mk_encryption] same [of mk_authentication]
      good [of _ mk_encryption] good [of _ mk_authentication]
    by (simp_all add: within_def asks_def key_handle_encryption_def key_handle_authentication_def)
qed

lemma asks_decrypt: "11 \<le> usize_bits P \<Longrightarrow> within (asks P view) (decrypt_credential_id P i h)"
  unfolding decrypt_credential_id_def decrypt_legacy_credential_id_def decrypt_cbor_credential_id_def Let_def
  by (auto intro!: asks_rules asks_key_handles)

lemma asks_before_make_credential:
  assumes bits: "11 \<le> usize_bits P"
  shows "within (asks P view) (pin_uv_auth_precheck P param protocol channel)"
    and "within (asks P view) (enterprise_requested P enterprise rp)"
    and "within (asks_env P view) (make_credential_flags P params)"
    and "within (asks P view) (check_exclude_list P rp h has_uv channel name ds)"
proof -
  show "within (asks P view) (pin_uv_auth_precheck P param protocol channel)"
    by (auto simp: pin_uv_auth_precheck_def intro!: asks_rules asks_readers split: option.split)
  show "within (asks P view) (enterprise_requested P enterprise rp)"
    by (auto simp: enterprise_requested_def intro!: asks_rules asks_readers split: option.split)
  show "within (asks_env P view) (make_credential_flags P params)"
    by (auto simp: make_credential_flags_def verify_user_def intro!: asks_rules asks_readers split: option.split)
  show "within (asks P view) (check_exclude_list P rp h has_uv channel name ds)"
    by (induction ds) (auto intro!: asks_rules asks_decrypt [OF bits] asking.reader [OF reads_credentials(3)])
qed

lemma asks_before_get_assertion:
  assumes bits: "11 \<le> usize_bits P"
  shows "within (asks_env P view) (get_assertion_flags P params)"
    and "within (asks P view) (choose_credential P ga h has_uv)"
proof -
  show "within (asks_env P view) (get_assertion_flags P params)"
    by (auto simp: get_assertion_flags_def verify_user_def Let_def intro!: asks_rules asks_readers split: option.split)
  have "within (asks P view) (get_any_credential_from_allow_list P rp h has_uv ds)" for rp ds
    by (induction ds) (auto intro!: asks_rules asks_decrypt [OF bits] asking.reader [OF reads_credentials(3)])
  then show "within (asks P view) (choose_credential P ga h has_uv)"
    by (auto simp: choose_credential_def choose_resident_credential_def Let_def
        intro!: asks_rules asking.reader [OF reads_credentials(1)] asking.reader [OF reads_credentials(4)]
        split: option.split prod.split)
qed

section \<open>Operations that need the user\<close>

text \<open>When unattended, the operation fails, within the bounds of \<open>asks\<close>.\<close>

definition blocked ::
  "'p platform \<Rightarrow> ('p \<Rightarrow> string \<Rightarrow> bytes option) \<Rightarrow> ('p env \<times> 'c, 'e, 'a) op \<Rightarrow> bool" where
  "blocked P view f \<longleftrightarrow>
     (\<forall>s. unattended P (fst s) \<longrightarrow> (\<exists>x s'. f s = (Inl x, s') \<and> asks_env P view s s'))"

lemma blockedD:
  "blocked P view f \<Longrightarrow> unattended P (fst s) \<Longrightarrow> \<exists>x s'. f s = (Inl x, s') \<and> asks_env P view s s'"
  unfolding blocked_def by blast

lemma blocked_bind:
  fixes f :: "('p env \<times> 'c, 'e, 'a) op"
  assumes "blocked P view f"
  shows "blocked P view (sbind f g)"
  unfolding blocked_def
proof (intro allI impI)
  fix s :: "'p env \<times> 'c" assume "unattended P (fst s)"
  then obtain x s' where "f s = (Inl x, s')" "asks_env P view s s'" using blockedD [OF assms] by blast
  then show "\<exists>x s'. sbind f g s = (Inl x, s') \<and> asks_env P view s s'" by simp
qed

lemma blocked_after:
  fixes f :: "('p env \<times> 'c, 'e, 'a) op"
  assumes f: "within (asks_env P view) f" and g: "\<And>x. blocked P view (g x)"
  shows "blocked P view (sbind f g)"
  unfolding blocked_def
proof (intro allI impI)
  fix s :: "'p env \<times> 'c" assume u: "unattended P (fst s)"
  obtain r t where t: "f s = (r, t)" by (cases "f s")
  note step = withinD [OF f t]
  then have "unattended P (fst t)" using unattended_asks [OF u] by (simp add: asks_env_def)
  then show "\<exists>x s'. sbind f g s = (Inl x, s') \<and> asks_env P view s s'"
  proof (cases r)
    case (Inr x)
    obtain y s' where "g x t = (Inl y, s')" "asks_env P view t s'"
      using blockedD [OF g] \<open>unattended P (fst t)\<close> by blast
    then show ?thesis using t Inr asking_env.trans [OF step] by simp
  qed (use t step in simp)
qed

lemma blocked_fail: "blocked P view (err x)" "blocked P view (sfail y)"
  by (simp_all add: blocked_def err_def asking_env.refl)

lemma blocked_presence: "blocked P view (env_call (check_user_presence P channel reason))"
  unfolding blocked_def
proof (intro allI impI)
  fix s :: "'a env \<times> ctap_state" assume u: "unattended P (fst s)"
  obtain e c where s: "s = (e, c)" by (cases s)
  have "touch P (prompts e) reason channel \<noteq> Inr ()" using u by (simp add: s unattended_def)
  then obtain y where "touch P (prompts e) reason channel = Inl y"
    by (cases "touch P (prompts e) reason channel") auto
  moreover have "asks_env P view s (snd (env_call (check_user_presence P channel reason) s))"
    using asks_lifts(2) [OF asks_presence, of P view channel reason] unfolding within_def by blast
  ultimately show "\<exists>x s'. env_call (check_user_presence P channel reason) s = (Inl x, s') \<and> asks_env P view s s'"
    by (simp add: s env_call_def check_user_presence_def)
qed

lemma blocked_make_credential:
  "11 \<le> usize_bits P \<Longrightarrow> blocked P view (process_make_credential P params channel)"
  unfolding process_make_credential_def Let_def
  by (intro blocked_after asks_lifts asks_before_make_credential asks_pure blocked_bind [OF blocked_presence])

lemma blocked_get_assertion:
  "11 \<le> usize_bits P \<Longrightarrow> gao_up (gap_options params) \<Longrightarrow>
     blocked P view (process_get_assertion P params channel now)"
  unfolding process_get_assertion_def Let_def ask_for_assertion_def
  by (auto intro!: blocked_after asks_lifts asks_before_make_credential asks_before_get_assertion asks_pure
      blocked_fail blocked_bind [OF blocked_bind [OF blocked_presence]] split: prod.split)

lemma blocked_reset: "blocked P view (process_reset P channel)"
  unfolding process_reset_def check_reset_allowed_def
  by (intro blocked_after asks_pure blocked_bind [OF blocked_presence])

text \<open>The commands that need the user's consent.\<close>

definition needs_user :: "command \<Rightarrow> bool" where
  "needs_user cm =
     (case cm of
        AuthenticatorMakeCredential _ \<Rightarrow> True
      | AuthenticatorGetAssertion params \<Rightarrow> gao_up (gap_options params)
      | AuthenticatorReset \<Rightarrow> True
      | AuthenticatorSelection \<Rightarrow> True
      | AuthenticatorVendorConfigure params \<Rightarrow> vcp_attestation_material params \<noteq> None \<or> vcp_lockdown params
      | _ \<Rightarrow> False)"

lemma env_call_bind: "env_call (sbind f g) = sbind (env_call f) (\<lambda>x. env_call (g x))"
  by (rule ext) (auto simp: env_call_def sbind_def split: prod.split sum.split)

lemma blocked_command:
  assumes "11 \<le> usize_bits P" "needs_user cm"
  shows "blocked P view (process_fido_command P cm channel now)"
  using assms unfolding process_fido_command_def process_vendor_command_def process_selection_def
    process_vendor_configure_def
  by (cases cm) (auto simp: needs_user_def env_call_bind intro!: blocked_bind blocked_make_credential
      blocked_get_assertion blocked_reset blocked_presence)

text \<open>C5: as long as the user does not confirm, a request to register a credential, to sign with user
  presence, to reset, to select the authenticator or to configure its attestation fails, and changes
  no entry of the store but the master keys.\<close>

theorem user_must_confirm:
  assumes inv: "env_inv P view e" and bits: "11 \<le> usize_bits P" and cm: "needs_user cm"
    and absent: "\<forall>n\<ge>prompts e. \<forall>reason ch. touch P n reason ch \<noteq> Inr ()"
  shows "\<exists>x e' c'. process_parsed_command P cm channel now (e, c) = (Inl x, (e', c')) \<and> env_inv P view e' \<and>
    (\<forall>k. k \<noteq> key_store_key \<longrightarrow> content view (store_of e') k = content view (store_of e) k)"
proof -
  let ?c = "c\<lparr>ctap_u2f_up := fresh_u2f_up, ctap_stateful := prepare_stateful cm channel now (ctap_stateful c)\<rparr>"
  have "unattended P e" using absent by (simp add: unattended_def)
  then obtain x s' where "process_fido_command P cm channel now (e, ?c) = (Inl x, s')" "asks_env P view (e, ?c) s'"
    using blocked_command [OF bits cm, of view channel now] unfolding blocked_def by fastforce
  then show ?thesis
    using inv by (cases s') (simp add: process_parsed_command_def sbind_def asks_env_def asks_def changes_def)
qed

lemma user_must_confirm_witness:
  "\<exists>x e' c'. process_parsed_command (toy_platform\<lparr>touch := \<lambda>n reason ch. Inl Declined\<rparr>) AuthenticatorReset
     [1, 2, 3, 4] 5 (toy_env [], fst (new_ctap_state toy_platform 0 (toy_env []))) = (Inl x, (e', c')) \<and>
     (\<forall>k. k \<noteq> key_store_key \<longrightarrow> content map_of (store_of e') k = None)"
proof -
  let ?P = "toy_platform\<lparr>touch := \<lambda>n reason ch. Inl Declined\<rparr>"
  have inv: "env_inv ?P map_of (toy_env [])" using toy_env_inv by simp
  have bits: "11 \<le> usize_bits ?P" by simp
  have cm: "needs_user AuthenticatorReset" by (simp add: needs_user_def)
  show ?thesis
    using user_must_confirm [OF inv bits cm, of "[1, 2, 3, 4]" 5 "fst (new_ctap_state toy_platform 0 (toy_env []))"]
    by (auto simp: toy_env_content)
qed

end
