(* ===== verification/Text_Props.thy ===== *)
theory Text_Props
  imports Ctap_State
begin

text \<open>
  Cropping a string for storage: \<open>truncate_to_char_boundary\<close> cuts between two characters, and as late
  as it can.
\<close>

section \<open>Characters of a well-formed string\<close>

definition utf8_char :: "bytes \<Rightarrow> bool" where
  "utf8_char c \<longleftrightarrow> c \<noteq> [] \<and> length c \<le> 4 \<and> \<not> utf8_cont (hd c) \<and> list_all utf8_cont (tl c) \<and>
     (\<forall>r. utf8_count (c @ r) = map_option Suc (utf8_count r))"

lemma utf8_second_cont: "utf8_second b c \<Longrightarrow> utf8_cont c"
  by (auto simp: utf8_second_def utf8_cont_def word_le_nat_alt split: if_splits)

lemma utf8_split:
  assumes "utf8_valid s" "s \<noteq> []"
  shows "\<exists>c r. s = c @ r \<and> utf8_char c \<and> utf8_valid r"
proof -
  obtain b bs where s: "s = b # bs" using assms(2) by (cases s) auto
  have lead: "b < 0x80 \<or> 0xC2 \<le> b \<Longrightarrow> \<not> utf8_cont b"
    by (auto simp: utf8_cont_def word_le_nat_alt word_less_nat_alt)
  note v = assms(1) [unfolded utf8_valid_def s utf8_count.simps]
  let ?two = "0xC2 \<le> b \<and> b \<le> 0xDF" and ?three = "0xE0 \<le> b \<and> b \<le> 0xEF" and ?four = "0xF0 \<le> b \<and> b \<le> 0xF4"
  show ?thesis
  proof (cases "b < 0x80")
    case True
    then show ?thesis
      using lead v by (intro exI [of _ "[b]"] exI [of _ bs]) (simp add: s utf8_char_def utf8_valid_def)
  next
    case one: False
    show ?thesis
    proof (cases ?two)
      case True
      obtain c1 r where r: "bs = c1 # r" "utf8_cont c1" "utf8_valid r"
        using v [unfolded if_not_P [OF one] if_P [OF True]] by (auto simp: utf8_valid_def split: list.splits if_splits)
      then show ?thesis
        using lead one True by (intro exI [of _ "[b, c1]"] exI [of _ r]) (simp add: s utf8_char_def)
    next
      case two: False
      show ?thesis
      proof (cases ?three)
        case True
        obtain c1 c2 r where r: "bs = c1 # c2 # r" "utf8_second b c1" "utf8_cont c2" "utf8_valid r"
          using v [unfolded if_not_P [OF one] if_not_P [OF two] if_P [OF True]]
          by (auto simp: utf8_valid_def split: list.splits if_splits)
        have "\<not> utf8_cont b" using lead order.trans [of "0xC2" "0xE0" b] True by simp
        moreover have "utf8_count (b # c1 # c2 # q) = map_option Suc (utf8_count q)" for q
          unfolding utf8_count.simps if_not_P [OF one] if_not_P [OF two] if_P [OF True] using r by simp
        ultimately show ?thesis
          using r utf8_second_cont [OF r(2)]
          by (intro exI [of _ "[b, c1, c2]"] exI [of _ r]) (simp add: s utf8_char_def del: utf8_count.simps)
      next
        case three: False
        note v' = v [unfolded if_not_P [OF one] if_not_P [OF two] if_not_P [OF three]]
        then have True: ?four by (simp split: if_splits)
        obtain c1 c2 c3 r where r: "bs = c1 # c2 # c3 # r" "utf8_second b c1" "utf8_cont c2" "utf8_cont c3" "utf8_valid r"
          using v' [unfolded if_P [OF True]] by (auto simp: utf8_valid_def split: list.splits if_splits)
        have "\<not> utf8_cont b" using lead order.trans [of "0xC2" "0xF0" b] True by simp
        moreover have "utf8_count (b # c1 # c2 # c3 # q) = map_option Suc (utf8_count q)" for q
          unfolding utf8_count.simps if_not_P [OF one] if_not_P [OF two] if_not_P [OF three] if_P [OF True]
          using r by simp
        ultimately show ?thesis
          using r utf8_second_cont [OF r(2)]
          by (intro exI [of _ "[b, c1, c2, c3]"] exI [of _ r]) (simp add: s utf8_char_def del: utf8_count.simps)
      qed
    qed
  qed
qed

lemma utf8_induct [consumes 1, case_names empty char]:
  assumes "utf8_valid s" "Q []" "\<And>c r. utf8_char c \<Longrightarrow> utf8_valid r \<Longrightarrow> Q r \<Longrightarrow> Q (c @ r)"
  shows "Q s"
  using assms(1)
proof (induction s rule: length_induct)
  case (1 s)
  show ?case
  proof (cases "s = []")
    case False
    then obtain c r where "s = c @ r" "utf8_char c" "utf8_valid r" using utf8_split 1(2) by blast
    then show ?thesis using 1(1) assms(3) by (auto simp: utf8_char_def)
  qed (simp add: assms(2))
qed

lemma utf8_char_append: "utf8_char c \<Longrightarrow> utf8_valid (c @ r) \<longleftrightarrow> utf8_valid r"
  by (simp add: utf8_char_def utf8_valid_def)

section \<open>Boundaries\<close>

lemma utf8_char_nth: "utf8_char c \<Longrightarrow> 0 < n \<Longrightarrow> n < length c \<Longrightarrow> utf8_cont (c ! n)"
  by (cases c; cases n) (auto simp: utf8_char_def list_all_length)

lemma boundary_append:
  assumes c: "utf8_char c" and r: "utf8_valid r"
  shows "is_char_boundary (c @ r) n \<longleftrightarrow> n = 0 \<or> (length c \<le> n \<and> is_char_boundary r (n - length c))"
proof (cases "n < length c")
  case True
  then show ?thesis
    using utf8_char_nth [OF c, of n] c by (cases "n = 0") (auto simp: is_char_boundary_def nth_append utf8_char_def)
next
  case False
  have "r \<noteq> [] \<Longrightarrow> \<not> utf8_cont (r ! 0)"
    using utf8_split [OF r] by (force simp: utf8_char_def hd_append hd_conv_nth nth_append split: if_splits)
  then show ?thesis
    using False c by (cases "n = length c"; cases "r = []") (auto simp: is_char_boundary_def nth_append utf8_char_def)
qed

lemma boundary_valid:
  assumes "utf8_valid s"
  shows "n \<le> length s \<Longrightarrow> is_char_boundary s n \<Longrightarrow> utf8_valid (take n s) \<and> utf8_valid (drop n s)"
  using assms
proof (induction s arbitrary: n rule: utf8_induct)
  case empty
  then show ?case by (simp add: utf8_valid_def)
next
  case (char c r)
  show ?case
  proof (cases "n = 0")
    case True
    then show ?thesis using char.hyps by (simp add: utf8_char_append) (simp add: utf8_valid_def)
  next
    case False
    then have "length c \<le> n" "is_char_boundary r (n - length c)"
      using char.prems(2) boundary_append [OF char.hyps] by simp_all
    then show ?thesis
      using char.IH [of "n - length c"] char.prems(1) by (simp add: utf8_char_append [OF char.hyps(1)])
  qed
qed

lemma boundary_near:
  assumes "utf8_valid s"
  shows "n \<le> length s \<Longrightarrow> \<exists>m \<le> n. n < m + 4 \<and> is_char_boundary s m"
  using assms
proof (induction s arbitrary: n rule: utf8_induct)
  case empty
  then show ?case by (simp add: is_char_boundary_def)
next
  case (char c r)
  note bnd = boundary_append [OF char.hyps]
  show ?case
  proof (cases "n < length c")
    case True
    then show ?thesis using bnd char.hyps(1) by (intro exI [of _ 0]) (simp add: utf8_char_def)
  next
    case False
    then obtain m where "m \<le> n - length c" "n - length c < m + 4" "is_char_boundary r m"
      using char.IH [of "n - length c"] char.prems by (auto simp: le_diff_conv)
    moreover from this(1,2) False have "length c + m \<le> n" "n < length c + m + 4" by arith+
    ultimately show ?thesis using bnd by (intro exI [of _ "length c + m"]) simp
  qed
qed

lemma boundary_at_most_greatest:
  "boundary_at_most s n \<le> n \<and> is_char_boundary s (boundary_at_most s n) \<and>
     (\<forall>m\<le>n. is_char_boundary s m \<longrightarrow> m \<le> boundary_at_most s n)"
  by (induction n) (auto simp: is_char_boundary_def le_Suc_eq)

lemma truncate_ok:
  assumes "utf8_valid s"
  shows "\<exists>r. s = truncate_to_char_boundary s n @ r \<and> utf8_valid (truncate_to_char_boundary s n) \<and> utf8_valid r \<and>
    length (truncate_to_char_boundary s n) \<le> n \<and>
    (if length s \<le> n then r = [] else n < length (truncate_to_char_boundary s n) + 4)"
proof (cases "length s \<le> n")
  case True
  then show ?thesis using assms by (simp add: truncate_to_char_boundary_def) (simp add: utf8_valid_def)
next
  case False
  let ?m = "boundary_at_most s n"
  have m: "?m \<le> n" "is_char_boundary s ?m" "\<forall>m\<le>n. is_char_boundary s m \<longrightarrow> m \<le> ?m"
    using boundary_at_most_greatest by blast+
  obtain k where "k \<le> n" "n < k + 4" "is_char_boundary s k"
    using boundary_near [OF assms, of n] False by auto
  then have "n < ?m + 4" using m(3) by fastforce
  then show ?thesis
    using False m(1) boundary_valid [OF assms _ m(2)]
    by (intro exI [of _ "drop ?m s"]) (simp add: truncate_to_char_boundary_def)
qed

text \<open>C25: cropping a string to a number of bytes ends, and gives a well-formed prefix of it within that
  number, with a well-formed rest; it gives up at most three bytes for that, and nothing when the
  string is short enough.\<close>

theorem truncate_well_formed:
  assumes "utf8_valid s"
  shows "\<exists>r. s = truncate_to_char_boundary s n @ r \<and> utf8_valid (truncate_to_char_boundary s n) \<and> utf8_valid r \<and>
    length (truncate_to_char_boundary s n) \<le> n \<and>
    (if length s \<le> n then r = [] else n < length (truncate_to_char_boundary s n) + 4)"
  using assms by (rule truncate_ok)

lemma truncate_well_formed_witness:
  "truncate_to_char_boundary [0x41, 0xE2, 0x82, 0xAC, 0x42] 3 = [0x41] \<and>
   utf8_valid (truncate_to_char_boundary [0x41, 0xE2, 0x82, 0xAC, 0x42] 3)"
proof -
  have "utf8_valid [0x41, 0xE2, 0x82, 0xAC, 0x42]" by code_simp
  moreover have "truncate_to_char_boundary [0x41, 0xE2, 0x82, 0xAC, 0x42] 3 = [0x41]" by code_simp
  ultimately show ?thesis
    using truncate_well_formed [of "[0x41, 0xE2, 0x82, 0xAC, 0x42]" 3] by auto
qed

end
