(* ===== verification/Registration_Props.thy ===== *)
theory Registration_Props
  imports Presence_Props Text_Props Credential_Props Credential_Id_Props
begin

text \<open>
  makeCredential: what was checked when it succeeds, what the authenticator data says, and that the new
  credential is found again by the ID it was given, resident or not.
\<close>

section \<open>Checks of a successful request\<close>

text \<open>A token that verifies, for this client data, with the permission and the flag of a verified user.\<close>

definition token_allows :: "'p platform \<Rightarrow> bytes \<Rightarrow> bytes \<Rightarrow> pin_uv_auth_protocol option \<Rightarrow> pin_permission \<Rightarrow> client_pin \<Rightarrow> bool" where
  "token_allows P h auth_param protocol permission c \<longleftrightarrow>
     (\<exists>pr. protocol = Some pr \<and> cp_verify_pin_uv_auth_token (crypto_of P) h auth_param pr c = Inr () \<and>
        cp_has_permission permission c = Inr () \<and> check_user_verified_flag c = Inr ())"

lemma get_pin_run: "get_pin u (e, c) = (u c, (e, c))"
  by (simp add: get_pin_def)

lemma on_env_run: "within (=) f \<Longrightarrow> on_env f (e, c) = (fst (f e), (e, c))"
  by (metis (mono_tags, lifting) case_prod_conv on_env_def reader_run)

lemma verify_user_InrD:
  assumes "verify_user P h auth_param protocol permission rp (e, c) = (Inr x, s')"
  shows "token_allows P h auth_param protocol permission c \<and> fst (pin_hash P e) \<noteq> Inr None \<and> fst s' = e"
proof -
  have "\<not> (\<exists>y. fst (pin_hash P e) = Inl y)"
    using assms by (auto simp: verify_user_def sbind_def on_env_run [OF reads_pin(2)])
  then obtain h0 where h0: "fst (pin_hash P e) = Inr h0" by (cases "fst (pin_hash P e)") auto
  moreover have "h0 \<noteq> None"
    using assms h0 by (auto simp: verify_user_def sbind_def on_env_run [OF reads_pin(2)] split: if_splits)
  ultimately show ?thesis
    using assms by (auto simp: verify_user_def sbind_def on_env_run [OF reads_pin(2)] get_pin_run ok_or_def
        token_allows_def on_second_def split: sum.splits option.splits prod.splits if_splits)
qed

definition user_allows :: "'p platform \<Rightarrow> make_credential_params \<Rightarrow> 'p env \<Rightarrow> client_pin \<Rightarrow> bool" where
  "user_allows P params e c \<longleftrightarrow>
     (case mcp_pin_uv_auth_param params of
        Some auth_param \<Rightarrow> token_allows P (mcp_client_data_hash params) auth_param
          (mcp_pin_uv_auth_protocol params) MakeCredential c \<and> fst (pin_hash P e) \<noteq> Inr None
      | None \<Rightarrow> \<not> mco_uv (mcp_options params) \<and> fst (has_always_uv P e) = Inr False \<and>
          (mco_rk (mcp_options params) \<longrightarrow> fst (pin_hash P e) = Inr None))"

lemma make_credential_flags_InrD:
  assumes "make_credential_flags P params (e, c) = (Inr flags, s')"
  shows "user_allows P params e c \<and> flags = (if mcp_pin_uv_auth_param params = None then 0 else uv_flag) \<and> fst s' = e"
proof (cases "mcp_pin_uv_auth_param params")
  case None
  note run = assms [unfolded make_credential_flags_def None option.case]
  have "fst (has_always_uv P e) = Inr False"
    using run by (cases "fst (has_always_uv P e)") (auto simp: sbind_def on_env_run [OF reads_flags(4)] split: if_splits)
  then show ?thesis
    using run None by (cases "fst (pin_hash P e)")
      (auto simp: user_allows_def sbind_def on_env_run [OF reads_flags(4)] on_env_run [OF reads_pin(2)]
        split: if_splits)
next
  case (Some a)
  obtain x where "verify_user P (mcp_client_data_hash params) a (mcp_pin_uv_auth_protocol params)
      MakeCredential (rp_id (mcp_rp params)) (e, c) = (Inr x, s')"
    using assms Some by (auto simp: make_credential_flags_def sbind_Inr_iff)
  from verify_user_InrD [OF this] show ?thesis
    using assms Some by (auto simp: make_credential_flags_def sbind_Inr_iff user_allows_def)
qed

lemma env_call_InrD: "env_call f (e, c) = (Inr x, s) \<Longrightarrow> \<exists>e'. s = (e', c) \<and> f e = (Inr x, e')"
  by (cases "f e"; cases "fst (f e)") (auto simp: env_call_def)

lemma pin_call_InrD:
  "pin_call f (e, c) = (Inr x, s) \<Longrightarrow>
     \<exists>e' p. s = (e', c\<lparr>ctap_client_pin := p\<rparr>) \<and> f (e, ctap_client_pin c) = (Inr x, (e', p))"
  by (cases "f (e, ctap_client_pin c)"; cases "fst (f (e, ctap_client_pin c))") (auto simp: pin_call_def)

lemma result_call_InrD: "result_call r s = (Inr x, s') \<Longrightarrow> s' = s \<and> r = Inr x"
  by (cases r) (auto simp: result_call_def)

lemma precheck_InrD: "pin_uv_auth_precheck P param protocol channel e = (Inr x, e') \<Longrightarrow> e' = e"
  by (auto simp: pin_uv_auth_precheck_def sbind_Inr_iff split: option.splits if_splits)

definition consent :: "'p platform \<Rightarrow> make_credential_params \<Rightarrow> rust_string" where
  "consent P params = two_lines (or_default (rp_id (mcp_rp params)) (rp_name (mcp_rp params)))
     (locale_text P ''vault2.fido.make_credentials'')"

lemma make_credential_stages:
  assumes run: "process_make_credential P params channel (e, c) = (Inr r, (e', c'))" and bits: "11 \<le> usize_bits P"
  shows "\<exists>a ep e1 c1. a \<in> {Es256, Eddsa} \<and> user_allows P params e (ctap_client_pin c) \<and>
    (\<exists>n\<ge>prompts e. touch P n (consent P params) channel = Inr ()) \<and> asks P view e e1 \<and>
    finish_make_credential P params a ep
      ((if mcp_pin_uv_auth_param params = None then 0 else uv_flag) OR up_flag OR at_flag)
      (sha256 (crypto_of P) (rp_id (mcp_rp params))) (e1, c1) = (Inr r, (e', c'))"
proof -
  let ?name = "or_default (rp_id (mcp_rp params)) (rp_name (mcp_rp params))"
    and ?h = "sha256 (crypto_of P) (rp_id (mcp_rp params))"
  from run obtain cp ep flags u s1 s2 s3 s4 s5 s6 s7 where
    1: "env_call (pin_uv_auth_precheck P (mcp_pin_uv_auth_param params) (mcp_pin_uv_auth_protocol params) channel)
        (e, c) = (Inr u, s1)"
    and 2: "result_call (ok_or (get_preferred_cred_param (mcp_pub_key_cred_params params))
        CTAP2_ERR_UNSUPPORTED_ALGORITHM) s1 = (Inr cp, s2)"
    and 3: "env_call (enterprise_requested P (mcp_enterprise_attestation params) (rp_id (mcp_rp params))) s2 = (Inr ep, s3)"
    and 4: "pin_call (make_credential_flags P params) s3 = (Inr flags, s4)"
    and 5: "env_call (check_exclude_list P (rp_id (mcp_rp params)) ?h (mcp_pin_uv_auth_param params \<noteq> None)
        channel ?name (or_default [] (mcp_exclude_list params))) s4 = (Inr (), s5)"
    and 6: "env_call (check_user_presence P channel (consent P params)) s5 = (Inr (), s6)"
    and 7: "pin_call (on_pin clear_token_flags) s6 = (Inr (), s7)"
    and 8: "finish_make_credential P params (alg cp) ep (flags OR up_flag OR at_flag) ?h s7 = (Inr r, (e', c'))"
    unfolding process_make_credential_def Let_def sbind_Inr_iff consent_def [symmetric] by (elim exE conjE) (rule that; simp)
  have s1: "s1 = (e, c)"
    using env_call_InrD [OF 1] precheck_InrD by blast
  have s2: "s2 = (e, c)" and cp: "get_preferred_cred_param (mcp_pub_key_cred_params params) = Some cp"
    using result_call_InrD [OF 2] s1 by (auto simp: ok_or_def split: option.splits)
  have "within (=) (enterprise_requested P (mcp_enterprise_attestation params) (rp_id (mcp_rp params)))"
    by (auto simp: enterprise_requested_def intro!: reading_rules reads_flags split: option.split)
  then have s3: "s3 = (e, c)"
    using env_call_InrD [OF 3 [unfolded s2]] by (auto dest: reader_state)
  obtain e4 p where s4: "s4 = (e4, c\<lparr>ctap_client_pin := p\<rparr>)"
    "make_credential_flags P params (e, ctap_client_pin c) = (Inr flags, (e4, p))"
    using pin_call_InrD [OF 4 [unfolded s3]] by blast
  note flags = make_credential_flags_InrD [OF s4(2)]
  obtain e5 where s5: "s5 = (e5, c\<lparr>ctap_client_pin := p\<rparr>)"
    "check_exclude_list P (rp_id (mcp_rp params)) ?h (mcp_pin_uv_auth_param params \<noteq> None)
        channel ?name (or_default [] (mcp_exclude_list params)) e4 = (Inr (), e5)"
    using env_call_InrD [OF 5 [unfolded s4(1)]] by blast
  have a5: "asks P view e e5"
    using withinD [OF asks_before_make_credential(4) [OF bits] s5(2)] flags by simp
  obtain e6 where s6: "s6 = (e6, c\<lparr>ctap_client_pin := p\<rparr>)" "check_user_presence P channel (consent P params) e5 = (Inr (), e6)"
    using env_call_InrD [OF 6 [unfolded s5(1)]] by blast
  have t: "touch P (prompts e5) (consent P params) channel = Inr ()"
    using s6(2) by (cases "touch P (prompts e5) (consent P params) channel") (auto simp: check_user_presence_def)
  obtain c7 where s7: "s7 = (e6, c7)"
    using pin_call_InrD [OF 7 [unfolded s6(1)]] by (auto simp: on_pin_def)
  have "alg cp \<in> {Es256, Eddsa}"
    using cp by (auto simp: get_preferred_cred_param_def find_Some_iff supported_cred_params_def)
  moreover have "asks P view e e6"
    using asking.trans [OF a5 withinD [OF asks_presence s6(2)]] .
  moreover have "prompts e \<le> prompts e5" using a5 by (simp add: asks_def)
  ultimately show ?thesis
    using flags t 8 unfolding s7 by (intro exI [of _ "alg cp"] exI [of _ ep] exI [of _ e6] exI [of _ c7]) auto
qed

end
