(* ===== verification/Registered.thy ===== *)
theory Registered
  imports Registration_Props Assertion_Props
begin

text \<open>
  From registration to authentication: the layout of the authenticator data of a new credential, and
  that the credential is found again by the ID in it, whether it was stored or encrypted into the ID.
\<close>

section \<open>Authenticator data\<close>

lemma write_cbor_InrD: "write_cbor v out = Inr out' \<Longrightarrow> out' = out @ enc (sort_maps v)"
proof -
  assume run: "write_cbor v out = Inr out'"
  obtain r o' where w: "write_nested v out max_cbor_nesting_depth = (r, o')" by fastforce
  then have "r = Inr ()" "o' = out'"
    using run by (cases r; simp add: write_cbor_def ctap_cbor_write_def)+
  then show ?thesis
    using w by (simp add: write_nested_def encode_ok_iff)
qed

lemma enc_not_Nil: "enc v \<noteq> []"
  by (cases v) (simp_all add: head_eq)

definition attested_data :: "bytes \<Rightarrow> bytes \<Rightarrow> cose_key \<Rightarrow> bytes" where
  "attested_data guid cred_id public_key =
     guid @ [0x00, of_nat (length cred_id)] @ cred_id @ enc (sort_maps (cbor_of_cose_key public_key))"

lemma auth_data_InrD:
  assumes "make_credential_auth_data P params key h cred_id flags policy blob with_min_length with_extensions e = (Inr ad, e')"
  shows "e' = e \<and> length cred_id \<le> 255 \<and>
    (\<exists>n guid public_key ext. get_pub_key P key = Inr public_key \<and>
       ad = h @ [flags] @ be_bytes 4 (n :: u32) @ attested_data guid cred_id public_key @ ext \<and>
       (ext = [] \<longleftrightarrow> \<not> with_extensions))"
proof -
  have out: "within (=) (make_credential_extensions_output P params policy blob with_min_length)"
    by (auto simp: make_credential_extensions_output_def Let_def intro!: reading_rules reads_pin)
  have "within (=) (make_credential_auth_data P params key h cred_id flags policy blob with_min_length with_extensions)"
    by (auto simp: make_credential_auth_data_def generate_auth_data_def intro!: reading_rules reads_values out)
  then have same: "e' = e" using assms by (rule reader_state)
  obtain n e1 guid e2 public_key ad1 where n: "global_signature_counter P e = (Inr n, e1)"
    "aaguid P e1 = (Inr guid, e2)" "length cred_id \<le> 255" "get_pub_key P key = Inr public_key"
    "write_cbor (cbor_of_cose_key public_key)
      (h @ [flags] @ be_bytes 4 n @ guid @ [0x00, of_nat (length cred_id)] @ cred_id) = Inr ad1"
    and rest: "(if with_extensions
       then sbind (make_credential_extensions_output P params policy blob with_min_length) (\<lambda>output.
            slift (\<lambda>_. write_cbor output ad1))
       else sret ad1) e2 = (Inr ad, e')"
    using assms by (auto simp: make_credential_auth_data_def generate_auth_data_def sbind_Inr_iff split: if_split_asm)
  note ad1 = write_cbor_InrD [OF n(5)]
  have "\<exists>ext. ad = ad1 @ ext \<and> (ext = [] \<longleftrightarrow> \<not> with_extensions)"
    using rest by (auto simp: sbind_Inr_iff enc_not_Nil dest!: write_cbor_InrD split: if_split_asm)
  then obtain ext where "ad = ad1 @ ext" "ext = [] \<longleftrightarrow> \<not> with_extensions" by blast
  then show ?thesis
    using same n(3,4) ad1 unfolding attested_data_def
    by (intro conjI exI [of _ n] exI [of _ guid] exI [of _ public_key] exI [of _ ext]) simp_all
qed

section \<open>The new key and credential\<close>

lemma attest_same: "within (\<lambda>s s'. fst s' = fst s) (attest P i key m)"
proof -
  have att: "within (=) (from_attestation_store (attestation_get P j))" for j
    by (intro reads_attestation)
  show ?thesis
    unfolding attest_def within_def
    by (auto simp: sbind_def env_call_def result_call_def panic_def split: option.split prod.split sum.split
        dest: reader_state [OF att])
qed

definition same_but_draws :: "'p env \<Rightarrow> 'p env \<Rightarrow> bool" where
  "same_but_draws e e' \<longleftrightarrow> (\<exists>n\<ge>draws e. e' = e\<lparr>draws := n\<rparr>)"

lemma same_but_draws_refl: "same_but_draws e e"
  unfolding same_but_draws_def by (rule exI [of _ "draws e"]) simp

lemma same_but_draws_Suc [simp]: "same_but_draws e (e\<lparr>draws := Suc (draws e)\<rparr>)"
  unfolding same_but_draws_def by (rule exI [of _ "Suc (draws e)"]) simp

lemma same_but_draws_trans: "same_but_draws e e1 \<Longrightarrow> same_but_draws e1 e2 \<Longrightarrow> same_but_draws e e2"
  unfolding same_but_draws_def by clarsimp (metis order_trans)

lemma new_private_key_ok:
  assumes "crypto_ok (crypto_of P)" "new_private_key P a e = Some (key, e')"
  shows "same_but_draws e e' \<and> length (private_key_bytes key) = 32"
  using assms crypto_okD [OF assms(1)]
  by (auto simp: new_private_key_def generate_ecdsa_seed_def gen_uniform_u8x32_def new_ed25519_from_bytes_def
      private_key_bytes_def split: signature_algorithm.splits if_splits)

lemma finish_stages:
  assumes run: "finish_make_credential P params a ep flags h (e1, c1) = (Inr r, (e', c'))"
    and C: "crypto_ok (crypto_of P)"
  shows "\<exists>key lbk e3 cred_id n guid public_key ext flags'. same_but_draws e1 e3 \<and>
    length (private_key_bytes key) = 32 \<and> pred_option (\<lambda>b. length b = 32) lbk \<and>
    make_credential_id P params key h (chosen_cred_protect (custom P) (mce_cred_protect (mcp_extensions params)))
      (accepted_cred_blob (custom P) (mce_cred_blob (mcp_extensions params))) lbk e3 = (Inr cred_id, e') \<and>
    get_pub_key P key = Inr public_key \<and> flags' = flags OR (if ext = [] then 0 else ed_flag) \<and> length cred_id \<le> 255 \<and>
    mcr_auth_data r = h @ [flags'] @ be_bytes 4 (n :: u32) @ attested_data guid cred_id public_key @ ext"
proof -
  let ?ext = "mcp_extensions params"
  let ?policy = "chosen_cred_protect (custom P) (mce_cred_protect ?ext)"
    and ?blob = "accepted_cred_blob (custom P) (mce_cred_blob ?ext)"
  let ?we = "\<lambda>wm. mce_hmac_secret ?ext \<or> mce_cred_protect ?ext \<noteq> None \<or> wm \<or> mce_cred_blob ?ext \<noteq> None"
  let ?i = "if ep then Some Enterprise else if use_batch_attestation (custom P) then Some Batch else None"
  obtain wm s1 lbk s2 key s3 cred_id s4 ad s5 x s6 where
    1: "env_call (reads_min_pin_length P params) (e1, c1) = (Inr wm, s1)"
    and 2: "env_call (new_large_blob_key P params) s1 = (Inr lbk, s2)"
    and 3: "new_key P a s2 = (Inr key, s3)"
    and 4: "env_call (make_credential_id P params key h ?policy ?blob lbk) s3 = (Inr cred_id, s4)"
    and 5: "env_call (make_credential_auth_data P params key h cred_id (if ?we wm then flags OR ed_flag else flags)
        ?policy ?blob wm (?we wm)) s4 = (Inr ad, s5)"
    and 6: "attest P ?i key (ad @ mcp_client_data_hash params) s5 = (Inr x, s6)"
    and 7: "s6 = (e', c')" "mcr_auth_data r = ad"
    using run [unfolded finish_make_credential_def Let_def sbind_Inr_iff]
    by (elim exE conjE) (rule that, assumption+, auto split: prod.splits)
  define we flags' where "we = ?we wm" and "flags' = (if ?we wm then flags OR ed_flag else flags)"
  have "within (=) (reads_min_pin_length P params)"
    by (auto simp: reads_min_pin_length_def min_pin_length_rp_ids_def intro!: reading_rules reads_find_entry)
  then have s1: "s1 = (e1, c1)"
    using env_call_InrD [OF 1] by (auto dest: reader_state)
  obtain e2 where e2: "s2 = (e2, c1)" "new_large_blob_key P params e1 = (Inr lbk, e2)"
    using env_call_InrD [OF 2 [unfolded s1]] by blast
  have d2: "same_but_draws e1 e2" "pred_option (\<lambda>b. length b = 32) lbk"
    using e2(2) crypto_okD(3) [OF C]
    by (auto simp: new_large_blob_key_def random_bytes_def gen_uniform_u8x32_def split: if_splits)
      (auto simp: same_but_draws_refl)
  obtain e3 where e3: "s3 = (e3, c1)" "new_private_key P a e2 = Some (key, e3)"
    using 3 e2(1) by (auto simp: new_key_def split: option.splits)
  note k = new_private_key_ok [OF C e3(2)]
  obtain e4 where e4: "s4 = (e4, c1)" "make_credential_id P params key h ?policy ?blob lbk e3 = (Inr cred_id, e4)"
    using env_call_InrD [OF 4 [unfolded e3(1)]] by blast
  obtain e5 where e5: "s5 = (e5, c1)" "make_credential_auth_data P params key h cred_id flags' ?policy ?blob wm we e4 = (Inr ad, e5)"
    using env_call_InrD [OF 5 [unfolded e4(1)]] unfolding we_def flags'_def by blast
  note ad = auth_data_InrD [OF e5(2)]
  have "e' = e4"
    using withinD [OF attest_same 6] ad by (simp add: 7(1) e5(1))
  moreover have "same_but_draws e1 e3"
    using d2(1) k same_but_draws_trans by blast
  moreover obtain n guid public_key ext where "get_pub_key P key = Inr public_key"
    "ad = h @ [flags'] @ be_bytes 4 (n :: u32) @ attested_data guid cred_id public_key @ ext"
    "ext = [] \<longleftrightarrow> \<not> we"
    using ad by blast
  ultimately show ?thesis
    using d2(2) k e4(2) ad 7(2)
    by (intro exI [of _ key] exI [of _ lbk] exI [of _ e3] exI [of _ cred_id] exI [of _ n] exI [of _ guid]
        exI [of _ public_key] exI [of _ ext] exI [of _ flags']) (simp add: we_def flags'_def)
qed

section \<open>Finding the credential\<close>

text \<open>The strings of a request, as Rust guarantees them for values that fit in memory.\<close>

definition request_ok :: "nat \<Rightarrow> make_credential_params \<Rightarrow> bool" where
  "request_ok ub params \<longleftrightarrow> string_ok ub (rp_id (mcp_rp params)) \<and> bytes_ok ub (user_id (mcp_user params)) \<and>
     pred_option utf8_valid (user_name (mcp_user params)) \<and>
     pred_option utf8_valid (user_display_name (mcp_user params)) \<and>
     pred_option utf8_valid (user_icon (mcp_user params))"

text \<open>The IDs of the stored credentials differ from each other, and none is as long as an encrypted ID.\<close>

definition ids_ok :: "(nat \<Rightarrow> credential_source option) \<Rightarrow> bool" where
  "ids_ok m \<longleftrightarrow> ids_unique m \<and> (\<forall>k c. m k = Some c \<longrightarrow> length (cs_id c) \<noteq> 241)"

text \<open>No draw from number \<open>d\<close> up to \<open>d'\<close> repeats the ID of a stored credential.\<close>

definition ids_fresh :: "'p platform \<Rightarrow> nat \<Rightarrow> nat \<Rightarrow> (nat \<Rightarrow> credential_source option) \<Rightarrow> bool" where
  "ids_fresh P d d' m \<longleftrightarrow>
     (\<forall>k c n. m k = Some c \<longrightarrow> d \<le> n \<longrightarrow> n < d' \<longrightarrow> cs_id c \<noteq> random_u8x32 (crypto_of P) n)"

lemma bytes_ok_small: "length b < 2048 \<Longrightarrow> 11 \<le> ub \<Longrightarrow> bytes_ok ub b"
  using small_fits [of "length b" ub] by (simp add: bytes_ok_def)

lemma cropped_ok:
  assumes "pred_option utf8_valid x" "11 \<le> ub"
  shows "pred_option (string_ok ub) (cropped x)"
proof (cases x)
  case (Some s)
  then have v: "utf8_valid s" using assms(1) by simp
  then have "utf8_valid (truncate_to_char_boundary s 64)" "length (truncate_to_char_boundary s 64) \<le> 64"
    using truncate_ok [OF v, of 64] by auto
  then show ?thesis
    using small_fits [of "length (truncate_to_char_boundary s 64)" ub] assms(2) by (simp add: Some cropped_def string_ok_def)
qed (simp add: cropped_def)

lemma find_credential_unique:
  assumes inv: "cred_inv P view e" and ids: "ids_unique (cred_of P view e)"
    and c: "cred_of P view e k = Some cr" "cs_id cr = i" "cs_rp_id cr = rp"
  shows "find_credential P rp i e = (Inr (Some cr), e)"
proof -
  have "\<exists>k c. cred_of P view e k = Some c \<and> cs_id c = i" using c by blast
  then obtain k' c' where kc: "cred_of P view e k' = Some c'" "cs_id c' = i"
    "find_credential_item P i e = (Inr (k', c'), e)"
    using find_credential_item_ok [OF inv ids, of i] by auto
  then have "k' = k" using ids c unfolding ids_unique_def by blast
  then have "c' = cr" using kc(1) c(1) by simp
  then show ?thesis using kc(3) c(3) by (simp add: find_credential_def)
qed

lemma find_credential_none:
  assumes inv: "cred_inv P view e" and ids: "ids_unique (cred_of P view e)"
    and none: "\<forall>k c. cred_of P view e k = Some c \<longrightarrow> cs_id c \<noteq> i"
  shows "find_credential P rp i e = (Inr None, e)"
proof -
  have "find_credential_item P i e = (Inl CTAP2_ERR_NO_CREDENTIALS, e)"
    using find_credential_item_ok [OF inv ids, of i] none by (simp split: if_splits)
  then show ?thesis by (simp add: find_credential_def)
qed

lemma cred_inv_draws: "same_but_draws e e' \<Longrightarrow> cred_inv P view e' = cred_inv P view e \<and> store_of e' = store_of e"
  by (auto simp: same_but_draws_def cred_inv_def)

text \<open>Storing a credential draws nothing.\<close>

interpretation same_draws: effect_bound "\<lambda>e e'. draws e' = draws e"
  by unfold_locales simp_all

lemma draws_store_credential: "within (\<lambda>e e'. draws e' = draws e) (store_credential P new)"
proof -
  have "within (\<lambda>e e'. draws e' = draws e) (insert_entry P k v)" for k v
    by (simp add: within_def insert_entry_def with_store_def split: prod.split)
  then show ?thesis
    unfolding store_credential_def Let_def
    by (auto intro!: same_draws.bind same_draws.ret same_draws.reader [OF reads_credentials(1)] split: prod.split)
qed

lemma resident_id_found:
  assumes inv: "cred_inv P view e" and ids: "ids_ok (cred_of P view e)"
    and fresh: "ids_fresh P (draws e) (draws e') (cred_of P view e)" and master: "master_ok view e"
    and C: "crypto_ok (crypto_of P)" and cap: "max_supported_resident_keys (custom P) \<le> 300"
    and bits: "11 \<le> usize_bits P" and req: "request_ok (usize_bits P) params" "mco_rk (mcp_options params)"
    and key: "length (private_key_bytes key) = 32" and blob: "pred_option (\<lambda>b. length b \<le> 64) blob"
    and lbk: "pred_option (\<lambda>b. length b = 32) lbk"
    and run: "make_credential_id P params key h policy blob lbk e = (Inr i, e')"
  shows "\<exists>cr. find_credential P (rp_id (mcp_rp params)) i e' = (Inr (Some cr), e') \<and> cs_id cr = i \<and>
    cs_private_key cr = key \<and> cs_cred_protect cr = policy \<and> cs_cred_blob cr = blob \<and>
    cred_inv P view e' \<and> ids_ok (cred_of P view e') \<and> master_ok view e'"
proof -
  let ?e = "e\<lparr>draws := Suc (draws e)\<rparr>" and ?user = "mcp_user params"
  have same: "same_but_draws e ?e" by simp
  have inv': "cred_inv P view ?e" and m: "cred_of P view ?e = cred_of P view e"
    using cred_inv_draws [OF same] inv by simp_all
  have "within (=) (new_creation_order P)"
    by (auto simp: new_creation_order_def Let_def intro!: reading_rules reads_credentials split: prod.split)
  note order = this
  from run req(2) obtain order where i: "i = random_u8x32 (crypto_of P) (draws e)"
    and store: "store_credential P \<lparr>cs_type = PublicKey, cs_id = i, cs_private_key = key,
      cs_rp_id = rp_id (mcp_rp params), cs_user_handle = user_id ?user,
      cs_user_display_name = cropped (user_display_name ?user), cs_cred_protect = policy,
      cs_creation_order = order, cs_user_name = cropped (user_name ?user),
      cs_user_icon = cropped (user_icon ?user), cs_cred_blob = blob, cs_large_blob_key = lbk\<rparr> ?e = (Inr (), e')"
    by (auto simp: make_credential_id_def random_bytes_def gen_uniform_u8x32_def sbind_Inr_iff Let_def
        dest: reader_state [OF order])
  define new where "new = \<lparr>cs_type = PublicKey, cs_id = i, cs_private_key = key,
      cs_rp_id = rp_id (mcp_rp params), cs_user_handle = user_id ?user,
      cs_user_display_name = cropped (user_display_name ?user), cs_cred_protect = policy,
      cs_creation_order = order, cs_user_name = cropped (user_name ?user),
      cs_user_icon = cropped (user_icon ?user), cs_cred_blob = blob, cs_large_blob_key = lbk\<rparr>"
  have "pred_option (bytes_ok (usize_bits P)) blob" "pred_option (bytes_ok (usize_bits P)) lbk"
    using blob lbk bits by (cases blob; cases lbk; simp add: bytes_ok_small)+
  then have new_ok: "source_ok (usize_bits P) new"
    using req(1) key bits crypto_okD(3) [OF C] cropped_ok [OF _ bits]
    by (simp add: new_def source_ok_def request_ok_def bytes_ok_small i)
  obtain k where k: "slot (max_supported_resident_keys (custom P)) (cred_of P view e) new = Some k"
    "cred_inv P view e'" "cred_of P view e' = (cred_of P view e)(k \<mapsto> new)"
    "\<forall>j. other_key j \<longrightarrow> content view (store_of e') j = content view (store_of e) j"
    using store_credential_ok [OF inv' new_ok cap bits] store unfolding m new_def [symmetric]
    by (cases "slot (max_supported_resident_keys (custom P)) (cred_of P view e) new") auto
  have "draws e' = Suc (draws e)"
    using withinD [OF draws_store_credential store] by simp
  then have "cs_id c \<noteq> i" if "cred_of P view e j = Some c" for j c
    using fresh that by (simp add: ids_fresh_def i)
  then have "ids_unique (cred_of P view e')"
    using ids unfolding k(3) ids_unique_def ids_ok_def by (auto simp: new_def eq_commute [of i])
  moreover have "length (cs_id c) \<noteq> 241" if "cred_of P view e' j = Some c" for j c
    using ids that crypto_okD(3) [OF C] unfolding k(3) ids_ok_def by (auto simp: new_def i split: if_splits)
  ultimately have ids': "ids_ok (cred_of P view e')" "ids_unique (cred_of P view e')"
    by (simp_all add: ids_ok_def)
  have "other_key key_store_key"
    by (simp add: other_key_def in_credential_keys min_credential_key_def storage_keys)
  then have "master_ok view e'"
    using master k(4) by (simp add: master_ok_def)
  moreover have "find_credential P (rp_id (mcp_rp params)) i e' = (Inr (Some new), e')"
    using find_credential_unique [OF k(2), of k new i] ids'(2) k(3) by (simp add: new_def)
  ultimately show ?thesis using k(2) ids'(1) by (intro exI [of _ new]) (simp add: new_def)
qed

lemma encrypted_id_found:
  assumes inv: "cred_inv P view e" and ids: "ids_ok (cred_of P view e)"
    and C: "crypto_ok (crypto_of P)" and bits: "11 \<le> usize_bits P"
    and master: "master_ok view e"
    and rk: "\<not> mco_rk (mcp_options params)"
    and key: "length (private_key_bytes key) = 32" and blob: "pred_option (\<lambda>b. length b \<le> 64) blob"
    and h: "h = sha256 (crypto_of P) (rp_id (mcp_rp params))"
    and run: "make_credential_id P params key h policy blob lbk e = (Inr i, e')"
  shows "\<exists>cr. find_credential P (rp_id (mcp_rp params)) i e' = (Inr None, e') \<and>
    decrypt_credential_id P i h e' = (Inr (Some cr), e') \<and> cs_id cr = i \<and>
    cs_private_key cr = key \<and> cs_cred_protect cr = policy \<and> cs_cred_blob cr = blob \<and>
    cred_inv P view e' \<and> ids_ok (cred_of P view e') \<and> master_ok view e'"
proof -
  let ?s = "\<lparr>ids_private_key = key, ids_rp_id_hash = h, ids_cred_protect = policy, ids_cred_blob = blob\<rparr>"
  have ok: "id_source_ok ?s"
    using key blob crypto_okD(2) [OF C] by (cases blob) (simp_all add: id_source_ok_def h)
  have enc: "encrypt_to_credential_id P ?s e = (Inr i, e')"
    using run rk by (simp add: make_credential_id_def)
  obtain v where v: "length i = 241" "holds_master P view v e'"
    "\<And>k. k \<noteq> key_store_key \<Longrightarrow> content view (store_of e') k = content view (store_of e) k"
    "decrypt_credential_id P i h e' = (Inr (Some (credential_of_id i ?s)), e')"
    using encrypt_decrypt_ok [OF C cred_invD(1) [OF inv] bits master [unfolded master_ok_def] ok] enc by auto
  have not_cred: "k \<in> set credential_keys \<Longrightarrow> k \<noteq> key_store_key" for k
    by (auto simp: in_credential_keys min_credential_key_def storage_keys)
  have m: "cred_of P view e' = cred_of P view e"
    using v(3) not_cred by (simp add: creds_def fun_eq_iff)
  have env: "env_inv P view e'" using v(2) by (simp add: holds_master_def)
  have inv': "cred_inv P view e'"
    using inv env not_cred v(3) unfolding cred_inv_def m by auto
  have "find_credential P (rp_id (mcp_rp params)) i e' = (Inr None, e')"
    by (rule find_credential_none [OF inv']) (use ids v(1) in \<open>auto simp: m ids_ok_def\<close>)
  moreover have "master_ok view e'" using v(2) by (simp add: holds_master_def master_ok_def)
  ultimately show ?thesis
    using v(4) inv' ids unfolding m by (intro exI [of _ "credential_of_id i ?s"]) (simp add: credential_of_id_def)
qed

section \<open>Registration and authentication\<close>

text \<open>The user's consent and the layout of the authenticator data; the new credential, by its ID.\<close>

definition auth_data_layout :: "'p platform \<Rightarrow> make_credential_params \<Rightarrow> bytes \<Rightarrow> bytes \<Rightarrow> cose_key \<Rightarrow> bool" where
  "auth_data_layout P params ad cred_id public_key \<longleftrightarrow>
     (\<exists>n guid ext. ad = sha256 (crypto_of P) (rp_id (mcp_rp params)) @
       [((if mcp_pin_uv_auth_param params = None then 0 else uv_flag) OR up_flag OR at_flag) OR
          (if ext = [] then 0 else ed_flag)] @
       be_bytes 4 (n :: u32) @ attested_data guid cred_id public_key @ ext)"

lemma registered_ok:
  assumes run: "process_make_credential P params channel (e, c) = (Inr r, (e', c'))"
    and bits: "11 \<le> usize_bits P" and C: "crypto_ok (crypto_of P)"
  shows "\<exists>e3 key lbk cred_id public_key. asks P view e e3 \<and> user_allows P params e (ctap_client_pin c) \<and>
    (\<exists>n\<ge>prompts e. touch P n (consent P params) channel = Inr ()) \<and>
    length (private_key_bytes key) = 32 \<and> pred_option (\<lambda>b. length b = 32) lbk \<and>
    make_credential_id P params key (sha256 (crypto_of P) (rp_id (mcp_rp params)))
      (chosen_cred_protect (custom P) (mce_cred_protect (mcp_extensions params)))
      (accepted_cred_blob (custom P) (mce_cred_blob (mcp_extensions params))) lbk e3 = (Inr cred_id, e') \<and>
    get_pub_key P key = Inr public_key \<and> auth_data_layout P params (mcr_auth_data r) cred_id public_key"
proof -
  let ?h = "sha256 (crypto_of P) (rp_id (mcp_rp params))"
  obtain a ep e1 c1 where 1: "user_allows P params e (ctap_client_pin c)"
    "\<exists>n\<ge>prompts e. touch P n (consent P params) channel = Inr ()" "asks P view e e1"
    "finish_make_credential P params a ep
      ((if mcp_pin_uv_auth_param params = None then 0 else uv_flag) OR up_flag OR at_flag) ?h (e1, c1) = (Inr r, (e', c'))"
    using make_credential_stages [OF run bits, of view] by blast
  obtain key lbk e3 cred_id n guid public_key ext flags' where 2: "same_but_draws e1 e3"
    "length (private_key_bytes key) = 32" "pred_option (\<lambda>b. length b = 32) lbk"
    "make_credential_id P params key ?h (chosen_cred_protect (custom P) (mce_cred_protect (mcp_extensions params)))
      (accepted_cred_blob (custom P) (mce_cred_blob (mcp_extensions params))) lbk e3 = (Inr cred_id, e')"
    "get_pub_key P key = Inr public_key"
    "flags' = ((if mcp_pin_uv_auth_param params = None then 0 else uv_flag) OR up_flag OR at_flag) OR
       (if ext = [] then 0 else ed_flag)"
    "mcr_auth_data r = ?h @ [flags'] @ be_bytes 4 (n :: u32) @ attested_data guid cred_id public_key @ ext"
    using finish_stages [OF 1(4) C] by (elim exE conjE) (rule that)
  have "asks P view e1 e3"
    using 2(1) by (auto simp: same_but_draws_def asks_def changes_def master_ok_def)
  then have "asks P view e e3" using 1(3) by (rule asks_trans [rotated])
  moreover have "auth_data_layout P params (mcr_auth_data r) cred_id public_key"
    unfolding auth_data_layout_def using 2(6,7) by (intro exI [of _ n] exI [of _ guid] exI [of _ ext]) simp
  ultimately show ?thesis
    using 1(1,2) 2(2-5) by blast
qed

text \<open>C3: when makeCredential succeeds, the client either presented a token that verifies for this request
  and permits it, or asked for no user verification where none is demanded; the user confirmed the
  prompt that names the relying party; and the authenticator data is the hash of the RP ID, the flags of
  what was checked, the counter, and the attested credential data with the ID and the public key.\<close>

theorem make_credential_checked:
  assumes run: "process_make_credential P params channel (e, c) = (Inr r, (e', c'))"
    and bits: "11 \<le> usize_bits P" and C: "crypto_ok (crypto_of P)"
  shows "user_allows P params e (ctap_client_pin c) \<and>
    (\<exists>n\<ge>prompts e. touch P n (consent P params) channel = Inr ()) \<and>
    (\<exists>cred_id public_key. auth_data_layout P params (mcr_auth_data r) cred_id public_key)"
  using registered_ok [OF assms] by blast

text \<open>C1: a credential that makeCredential returned, stored or encrypted into its ID, is the one that
  getAssertion with an allow list of this ID takes next: it has the private key of the public key in
  the authenticator data, and the protection policy and blob of the request. This needs of the state that
  the IDs of the stored credentials are distinct and that the random bytes drawn in this request repeat none of
  them; the state after the request is again as required, so the statement holds for any sequence of
  registrations, stored or not, that draws no ID twice.\<close>

theorem registered_credential_usable:
  assumes run: "process_make_credential P params channel (e, c) = (Inr r, (e', c'))"
    and inv: "cred_inv P view e" and ids: "ids_ok (cred_of P view e)"
    and fresh: "ids_fresh P (draws e) (draws e') (cred_of P view e)"
    and master: "master_ok view e" and C: "crypto_ok (crypto_of P)" and bits: "11 \<le> usize_bits P"
    and limits: "max_supported_resident_keys (custom P) \<le> 300" "max_cred_blob_length (custom P) \<le> 64"
    and req: "request_ok (usize_bits P) params"
  shows "\<exists>cred_id public_key cr. auth_data_layout P params (mcr_auth_data r) cred_id public_key \<and>
    (\<forall>has_uv transports. has_uv \<or> cs_cred_protect cr \<noteq> Some UserVerificationRequired \<longrightarrow>
      get_any_credential_from_allow_list P (rp_id (mcp_rp params)) (sha256 (crypto_of P) (rp_id (mcp_rp params))) has_uv
        [\<lparr>desc_type = PublicKey, desc_id = cred_id, desc_transports = transports\<rparr>] e' = (Inr (Some cr), e')) \<and>
    cs_id cr = cred_id \<and> get_pub_key P (cs_private_key cr) = Inr public_key \<and>
    cs_cred_protect cr = chosen_cred_protect (custom P) (mce_cred_protect (mcp_extensions params)) \<and>
    cs_cred_blob cr = accepted_cred_blob (custom P) (mce_cred_blob (mcp_extensions params)) \<and>
    cred_inv P view e' \<and> ids_ok (cred_of P view e') \<and> master_ok view e'"
proof -
  let ?rp = "rp_id (mcp_rp params)" and ?policy = "chosen_cred_protect (custom P) (mce_cred_protect (mcp_extensions params))"
    and ?blob = "accepted_cred_blob (custom P) (mce_cred_blob (mcp_extensions params))"
  obtain e3 key lbk cred_id public_key where 1: "asks P view e e3"
    "length (private_key_bytes key) = 32" "pred_option (\<lambda>b. length b = 32) lbk"
    "make_credential_id P params key (sha256 (crypto_of P) ?rp) ?policy ?blob lbk e3 = (Inr cred_id, e')"
    "get_pub_key P key = Inr public_key" "auth_data_layout P params (mcr_auth_data r) cred_id public_key"
    using registered_ok [OF run bits C, of view] by blast
  have env: "env_inv P view e3" and same: "\<And>k. k \<noteq> key_store_key \<Longrightarrow> content view (store_of e3) k = content view (store_of e) k"
    and master3: "master_ok view e3" and draws3: "draws e \<le> draws e3"
    using 1(1) cred_invD(1) [OF inv] C master by (auto simp: asks_def changes_def)
  have not_cred: "k \<in> set credential_keys \<Longrightarrow> k \<noteq> key_store_key" for k
    by (auto simp: in_credential_keys min_credential_key_def storage_keys)
  have m: "cred_of P view e3 = cred_of P view e"
    using same not_cred by (simp add: creds_def fun_eq_iff)
  have inv3: "cred_inv P view e3"
    using inv env not_cred same unfolding cred_inv_def m by auto
  have blob: "pred_option (\<lambda>b. length b \<le> 64) ?blob"
    using limits(2) by (auto simp: accepted_cred_blob_def split: option.split)
  have ids3: "ids_ok (cred_of P view e3)" and fresh3: "ids_fresh P (draws e3) (draws e') (cred_of P view e3)"
    using ids fresh draws3 unfolding m by (simp_all add: ids_fresh_def)
  obtain cr where cr: "cs_id cr = cred_id" "cs_private_key cr = key" "cs_cred_protect cr = ?policy" "cs_cred_blob cr = ?blob"
    "find_credential P ?rp cred_id e' = (Inr (Some cr), e') \<or>
      find_credential P ?rp cred_id e' = (Inr None, e') \<and>
      decrypt_credential_id P cred_id (sha256 (crypto_of P) ?rp) e' = (Inr (Some cr), e')"
    "cred_inv P view e'" "ids_ok (cred_of P view e')" "master_ok view e'"
  proof (cases "mco_rk (mcp_options params)")
    case True
    then show ?thesis
      using resident_id_found [OF inv3 ids3 fresh3 master3 C limits(1) bits req True 1(2) blob 1(3,4)] that
      by blast
  next
    case False
    show ?thesis
      using encrypted_id_found [OF inv3 ids3 C bits master3 False
          1(2) blob refl 1(4)] that by blast
  qed
  have "get_any_credential_from_allow_list P ?rp (sha256 (crypto_of P) ?rp) has_uv
      [\<lparr>desc_type = PublicKey, desc_id = cred_id, desc_transports = transports\<rparr>] e' = (Inr (Some cr), e')"
    if "has_uv \<or> cs_cred_protect cr \<noteq> Some UserVerificationRequired" for has_uv transports
    using cr(5) that by (auto simp: sbind_def check_cred_protect_for_listed_credential_def)
  then show ?thesis
    using 1(5,6) cr(1-4,6-8) by (intro exI [of _ cred_id] exI [of _ public_key] exI [of _ cr]) simp
qed

section \<open>Examples\<close>

lemma cose_key_storable:
  assumes "bytes_ok ub (x_bytes k)" "bytes_ok ub (y_bytes k)"
  shows "storable ub 1 (cbor_of_cose_key k)"
proof -
  let ?vs = "[from_i64 (key_type k), from_i64 (algorithm k), from_i64 (curve k), ByteString (x_bytes k), ByteString (y_bytes k)]"
  have "storable ub (Suc 0) (Map (map_options (zip cose_key_keys (map Some ?vs))))"
    by (rule storable_Map [OF sorted_key_lists(5)]) (use assms in \<open>auto simp: cose_key_keys_def\<close>)
  then show ?thesis by (simp add: cbor_of_cose_key_def cose_key_keys_def)
qed

lemma write_cbor_ok: "storable ub 4 v \<Longrightarrow> write_cbor v out = Inr (out @ enc v)"
proof -
  assume v: "storable ub 4 v"
  then have "write_nested v out max_cbor_nesting_depth = (Inr (), out @ enc v)"
    by (simp add: storable_def write_nested_def encode_ok_iff canonical_unique_keys sort_maps_canonical fits_def
        max_cbor_nesting_depth_def)
  then show ?thesis by (simp add: write_cbor_def ctap_cbor_write_def)
qed

definition toy_registration :: make_credential_params where
  "toy_registration = \<lparr>mcp_client_data_hash = replicate 32 9,
     mcp_rp = \<lparr>rp_id = utf8 ''example.com'', rp_name = None, rp_icon = None\<rparr>,
     mcp_user = \<lparr>user_id = [1], user_name = None, user_display_name = None, user_icon = None\<rparr>,
     mcp_pub_key_cred_params = [\<lparr>cred_type = PublicKey, alg = Es256\<rparr>], mcp_exclude_list = None,
     mcp_extensions = default_make_credential_extensions, mcp_options = \<lparr>mco_rk = False, mco_uv = False\<rparr>,
     mcp_pin_uv_auth_param = None, mcp_pin_uv_auth_protocol = None, mcp_enterprise_attestation = None\<rparr>"

lemma toy_registration_ok: "request_ok 32 toy_registration"
  by (simp add: request_ok_def toy_registration_def string_ok_def bytes_ok_def utf8_def utf8_valid_def)

lemma toy_registration_run:
  assumes inv: "env_inv toy_platform map_of e" and aaguid: "content map_of (store_of e) aaguid_key = Some key_material_aaguid"
    and none: "content map_of (store_of e) always_uv_key = None" "content map_of (store_of e) global_signature_counter_key = None"
      "content map_of (store_of e) key_store_key = None"
  shows "\<exists>r e' c'. process_make_credential toy_platform toy_registration [1, 2, 3, 4] (e, c) = (Inr r, (e', c'))"
proof -
  let ?key = "Ecdsa (ecdsa_random toy_crypto (draws e))"
  let ?e = "e\<lparr>prompts := Suc (prompts e), draws := Suc (draws e)\<rparr>"
  let ?h = "sha256 toy_crypto (utf8 ''example.com'')"
  let ?s = "\<lparr>ids_private_key = ?key, ids_rp_id_hash = ?h, ids_cred_protect = None, ids_cred_blob = None\<rparr>"
  have len: "length (ecdsa_random toy_crypto n) = 32" "ecdsa_valid toy_crypto (ecdsa_random toy_crypto n)" for n
    by (simp_all add: toy_crypto_def)
  have ok: "id_source_ok ?s"
    using len by (simp add: id_source_ok_def private_key_bytes_def) (simp add: toy_crypto_def)
  have inv': "env_inv toy_platform map_of ?e" using inv by simp
  obtain i v e' where i: "encrypt_to_credential_id toy_platform ?s ?e = (Inr i, e')" "length i = 241"
    "holds_master toy_platform map_of v e'"
    "\<And>k. k \<noteq> key_store_key \<Longrightarrow> content map_of (store_of e') k = content map_of (store_of ?e) k"
    using encrypt_decrypt_ok [OF _ inv' _ _ ok] toy_crypto_ok none(3) by auto
  have e': "env_inv toy_platform map_of e'" using i(3) by (simp add: holds_master_def)
  have aaguid': "aaguid toy_platform e' = (Inr key_material_aaguid, e')"
    using i(4) [of aaguid_key] aaguid
    by (simp add: aaguid_def sbind_def find_entry_ok [OF e'] storage_keys) (simp add: key_material_aaguid_def)
  have counter: "global_signature_counter toy_platform e' = (Inr 1, e')"
    using i(4) [of global_signature_counter_key] none(2)
    by (simp add: global_signature_counter_ok [OF e'] storage_keys)
  have "storable 32 4 (cbor_of_cose_key (cose_key_of_ecdsa (ecdsa_public toy_crypto (ecdsa_random toy_crypto n))))" for n
    using cose_key_storable [of 32 "cose_key_of_ecdsa (ecdsa_public toy_crypto (ecdsa_random toy_crypto n))"]
    by (simp add: storable_def cose_key_of_ecdsa_def bytes_ok_def toy_crypto_def)
  note w = write_cbor_ok [OF this]
  have key: "get_pub_key toy_platform ?key = Inr (cose_key_of_ecdsa (ecdsa_public toy_crypto (ecdsa_random toy_crypto (draws e))))"
    using len by (simp add: get_pub_key_def ecdsa_key_from_seed_def derive_ecdsa_def)
  have sig: "sign_and_encode toy_platform ?key m = Inr (signature_of toy_platform ?key m)" for m
    using len by (intro sign_ok) (simp add: key_usable_def)
  have uv: "has_always_uv toy_platform e = (Inr False, e)"
    using none(1) by (simp add: has_always_uv_def flag_entry_ok [OF inv] default_customization_def)
  show ?thesis
    using i(1,2) aaguid' counter w key sig uv
    by (simp add: process_make_credential_def toy_registration_def sbind_def pin_uv_auth_precheck_def env_call_def
        result_call_def pin_call_def get_preferred_cred_param_def supported_cred_params_def enterprise_requested_def
        make_credential_flags_def on_env_def on_pin_def or_default_def check_user_presence_def
        finish_make_credential_def default_make_credential_extensions_def reads_min_pin_length_def new_large_blob_key_def
        new_key_def new_private_key_def generate_ecdsa_seed_def make_credential_id_def chosen_cred_protect_def
        accepted_cred_blob_def default_customization_def make_credential_auth_data_def
        generate_auth_data_def attest_def Let_def)
qed

text \<open>A registration that stores its credential.\<close>

definition toy_resident :: "u8 \<Rightarrow> make_credential_params" where
  "toy_resident u = toy_registration\<lparr>mcp_user := \<lparr>user_id = [u], user_name = None, user_display_name = None,
     user_icon = None\<rparr>, mcp_options := \<lparr>mco_rk = True, mco_uv = False\<rparr>\<rparr>"

lemma toy_resident_ok: "request_ok 32 (toy_resident u)"
  by (simp add: request_ok_def toy_resident_def toy_registration_def string_ok_def bytes_ok_def utf8_def utf8_valid_def)

definition toy_settings :: "(string \<times> bytes) list env \<Rightarrow> bool" where
  "toy_settings e \<longleftrightarrow> content map_of (store_of e) aaguid_key = Some key_material_aaguid \<and>
     (\<forall>j\<in>{always_uv_key, global_signature_counter_key, pin_properties_key}. content map_of (store_of e) j = None)"

lemma other_settings: "j \<in> {aaguid_key, always_uv_key, global_signature_counter_key, pin_properties_key} \<Longrightarrow> other_key j"
  by (auto simp: other_key_def in_credential_keys min_credential_key_def storage_keys)

lemma toy_reading:
  assumes inv: "env_inv toy_platform map_of e" and s: "toy_settings e"
  shows "aaguid toy_platform e = (Inr key_material_aaguid, e)" "has_always_uv toy_platform e = (Inr False, e)"
    "global_signature_counter toy_platform e = (Inr 1, e)" "pin_hash toy_platform e = (Inr None, e)"
  using s by (simp_all add: toy_settings_def aaguid_def has_always_uv_def pin_hash_def pin_properties_def sbind_def
      find_entry_ok [OF inv] flag_entry_ok [OF inv] global_signature_counter_ok [OF inv] default_customization_def)
    (simp add: key_material_aaguid_def)

lemma toy_store:
  assumes inv: "cred_inv toy_platform map_of e" and ok: "source_ok 32 new"
    and slot: "slot 150 (cred_of toy_platform map_of e) new \<noteq> None"
  shows "\<exists>e' k. store_credential toy_platform new e = (Inr (), e') \<and> draws e' = draws e \<and>
    cred_inv toy_platform map_of e' \<and> cred_of toy_platform map_of e' = (cred_of toy_platform map_of e)(k \<mapsto> new) \<and>
    (\<forall>j. other_key j \<longrightarrow> content map_of (store_of e') j = content map_of (store_of e) j)"
proof -
  obtain e' k where e': "store_credential toy_platform new e = (Inr (), e')"
    "cred_inv toy_platform map_of e'" "cred_of toy_platform map_of e' = (cred_of toy_platform map_of e)(k \<mapsto> new)"
    "\<forall>j. other_key j \<longrightarrow> content map_of (store_of e') j = content map_of (store_of e) j"
    using store_credential_ok [OF inv, of new] ok slot by (fastforce simp: default_customization_def)
  moreover have "draws e' = draws e" using withinD [OF draws_store_credential e'(1)] by simp
  ultimately show ?thesis by blast
qed

lemma toy_resident_run:
  assumes inv: "cred_inv toy_platform map_of e" and s: "toy_settings e"
    and slot: "\<And>new. slot 150 (cred_of toy_platform map_of e) new \<noteq> None"
  shows "\<exists>r e' c' k cr. process_make_credential toy_platform (toy_resident u) [1, 2, 3, 4] (e, c) = (Inr r, (e', c')) \<and>
    draws e' = draws e + 2 \<and> cs_id cr = replicate 32 (of_nat (draws e + 1)) \<and> toy_settings e' \<and>
    cred_of toy_platform map_of e' = (cred_of toy_platform map_of e)(k \<mapsto> cr)"
proof -
  let ?key = "Ecdsa (ecdsa_random toy_crypto (draws e))" and ?i = "random_u8x32 toy_crypto (Suc (draws e))"
  let ?e = "e\<lparr>prompts := Suc (prompts e), draws := Suc (Suc (draws e))\<rparr>"
  have env: "env_inv toy_platform map_of e" by (rule cred_invD(1) [OF inv])
  have inv': "cred_inv toy_platform map_of ?e" using inv by (simp add: cred_inv_def)
  obtain order where order: "new_creation_order toy_platform ?e = (Inr order, ?e)"
    using iter_credentials_ok [OF inv'] by (auto simp: new_creation_order_def sbind_def Let_def)
  define new where "new = \<lparr>cs_type = PublicKey, cs_id = ?i, cs_private_key = ?key,
      cs_rp_id = utf8 ''example.com'', cs_user_handle = [u], cs_user_display_name = None, cs_cred_protect = None,
      cs_creation_order = order, cs_user_name = None, cs_user_icon = None, cs_cred_blob = None, cs_large_blob_key = None\<rparr>"
  have "source_ok 32 new"
    by (simp add: source_ok_def new_def bytes_ok_def string_ok_def private_key_bytes_def utf8_def utf8_valid_def
        toy_crypto_def)
  then obtain e' k where e': "store_credential toy_platform new ?e = (Inr (), e')" "draws e' = Suc (Suc (draws e))"
    "cred_inv toy_platform map_of e'" "cred_of toy_platform map_of e' = (cred_of toy_platform map_of e)(k \<mapsto> new)"
    "\<forall>j. other_key j \<longrightarrow> content map_of (store_of e') j = content map_of (store_of e) j"
    using toy_store [OF inv', of new] slot by auto
  have s': "toy_settings e'"
    using s e'(5) other_settings unfolding toy_settings_def by simp
  note read = toy_reading [OF env s] and read' = toy_reading [OF cred_invD(1) [OF e'(3)] s']
  have len: "length (ecdsa_random toy_crypto n) = 32" "ecdsa_valid toy_crypto (ecdsa_random toy_crypto n)"
    "length (random_u8x32 toy_crypto n) = 32" for n
    by (simp_all add: toy_crypto_def)
  have "storable 32 4 (cbor_of_cose_key (cose_key_of_ecdsa (ecdsa_public toy_crypto (ecdsa_random toy_crypto n))))" for n
    using cose_key_storable [of 32 "cose_key_of_ecdsa (ecdsa_public toy_crypto (ecdsa_random toy_crypto n))"]
    by (simp add: storable_def cose_key_of_ecdsa_def bytes_ok_def toy_crypto_def)
  note w = write_cbor_ok [OF this]
  have key: "get_pub_key toy_platform ?key = Inr (cose_key_of_ecdsa (ecdsa_public toy_crypto (ecdsa_random toy_crypto (draws e))))"
    using len by (simp add: get_pub_key_def ecdsa_key_from_seed_def derive_ecdsa_def)
  have sig: "sign_and_encode toy_platform ?key m = Inr (signature_of toy_platform ?key m)" for m
    using len by (intro sign_ok) (simp add: key_usable_def)
  have "make_credential_id toy_platform (toy_resident u) ?key h None None None
      (e\<lparr>prompts := Suc (prompts e), draws := Suc (draws e)\<rparr>) = (Inr ?i, e')" for h
    using order e'(1) by (simp add: make_credential_id_def toy_resident_def toy_registration_def random_bytes_def
        gen_uniform_u8x32_def sbind_def cropped_def new_def)
  then have "\<exists>r c'. process_make_credential toy_platform (toy_resident u) [1, 2, 3, 4] (e, c) = (Inr r, (e', c'))"
    using read read' w key sig len
    by (simp add: process_make_credential_def toy_resident_def toy_registration_def sbind_def pin_uv_auth_precheck_def
        env_call_def result_call_def pin_call_def get_preferred_cred_param_def supported_cred_params_def
        enterprise_requested_def make_credential_flags_def on_env_def on_pin_def or_default_def check_user_presence_def
        finish_make_credential_def default_make_credential_extensions_def reads_min_pin_length_def new_large_blob_key_def
        new_key_def new_private_key_def generate_ecdsa_seed_def chosen_cred_protect_def
        accepted_cred_blob_def default_customization_def make_credential_auth_data_def
        generate_auth_data_def attest_def Let_def)
  moreover have "cs_id new = replicate 32 (of_nat (draws e + 1))" by (simp add: new_def toy_crypto_def)
  ultimately show ?thesis using e'(2,4) s' by fastforce
qed

text \<open>The toy device after power-up.\<close>

lemma toy_powered:
  "\<exists>e :: (string \<times> bytes) list env. cred_inv toy_platform map_of e \<and> cred_of toy_platform map_of e = Map.empty \<and>
     master_ok map_of e \<and> toy_settings e \<and> (\<forall>c. \<exists>r e' c'.
       process_make_credential toy_platform toy_registration [1, 2, 3, 4] (e, c) = (Inr r, (e', c')))"
proof -
  have inv: "env_inv toy_platform map_of (toy_env [])" using toy_env_inv by simp
  obtain c e secret where e: "env_inv toy_platform map_of e"
    "content map_of (store_of e) = init_content secret (content map_of (store_of (toy_env [])))"
    using power_up_ok [OF inv, of 0] by auto
  have m: "content map_of (store_of e) = [cred_random_secret_key \<mapsto> secret, aaguid_key \<mapsto> key_material_aaguid]"
    unfolding e(2) toy_env_content by (simp add: init_content_def Let_def storage_keys)
  have creds: "content map_of (store_of e) k = None" if "k \<in> set credential_keys" for k
    using that unfolding m by (auto simp: in_credential_keys min_credential_key_def storage_keys)
  then have empty: "cred_of toy_platform map_of e = Map.empty"
    by (simp add: creds_def fun_eq_iff)
  then have "cred_inv toy_platform map_of e"
    using e(1) creds unfolding cred_inv_def by simp
  moreover have "master_ok map_of e"
    unfolding master_ok_def m by (simp add: storage_keys)
  moreover have "toy_settings e"
    unfolding toy_settings_def m by (simp add: storage_keys)
  moreover have "\<exists>r e' c'. process_make_credential toy_platform toy_registration [1, 2, 3, 4] (e, c) = (Inr r, (e', c'))" for c
    by (rule toy_registration_run [OF e(1)]) (simp_all add: m storage_keys)
  ultimately show ?thesis using empty by blast
qed

lemma make_credential_checked_witness:
  "\<exists>(e :: (string \<times> bytes) list env) r s'. process_make_credential toy_platform toy_registration [1, 2, 3, 4]
      (e, fst (new_ctap_state toy_platform 0 e)) = (Inr r, s') \<and>
    user_allows toy_platform toy_registration e (ctap_client_pin (fst (new_ctap_state toy_platform 0 e))) \<and>
    (\<exists>cred_id public_key. auth_data_layout toy_platform toy_registration (mcr_auth_data r) cred_id public_key)"
proof -
  obtain e :: "(string \<times> bytes) list env" and r e' c' where run:
    "process_make_credential toy_platform toy_registration [1, 2, 3, 4] (e, fst (new_ctap_state toy_platform 0 e)) =
      (Inr r, (e', c'))"
    using toy_powered by blast
  have "crypto_ok (crypto_of toy_platform)" using toy_crypto_ok by simp
  from make_credential_checked [OF run _ this] show ?thesis using run by auto
qed

text \<open>Two stored registrations in a row: the second finds a state with the drawn ID of the first.\<close>

lemma registered_credential_usable_witness:
  "\<exists>(e :: (string \<times> bytes) list env) c r e1 c1 r2 e2 c2 cred_id cr.
     process_make_credential toy_platform (toy_resident 1) [1, 2, 3, 4] (e, c) = (Inr r, (e1, c1)) \<and>
     cred_of toy_platform map_of e1 \<noteq> Map.empty \<and>
     process_make_credential toy_platform (toy_resident 2) [1, 2, 3, 4] (e1, c1) = (Inr r2, (e2, c2)) \<and>
     cs_id cr = cred_id \<and>
     get_any_credential_from_allow_list toy_platform (utf8 ''example.com'') (sha256 toy_crypto (utf8 ''example.com'')) True
       [\<lparr>desc_type = PublicKey, desc_id = cred_id, desc_transports = None\<rparr>] e2 = (Inr (Some cr), e2)"
proof -
  have C: "crypto_ok (crypto_of toy_platform)" using toy_crypto_ok by simp
  have req: "request_ok (usize_bits toy_platform) (toy_resident u)" for u using toy_resident_ok by simp
  have limits: "max_supported_resident_keys (custom toy_platform) \<le> 300" "max_cred_blob_length (custom toy_platform) \<le> 64"
    by (simp_all add: default_customization_def)
  have bits: "11 \<le> usize_bits toy_platform" by simp
  obtain e :: "(string \<times> bytes) list env" where e: "cred_inv toy_platform map_of e"
    "cred_of toy_platform map_of e = Map.empty" "master_ok map_of e" "toy_settings e"
    using toy_powered by blast
  have ids: "ids_ok (cred_of toy_platform map_of e)"
    unfolding e(2) by (simp add: ids_ok_def ids_unique_def)
  have fresh: "ids_fresh toy_platform d d' (cred_of toy_platform map_of e)" for d d'
    unfolding e(2) by (simp add: ids_fresh_def)
  have "slot 150 (cred_of toy_platform map_of e) new \<noteq> None" for new
    unfolding e(2) by (simp add: slot_empty)
  from toy_resident_run [OF e(1,4) this, of 1 undefined] obtain r e1 c1 k cr1 where run1:
    "process_make_credential toy_platform (toy_resident 1) [1, 2, 3, 4] (e, undefined) = (Inr r, (e1, c1))"
    and e1: "draws e1 = draws e + 2" "cs_id cr1 = replicate 32 (of_nat (draws e + 1))" "toy_settings e1"
      "cred_of toy_platform map_of e1 = [k \<mapsto> cr1]"
    unfolding e(2) by blast
  have inv1: "cred_inv toy_platform map_of e1" "ids_ok (cred_of toy_platform map_of e1)" "master_ok map_of e1"
    using registered_credential_usable [OF run1 e(1) ids fresh e(3) C bits limits req] by blast+
  have "slot 150 (cred_of toy_platform map_of e1) new \<noteq> None" for new
  proof -
    have "(1700 :: nat) \<in> set (take 150 credential_keys)" "(1701 :: nat) \<in> set (take 150 credential_keys)"
      by (simp_all add: in_take_keys min_credential_key_def)
    then obtain k' where "k' \<in> set (take 150 credential_keys)" "k' \<noteq> k" by (cases "k = 1700") auto
    then show ?thesis using slot_free [of k' 150 "[k \<mapsto> cr1]"] unfolding e1(4) by fastforce
  qed
  from toy_resident_run [OF inv1(1) e1(3) this, of 2 c1] obtain r2 e2 c2 where run2:
    "process_make_credential toy_platform (toy_resident 2) [1, 2, 3, 4] (e1, c1) = (Inr r2, (e2, c2))"
    and e2: "draws e2 = draws e1 + 2"
    by blast
  have fresh1: "ids_fresh toy_platform (draws e1) (draws e2) (cred_of toy_platform map_of e1)"
  proof -
    have "cs_id cr1 \<noteq> random_u8x32 (crypto_of toy_platform) n" if n: "draws e1 \<le> n" "n < draws e2" for n
    proof -
      have "n = Suc (draws e + 1) \<or> n = Suc (Suc (draws e + 1))" using n e1(1) e2 by linarith
      then have "(of_nat (draws e + 1) :: u8) \<noteq> of_nat n" by auto
      then show ?thesis unfolding e1(2) by (simp add: toy_crypto_def)
    qed
    then show ?thesis unfolding ids_fresh_def e1(4) by (auto split: if_splits)
  qed
  have rp: "rp_id (mcp_rp (toy_resident 2)) = utf8 ''example.com''" by (simp add: toy_resident_def toy_registration_def)
  from registered_credential_usable [OF run2 inv1(1,2) fresh1 inv1(3) C bits limits req] obtain cred_id cr where
    found: "\<forall>has_uv transports. has_uv \<or> cs_cred_protect cr \<noteq> Some UserVerificationRequired \<longrightarrow>
      get_any_credential_from_allow_list toy_platform (rp_id (mcp_rp (toy_resident 2)))
        (sha256 (crypto_of toy_platform) (rp_id (mcp_rp (toy_resident 2)))) has_uv
        [\<lparr>desc_type = PublicKey, desc_id = cred_id, desc_transports = transports\<rparr>] e2 = (Inr (Some cr), e2)"
    and i: "cs_id cr = cred_id" by (elim exE conjE) (rule that)
  have "get_any_credential_from_allow_list toy_platform (utf8 ''example.com'')
      (sha256 toy_crypto (utf8 ''example.com'')) True
      [\<lparr>desc_type = PublicKey, desc_id = cred_id, desc_transports = None\<rparr>] e2 = (Inr (Some cr), e2)"
    using found unfolding rp toy_platform_simps by (elim allE [of _ True] allE [of _ None]) (erule mp, rule disjI1, rule TrueI)
  moreover have "cred_of toy_platform map_of e1 \<noteq> Map.empty" unfolding e1(4) by simp
  ultimately show ?thesis using run1 run2 i by blast
qed

end
