(* ===== verification/U2f_Props.thy ===== *)
theory U2f_Props
  imports Ctap1 Assertion_Props Presence_Props
begin

text \<open>
  CTAP1: what a registration and a signature need, and that the key handle of a registration signs for
  its application with the key it was registered with.
\<close>

section \<open>Runs of the handlers\<close>

lemma or_word_InrD: "or_word x f e = (Inr r, e') \<Longrightarrow> f e = (Inr r, e')"
  by (cases "f e"; cases "fst (f e)") (auto simp: or_word_def)

lemma or_word_ok: "f e = (Inr r, e') \<Longrightarrow> or_word x f e = (Inr r, e')"
  by (simp add: or_word_def)

lemma or_word_err: "f e = (Inl y, e') \<Longrightarrow> or_word x f e = (Inl (Word x), e')"
  by (simp add: or_word_def)

lemma u2f_attestation_run: "u2f_attestation P e = (r, e') \<Longrightarrow> e' = e"
  by (auto simp: u2f_attestation_def attestation_get_def helper_get_def Let_def split: prod.splits)

lemma consume_approval_InrD:
  "consume_approval P text application e = (Inr x, e') \<Longrightarrow>
     approve_ctap1 P (prompts e) (locale_text P text) application \<and> e' = e\<lparr>prompts := Suc (prompts e)\<rparr>"
  by (auto simp: consume_approval_def split: if_splits)

text \<open>A successful registration: a fresh key, its encryption into the key handle, and the response.\<close>

lemma process_register_InrD:
  assumes "process_register P challenge application e = (Inr r, e')" and C: "crypto_ok (crypto_of P)"
  obtains seed kh a where "seed = ecdsa_random (crypto_of P) (draws e)"
    "encrypt_to_credential_id P \<lparr>ids_private_key = Ecdsa seed, ids_rp_id_hash = application, ids_cred_protect = None,
       ids_cred_blob = None\<rparr> (e\<lparr>draws := Suc (draws e)\<rparr>) = (Inr kh, e')"
    "r = 0x05 # uncompressed (ecdsa_public (crypto_of P) seed) @ [of_nat (length kh)] @ kh @ att_certificate (a :: attestation) @
       ecdsa_sign (crypto_of P) (att_private_key a)
         (register_data application challenge kh (uncompressed (ecdsa_public (crypto_of P) seed)))"
proof -
  let ?seed = "ecdsa_random (crypto_of P) (draws e)" and ?e = "e\<lparr>draws := Suc (draws e)\<rparr>"
  have key: "u2f_new_ecdsa P e = (Inr (Ecdsa ?seed), ?e)"
    by (simp add: u2f_new_ecdsa_def new_private_key_def generate_ecdsa_seed_def)
  have sk: "ecdsa_key P (Ecdsa ?seed) = Inr ?seed"
    using crypto_okD(7) [OF C, of "draws e"] by (simp add: ecdsa_key_def ecdsa_key_from_seed_def derive_ecdsa_def)
  let ?s = "\<lparr>ids_private_key = Ecdsa ?seed, ids_rp_id_hash = application, ids_cred_protect = None, ids_cred_blob = None\<rparr>"
  obtain kh e1 where kh: "encrypt_to_credential_id P ?s ?e = (Inr kh, e1)"
    and rest: "(if length kh > 0xFF then sfail (Word SwInternalException) else
        sbind (u2f_attestation P) (\<lambda>a.
          if \<not> ecdsa_valid (crypto_of P) (att_private_key a) then sfail U2fPanic
          else sret (legacy_byte # uncompressed (ecdsa_public (crypto_of P) ?seed) @ [of_nat (length kh)] @ kh @
            att_certificate a @ ecdsa_sign (crypto_of P) (att_private_key a)
              (register_data application challenge kh (uncompressed (ecdsa_public (crypto_of P) ?seed)))))) e1 =
        (Inr r, e')"
    using assms(1) unfolding process_register_def Let_def
    by (auto simp: sbind_Inr_iff key or_word_ok sk dest!: or_word_InrD)
  from rest obtain a where "u2f_attestation P e1 = (Inr a, e')"
    and r: "r = legacy_byte # uncompressed (ecdsa_public (crypto_of P) ?seed) @ [of_nat (length kh)] @ kh @
      att_certificate a @ ecdsa_sign (crypto_of P) (att_private_key a)
        (register_data application challenge kh (uncompressed (ecdsa_public (crypto_of P) ?seed)))"
    by (auto simp: sbind_Inr_iff split: if_splits)
  moreover from this(1) have "e' = e1" by (rule u2f_attestation_run)
  ultimately show ?thesis using that [of ?seed kh a] kh by (simp add: legacy_byte_def)
qed

section \<open>Consent\<close>

text \<open>After the prompt, a handler asks the user nothing more.\<close>

definition quiet :: "'p env \<Rightarrow> 'p env \<Rightarrow> bool" where
  "quiet e e' \<longleftrightarrow> prompts e' = prompts e"

interpretation quietly: effect_bound quiet
  by unfold_locales (simp_all add: quiet_def)

lemma quiet_store: "within quiet (with_store f)" "within quiet (insert_entry P k v)"
  by (simp_all add: within_def quiet_def with_store_def insert_entry_def split: prod.split)

lemma quiet_lifts:
  "within quiet f \<Longrightarrow> within quiet (or_word x f)" "within quiet g \<Longrightarrow> within quiet (from_key_store g)"
  by (auto simp: within_def or_word_def from_key_store_def split: prod.split) (metis snd_conv)+

lemma quiet_master_keys: "within quiet (key_handle_encryption P)" "within quiet (key_handle_authentication P)"
proof -
  have "within quiet (get_master_keys P)"
    by (auto simp: within_def quiet_def get_master_keys_def Let_def split: sum.split option.split prod.split)
  then show "within quiet (key_handle_encryption P)" "within quiet (key_handle_authentication P)"
    by (auto simp: key_handle_encryption_def key_handle_authentication_def intro!: quietly.bind quietly.ret)
qed

lemma quiet_draws: "within quiet (\<lambda>e. let (r, n) = f (draws e) in (r, e\<lparr>draws := n\<rparr>))"
  by (simp add: within_def quiet_def split: prod.split)

lemmas quiet_rules = quietly.ret quietly.bind quiet_store quiet_lifts quiet_master_keys quiet_draws

lemma quiet_credential_id: "within quiet (encrypt_to_credential_id P s)" "within quiet (decrypt_credential_id P i h)"
  unfolding encrypt_to_credential_id_def decrypt_credential_id_def decrypt_legacy_credential_id_def
    decrypt_cbor_credential_id_def Let_def
  by (auto intro!: quiet_rules quiet_draws [unfolded Let_def])

lemma quiet_counter: "within quiet (increment_global_signature_counter P)" "within quiet (generate_auth_data P h b)"
proof -
  have "within quiet (incr_global_signature_counter P n)" for n
    unfolding incr_global_signature_counter_def
    by (auto intro!: quiet_rules quietly.reader [OF reads_values(2)])
  then have "prompts (snd (incr_global_signature_counter P n e)) = prompts e" for n e
    by (simp add: within_def quiet_def)
  then show "within quiet (increment_global_signature_counter P)"
    by (simp add: increment_global_signature_counter_def within_def quiet_def split: prod.split)
  show "within quiet (generate_auth_data P h b)"
    unfolding generate_auth_data_def by (auto intro!: quiet_rules quietly.reader [OF reads_values(2)])
qed

lemma quiet_register: "within quiet (process_register P challenge application)"
proof -
  have "within quiet (u2f_new_ecdsa P)"
    by (simp add: within_def quiet_def u2f_new_ecdsa_def new_private_key_def generate_ecdsa_seed_def)
  moreover have "within quiet (u2f_attestation P)"
    by (rule quietly.reader) (metis u2f_attestation_run prod.collapse withinI)
  ultimately show ?thesis
    unfolding process_register_def Let_def by (auto intro!: quiet_rules quiet_credential_id)
qed

lemma quiet_authenticate: "within quiet (process_authenticate P challenge application key_handle flags)"
  unfolding process_authenticate_def
  by (auto intro!: quiet_rules quiet_credential_id quiet_counter split: option.split)

text \<open>C7: CTAP1 registers a key, or signs with a request that enforces user presence, only when the
  authenticator does not always verify the user and the user approves this very application at the prompt
  of this very request: it asks exactly once, so that no later request finds the same approval. Checks
  are never answered with success, and a request that does not enforce presence asks nothing.\<close>

theorem u2f_needs_approval:
  assumes "process_ctap1_command P m e = (Inr r, e')"
  shows "fst (has_always_uv P e) = Inr False \<and>
    (case u2f_command_of_message m of
       Inr (U2fRegister challenge application) \<Rightarrow>
         approve_ctap1 P (prompts e) (locale_text P ''vault.u2f.register'') application \<and> prompts e' = Suc (prompts e)
     | Inr (U2fAuthenticate challenge application key_handle flags) \<Rightarrow>
         flags \<noteq> CheckOnly \<and>
         (if flags = EnforceUpAndSign
          then approve_ctap1 P (prompts e) (locale_text P ''vault.u2f.authenticate'') application \<and>
            prompts e' = Suc (prompts e)
          else prompts e' = prompts e)
     | Inr U2fVersion \<Rightarrow> r = utf8 ''U2F_V2'' \<and> e' = e
     | _ \<Rightarrow> False)"
proof -
  obtain e1 where uv: "has_always_uv P e = (Inr False, e1)"
    and run: "sbind (slift (\<lambda>_. map_sum Word id (u2f_command_of_message m))) (process_u2f_command P) e1 = (Inr r, e')"
    using assms by (auto simp: process_ctap1_command_def allows_ctap1_def sbind_Inr_iff split: if_splits dest!: or_word_InrD)
  have e1: "e1 = e" using uv reads_flags(4) by (metis withinD)
  from run obtain cm where cm: "u2f_command_of_message m = Inr cm" and do: "process_u2f_command P cm e = (Inr r, e')"
    by (cases "u2f_command_of_message m") (auto simp: sbind_def e1)
  have check: "flags \<noteq> CheckOnly" and auth: "prompts s' = prompts s"
    if "process_authenticate P ch app kh flags s = (Inr r, s')" for ch app kh flags s s'
    using that withinD [OF quiet_authenticate that]
    by (auto simp: process_authenticate_def sbind_Inr_iff quiet_def split: option.splits if_splits)
  have reg: "prompts s' = prompts s" if "process_register P ch app s = (Inr r, s')" for ch app s s'
    using withinD [OF quiet_register that] by (simp add: quiet_def)
  have always: "fst (has_always_uv P e) = Inr False" using uv by simp
  show ?thesis unfolding always
    using do by (cases cm) (auto simp: cm process_u2f_command_def sbind_Inr_iff split: if_splits
        dest!: consume_approval_InrD dest: check auth reg)
qed


section \<open>Signatures of registered keys\<close>

text \<open>What the relying party receives from a registration.\<close>

definition registration_response :: "'p platform \<Rightarrow> bytes \<Rightarrow> bytes \<Rightarrow> bytes \<Rightarrow> bytes \<Rightarrow> bytes \<Rightarrow> bool" where
  "registration_response P challenge application r kh sk \<longleftrightarrow>
     (\<exists>certificate att_sk. r = 0x05 # uncompressed (ecdsa_public (crypto_of P) sk) @ [of_nat (length kh)] @ kh @
        certificate @ ecdsa_sign (crypto_of P) att_sk
          (register_data application challenge kh (uncompressed (ecdsa_public (crypto_of P) sk))))"

lemma authenticate_ok:
  assumes dec: "decrypt_credential_id P kh application e = (Inr (Some cr), e)"
    and sk: "ecdsa_key P (cs_private_key cr) = Inr sk" and flags: "flags \<noteq> CheckOnly"
    and inv: "env_inv P view e" and n: "global_signature_counter P e = (Inr n, e)" and bits: "11 \<le> usize_bits P"
  shows "\<exists>d e''. process_authenticate P challenge application kh flags e =
    (Inr (0x01 # be_bytes 4 (n + d) @ ecdsa_sign (crypto_of P) sk (application @ 0x01 # be_bytes 4 (n + d) @ challenge)), e'') \<and>
    global_signature_counter P e'' = (Inr (n + d), e'') \<and>
    (if use_signature_counter (custom P) then 1 \<le> d \<and> d \<le> 8 else d = 0)"
proof -
  obtain e'' d where e'': "increment_global_signature_counter P e = (Inr (), e'')"
    "global_signature_counter P e'' = (Inr (n + d), e'')"
    "if use_signature_counter (custom P) then 1 \<le> d \<and> d \<le> 8 else d = 0"
    using increment_counter_ok [OF inv n bits] by blast
  then show ?thesis
    using flags by (intro exI [of _ d] exI [of _ e''])
      (simp add: process_authenticate_def or_word_def dec sk e''(1,2) sbind_def generate_auth_data_def
        user_presence_indicator_byte_def)
qed

lemma authenticate_check:
  assumes "decrypt_credential_id P kh application e = (Inr (Some cr), e)" "ecdsa_key P (cs_private_key cr) = Inr sk"
  shows "process_authenticate P challenge application kh CheckOnly e = (Inl (Word SwCondUseNotSatisfied), e)"
  by (simp add: process_authenticate_def or_word_def assms)

lemma authenticate_unknown:
  "decrypt_credential_id P kh application e = (Inr None, e) \<Longrightarrow>
     process_authenticate P challenge application kh flags e = (Inl (Word SwWrongData), e)"
  by (simp add: process_authenticate_def or_word_ok)

text \<open>C6: after a registration, the key handle in the response is known for the application and for no
  other: a check says so, and a signature request with any challenge is answered with a signature of
  the registered key over the application, the presence byte, the new counter and the challenge.\<close>

theorem u2f_key_handle_works:
  assumes run: "process_register P challenge application e = (Inr r, e')" and C: "crypto_ok (crypto_of P)"
    and inv: "env_inv P view e" and master: "master_ok view e" and bits: "11 \<le> usize_bits P"
    and app: "length application = 32" and n: "global_signature_counter P e' = (Inr n, e')"
  shows "\<exists>kh sk. length kh = 241 \<and> registration_response P challenge application r kh sk \<and>
    (\<forall>ch. process_authenticate P ch application kh CheckOnly e' = (Inl (Word SwCondUseNotSatisfied), e')) \<and>
    (\<forall>ch flags app'. app' \<noteq> application \<longrightarrow>
      process_authenticate P ch app' kh flags e' = (Inl (Word SwWrongData), e')) \<and>
    (\<forall>ch flags. flags \<noteq> CheckOnly \<longrightarrow> (\<exists>d e''. process_authenticate P ch application kh flags e' =
      (Inr (0x01 # be_bytes 4 (n + d) @ ecdsa_sign (crypto_of P) sk (application @ 0x01 # be_bytes 4 (n + d) @ ch)), e'') \<and>
      (if use_signature_counter (custom P) then 1 \<le> d \<and> d \<le> 8 else d = 0)))"
proof -
  obtain seed kh a where reg: "seed = ecdsa_random (crypto_of P) (draws e)"
    "encrypt_to_credential_id P \<lparr>ids_private_key = Ecdsa seed, ids_rp_id_hash = application, ids_cred_protect = None,
       ids_cred_blob = None\<rparr> (e\<lparr>draws := Suc (draws e)\<rparr>) = (Inr kh, e')"
    "r = 0x05 # uncompressed (ecdsa_public (crypto_of P) seed) @ [of_nat (length kh)] @ kh @ att_certificate (a :: attestation) @
       ecdsa_sign (crypto_of P) (att_private_key a)
         (register_data application challenge kh (uncompressed (ecdsa_public (crypto_of P) seed)))"
    using process_register_InrD [OF run C] .
  let ?s = "\<lparr>ids_private_key = Ecdsa seed, ids_rp_id_hash = application, ids_cred_protect = None, ids_cred_blob = None\<rparr>"
  let ?e = "e\<lparr>draws := Suc (draws e)\<rparr>"
  have seed: "length seed = 32" "ecdsa_valid (crypto_of P) seed" using crypto_okD(6,7) [OF C] reg(1) by simp_all
  have ok: "id_source_ok ?s" using seed app by (simp add: id_source_ok_def private_key_bytes_def)
  have inv1: "env_inv P view ?e" and key: "case content view (store_of ?e) key_store_key of None \<Rightarrow> True | Some v \<Rightarrow> length v = 64"
    using inv master by (simp_all add: master_ok_def)
  obtain v where v: "length kh = 241" "holds_master P view v e'" and dec: "\<And>h. decrypt_credential_id P kh h e' =
      (Inr (if h = application then Some (credential_of_id kh ?s) else None), e')"
    using encrypt_decrypt_ok [OF C inv1 bits key ok] reg(2) by auto
  have inv': "env_inv P view e'" using v(2) by (simp add: holds_master_def)
  have own: "decrypt_credential_id P kh application e' = (Inr (Some (credential_of_id kh ?s)), e')"
    by (simp add: dec)
  have sk: "ecdsa_key P (cs_private_key (credential_of_id kh ?s)) = Inr seed"
    using seed(2) by (simp add: credential_of_id_def ecdsa_key_def ecdsa_key_from_seed_def derive_ecdsa_def)
  have "registration_response P challenge application r kh seed"
    using reg(3) unfolding registration_response_def by blast
  moreover have "process_authenticate P ch app' kh flags e' = (Inl (Word SwWrongData), e')" if "app' \<noteq> application" for ch flags app'
    using that by (intro authenticate_unknown) (simp add: dec)
  moreover have "\<exists>d e''. process_authenticate P ch application kh flags e' =
      (Inr (0x01 # be_bytes 4 (n + d) @ ecdsa_sign (crypto_of P) seed (application @ 0x01 # be_bytes 4 (n + d) @ ch)), e'') \<and>
      (if use_signature_counter (custom P) then 1 \<le> d \<and> d \<le> 8 else d = 0)" if "flags \<noteq> CheckOnly" for ch flags
    using authenticate_ok [OF own sk that inv' n bits, of ch] by blast
  ultimately show ?thesis
    using v(1) authenticate_check [OF own sk] by (intro exI [of _ kh] exI [of _ seed]) simp
qed


section \<open>Examples\<close>

text \<open>A toy device with an attestation key registers a key.\<close>

lemma toy_register_run:
  assumes inv: "env_inv toy_platform map_of e" and none: "content map_of (store_of e) key_store_key = None"
    and att: "content map_of (store_of e) 1 = Some (replicate 32 7)" "content map_of (store_of e) 2 = Some [1, 2]"
  shows "\<exists>r e'. process_register toy_platform ch (replicate 32 8) e = (Inr r, e') \<and> env_inv toy_platform map_of e' \<and>
    (\<forall>k. k \<noteq> key_store_key \<longrightarrow> content map_of (store_of e') k = content map_of (store_of e) k)"
proof -
  let ?seed = "ecdsa_random toy_crypto (draws e)" and ?e = "e\<lparr>draws := Suc (draws e)\<rparr>"
  let ?s = "\<lparr>ids_private_key = Ecdsa ?seed, ids_rp_id_hash = replicate 32 8, ids_cred_protect = None, ids_cred_blob = None\<rparr>"
  have seed: "length ?seed = 32" "ecdsa_valid toy_crypto ?seed" by (simp_all add: toy_crypto_def)
  then have ok: "id_source_ok ?s" by (simp add: id_source_ok_def private_key_bytes_def)
  have inv1: "env_inv toy_platform map_of ?e" using inv by simp
  obtain kh v e' where kh: "encrypt_to_credential_id toy_platform ?s ?e = (Inr kh, e')" "length kh = 241"
    "holds_master toy_platform map_of v e'" "\<And>k. k \<noteq> key_store_key \<Longrightarrow> content map_of (store_of e') k = content map_of (store_of e) k"
    using encrypt_decrypt_ok [OF _ inv1 _ _ ok] toy_crypto_ok none by auto
  have inv': "env_inv toy_platform map_of e'" using kh(3) by (simp add: holds_master_def)
  have "u2f_attestation toy_platform e' = (Inr \<lparr>att_private_key = replicate 32 7, att_certificate = [1, 2]\<rparr>, e')"
    using kh(4) [of 1] kh(4) [of 2] att
    by (simp add: u2f_attestation_def attestation_get_def helper_get_def st.find [OF inv', unfolded toy_platform_simps] storage_keys)
  then have "\<exists>r. process_register toy_platform ch (replicate 32 8) e = (Inr r, e')"
    using seed kh(1,2)
    by (simp add: process_register_def u2f_new_ecdsa_def new_private_key_def generate_ecdsa_seed_def sbind_def or_word_def
        ecdsa_key_def ecdsa_key_from_seed_def derive_ecdsa_def Let_def) (simp add: toy_crypto_def)
  then show ?thesis using inv' kh(4) by blast
qed

lemma toy_attested:
  "\<exists>e :: (string \<times> bytes) list env. env_inv toy_platform map_of e \<and>
     content map_of (store_of e) = [1 \<mapsto> replicate 32 7, 2 \<mapsto> [1, 2]]"
proof -
  have inv: "env_inv toy_platform map_of (toy_env [])" using toy_env_inv by simp
  obtain e' where "env_inv toy_platform map_of e'"
    "content map_of (store_of e') = fold apply_to [Insert 1 (replicate 32 7), Insert 2 [1, 2]] (content map_of (store_of (toy_env [])))"
    using update_entries_ok [OF inv, of "[Insert 1 (replicate 32 7), Insert 2 [1, 2]]"] by auto
  then show ?thesis by (intro exI [of _ e']) (simp add: toy_env_content)
qed

lemma u2f_needs_approval_witness:
  "\<exists>(e :: (string \<times> bytes) list env) r e'. process_ctap1_command toy_platform ([0, 1, 0, 0, 64] @ replicate 32 9 @ replicate 32 8) e =
      (Inr r, e') \<and> approve_ctap1 toy_platform (prompts e) (utf8 ''vault.u2f.register'') (replicate 32 8) \<and> prompts e' = Suc (prompts e)"
proof -
  let ?m = "[0, 1, 0, 0, 64] @ replicate 32 9 @ replicate 32 8 :: bytes"
  obtain e :: "(string \<times> bytes) list env" where e: "env_inv toy_platform map_of e"
    "content map_of (store_of e) = [1 \<mapsto> replicate 32 7, 2 \<mapsto> [1, 2]]"
    using toy_attested by blast
  let ?e = "e\<lparr>prompts := Suc (prompts e)\<rparr>"
  obtain r e' where r: "process_register toy_platform (replicate 32 9) (replicate 32 8) ?e = (Inr r, e')"
    using toy_register_run [of ?e "replicate 32 9"] e by (auto simp: storage_keys)
  have uv: "has_always_uv toy_platform e = (Inr False, e)"
    using e(2) by (simp add: has_always_uv_def flag_entry_ok [OF e(1)] default_customization_def storage_keys)
  have cm: "u2f_command_of_message ?m = Inr (U2fRegister (replicate 32 9) (replicate 32 8))"
    by (simp add: u2f_command_of_message_def apdu_of_frame_def apdu_of_payload_def header_of_def u2f_command_of_def
        u2f_instructions)
  have "process_ctap1_command toy_platform ?m e = (Inr r, e')"
    using r by (simp only: process_ctap1_command_def allows_ctap1_def) (simp add: or_word_def uv cm [simplified] sbind_def
        process_u2f_command_def consume_approval_def)
  from this u2f_needs_approval [OF this] cm show ?thesis by auto
qed

lemma u2f_key_handle_works_witness:
  "\<exists>(e :: (string \<times> bytes) list env) r e' kh. process_register toy_platform [] (replicate 32 8) e = (Inr r, e') \<and>
     (\<exists>sig e''. process_authenticate toy_platform [] (replicate 32 8) kh EnforceUpAndSign e' = (Inr sig, e'')) \<and>
     process_authenticate toy_platform [] (replicate 32 9) kh EnforceUpAndSign e' = (Inl (Word SwWrongData), e')"
proof -
  obtain e :: "(string \<times> bytes) list env" where e: "env_inv toy_platform map_of e"
    "content map_of (store_of e) = [1 \<mapsto> replicate 32 7, 2 \<mapsto> [1, 2]]"
    using toy_attested by blast
  obtain r e' where r: "process_register toy_platform [] (replicate 32 8) e = (Inr r, e')" "env_inv toy_platform map_of e'"
    "content map_of (store_of e') global_signature_counter_key = None"
    using toy_register_run [OF e(1), of "[]"] e(2) by (auto simp: storage_keys)
  have n: "global_signature_counter toy_platform e' = (Inr 1, e')"
    using r(3) by (simp add: global_signature_counter_ok [OF r(2)])
  have C: "crypto_ok (crypto_of toy_platform)" using toy_crypto_ok by simp
  have m: "master_ok map_of e" by (simp add: master_ok_def e(2) storage_keys)
  have bits: "11 \<le> usize_bits toy_platform" and len: "length (replicate 32 8 :: bytes) = 32" by simp_all
  have "replicate 32 9 \<noteq> (replicate 32 8 :: bytes)" by simp
  then show ?thesis
    using u2f_key_handle_works [OF r(1) C e(1) m bits len n] r(1) ctap1_flags.distinct by metis
qed

end
