(* ===== verification/Vault_Text.thy ===== *)
theory Vault_Text
  imports Text_Props
begin

text \<open>
  The string functions the vault uses on its records: \<open>split\<close>, \<open>split_once\<close>, \<open>from_str_radix\<close> and
  \<open>format!\<close> of integers, on the UTF-8 bytes of a string. The separators are ASCII characters, whose
  bytes occur in no other character.
\<close>

section \<open>Well-formed strings\<close>

lemma utf8_valid_Nil [simp]: "utf8_valid []"
  by (simp add: utf8_valid_def)

lemma utf8_valid_append: "utf8_valid xs \<Longrightarrow> utf8_valid ys \<Longrightarrow> utf8_valid (xs @ ys)"
  by (induction xs rule: utf8_induct) (simp_all add: utf8_char_append)

lemma utf8_valid_ascii: "b < 0x80 \<Longrightarrow> utf8_valid (b # bs) \<longleftrightarrow> utf8_valid bs"
  by (simp add: utf8_valid_def)

lemma utf8_valid_all_ascii: "list_all (\<lambda>b. b < 0x80) bs \<Longrightarrow> utf8_valid bs"
  by (induction bs) (simp_all add: utf8_valid_ascii)

lemma utf8_valid_concat: "list_all utf8_valid xs \<Longrightarrow> utf8_valid (concat xs)"
  by (induction xs) (simp_all add: utf8_valid_append)

section \<open>Splitting\<close>

fun split_on :: "u8 \<Rightarrow> bytes \<Rightarrow> bytes list" where
  "split_on c [] = [[]]"
| "split_on c (b # bs) =
     (if b = c then [] # split_on c bs
      else case split_on c bs of [] \<Rightarrow> [[b]] | x # xs \<Rightarrow> (b # x) # xs)"

definition split_once :: "u8 \<Rightarrow> bytes \<Rightarrow> (bytes \<times> bytes) option" where
  "split_once c s = (if c \<in> set s then Some (takeWhile (\<lambda>b. b \<noteq> c) s, tl (dropWhile (\<lambda>b. b \<noteq> c) s)) else None)"

lemma split_on_not_Nil [simp]: "split_on c s \<noteq> []"
  by (cases s) (auto split: list.split)

lemma split_on_part: "c \<notin> set l \<Longrightarrow> split_on c (l @ c # r) = l # split_on c r"
  by (induction l) auto

lemma split_on_whole: "c \<notin> set l \<Longrightarrow> split_on c l = [l]"
  by (induction l) auto

lemma split_on_lines:
  "list_all (\<lambda>l. c \<notin> set l) ls \<Longrightarrow> split_on c (concat (map (\<lambda>l. l @ [c]) ls) @ r) = ls @ split_on c r"
  by (induction ls) (simp_all add: split_on_part)

lemma split_on_parts: "l \<in> set (split_on c s) \<Longrightarrow> c \<notin> set l"
  by (induction s arbitrary: l) (auto split: if_splits list.splits)

lemma first_part [simp]:
  "c \<notin> set l \<Longrightarrow> takeWhile (\<lambda>b. b \<noteq> c) (l @ c # r) = l"
  "c \<notin> set l \<Longrightarrow> dropWhile (\<lambda>b. b \<noteq> c) (l @ c # r) = c # r"
  by (induction l) auto

lemma split_once_part: "c \<notin> set l \<Longrightarrow> split_once c (l @ c # r) = Some (l, r)"
  by (simp add: split_once_def)

lemma split_once_None: "split_once c s = None \<longleftrightarrow> c \<notin> set s"
  by (simp add: split_once_def)

lemma split_once_Some: "split_once c s = Some (l, r) \<longleftrightarrow> s = l @ c # r \<and> c \<notin> set l"
proof
  assume "split_once c s = Some (l, r)"
  then have "c \<in> set s" "l = takeWhile (\<lambda>b. b \<noteq> c) s" "r = tl (dropWhile (\<lambda>b. b \<noteq> c) s)"
    by (auto simp: split_once_def split: if_splits)
  moreover from this obtain xs ys where "s = xs @ c # ys" "c \<notin> set xs" by (meson split_list_first)
  ultimately show "s = l @ c # r \<and> c \<notin> set l"
    by simp
qed (use split_once_part in blast)

section \<open>Numbers\<close>

definition display :: "nat \<Rightarrow> bytes" where
  "display n = utf8 (decimal n)"

definition chars_of :: "bytes \<Rightarrow> string" where
  "chars_of s = map (\<lambda>b. char_of (unat b)) s"

text \<open>\<open>from_str_radix(s, 10)\<close> and \<open>parse\<close> of an unsigned type of \<open>n\<close> bits.\<close>

definition parse_dec :: "nat \<Rightarrow> bytes \<Rightarrow> nat option" where
  "parse_dec n s = parse_usize n (chars_of s)"

lemma unat_of_char [simp]: "unat (of_char c :: u8) = (of_char c :: nat)"
proof -
  have "unat (of_nat (of_char c :: nat) :: u8) = of_char c"
    by (simp only: unat_of_nat) simp
  then show ?thesis by (simp only: of_nat_of_char)
qed

lemma chars_of_utf8 [simp]: "chars_of (utf8 s) = s"
  by (simp add: chars_of_def utf8_def map_idI)

lemma parse_dec_display: "k < 2 ^ n \<Longrightarrow> parse_dec n (display k) = Some k"
  by (simp add: parse_dec_def display_def parse_usize_decimal)

lemma parse_dec_less: "parse_dec n s = Some k \<Longrightarrow> k < 2 ^ n"
  by (auto simp: parse_dec_def parse_usize_def Let_def split: option.splits if_splits)

lemma decimal_range: "c \<in> set (decimal n) \<Longrightarrow> 48 \<le> (of_char c :: nat) \<and> (of_char c :: nat) \<le> 57"
proof (induction n rule: decimal.induct)
  case (1 n)
  have "(of_char (char_of (48 + k) :: char) :: nat) = 48 + k" if "k < 10" for k :: nat
    using that by simp
  then show ?case
    using "1.IH" "1.prems" [unfolded decimal.simps [of n]] by (auto split: if_splits)
qed

text \<open>A displayed number is a string of digits.\<close>

lemma display_digits: "b \<in> set (display n) \<Longrightarrow> 48 \<le> b \<and> b \<le> 57"
proof -
  assume "b \<in> set (display n)"
  then obtain c where c: "c \<in> set (decimal n)" "b = of_char c" by (auto simp: display_def utf8_def)
  then have r: "48 \<le> (of_char c :: nat)" "(of_char c :: nat) \<le> 57" using decimal_range by auto
  have "unat b = (of_char c :: nat)" using c(2) by simp
  then show ?thesis using r by (simp add: word_le_nat_alt)
qed

lemma display_clean [simp]: "10 \<notin> set (display n)" "58 \<notin> set (display n)"
  by (auto dest!: display_digits simp: word_le_nat_alt)

lemma display_ascii: "utf8_valid (display n)"
proof (rule utf8_valid_all_ascii)
  show "list_all (\<lambda>b. b < 0x80) (display n)"
    by (auto simp: list_all_iff word_less_nat_alt word_le_nat_alt dest!: display_digits)
qed

section \<open>Processing lines\<close>

text \<open>A loop over lines that returns early with \<open>?\<close>.\<close>

fun fold_lines :: "('s \<Rightarrow> bytes \<Rightarrow> 'e + 's) \<Rightarrow> bytes list \<Rightarrow> 's \<Rightarrow> 'e + 's" where
  "fold_lines f [] s = Inr s"
| "fold_lines f (l # ls) s = rbind (f s l) (fold_lines f ls)"

lemma fold_lines_append:
  "fold_lines f (xs @ ys) s = rbind (fold_lines f xs s) (fold_lines f ys)"
proof (induction xs arbitrary: s)
  case (Cons x xs)
  then have "fold_lines f (xs @ ys) = (\<lambda>s. rbind (fold_lines f xs s) (fold_lines f ys))" by blast
  then show ?case by (simp add: rbind_assoc)
qed simp

text \<open>\<open>tag:data\<close>\<close>

definition tagged :: "string \<Rightarrow> bytes \<Rightarrow> bytes" where
  "tagged tag s = utf8 tag @ 58 # s"

lemma split_tagged: "58 \<notin> set (utf8 tag) \<Longrightarrow> split_once 58 (tagged tag s) = Some (utf8 tag, s)"
  by (simp add: tagged_def split_once_part)

lemma newline_tagged: "10 \<in> set (tagged tag s) \<longleftrightarrow> 10 \<in> set (utf8 tag) \<or> 10 \<in> set s"
  by (simp add: tagged_def)

lemma valid_tagged: "utf8_valid (utf8 tag) \<Longrightarrow> utf8_valid s \<Longrightarrow> utf8_valid (tagged tag s)"
  by (simp add: tagged_def utf8_valid_append utf8_valid_ascii)

end
