(* ===== verification/Totp.thy ===== *)
theory Totp
  imports Vault_Text
begin

text \<open>
  One-time passwords, \<open>src/totp.rs\<close>: the code of a time or counter, and the code of a list entry of the
  vault. The HMACs of the crate \<open>hmac\<close> and the base32 decoder are parameters. A panic is \<open>None\<close>; the
  arithmetic is the one of a release build, where the power of ten wraps.
\<close>

section \<open>Entries\<close>

datatype totp_algorithm = HmacSha1 | HmacSha256 | HmacSha512 | NoAlgorithm

fun display_algorithm :: "totp_algorithm \<Rightarrow> bytes" where
  "display_algorithm HmacSha1 = utf8 ''SHA1''"
| "display_algorithm HmacSha256 = utf8 ''SHA256''"
| "display_algorithm HmacSha512 = utf8 ''SHA512''"
| "display_algorithm NoAlgorithm = utf8 ''None''"

definition algorithm_of_str :: "bytes \<Rightarrow> totp_algorithm option" where
  "algorithm_of_str s =
     (if s = utf8 ''SHA1'' \<or> s = utf8 ''None'' then Some HmacSha1
      else if s = utf8 ''SHA256'' then Some HmacSha256
      else if s = utf8 ''SHA512'' then Some HmacSha512
      else None)"

record totp_entry =
  step_seconds :: u64
  shared_secret :: bytes
  digit_count :: u8
  totp_alg :: totp_algorithm

record otp_primitives =
  hmac_sha1 :: "bytes \<Rightarrow> bytes \<Rightarrow> bytes"
  hmac_sha256 :: "bytes \<Rightarrow> bytes \<Rightarrow> bytes"
  hmac_sha512 :: "bytes \<Rightarrow> bytes \<Rightarrow> bytes"
  base32_decode :: "bytes \<Rightarrow> bytes option"

definition otp_ok :: "otp_primitives \<Rightarrow> bool" where
  "otp_ok H \<longleftrightarrow> (\<forall>k m. length (hmac_sha1 H k m) = 20 \<and> length (hmac_sha256 H k m) = 32 \<and> length (hmac_sha512 H k m) = 64)"

section \<open>Codes\<close>

definition unpack_u64 :: "u64 \<Rightarrow> bytes" where
  "unpack_u64 v = fold (\<lambda>i bs. bs[7 - i := ucast (0xFF AND drop_bit (i * 8) v)]) [0..<8] (replicate 8 0)"

definition checked_step :: "totp_entry \<Rightarrow> u64" where
  "checked_step e = (if step_seconds e = 0 then 1 else step_seconds e)"

definition generate_hmac_bytes :: "otp_primitives \<Rightarrow> u64 \<Rightarrow> totp_entry \<Rightarrow> bytes option" where
  "generate_hmac_bytes H t e =
     (let m = unpack_u64 (t div checked_step e)
      in case totp_alg e of
           HmacSha1 \<Rightarrow> Some (hmac_sha1 H (shared_secret e) m)
         | HmacSha256 \<Rightarrow> Some (hmac_sha256 H (shared_secret e) m)
         | HmacSha512 \<Rightarrow> Some (hmac_sha512 H (shared_secret e) m)
         | NoAlgorithm \<Rightarrow> None)"

definition zero_padded :: "nat \<Rightarrow> bytes \<Rightarrow> bytes" where
  "zero_padded n s = replicate (n - length s) 48 @ s"

text \<open>\<open>hash[i]\<close> out of range and a zero modulus panic.\<close>

definition totp_binary :: "bytes \<Rightarrow> nat \<Rightarrow> u64" where
  "totp_binary hash offset =
     push_bit 24 (ucast (hash ! offset AND 0x7F)) OR push_bit 16 (ucast (hash ! (offset + 1))) OR
     push_bit 8 (ucast (hash ! (offset + 2))) OR ucast (hash ! (offset + 3))"

definition generate_totp_code :: "otp_primitives \<Rightarrow> u64 \<Rightarrow> totp_entry \<Rightarrow> bytes option" where
  "generate_totp_code H t e =
     (case generate_hmac_bytes H t e of
        None \<Rightarrow> None
      | Some hash \<Rightarrow>
          (let offset = unat ((if hash = [] then 0 else last hash) AND 0xF);
               modulus = 10 ^ unat (digit_count e) :: u64
           in if offset + 3 \<ge> length hash \<or> modulus = 0 then None
              else Some (zero_padded (unat (digit_count e)) (display (unat (totp_binary hash offset mod modulus))))))"

section \<open>List entries\<close>

definition ascii_upper :: "u8 \<Rightarrow> u8" where
  "ascii_upper b = (if 97 \<le> b \<and> b \<le> 122 then b - 32 else b)"

datatype totp_record_error = BadTotpRecord

text \<open>No character outside ASCII has an upper case form in \<open>HOTP\<close>, so upper-casing the ASCII letters decides
  the comparison.\<close>

definition db_str_to_code :: "otp_primitives \<Rightarrow> u64 \<Rightarrow> bytes \<Rightarrow> (totp_record_error + bytes) option" where
  "db_str_to_code H now s =
     (let fs = split_on 58 s
      in if length fs \<noteq> 5 then Some (Inl BadTotpRecord)
         else let secret = or_default [] (base32_decode H (fs ! 0));
                  digits = of_nat (or_default 6 (parse_dec 8 (fs ! 1)));
                  step = of_nat (or_default 30 (parse_dec 64 (fs ! 2)));
                  a = or_default HmacSha1 (algorithm_of_str (fs ! 3));
                  is_hotp = (map ascii_upper (fs ! 4) = utf8 ''HOTP'');
                  e = \<lparr>step_seconds = (if is_hotp then 1 else step), shared_secret = secret, digit_count = digits,
                       totp_alg = a\<rparr>
              in map_option Inr (generate_totp_code H (if is_hotp then step else now) e))"

section \<open>The reference of RFC 4226\<close>

text \<open>Dynamic truncation to 31 bits, and the decimal code of \<open>d\<close> digits.\<close>

definition truncated_hash :: "bytes \<Rightarrow> nat" where
  "truncated_hash hash = be_nat (take 4 (drop (unat (last hash) mod 16) hash)) mod 2 ^ 31"

definition is_code :: "nat \<Rightarrow> nat \<Rightarrow> bytes \<Rightarrow> bool" where
  "is_code d v s \<longleftrightarrow> length s = d \<and> list_all (\<lambda>b. 48 \<le> b \<and> b \<le> 57) s \<and> parse_dec 64 s = Some (v mod 10 ^ d)"

definition entry_hmac :: "otp_primitives \<Rightarrow> totp_algorithm \<Rightarrow> bytes \<Rightarrow> u64 \<Rightarrow> bytes" where
  "entry_hmac H a k counter =
     (case a of
        HmacSha256 \<Rightarrow> hmac_sha256 H k (be_bytes 8 counter)
      | HmacSha512 \<Rightarrow> hmac_sha512 H k (be_bytes 8 counter)
      | _ \<Rightarrow> hmac_sha1 H k (be_bytes 8 counter))"

section \<open>Properties of numbers\<close>

lemma unpack_u64_be: "unpack_u64 v = be_bytes 8 v"
proof -
  have "ucast (0xFF AND w) = (ucast w :: u8)" for w :: u64
    by (rule bit_word_eqI) (auto simp: bit_simps numeral_eq_Suc less_Suc_eq)
  then show ?thesis
    by (simp add: unpack_u64_def be_bytes_def upt_rec numeral_eq_Suc)
qed

lemma length_decimal: "1 \<le> d \<Longrightarrow> k < 10 ^ d \<Longrightarrow> length (decimal k) \<le> d"
proof (induction d arbitrary: k)
  case (Suc d)
  show ?case
  proof (cases "k < 10")
    case True
    then show ?thesis by (subst decimal.simps) simp
  next
    case False
    then have "1 \<le> d" using Suc.prems(2) by (cases d) auto
    moreover have "k div 10 < 10 ^ d" using Suc.prems(2) by (simp add: less_mult_imp_div_less mult.commute)
    ultimately have "length (decimal (k div 10)) \<le> d" by (rule Suc.IH)
    then show ?thesis using False by (subst decimal.simps) simp
  qed
qed simp

lemma digits_value_zeros: "digits_value 0 (replicate n (char_of (48 :: nat)) @ s) = digits_value 0 s"
  by (induction n) (simp_all add: Let_def)

lemma chars_of_padded: "chars_of (zero_padded n (display k)) = replicate (n - length (decimal k)) (char_of (48 :: nat)) @ decimal k"
  by (simp add: zero_padded_def display_def chars_of_def utf8_def comp_def)

lemma zero_padded_code:
  assumes d: "1 \<le> d" "d \<le> 19" and k: "k < 10 ^ d"
  shows "is_code d k (zero_padded d (display k))"
proof -
  have len: "length (decimal k) \<le> d" using length_decimal [OF d(1) k] .
  have "(10::nat) ^ d \<le> 10 ^ 19" using d by (intro power_increasing) auto
  then have k64: "k < 2 ^ 64" using k by simp
  let ?s = "replicate (d - length (decimal k)) (char_of (48 :: nat)) @ decimal k"
  have "of_char (hd ?s) \<noteq> (43 :: nat)"
    using decimal_digits [of "hd (decimal k)" k]
    by (cases "d - length (decimal k)") (auto simp: hd_append)
  then have "parse_usize 64 ?s = Some k"
    using k64 digits_value_zeros [of "d - length (decimal k)" "decimal k"] digits_value_decimal [of k]
    by (cases ?s) (simp_all add: parse_usize_def del: digits_value.simps)
  moreover have "list_all (\<lambda>b. 48 \<le> b \<and> b \<le> 57) (zero_padded d (display k))"
    using display_digits by (auto simp: list_all_iff zero_padded_def)
  ultimately show ?thesis
    using len k by (simp add: is_code_def parse_dec_def chars_of_padded) (simp add: zero_padded_def display_def utf8_def)
qed


section \<open>Codes are those of the standard\<close>

lemma and_bytes:
  "unat (b AND 0xF :: u8) = unat b mod 16" "unat (b AND 0x7F :: u8) = unat b mod 128"
proof -
  have "b AND 0xF = take_bit 4 b" "b AND 0x7F = take_bit 7 b"
    by (rule bit_word_eqI, auto simp: bit_simps numeral_eq_Suc less_Suc_eq)+
  then show "unat (b AND 0xF) = unat b mod 16" "unat (b AND 0x7F) = unat b mod 128"
    by (simp_all add: take_bit_eq_mod unat_mod)
qed

lemma unat_or_shifted:
  fixes a b :: u64
  assumes "unat b < 2 ^ n" "unat a * 2 ^ n + unat b < 2 ^ 64"
  shows "unat (push_bit n a OR b) = unat a * 2 ^ n + unat b"
proof -
  have "push_bit n a AND b = 0"
  proof (rule bit_word_eqI)
    fix i
    have "b = take_bit n b"
      using assms(1) by (simp add: word_unat_eq_iff unsigned_take_bit_eq take_bit_nat_eq_self)
    then have "\<not> bit b i" if "n \<le> i" using that by (metis bit_take_bit_iff not_le)
    then show "bit (push_bit n a AND b) i = bit (0 :: u64) i"
      by (auto simp: bit_simps)
  qed
  then have "push_bit n a OR b = push_bit n a + b" by (simp add: disjunctive_add_eq_or)
  moreover have "unat (push_bit n a) = unat a * 2 ^ n"
    using assms(2) unfolding unsigned_push_bit_eq by (simp add: push_bit_eq_mult take_bit_nat_eq_self)
  ultimately show ?thesis
    using assms by (simp add: unat_add_lem [THEN iffD1])
qed


lemma unat_u8_u64 [simp]: "unat (ucast (b :: u8) :: u64) = unat b"
  using less_trans [OF unat_u8_less [of b], of "2 ^ 64"] by (simp add: unsigned_ucast_eq take_bit_nat_eq_self_iff)

lemma totp_binary_eq:
  assumes "length hash = offset + 4 + n"
  shows "unat (totp_binary hash offset) = be_nat (take 4 (drop offset hash)) mod 2 ^ 31"
proof -
  obtain a b c d where hash: "hash ! offset = a" "hash ! (offset + 1) = b" "hash ! (offset + 2) = c" "hash ! (offset + 3) = d"
    by blast
  have "take 4 (drop offset hash) = [a, b, c, d]"
    using assms hash by (intro nth_equalityI) (auto simp: less_Suc_eq numeral_eq_Suc)
  then have ref: "be_nat (take 4 (drop offset hash)) = unat a * 2 ^ 24 + unat b * 2 ^ 16 + unat c * 2 ^ 8 + unat d"
    by (simp add: be_nat_Cons)
  note lt = unat_u8_less [of b] unat_u8_less [of c] unat_u8_less [of d]
  have cd: "unat (push_bit 8 (ucast c) OR ucast d :: u64) = unat c * 2 ^ 8 + unat d"
    using lt by (subst unat_or_shifted) auto
  have bcd: "unat (push_bit 16 (ucast b) OR (push_bit 8 (ucast c) OR ucast d) :: u64) = unat b * 2 ^ 16 + (unat c * 2 ^ 8 + unat d)"
    using lt cd by (subst unat_or_shifted) auto
  have "unat (totp_binary hash offset) = (unat a mod 128) * 2 ^ 24 + (unat b * 2 ^ 16 + (unat c * 2 ^ 8 + unat d))"
    unfolding totp_binary_def hash or.assoc using lt bcd
    by (subst unat_or_shifted) (auto simp: and_bytes)
  also have "\<dots> = (unat a * 2 ^ 24 + (unat b * 2 ^ 16 + (unat c * 2 ^ 8 + unat d))) mod 2 ^ 31"
  proof -
    obtain q r where a: "unat a = 128 * q + r" "unat a div 128 = q" "unat a mod 128 = r"
      by (metis mult_div_mod_eq)
    have "unat a * 2 ^ 24 + (unat b * 2 ^ 16 + (unat c * 2 ^ 8 + unat d)) =
        (unat a div 128) * 2 ^ 31 + ((unat a mod 128) * 2 ^ 24 + (unat b * 2 ^ 16 + (unat c * 2 ^ 8 + unat d)))"
      unfolding a(2,3) unfolding a(1) by simp
    moreover have "(unat a mod 128) * 2 ^ 24 + (unat b * 2 ^ 16 + (unat c * 2 ^ 8 + unat d)) < 2 ^ 31"
    proof -
      have "unat a mod 128 < 128" by simp
      then show ?thesis using lt by simp
    qed
    ultimately show ?thesis by (metis mod_less mod_mult_self3)
  qed
  finally show ?thesis by (simp add: ref add.assoc)
qed

lemma generate_ok:
  assumes H: "otp_ok H" and a: "totp_alg e \<noteq> NoAlgorithm" and d: "1 \<le> digit_count e" "digit_count e \<le> 19"
  shows "\<exists>s. generate_totp_code H t e = Some s \<and> is_code (unat (digit_count e))
    (truncated_hash (entry_hmac H (totp_alg e) (shared_secret e) (t div checked_step e))) s"
proof -
  let ?h = "entry_hmac H (totp_alg e) (shared_secret e) (t div checked_step e)" and ?d = "unat (digit_count e)"
  have h: "generate_hmac_bytes H t e = Some ?h"
    using a by (cases "totp_alg e") (simp_all add: generate_hmac_bytes_def entry_hmac_def unpack_u64_be Let_def)
  have len: "20 \<le> length ?h" using H by (cases "totp_alg e") (simp_all add: otp_ok_def entry_hmac_def)
  define offset where "offset = unat (last ?h) mod 16"
  have off: "unat ((if ?h = [] then 0 else last ?h) AND 0xF) = offset"
    using len by (auto simp: offset_def and_bytes)
  have bound: "offset + 3 < length ?h"
  proof -
    have "offset < 16" by (simp add: offset_def)
    then show ?thesis using len by simp
  qed
  have d': "1 \<le> ?d" "?d \<le> 19" using d by (simp_all add: word_le_nat_alt)
  have "(10::nat) ^ ?d \<le> 10 ^ 19" using d' by (intro power_increasing) auto
  then have "(10::nat) ^ ?d < 2 ^ 64" by simp
  moreover have "(10 :: u64) ^ ?d = of_nat (10 ^ ?d)" by simp
  ultimately have m: "unat (10 ^ ?d :: u64) = 10 ^ ?d"
    using unat_of_nat [of "10 ^ ?d", where 'a = 64] by simp
  then have nz: "(10 :: u64) ^ ?d \<noteq> 0" by (metis power_not_zero unat_0 zero_neq_numeral)
  obtain n where n: "length ?h = offset + 4 + n"
    using le_Suc_ex [of "offset + 4" "length ?h"] bound by auto
  have "unat (totp_binary ?h offset mod 10 ^ ?d) = truncated_hash ?h mod 10 ^ ?d"
    using totp_binary_eq [OF n] by (simp add: unat_mod m truncated_hash_def offset_def)
  moreover have "is_code ?d (truncated_hash ?h mod 10 ^ ?d) (zero_padded ?d (display (truncated_hash ?h mod 10 ^ ?d)))"
    using d' by (intro zero_padded_code) auto
  ultimately show ?thesis
    using bound nz by (auto simp: generate_totp_code_def h off Let_def is_code_def)
qed

text \<open>C27: for 1 to 19 digits the generated code is the one of RFC 4226 and 6238: the HMAC of the counter
  \<open>t / step\<close>, truncated dynamically to 31 bits, in decimal with leading zeros.\<close>

theorem totp_code_standard:
  assumes "otp_ok H" "totp_alg e \<noteq> NoAlgorithm" "1 \<le> digit_count e" "digit_count e \<le> 19"
  shows "\<exists>s. generate_totp_code H t e = Some s \<and> is_code (unat (digit_count e))
    (truncated_hash (entry_hmac H (totp_alg e) (shared_secret e) (t div checked_step e))) s"
  using assms by (rule generate_ok)

text \<open>From 64 digits on, the power of ten wraps to zero and the remainder panics.\<close>

lemma many_digits_panic:
  assumes "64 \<le> digit_count e"
  shows "generate_totp_code H t e = None"
proof -
  have "64 \<le> unat (digit_count e)" using assms by (simp add: word_le_nat_alt)
  then obtain k where k: "unat (digit_count e) = 64 + k" using le_Suc_ex by blast
  have "(10 :: u64) ^ 64 = 0" by simp
  then have "(10 :: u64) ^ unat (digit_count e) = 0" by (simp only: k power_add mult_zero_left)
  then show ?thesis by (simp add: generate_totp_code_def Let_def split: option.split)
qed

end
