(* ===== verification/Records.thy ===== *)
theory Records
  imports Totp
begin

text \<open>
  The records of the vault and their text form, \<open>src/storage.rs\<close>: one \<open>tag:data\<close> line per field, for
  passwords and one-time passwords, and the import of an \<open>otpauth\<close> URI.
\<close>

section \<open>One-time password records\<close>

record totp_record =
  tr_version :: u32
  tr_secret :: bytes
  tr_name :: bytes
  tr_algorithm :: totp_algorithm
  tr_notes :: bytes
  tr_digits :: u32
  tr_timestep :: u64
  tr_ctime :: u64
  tr_hotp :: bool

definition default_totp_record :: totp_record where
  "default_totp_record = \<lparr>tr_version = 0, tr_secret = [], tr_name = [], tr_algorithm = NoAlgorithm, tr_notes = [],
     tr_digits = 0, tr_timestep = 0, tr_ctime = 0, tr_hotp = False\<rparr>"

datatype totp_error = BadTotpVersion | BadAlgorithm | BadDigitsAmount | BadTotpCtime | BadTimestep | BadHotp | MalformedTotp

definition parse_u8 :: "bytes \<Rightarrow> u8 option" where
  "parse_u8 s = map_option of_nat (parse_dec 8 s)"

definition parse_u32 :: "bytes \<Rightarrow> u32 option" where
  "parse_u32 s = map_option of_nat (parse_dec 32 s)"

definition parse_u64 :: "bytes \<Rightarrow> u64 option" where
  "parse_u64 s = map_option of_nat (parse_dec 64 s)"

definition totp_field :: "totp_record \<Rightarrow> bytes \<Rightarrow> bytes \<Rightarrow> totp_error + totp_record" where
  "totp_field r tag d =
     (if tag = utf8 ''version'' then rbind (ok_or (parse_u32 d) BadTotpVersion) (\<lambda>v. Inr (r\<lparr>tr_version := v\<rparr>))
      else if tag = utf8 ''secret'' then Inr (r\<lparr>tr_secret := tr_secret r @ d\<rparr>)
      else if tag = utf8 ''name'' then Inr (r\<lparr>tr_name := tr_name r @ d\<rparr>)
      else if tag = utf8 ''algorithm'' then rbind (ok_or (algorithm_of_str d) BadAlgorithm) (\<lambda>a. Inr (r\<lparr>tr_algorithm := a\<rparr>))
      else if tag = utf8 ''notes'' then Inr (r\<lparr>tr_notes := tr_notes r @ d\<rparr>)
      else if tag = utf8 ''digits'' then rbind (ok_or (parse_u32 d) BadDigitsAmount) (\<lambda>v. Inr (r\<lparr>tr_digits := v\<rparr>))
      else if tag = utf8 ''ctime'' then rbind (ok_or (parse_u64 d) BadTotpCtime) (\<lambda>v. Inr (r\<lparr>tr_ctime := v\<rparr>))
      else if tag = utf8 ''timestep'' then rbind (ok_or (parse_u64 d) BadTimestep) (\<lambda>v. Inr (r\<lparr>tr_timestep := v\<rparr>))
      else if tag = utf8 ''hotp'' then rbind (ok_or (parse_u8 d) BadHotp) (\<lambda>v. Inr (r\<lparr>tr_hotp := (v \<noteq> 0)\<rparr>))
      else Inr r)"

text \<open>A line without a colon is skipped.\<close>

definition on_line :: "('r \<Rightarrow> bytes \<Rightarrow> bytes \<Rightarrow> 'e + 'r) \<Rightarrow> 'r \<Rightarrow> bytes \<Rightarrow> 'e + 'r" where
  "on_line f r l = (case split_once 58 l of None \<Rightarrow> Inr r | Some (tag, d) \<Rightarrow> f r tag d)"

definition totp_from_vec :: "bytes \<Rightarrow> totp_error + totp_record" where
  "totp_from_vec bs =
     (if \<not> utf8_valid bs then Inl MalformedTotp
      else fold_lines (on_line totp_field) (split_on 10 bs) default_totp_record)"

text \<open>\<open>TryFrom<Vec<u8>>\<close>\<close>

definition totp_try_from :: "bytes \<Rightarrow> totp_error + totp_record" where
  "totp_try_from bs =
     (if \<not> utf8_valid bs then Inl MalformedTotp
      else fold_lines (on_line totp_field) (split_on 10 bs)
             (default_totp_record\<lparr>tr_version := 2, tr_algorithm := HmacSha1\<rparr>))"

definition totp_lines :: "totp_record \<Rightarrow> bytes list" where
  "totp_lines r =
     [tagged ''version'' (display (unat (tr_version r))), tagged ''secret'' (tr_secret r), tagged ''name'' (tr_name r),
      tagged ''algorithm'' (display_algorithm (tr_algorithm r)), tagged ''notes'' (tr_notes r),
      tagged ''digits'' (display (unat (tr_digits r))), tagged ''timestep'' (display (unat (tr_timestep r))),
      tagged ''hotp'' (display (if tr_hotp r then 1 else 0)), tagged ''ctime'' (display (unat (tr_ctime r)))]"

definition lines_to_vec :: "bytes list \<Rightarrow> bytes" where
  "lines_to_vec ls = concat (map (\<lambda>l. l @ [10]) ls)"

definition totp_to_vec :: "totp_record \<Rightarrow> bytes" where
  "totp_to_vec r = lines_to_vec (totp_lines r)"

section \<open>Password records\<close>

record password_record =
  pr_version :: u32
  pr_description :: bytes
  pr_username :: bytes
  pr_password :: bytes
  pr_notes :: bytes
  pr_ctime :: u64
  pr_atime :: u64
  pr_count :: u64

definition cleared_password_record :: password_record where
  "cleared_password_record = \<lparr>pr_version = 0, pr_description = [], pr_username = [], pr_password = [], pr_notes = [],
     pr_ctime = 0, pr_atime = 0, pr_count = 0\<rparr>"

datatype password_error = MalformedPassword | BadPasswordVersion | BadCount | BadPasswordCtime | BadAtime

definition password_field :: "password_record \<Rightarrow> bytes \<Rightarrow> bytes \<Rightarrow> password_error + password_record" where
  "password_field r tag d =
     (if tag = utf8 ''version'' then rbind (ok_or (parse_u32 d) BadPasswordVersion) (\<lambda>v. Inr (r\<lparr>pr_version := v\<rparr>))
      else if tag = utf8 ''description'' then Inr (r\<lparr>pr_description := pr_description r @ d\<rparr>)
      else if tag = utf8 ''username'' then Inr (r\<lparr>pr_username := pr_username r @ d\<rparr>)
      else if tag = utf8 ''password'' then Inr (r\<lparr>pr_password := pr_password r @ d\<rparr>)
      else if tag = utf8 ''notes'' then Inr (r\<lparr>pr_notes := pr_notes r @ d\<rparr>)
      else if tag = utf8 ''ctime'' then rbind (ok_or (parse_u64 d) BadPasswordCtime) (\<lambda>v. Inr (r\<lparr>pr_ctime := v\<rparr>))
      else if tag = utf8 ''atime'' then rbind (ok_or (parse_u64 d) BadAtime) (\<lambda>v. Inr (r\<lparr>pr_atime := v\<rparr>))
      else if tag = utf8 ''count'' then rbind (ok_or (parse_u64 d) BadCount) (\<lambda>v. Inr (r\<lparr>pr_count := v\<rparr>))
      else Inr r)"

definition password_from_vec :: "bytes \<Rightarrow> password_error + password_record" where
  "password_from_vec bs =
     (if \<not> utf8_valid bs then Inl MalformedPassword
      else fold_lines (on_line password_field) (split_on 10 bs) cleared_password_record)"

definition password_try_from :: "bytes \<Rightarrow> password_error + password_record" where
  "password_try_from bs =
     (if \<not> utf8_valid bs then Inl MalformedPassword
      else fold_lines (on_line password_field) (split_on 10 bs) (cleared_password_record\<lparr>pr_version := 1\<rparr>))"

definition password_lines :: "password_record \<Rightarrow> bytes list" where
  "password_lines r =
     [tagged ''version'' (display (unat (pr_version r))), tagged ''description'' (pr_description r),
      tagged ''username'' (pr_username r), tagged ''password'' (pr_password r), tagged ''notes'' (pr_notes r),
      tagged ''ctime'' (display (unat (pr_ctime r))), tagged ''atime'' (display (unat (pr_atime r))),
      tagged ''count'' (display (unat (pr_count r)))]"

definition password_to_vec :: "password_record \<Rightarrow> bytes" where
  "password_to_vec r = lines_to_vec (password_lines r)"

section \<open>Keys of records\<close>

definition hex_digit :: "nat \<Rightarrow> u8" where
  "hex_digit n = of_nat (if n < 10 then 48 + n else 55 + n)"

definition hex_upper :: "bytes \<Rightarrow> bytes" where
  "hex_upper bs = concat (map (\<lambda>b. [hex_digit (unat b div 16), hex_digit (unat b mod 16)]) bs)"

text \<open>A hasher that is fed twice hashes the concatenation.\<close>

definition totp_hash :: "(bytes \<Rightarrow> bytes) \<Rightarrow> totp_record \<Rightarrow> bytes" where
  "totp_hash sha r = sha (tr_name r)"

definition password_hash :: "(bytes \<Rightarrow> bytes) \<Rightarrow> password_record \<Rightarrow> bytes" where
  "password_hash sha r = sha (pr_description r @ pr_username r)"

section \<open>Import of URIs\<close>

definition char_len :: "u8 \<Rightarrow> nat" where
  "char_len b = (if b < 0x80 then 1 else if b < 0xE0 then 2 else if b < 0xF0 then 3 else 4)"

definition next_char :: "bytes \<Rightarrow> bytes" where
  "next_char s = (case s of [] \<Rightarrow> [] | b # _ \<Rightarrow> take (char_len b) s)"

definition next_two_chars :: "bytes \<Rightarrow> bytes" where
  "next_two_chars s = (let c = next_char s in c @ next_char (drop (length c) s))"

definition hex_value :: "u8 \<Rightarrow> nat option" where
  "hex_value b =
     (if 48 \<le> b \<and> b \<le> 57 then Some (unat b - 48)
      else if 65 \<le> b \<and> b \<le> 70 then Some (unat b - 55)
      else if 97 \<le> b \<and> b \<le> 102 then Some (unat b - 87)
      else None)"

text \<open>\<open>u8::from_str_radix(hex, 16)\<close> of two bytes; a leading plus sign is accepted.\<close>

definition parse_hex2 :: "bytes \<Rightarrow> u8 option" where
  "parse_hex2 s =
     (case s of
        [a, b] \<Rightarrow>
          (case (if a = 43 then Some 0 else hex_value a, hex_value b) of
             (Some x, Some y) \<Rightarrow> Some (of_nat (16 * x + y))
           | _ \<Rightarrow> None)
      | _ \<Rightarrow> None)"

text \<open>\<open>byte as char\<close> is the character with this code point.\<close>

definition byte_as_char :: "u8 \<Rightarrow> bytes" where
  "byte_as_char b = (if b < 0x80 then [b] else [0xC0 OR drop_bit 6 b, 0x80 OR (b AND 0x3F)])"

text \<open>The constructors stand for the messages of the errors.\<close>

datatype uri_error = MissingSlash | UnknownOtpType bytes | MissingQuery | InvalidPercent | InvalidHex bytes | MissingSecret
  | UnknownUriAlgorithm bytes | InvalidDigits bytes | InvalidPeriod bytes

function url_decode :: "bytes \<Rightarrow> uri_error + bytes" where
  "url_decode s =
     (case s of
        [] \<Rightarrow> Inr []
      | b # r \<Rightarrow>
          if b = 37 then
            (let hex = next_two_chars r
             in if length hex \<noteq> 2 then Inl InvalidPercent
                else rbind (ok_or (parse_hex2 hex) (InvalidHex hex)) (\<lambda>x.
                     rbind (url_decode (drop 2 r)) (\<lambda>t. Inr (byte_as_char x @ t))))
          else rbind (url_decode r) (\<lambda>t. Inr ((if b = 43 then 32 else b) # t)))"
  by pat_completeness auto
termination url_decode
  by (relation "measure length") auto

declare url_decode.simps [simp del]

definition query_pair :: "(bytes \<rightharpoonup> bytes) \<Rightarrow> bytes \<Rightarrow> uri_error + (bytes \<rightharpoonup> bytes)" where
  "query_pair m p =
     (case split_once 61 p of
        None \<Rightarrow> Inr m
      | Some (k, v) \<Rightarrow> rbind (url_decode v) (\<lambda>x. Inr (m(k \<mapsto> x))))"

definition parse_query :: "bytes \<Rightarrow> uri_error + (bytes \<rightharpoonup> bytes)" where
  "parse_query q = fold_lines query_pair (split_on 38 q) Map.empty"

text \<open>
  \<open>to_lowercase\<close> and \<open>to_uppercase\<close>, as far as the result can be one of the words compared with: beside the
  ASCII letters only the long s has a letter of these words as its upper case.
\<close>

definition ascii_lower :: "u8 \<Rightarrow> u8" where
  "ascii_lower b = (if 65 \<le> b \<and> b \<le> 90 then b + 32 else b)"

fun upper_word :: "bytes \<Rightarrow> bytes" where
  "upper_word [] = []"
| "upper_word [b] = [ascii_upper b]"
| "upper_word (a # b # r) =
     (if a = 0xC5 \<and> b = 0xBF then 83 # upper_word r else ascii_upper a # upper_word (b # r))"

definition uri_algorithm :: "bytes \<Rightarrow> uri_error + totp_algorithm" where
  "uri_algorithm a =
     (let w = upper_word a
      in if w = utf8 ''SHA1'' then Inr HmacSha1
         else if w = utf8 ''SHA256'' then Inr HmacSha256
         else if w = utf8 ''SHA512'' then Inr HmacSha512
         else Inl (UnknownUriAlgorithm a))"

definition uri_number :: "(bytes \<Rightarrow> 'n option) \<Rightarrow> (bytes \<Rightarrow> uri_error) \<Rightarrow> 'n \<Rightarrow> bytes option \<Rightarrow> uri_error + 'n" where
  "uri_number parse e n x = (case x of None \<Rightarrow> Inr n | Some s \<Rightarrow> ok_or (parse s) (e s))"

definition totp_from_uri :: "bytes \<Rightarrow> uri_error + totp_record" where
  "totp_from_uri uri =
     rbind (ok_or (split_once 47 uri) MissingSlash) (\<lambda>(otp_type, rest).
     let t = map ascii_lower otp_type
     in if t \<noteq> utf8 ''hotp'' \<and> t \<noteq> utf8 ''totp'' then Inl (UnknownOtpType otp_type) else
     let hotp = (t = utf8 ''hotp'')
     in rbind (ok_or (split_once 63 rest) MissingQuery) (\<lambda>(label, query).
     rbind (url_decode label) (\<lambda>name.
     rbind (parse_query query) (\<lambda>params.
     rbind (ok_or (params (utf8 ''secret'')) MissingSecret) (\<lambda>secret.
     rbind (case params (utf8 ''algorithm'') of None \<Rightarrow> Inr NoAlgorithm | Some a \<Rightarrow> uri_algorithm a) (\<lambda>a.
     rbind (uri_number parse_u32 InvalidDigits 6 (params (utf8 ''digits''))) (\<lambda>digits.
     rbind (if hotp then Inr 0 else uri_number parse_u64 InvalidPeriod 30 (params (utf8 ''period''))) (\<lambda>step.
       Inr (default_totp_record\<lparr>tr_hotp := hotp, tr_name := name, tr_secret := secret, tr_algorithm := a,
              tr_digits := digits, tr_timestep := step,
              tr_notes := or_default [] (params (utf8 ''issuer''))\<rparr>)))))))))"

section \<open>List entries\<close>

text \<open>The text of the list entry of a one-time password, \<open>make_totp_item_from_record\<close> of \<open>src/actions.rs\<close>.\<close>

definition totp_item_extra :: "totp_record \<Rightarrow> bytes" where
  "totp_item_extra r =
     tr_secret r @ 58 # display (unat (tr_digits r)) @ 58 # display (unat (tr_timestep r)) @ 58 #
     display_algorithm (tr_algorithm r) @ 58 # (if tr_hotp r then utf8 ''HOTP'' else utf8 ''TOTP'')"

end
