(* ===== verification/Vault_Storage.thy ===== *)
theory Vault_Storage
  imports Records Store_Spec
begin

text \<open>
  The database of the vault, \<open>src/storage.rs\<close>: records of passwords and one-time passwords under the hash
  of their names, bookmarks under increasing keys, photos and settings. Each kind has a PDDB dictionary
  of its own; a call may name a basis. The PDDB is a parameter: per dictionary and basis the calls of
  \<open>Store\<close>, and the calls only the vault makes. The clock is an argument of the operations.
\<close>

section \<open>The database\<close>

record 'p vault_db =
  vdict :: "string \<Rightarrow> string option \<Rightarrow> 'p pddb"
  vwrite :: "string \<Rightarrow> string option \<Rightarrow> string \<Rightarrow> bytes \<Rightarrow> 'p \<Rightarrow> (io_kind + nat) \<times> 'p"
  vbasis :: "string \<Rightarrow> string \<Rightarrow> 'p \<Rightarrow> string"
  vsha :: "bytes \<Rightarrow> bytes"

text \<open>
  What is documented for a device with one open basis: the dictionaries are maps, and \<open>write\<close> on a fresh
  handle writes the whole payload at the beginning of the record, which it does not truncate.
\<close>

definition vault_db_ok :: "'p vault_db \<Rightarrow> ('p \<Rightarrow> string \<Rightarrow> string \<Rightarrow> bytes option) \<Rightarrow> bool" where
  "vault_db_ok V view \<longleftrightarrow>
     (\<forall>d b. pddb_map (vdict V d b) (\<lambda>p. view p d)) \<and>
     (\<forall>d b k v p old. view p d k = Some old \<longrightarrow>
        (\<exists>p'. vwrite V d b k v p = (Inr (length v), p') \<and> view p' d = (view p d)(k \<mapsto> v @ drop (length v) old)))"

datatype vault_error = IoError io_kind | TotpSerError totp_error | PasswordSerError password_error | KeyExists
  | DupesExist "nat list"

type_synonym ('p, 'a) vault_op = "('p, vault_error, 'a) op"

definition io :: "('p \<Rightarrow> (io_kind + 'a) \<times> 'p) \<Rightarrow> ('p, 'a) vault_op" where
  "io f = (\<lambda>p. let (r, p) = f p in (map_sum IoError id r, p))"

definition io_read :: "('p \<Rightarrow> io_kind + 'a) \<Rightarrow> ('p, 'a) vault_op" where
  "io_read f = slift (\<lambda>p. map_sum IoError id (f p))"

definition pddb_exists :: "'p vault_db \<Rightarrow> string \<Rightarrow> string \<Rightarrow> string option \<Rightarrow> 'p \<Rightarrow> bool" where
  "pddb_exists V d k b p = (case open_key (vdict V d b) k p of Inr _ \<Rightarrow> True | Inl _ \<Rightarrow> False)"

text \<open>The result of the final \<open>sync\<close> is ignored, as is the number of bytes \<open>write\<close> reports.\<close>

definition pddb_store :: "'p vault_db \<Rightarrow> bytes \<Rightarrow> string \<Rightarrow> string \<Rightarrow> string option \<Rightarrow> bool \<Rightarrow> ('p, unit) vault_op" where
  "pddb_store V pl d k b overwrite = (\<lambda>p.
     if \<not> overwrite \<and> pddb_exists V d k b p then (Inl KeyExists, p)
     else sbind (io (create_key (vdict V d b) k)) (\<lambda>_. sbind (io (vwrite V d b k pl)) (\<lambda>_. sret ())) p)"

definition pddb_get :: "'p vault_db \<Rightarrow> string \<Rightarrow> string \<Rightarrow> ('p, bytes) vault_op" where
  "pddb_get V d k =
     sbind (io_read (open_key (vdict V d None) k)) (\<lambda>_. io_read (read_to_end (vdict V d None) k))"

definition basis_for_key :: "'p vault_db \<Rightarrow> string \<Rightarrow> string \<Rightarrow> ('p, string) vault_op" where
  "basis_for_key V d k = sbind (io_read (open_key (vdict V d None) k)) (\<lambda>_ p. (Inr (vbasis V d k p), p))"

section \<open>Records\<close>

text \<open>The implementations of \<open>StorageContent\<close>.\<close>

datatype vault_content = TotpContent totp_record | PasswordContent password_record

datatype content_kind = TotpKind | PasswordKind

definition vault_totp_dict :: string where "vault_totp_dict = ''vault.totp''"
definition vault_password_dict :: string where "vault_password_dict = ''vault.passwords''"

fun kind_of :: "vault_content \<Rightarrow> content_kind" where
  "kind_of (TotpContent _) = TotpKind"
| "kind_of (PasswordContent _) = PasswordKind"

fun dict_of :: "content_kind \<Rightarrow> string" where
  "dict_of TotpKind = vault_totp_dict"
| "dict_of PasswordKind = vault_password_dict"

fun set_ctime :: "u64 \<Rightarrow> vault_content \<Rightarrow> vault_content" where
  "set_ctime t (TotpContent r) = TotpContent (r\<lparr>tr_ctime := t\<rparr>)"
| "set_ctime t (PasswordContent r) = PasswordContent (r\<lparr>pr_ctime := t\<rparr>)"

fun content_to_vec :: "vault_content \<Rightarrow> bytes" where
  "content_to_vec (TotpContent r) = totp_to_vec r"
| "content_to_vec (PasswordContent r) = password_to_vec r"

fun content_from_vec :: "content_kind \<Rightarrow> bytes \<Rightarrow> vault_error + vault_content" where
  "content_from_vec TotpKind bs = map_sum TotpSerError TotpContent (totp_from_vec bs)"
| "content_from_vec PasswordKind bs = map_sum PasswordSerError PasswordContent (password_from_vec bs)"

definition content_key :: "'p vault_db \<Rightarrow> vault_content \<Rightarrow> string" where
  "content_key V c =
     chars_of (hex_upper (case c of TotpContent r \<Rightarrow> totp_hash (vsha V) r | PasswordContent r \<Rightarrow> password_hash (vsha V) r))"

text \<open>The creation time is written into the caller's record as well.\<close>

definition new_record ::
  "'p vault_db \<Rightarrow> u64 \<Rightarrow> vault_content \<Rightarrow> string option \<Rightarrow> bool \<Rightarrow> ('p, vault_content) vault_op" where
  "new_record V now c b overwrite =
     (let c = set_ctime now c
      in sbind (pddb_store V (content_to_vec c) (dict_of (kind_of c)) (content_key V c) b overwrite) (\<lambda>_. sret c))"

text \<open>\<open>new_records\<close> goes on after a record that exists and reports the indices of all of them at the end.\<close>

fun store_records ::
  "'p vault_db \<Rightarrow> u64 \<Rightarrow> vault_content list \<Rightarrow> string option \<Rightarrow> bool \<Rightarrow> nat \<Rightarrow> nat list \<Rightarrow> ('p, nat list) vault_op" where
  "store_records V now [] b overwrite i dupes p = (Inr dupes, p)"
| "store_records V now (c # cs) b overwrite i dupes p =
     (case new_record V now c b overwrite p of
        (Inr _, p) \<Rightarrow> store_records V now cs b overwrite (Suc i) dupes p
      | (Inl KeyExists, p) \<Rightarrow> store_records V now cs b overwrite (Suc i) (dupes @ [i]) p
      | (Inl e, p) \<Rightarrow> (Inl e, p))"

definition new_records ::
  "'p vault_db \<Rightarrow> u64 \<Rightarrow> vault_content list \<Rightarrow> string option \<Rightarrow> bool \<Rightarrow> ('p, unit) vault_op" where
  "new_records V now cs b overwrite =
     sbind (store_records V now cs b overwrite 0 []) (\<lambda>dupes. if dupes \<noteq> [] then sfail (DupesExist dupes) else sret ())"

definition get_record :: "'p vault_db \<Rightarrow> content_kind \<Rightarrow> string \<Rightarrow> ('p, vault_content) vault_op" where
  "get_record V kind k = sbind (pddb_get V (dict_of kind) k) (\<lambda>bs. slift (\<lambda>_. content_from_vec kind bs))"

fun get_records :: "'p vault_db \<Rightarrow> content_kind \<Rightarrow> string list \<Rightarrow> ('p, vault_content list) vault_op" where
  "get_records V kind [] = sret []"
| "get_records V kind (k # ks) =
     sbind (get_record V kind k) (\<lambda>c. sbind (get_records V kind ks) (\<lambda>cs. sret (c # cs)))"

definition all_records :: "'p vault_db \<Rightarrow> content_kind \<Rightarrow> ('p, vault_content list) vault_op" where
  "all_records V kind = sbind (io_read (list_keys (vdict V (dict_of kind) None))) (get_records V kind)"

definition update_record :: "'p vault_db \<Rightarrow> u64 \<Rightarrow> content_kind \<Rightarrow> string \<Rightarrow> vault_content \<Rightarrow> ('p, vault_content) vault_op" where
  "update_record V now kind k c =
     sbind (basis_for_key V (dict_of kind) k) (\<lambda>b.
     sbind (io (delete_key (vdict V (dict_of kind) (Some b)) k)) (\<lambda>_.
       new_record V now c (Some b) True))"

definition delete_record :: "'p vault_db \<Rightarrow> content_kind \<Rightarrow> string \<Rightarrow> ('p, unit) vault_op" where
  "delete_record V kind k =
     sbind (basis_for_key V (dict_of kind) k) (\<lambda>b. io (delete_key (vdict V (dict_of kind) (Some b)) k))"

section \<open>Bookmarks\<close>

datatype bookmark_error = BookmarkIo io_kind | ParseError | CounterCorrupt

type_synonym ('p, 'a) bookmark_op = "('p, bookmark_error, 'a) op"

record bookmark =
  bm_key :: string
  bm_url :: bytes
  bm_label :: bytes
  bm_timestamp :: u64

definition bookmarks_dict :: string where "bookmarks_dict = ''vault.bookmarks''"
definition counter_key :: string where "counter_key = ''__counter__''"

definition bm_io :: "('p \<Rightarrow> (io_kind + 'a) \<times> 'p) \<Rightarrow> ('p, 'a) bookmark_op" where
  "bm_io f = (\<lambda>p. let (r, p) = f p in (map_sum BookmarkIo id r, p))"

text \<open>The UTF-8 forms of the characters \<open>trim\<close> removes.\<close>

definition whitespace :: "bytes list" where
  "whitespace = map (\<lambda>b. [b]) [9, 10, 11, 12, 13, 32] @ [[0xC2, 0x85], [0xC2, 0xA0], [0xE1, 0x9A, 0x80]] @
     map (\<lambda>b. [0xE2, 0x80, b]) [0x80, 0x81, 0x82, 0x83, 0x84, 0x85, 0x86, 0x87, 0x88, 0x89, 0x8A, 0xA8, 0xA9, 0xAF] @
     [[0xE2, 0x81, 0x9F], [0xE3, 0x80, 0x80]]"

definition strip_one :: "bytes list \<Rightarrow> bytes \<Rightarrow> bytes option" where
  "strip_one ws s = map_option (\<lambda>w. drop (length w) s) (find (\<lambda>w. w \<noteq> [] \<and> take (length w) s = w) ws)"

lemma strip_one_shorter: "strip_one ws s = Some r \<Longrightarrow> length r < length s"
proof -
  assume "strip_one ws s = Some r"
  then obtain w where "r = drop (length w) s" "w \<noteq> []" "take (length w) s = w"
    by (auto simp: strip_one_def find_Some_iff)
  moreover from this have "s \<noteq> []" by (cases s) auto
  ultimately show ?thesis by (cases w) auto
qed

function strip :: "bytes list \<Rightarrow> bytes \<Rightarrow> bytes" where
  "strip ws s = (case strip_one ws s of None \<Rightarrow> s | Some r \<Rightarrow> strip ws r)"
  by pat_completeness auto
termination strip
  by (relation "measure (\<lambda>(ws, s). length s)") (auto dest: strip_one_shorter)

declare strip.simps [simp del]

definition trim :: "bytes \<Rightarrow> bytes" where
  "trim s = rev (strip (map rev whitespace) (rev (strip whitespace s)))"

fun lower_hex :: "nat \<Rightarrow> u8" where
  "lower_hex n = of_nat (if n < 10 then 48 + n else 87 + n)"

function hex_lower :: "nat \<Rightarrow> bytes" where
  "hex_lower n = (if n < 16 then [lower_hex n] else hex_lower (n div 16) @ [lower_hex (n mod 16)])"
  by pat_completeness auto
termination hex_lower
  by (relation "measure id") auto

declare hex_lower.simps [simp del]

fun hex_digits_value :: "nat \<Rightarrow> bytes \<Rightarrow> nat option" where
  "hex_digits_value acc [] = Some acc"
| "hex_digits_value acc (b # bs) =
     (case hex_value b of None \<Rightarrow> None | Some d \<Rightarrow> hex_digits_value (acc * 16 + d) bs)"

text \<open>\<open>u64::from_str_radix(s, 16)\<close>\<close>

definition parse_hex_u64 :: "bytes \<Rightarrow> u64 option" where
  "parse_hex_u64 s =
     (let ds = (case s of b # r \<Rightarrow> if b = 43 \<and> r \<noteq> [] then r else s | [] \<Rightarrow> s)
      in if ds = [] then None
         else case hex_digits_value 0 ds of
                Some v \<Rightarrow> if v < 2 ^ 64 then Some (of_nat v) else None
              | None \<Rightarrow> None)"

definition bookmark_counter :: "'p vault_db \<Rightarrow> 'p \<Rightarrow> bookmark_error + u64" where
  "bookmark_counter V p =
     (let D = vdict V bookmarks_dict None
      in case open_key D counter_key p of
           Inr _ \<Rightarrow>
             rbind (map_sum BookmarkIo id (read_to_end D counter_key p)) (\<lambda>bs.
               if \<not> utf8_valid bs then Inl CounterCorrupt else ok_or (parse_hex_u64 (trim bs)) CounterCorrupt)
         | Inl NotFound \<Rightarrow> Inr 0
         | Inl e \<Rightarrow> Inl (BookmarkIo e))"

definition write_key :: "'p vault_db \<Rightarrow> string \<Rightarrow> bytes \<Rightarrow> ('p, unit) bookmark_op" where
  "write_key V k bs =
     (let D = vdict V bookmarks_dict None in sbind (bm_io (create_key D k)) (\<lambda>_. bm_io (write_all D k bs)))"

definition bookmark_key :: "u64 \<Rightarrow> string" where
  "bookmark_key n = chars_of (zero_padded 16 (hex_lower (unat n)))"

definition bookmark_next_key :: "'p vault_db \<Rightarrow> ('p, string) bookmark_op" where
  "bookmark_next_key V =
     sbind (slift (bookmark_counter V)) (\<lambda>current.
       let n = current + 1
       in sbind (write_key V counter_key (hex_lower (unat n))) (\<lambda>_. sret (bookmark_key n)))"

definition bookmark_store :: "'p vault_db \<Rightarrow> u64 \<Rightarrow> bytes \<Rightarrow> bytes \<Rightarrow> ('p, string) bookmark_op" where
  "bookmark_store V now url label =
     sbind (bookmark_next_key V) (\<lambda>k.
     sbind (write_key V k (url @ 10 # label @ 10 # display (unat now))) (\<lambda>_. sret k))"

text \<open>\<open>splitn(3, '\n')\<close>\<close>

definition parse_bookmark_body :: "string \<Rightarrow> bytes \<Rightarrow> bookmark_error + bookmark" where
  "parse_bookmark_body k bs =
     (if \<not> utf8_valid bs then Inl ParseError
      else case split_once 10 bs of
             None \<Rightarrow> Inl ParseError
           | Some (url, r) \<Rightarrow>
               (case split_once 10 r of
                  None \<Rightarrow> Inl ParseError
                | Some (label, ts) \<Rightarrow>
                    rbind (ok_or (parse_u64 (trim ts)) ParseError) (\<lambda>t.
                      Inr \<lparr>bm_key = k, bm_url = url, bm_label = label, bm_timestamp = t\<rparr>)))"

definition bookmark_get :: "'p vault_db \<Rightarrow> string \<Rightarrow> 'p \<Rightarrow> bookmark_error + bookmark" where
  "bookmark_get V k p =
     (let D = vdict V bookmarks_dict None
      in rbind (map_sum BookmarkIo id (open_key D k p)) (\<lambda>_.
         rbind (map_sum BookmarkIo id (read_to_end D k p)) (parse_bookmark_body k)))"

definition bookmark_delete :: "'p vault_db \<Rightarrow> string \<Rightarrow> 'p \<Rightarrow> (io_kind + unit) \<times> 'p" where
  "bookmark_delete V k = delete_key (vdict V bookmarks_dict None) k"

end
