(* ===== verification/Record_Props.thy ===== *)
theory Record_Props
  imports Records
begin

text \<open>
  Records survive their text form when their strings have no line break, and what goes wrong when one
  has: the rest of the line is read as further fields. The code shown for a list entry is the one of
  the record it was made from.
\<close>

section \<open>Round trips\<close>

definition clean :: "bytes \<Rightarrow> bool" where
  "clean s \<longleftrightarrow> 10 \<notin> set s \<and> utf8_valid s"

lemma on_line_tagged: "58 \<notin> set (utf8 tag) \<Longrightarrow> on_line f r (tagged tag d) = f r (utf8 tag) d"
  by (simp add: on_line_def split_tagged)

lemma on_line_Nil [simp]: "on_line f r [] = Inr r"
  by (simp add: on_line_def split_once_def)

lemma fold_lines_vec:
  assumes "list_all (\<lambda>l. 10 \<notin> set l) ls"
  shows "fold_lines (on_line f) (split_on 10 (lines_to_vec ls)) r = fold_lines (on_line f) ls r"
proof -
  have "split_on 10 (lines_to_vec ls) = ls @ [[]]"
    using split_on_lines [OF assms, of "[]"] by (simp add: lines_to_vec_def)
  then show ?thesis
    by (simp add: fold_lines_append) (cases "fold_lines (on_line f) ls r"; simp)
qed

lemma utf8_valid_lines: "list_all utf8_valid ls \<Longrightarrow> utf8_valid (lines_to_vec ls)"
  unfolding lines_to_vec_def
  by (rule utf8_valid_concat) (auto simp: list_all_iff utf8_valid_append utf8_valid_ascii)

lemma clean_simps [simp]:
  "clean (display n)" "clean (display_algorithm a)"
  by (simp add: clean_def display_ascii)
     (cases a; simp add: clean_def utf8_def utf8_valid_def)

lemma parse_words [simp]:
  "parse_u32 (display (unat v)) = Some v" "parse_u64 (display (unat w)) = Some w"
  "parse_u8 (display 0) = Some 0" "parse_u8 (display 1) = Some 1" "parse_u8 (display (Suc 0)) = Some 1"
proof -
  have "unat v < 2 ^ 32" "unat w < 2 ^ 64"
    using unsigned_less [of v, where 'a = nat] unsigned_less [of w, where 'a = nat] by simp_all
  then show "parse_u32 (display (unat v)) = Some v" "parse_u64 (display (unat w)) = Some w"
    by (simp_all add: parse_u32_def parse_u64_def parse_dec_display)
  show "parse_u8 (display 0) = Some 0" "parse_u8 (display 1) = Some 1" "parse_u8 (display (Suc 0)) = Some 1"
    using parse_dec_display [of 0 8] parse_dec_display [of 1 8] by (simp_all add: parse_u8_def)
qed

text \<open>The algorithm \<open>None\<close> is read as SHA-1.\<close>

definition read_algorithm :: "totp_algorithm \<Rightarrow> totp_algorithm" where
  "read_algorithm a = (if a = NoAlgorithm then HmacSha1 else a)"

lemma algorithm_of_display [simp]: "algorithm_of_str (display_algorithm a) = Some (read_algorithm a)"
  by (cases a) (simp_all add: algorithm_of_str_def utf8_def read_algorithm_def)

lemma utf8_tags [simp]:
  "58 \<notin> set (utf8 ''version'')" "58 \<notin> set (utf8 ''secret'')" "58 \<notin> set (utf8 ''name'')" "58 \<notin> set (utf8 ''algorithm'')"
  "58 \<notin> set (utf8 ''notes'')" "58 \<notin> set (utf8 ''digits'')" "58 \<notin> set (utf8 ''timestep'')" "58 \<notin> set (utf8 ''hotp'')"
  "58 \<notin> set (utf8 ''ctime'')" "58 \<notin> set (utf8 ''description'')" "58 \<notin> set (utf8 ''username'')" "58 \<notin> set (utf8 ''password'')"
  "58 \<notin> set (utf8 ''atime'')" "58 \<notin> set (utf8 ''count'')"
  by (simp_all add: utf8_def)

lemma totp_fields:
  "totp_field r (utf8 ''version'') d = rbind (ok_or (parse_u32 d) BadTotpVersion) (\<lambda>v. Inr (r\<lparr>tr_version := v\<rparr>))"
  "totp_field r (utf8 ''secret'') d = Inr (r\<lparr>tr_secret := tr_secret r @ d\<rparr>)"
  "totp_field r (utf8 ''name'') d = Inr (r\<lparr>tr_name := tr_name r @ d\<rparr>)"
  "totp_field r (utf8 ''algorithm'') d = rbind (ok_or (algorithm_of_str d) BadAlgorithm) (\<lambda>a. Inr (r\<lparr>tr_algorithm := a\<rparr>))"
  "totp_field r (utf8 ''notes'') d = Inr (r\<lparr>tr_notes := tr_notes r @ d\<rparr>)"
  "totp_field r (utf8 ''digits'') d = rbind (ok_or (parse_u32 d) BadDigitsAmount) (\<lambda>v. Inr (r\<lparr>tr_digits := v\<rparr>))"
  "totp_field r (utf8 ''timestep'') d = rbind (ok_or (parse_u64 d) BadTimestep) (\<lambda>v. Inr (r\<lparr>tr_timestep := v\<rparr>))"
  "totp_field r (utf8 ''hotp'') d = rbind (ok_or (parse_u8 d) BadHotp) (\<lambda>v. Inr (r\<lparr>tr_hotp := (v \<noteq> 0)\<rparr>))"
  "totp_field r (utf8 ''ctime'') d = rbind (ok_or (parse_u64 d) BadTotpCtime) (\<lambda>v. Inr (r\<lparr>tr_ctime := v\<rparr>))"
  by (simp_all add: totp_field_def utf8_def)

lemma password_fields:
  "password_field r (utf8 ''version'') d = rbind (ok_or (parse_u32 d) BadPasswordVersion) (\<lambda>v. Inr (r\<lparr>pr_version := v\<rparr>))"
  "password_field r (utf8 ''description'') d = Inr (r\<lparr>pr_description := pr_description r @ d\<rparr>)"
  "password_field r (utf8 ''username'') d = Inr (r\<lparr>pr_username := pr_username r @ d\<rparr>)"
  "password_field r (utf8 ''password'') d = Inr (r\<lparr>pr_password := pr_password r @ d\<rparr>)"
  "password_field r (utf8 ''notes'') d = Inr (r\<lparr>pr_notes := pr_notes r @ d\<rparr>)"
  "password_field r (utf8 ''ctime'') d = rbind (ok_or (parse_u64 d) BadPasswordCtime) (\<lambda>v. Inr (r\<lparr>pr_ctime := v\<rparr>))"
  "password_field r (utf8 ''atime'') d = rbind (ok_or (parse_u64 d) BadAtime) (\<lambda>v. Inr (r\<lparr>pr_atime := v\<rparr>))"
  "password_field r (utf8 ''count'') d = rbind (ok_or (parse_u64 d) BadCount) (\<lambda>v. Inr (r\<lparr>pr_count := v\<rparr>))"
  by (simp_all add: password_field_def utf8_def)

lemma clean_tagged: "clean (utf8 tag) \<Longrightarrow> clean d \<Longrightarrow> clean (tagged tag d)"
  by (simp add: clean_def newline_tagged valid_tagged)

lemma clean_tags [simp]:
  "clean (utf8 ''version'')" "clean (utf8 ''secret'')" "clean (utf8 ''name'')" "clean (utf8 ''algorithm'')"
  "clean (utf8 ''notes'')" "clean (utf8 ''digits'')" "clean (utf8 ''timestep'')" "clean (utf8 ''hotp'')"
  "clean (utf8 ''ctime'')" "clean (utf8 ''description'')" "clean (utf8 ''username'')" "clean (utf8 ''password'')"
  "clean (utf8 ''atime'')" "clean (utf8 ''count'')"
  by (simp_all add: clean_def utf8_def utf8_valid_def)

lemma clean_lines: "list_all clean ls \<Longrightarrow> list_all (\<lambda>l. 10 \<notin> set l) ls \<and> utf8_valid (lines_to_vec ls)"
  using utf8_valid_lines [of ls] by (auto simp: list_all_iff clean_def)

lemma totp_lines_read:
  "fold_lines (on_line totp_field) (totp_lines r) default_totp_record =
     Inr (r\<lparr>tr_algorithm := read_algorithm (tr_algorithm r)\<rparr>)"
  by (simp add: totp_lines_def on_line_tagged totp_fields default_totp_record_def)

lemma totp_round_trip_ok:
  assumes "clean (tr_secret r)" "clean (tr_name r)" "clean (tr_notes r)"
  shows "totp_from_vec (totp_to_vec r) = Inr (r\<lparr>tr_algorithm := read_algorithm (tr_algorithm r)\<rparr>)"
proof -
  have "list_all clean (totp_lines r)"
    using assms by (simp add: totp_lines_def clean_tagged)
  from clean_lines [OF this] show ?thesis
    by (simp add: totp_from_vec_def totp_to_vec_def fold_lines_vec totp_lines_read)
qed

lemma password_lines_read:
  "fold_lines (on_line password_field) (password_lines r) cleared_password_record = Inr r"
  by (simp add: password_lines_def on_line_tagged password_fields cleared_password_record_def)

lemma password_round_trip_ok:
  assumes "clean (pr_description r)" "clean (pr_username r)" "clean (pr_password r)" "clean (pr_notes r)"
  shows "password_from_vec (password_to_vec r) = Inr r"
proof -
  have "list_all clean (password_lines r)"
    using assms by (simp add: password_lines_def clean_tagged)
  from clean_lines [OF this] show ?thesis
    by (simp add: password_from_vec_def password_to_vec_def fold_lines_vec password_lines_read)
qed

text \<open>C28: a record of the vault is read back from its text form as it was written, when its strings have
  no line break; only the unset algorithm is read as SHA-1.\<close>

theorem vault_records_round_trip:
  assumes "clean (tr_secret t)" "clean (tr_name t)" "clean (tr_notes t)"
    and "clean (pr_description p)" "clean (pr_username p)" "clean (pr_password p)" "clean (pr_notes p)"
  shows "totp_from_vec (totp_to_vec t) = Inr (t\<lparr>tr_algorithm := read_algorithm (tr_algorithm t)\<rparr>) \<and>
    password_from_vec (password_to_vec p) = Inr p"
  using totp_round_trip_ok [OF assms(1-3)] password_round_trip_ok [OF assms(4-7)] by simp

section \<open>Line breaks\<close>

text \<open>What follows a line break in the name of a one-time password as \<open>secret:\<close> is appended to the secret when
  the record is read back, and the name ends before it.\<close>

lemma totp_name_injects:
  assumes "clean (tr_secret r)" "clean n" "clean s" "clean (tr_notes r)"
    and "tr_name r = n @ [10] @ utf8 ''secret:'' @ s"
  shows "totp_from_vec (totp_to_vec r) =
    Inr (r\<lparr>tr_algorithm := read_algorithm (tr_algorithm r), tr_name := n, tr_secret := tr_secret r @ s\<rparr>)"
proof -
  let ?r = "r\<lparr>tr_name := n\<rparr>"
  define ls where "ls = take 3 (totp_lines ?r) @ [tagged ''secret'' s] @ drop 3 (totp_lines ?r)"
  have vec: "totp_to_vec r = lines_to_vec ls"
    using assms(5) by (simp add: totp_to_vec_def ls_def lines_to_vec_def totp_lines_def tagged_def utf8_def)
  have "list_all clean ls"
    using assms by (simp add: ls_def totp_lines_def clean_tagged)
  from clean_lines [OF this] have "totp_from_vec (totp_to_vec r) = fold_lines (on_line totp_field) ls default_totp_record"
    by (simp add: totp_from_vec_def vec fold_lines_vec)
  then show ?thesis
    by (simp add: ls_def totp_lines_def on_line_tagged totp_fields default_totp_record_def)
qed

text \<open>Such a name comes from a URI whose label has an encoded line break.\<close>

definition plain_label :: "bytes \<Rightarrow> bool" where
  "plain_label s \<longleftrightarrow> 37 \<notin> set s \<and> 43 \<notin> set s \<and> 63 \<notin> set s \<and> clean s"

lemma url_decode_plain: "37 \<notin> set s \<Longrightarrow> 43 \<notin> set s \<Longrightarrow> url_decode (s @ t) = rbind (url_decode t) (\<lambda>x. Inr (s @ x))"
proof (induction s)
  case Nil
  then show ?case by (cases "url_decode t") simp_all
next
  case (Cons b s)
  then show ?case
    by (subst url_decode.simps) (cases "url_decode t"; simp)
qed

lemma url_decode_Nil [simp]: "url_decode [] = Inr []"
  by (simp add: url_decode.simps)

lemma encoded_newline: "url_decode (utf8 ''%0A'' @ t) = rbind (url_decode t) (\<lambda>x. Inr (10 # x))"
  by (subst url_decode.simps)
     (simp add: utf8_def next_two_chars_def next_char_def char_len_def parse_hex2_def hex_value_def byte_as_char_def Let_def)

lemma injected_label:
  assumes "plain_label n" "plain_label s"
  shows "url_decode (n @ utf8 ''%0Asecret:'' @ s) = Inr (n @ [10] @ utf8 ''secret:'' @ s)"
proof -
  have u: "utf8 ''%0Asecret:'' @ s = utf8 ''%0A'' @ (utf8 ''secret:'' @ s)" by (simp add: utf8_def)
  have "url_decode (utf8 ''secret:'' @ s) = Inr (utf8 ''secret:'' @ s)"
    using assms(2) url_decode_plain [of "utf8 ''secret:'' @ s" "[]"] by (simp add: plain_label_def) (simp add: utf8_def)
  then show ?thesis
    unfolding u using assms(1) url_decode_plain [of n] encoded_newline by (simp add: plain_label_def)
qed

text \<open>C29: importing a \<open>totp\<close> URI whose label has an encoded line break followed by \<open>secret:\<close> and more text gives a
  record with the secret of the query and a name of two lines; but once it was stored and read back, the
  name is the first line only and the text of the second is part of the secret.\<close>

theorem uri_name_injects:
  assumes run: "totp_from_uri (utf8 ''totp/'' @ n @ utf8 ''%0Asecret:'' @ s @ 63 # query) = Inr r"
    and plain: "plain_label n" "plain_label s" and rest: "clean (tr_secret r)" "clean (tr_notes r)"
  shows "(\<exists>params. parse_query query = Inr params \<and> params (utf8 ''secret'') = Some (tr_secret r)) \<and>
    tr_name r = n @ [10] @ utf8 ''secret:'' @ s \<and>
    totp_from_vec (totp_to_vec r) =
      Inr (r\<lparr>tr_algorithm := read_algorithm (tr_algorithm r), tr_name := n, tr_secret := tr_secret r @ s\<rparr>)"
proof -
  let ?label = "n @ utf8 ''%0Asecret:'' @ s"
  have slash: "split_once 47 (utf8 ''totp/'' @ n @ utf8 ''%0Asecret:'' @ s @ 63 # query) = Some (utf8 ''totp'', ?label @ 63 # query)"
    using split_once_part [of 47 "utf8 ''totp''" "?label @ 63 # query"] by (simp add: utf8_def)
  have mark: "split_once 63 (?label @ 63 # query) = Some (?label, query)"
    using plain by (intro split_once_part) (simp add: plain_label_def utf8_def)
  have t: "map ascii_lower (utf8 ''totp'') = utf8 ''totp''" "utf8 ''totp'' \<noteq> utf8 ''hotp''"
    by (simp_all add: utf8_def ascii_lower_def)
  obtain params where params: "parse_query query = Inr params" "params (utf8 ''secret'') = Some (tr_secret r)"
    "tr_name r = n @ [10] @ utf8 ''secret:'' @ s"
    using run unfolding totp_from_uri_def slash
    by (auto simp: mark [unfolded append_assoc] t injected_label [OF plain] Let_def rbind_Inr_iff ok_or_def split: option.splits if_splits)
  then show ?thesis
    using totp_name_injects [OF rest(1) _ _ rest(2) params(3)] plain by (simp add: plain_label_def)
qed

section \<open>Keys of passwords\<close>

text \<open>Two passwords whose description and username run together to the same string have the same key.\<close>

lemma password_keys_collide:
  "pr_description p @ pr_username p = pr_description q @ pr_username q \<Longrightarrow> password_hash sha p = password_hash sha q"
  by (simp add: password_hash_def)

section \<open>The code of a list entry\<close>

lemma list_entry_fields:
  assumes "58 \<notin> set (tr_secret r)"
  shows "split_on 58 (totp_item_extra r) = [tr_secret r, display (unat (tr_digits r)), display (unat (tr_timestep r)),
    display_algorithm (tr_algorithm r), if tr_hotp r then utf8 ''HOTP'' else utf8 ''TOTP'']"
proof -
  have "58 \<notin> set (display_algorithm a)" for a by (cases a) (simp_all add: utf8_def)
  moreover have "58 \<notin> set (utf8 ''HOTP'')" "58 \<notin> set (utf8 ''TOTP'')" by (simp_all add: utf8_def)
  ultimately show ?thesis
    using assms by (simp add: totp_item_extra_def split_on_part split_on_whole)
qed

text \<open>The code the vault shows for a list entry is the standard code of the stored record: of the
  current time step, or of the stored counter for a counter-based password.\<close>

theorem list_entry_code:
  assumes "otp_ok H" "58 \<notin> set (tr_secret r)" "base32_decode H (tr_secret r) = Some k"
    and "1 \<le> tr_digits r" "tr_digits r \<le> 19"
  shows "\<exists>s. db_str_to_code H now (totp_item_extra r) = Some (Inr s) \<and>
    is_code (unat (tr_digits r)) (truncated_hash (entry_hmac H (tr_algorithm r) k
      (if tr_hotp r then tr_timestep r else now div (if tr_timestep r = 0 then 1 else tr_timestep r)))) s"
proof -
  have d: "unat (tr_digits r) \<le> 19" "1 \<le> unat (tr_digits r)" using assms(4,5) by (simp_all add: word_le_nat_alt)
  let ?hotp = "tr_hotp r"
  define e where "e = \<lparr>step_seconds = (if ?hotp then 1 else tr_timestep r), shared_secret = k,
    digit_count = of_nat (unat (tr_digits r)), totp_alg = read_algorithm (tr_algorithm r)\<rparr>"
  have digits: "unat (digit_count e) = unat (tr_digits r)"
    using d by (simp add: e_def unsigned_ucast_eq take_bit_nat_eq_self_iff)
  have "map ascii_upper (if ?hotp then utf8 ''HOTP'' else utf8 ''TOTP'') = utf8 ''HOTP'' \<longleftrightarrow> ?hotp"
    by (simp add: ascii_upper_def utf8_def)
  moreover have "parse_dec 8 (display (unat (tr_digits r))) = Some (unat (tr_digits r))"
    "parse_dec 64 (display (unat (tr_timestep r))) = Some (unat (tr_timestep r))"
    using d unsigned_less [of "tr_timestep r", where 'a = nat] by (simp_all add: parse_dec_display)
  ultimately have run: "db_str_to_code H now (totp_item_extra r) =
      map_option Inr (generate_totp_code H (if ?hotp then tr_timestep r else now) e)"
    using assms(3) by (simp add: db_str_to_code_def list_entry_fields [OF assms(2)] Let_def or_default_def e_def)
  have a: "totp_alg e \<noteq> NoAlgorithm" by (simp add: e_def read_algorithm_def)
  have e: "1 \<le> digit_count e" "digit_count e \<le> 19" using d digits by (simp_all add: word_le_nat_alt)
  obtain s where s: "generate_totp_code H (if ?hotp then tr_timestep r else now) e = Some s"
    "is_code (unat (digit_count e)) (truncated_hash (entry_hmac H (totp_alg e) (shared_secret e)
      ((if ?hotp then tr_timestep r else now) div checked_step e))) s"
    using generate_ok [OF assms(1) a e(1,2)] by blast
  have h: "entry_hmac H (totp_alg e) (shared_secret e) = entry_hmac H (tr_algorithm r) k"
    by (cases "tr_algorithm r") (simp_all add: entry_hmac_def read_algorithm_def e_def fun_eq_iff)
  have step: "(if ?hotp then tr_timestep r else now) div checked_step e =
      (if ?hotp then tr_timestep r else now div (if tr_timestep r = 0 then 1 else tr_timestep r))"
    by (simp add: checked_step_def e_def)
  have "db_str_to_code H now (totp_item_extra r) = Some (Inr s)" by (simp add: run s(1))
  with s(2) [unfolded digits h step] show ?thesis by blast
qed

section \<open>Examples\<close>

definition toy_otp :: otp_primitives where
  "toy_otp = \<lparr>hmac_sha1 = (\<lambda>k m. take 20 (m @ k @ replicate 20 1)), hmac_sha256 = (\<lambda>k m. take 32 (m @ k @ replicate 32 1)),
     hmac_sha512 = (\<lambda>k m. take 64 (m @ k @ replicate 64 1)), base32_decode = Some\<rparr>"

lemma toy_otp_ok: "otp_ok toy_otp"
  by (auto simp: otp_ok_def toy_otp_def min_def)

definition toy_totp :: totp_record where
  "toy_totp = default_totp_record\<lparr>tr_version := 2, tr_secret := utf8 ''JBSWY3DP'', tr_name := utf8 ''bank'', tr_digits := 6,
     tr_timestep := 30\<rparr>"

lemma toy_clean: "clean (tr_secret toy_totp)" "clean (tr_name toy_totp)" "clean (tr_notes toy_totp)" "clean []"
  by (simp_all add: toy_totp_def clean_def utf8_def utf8_valid_def default_totp_record_def)

lemma totp_code_standard_witness:
  "\<exists>s. generate_totp_code toy_otp 1000 \<lparr>step_seconds = 30, shared_secret = [1, 2, 3], digit_count = 6, totp_alg = HmacSha1\<rparr> = Some s \<and>
     length s = 6"
  using totp_code_standard [OF toy_otp_ok, of "\<lparr>step_seconds = 30, shared_secret = [1, 2, 3], digit_count = 6, totp_alg = HmacSha1\<rparr>" 1000]
  by (auto simp: is_code_def)

lemma vault_records_round_trip_witness:
  "totp_from_vec (totp_to_vec toy_totp) = Inr (toy_totp\<lparr>tr_algorithm := HmacSha1\<rparr>) \<and>
   password_from_vec (password_to_vec cleared_password_record) = Inr cleared_password_record"
  using vault_records_round_trip [OF toy_clean(1-3), of cleared_password_record] toy_clean(4)
  by (simp add: cleared_password_record_def read_algorithm_def) (simp add: toy_totp_def default_totp_record_def)

lemma uri_name_injects_witness:
  "\<exists>r. totp_from_uri (utf8 ''totp/bank%0Asecret:AAAA?secret=JBSWY3DP'') = Inr r \<and> tr_secret r = utf8 ''JBSWY3DP'' \<and>
     totp_from_vec (totp_to_vec r) =
       Inr (r\<lparr>tr_algorithm := HmacSha1, tr_name := utf8 ''bank'', tr_secret := utf8 ''JBSWY3DPAAAA''\<rparr>)"
proof -
  let ?q = "utf8 ''secret=JBSWY3DP''"
  have q: "parse_query ?q = Inr [utf8 ''secret'' \<mapsto> utf8 ''JBSWY3DP'']"
  proof -
    have "split_on 38 ?q = [?q]" by (rule split_on_whole) (simp add: utf8_def)
    moreover have "split_once 61 ?q = Some (utf8 ''secret'', utf8 ''JBSWY3DP'')"
      using split_once_part [of 61 "utf8 ''secret''" "utf8 ''JBSWY3DP''"] by (simp add: utf8_def)
    moreover have "url_decode (utf8 ''JBSWY3DP'') = Inr (utf8 ''JBSWY3DP'')"
      using url_decode_plain [of "utf8 ''JBSWY3DP''" "[]"] by (simp add: utf8_def)
    ultimately show ?thesis by (simp add: parse_query_def query_pair_def)
  qed
  have plain: "plain_label (utf8 ''bank'')" "plain_label (utf8 ''AAAA'')"
    by (simp_all add: plain_label_def clean_def utf8_def utf8_valid_def)
  let ?label = "utf8 ''bank'' @ utf8 ''%0Asecret:'' @ utf8 ''AAAA''"
  have uri: "utf8 ''totp/bank%0Asecret:AAAA?secret=JBSWY3DP'' = utf8 ''totp/'' @ utf8 ''bank'' @ utf8 ''%0Asecret:'' @ utf8 ''AAAA'' @ 63 # ?q"
    by (simp add: utf8_def)
  have slash: "split_once 47 (utf8 ''totp/'' @ ?label @ 63 # ?q) = Some (utf8 ''totp'', ?label @ 63 # ?q)"
    using split_once_part [of 47 "utf8 ''totp''" "?label @ 63 # ?q"] by (simp add: utf8_def)
  have mark: "split_once 63 (?label @ 63 # ?q) = Some (?label, ?q)"
    by (intro split_once_part) (simp add: utf8_def)
  have t: "map ascii_lower (utf8 ''totp'') = utf8 ''totp''" "utf8 ''totp'' \<noteq> utf8 ''hotp''"
    "utf8 ''algorithm'' \<noteq> utf8 ''secret''" "utf8 ''digits'' \<noteq> utf8 ''secret''" "utf8 ''period'' \<noteq> utf8 ''secret''"
    "utf8 ''issuer'' \<noteq> utf8 ''secret''"
    by (simp_all add: utf8_def ascii_lower_def)
  define r where "r = default_totp_record\<lparr>tr_hotp := False, tr_name := utf8 ''bank'' @ [10] @ utf8 ''secret:'' @ utf8 ''AAAA'',
    tr_secret := utf8 ''JBSWY3DP'', tr_algorithm := NoAlgorithm, tr_digits := 6, tr_timestep := 30, tr_notes := []\<rparr>"
  have run: "totp_from_uri (utf8 ''totp/'' @ utf8 ''bank'' @ utf8 ''%0Asecret:'' @ utf8 ''AAAA'' @ 63 # ?q) = Inr r"
    using slash mark injected_label [OF plain]
    by (simp add: totp_from_uri_def t q uri_number_def or_default_def r_def)
  have clean: "clean (tr_secret r)" "clean (tr_notes r)"
    by (simp_all add: r_def clean_def utf8_def utf8_valid_def)
  have "tr_secret r @ utf8 ''AAAA'' = utf8 ''JBSWY3DPAAAA''" "tr_secret r = utf8 ''JBSWY3DP''" "read_algorithm (tr_algorithm r) = HmacSha1"
    by (simp_all add: r_def utf8_def read_algorithm_def)
  then show ?thesis
    using uri_name_injects [OF run plain clean] run unfolding uri by metis
qed

lemma list_entry_code_witness:
  "\<exists>s. db_str_to_code toy_otp 1000 (totp_item_extra toy_totp) = Some (Inr s) \<and> length s = 6"
proof -
  have t: "58 \<notin> set (tr_secret toy_totp)" "base32_decode toy_otp (tr_secret toy_totp) = Some (utf8 ''JBSWY3DP'')"
    "1 \<le> tr_digits toy_totp" "tr_digits toy_totp \<le> 19" "unat (tr_digits toy_totp) = 6"
    by (simp_all add: toy_totp_def default_totp_record_def toy_otp_def utf8_def)
  from list_entry_code [OF toy_otp_ok t(1-4), of 1000] show ?thesis
    by (auto simp: is_code_def t(5))
qed

end
