(* ===== verification/Vault_Props.thy ===== *)
theory Vault_Props
  imports Vault_Storage Record_Props
begin

text \<open>
  The records of the vault are a map from keys to records: what is stored, listed, updated and deleted,
  as long as a record is new or its old version is deleted first. \<open>record_store\<close> is the contract the
  restoring of a backup relies on.
\<close>

section \<open>The contract\<close>

locale record_store =
  fixes new_rec :: "'c \<Rightarrow> 'p \<Rightarrow> ('e + 'c) \<times> 'p"
    and all_recs :: "'p \<Rightarrow> ('e + 'c list) \<times> 'p"
    and has :: "('k \<rightharpoonup> 'c) \<Rightarrow> 'p \<Rightarrow> bool"
    and key :: "'c \<Rightarrow> 'k"
    and stamp :: "'c \<Rightarrow> 'c"
    and good :: "'c \<Rightarrow> bool"
    and taken :: 'e
  assumes new: "has m p \<Longrightarrow> good c \<Longrightarrow> m (key c) = None \<Longrightarrow>
      \<exists>p'. new_rec c p = (Inr (stamp c), p') \<and> has (m(key c \<mapsto> stamp c)) p'"
    and exists: "has m p \<Longrightarrow> good c \<Longrightarrow> m (key c) \<noteq> None \<Longrightarrow> new_rec c p = (Inl taken, p)"
    and all: "has m p \<Longrightarrow> \<exists>ks. distinct ks \<and> set ks = dom m \<and> all_recs p = (Inr (map (\<lambda>k. the (m k)) ks), p)"
begin

text \<open>What a list of records leaves behind: every key that was free gets its first record.\<close>

fun added :: "'c list \<Rightarrow> ('k \<rightharpoonup> 'c) \<Rightarrow> ('k \<rightharpoonup> 'c)" where
  "added [] m = m"
| "added (c # cs) m = added cs (if m (key c) = None then m(key c \<mapsto> stamp c) else m)"

fun taken_at :: "nat \<Rightarrow> 'c list \<Rightarrow> ('k \<rightharpoonup> 'c) \<Rightarrow> nat list" where
  "taken_at i [] m = []"
| "taken_at i (c # cs) m =
     (if m (key c) = None then taken_at (Suc i) cs (m(key c \<mapsto> stamp c)) else i # taken_at (Suc i) cs m)"

lemma added_keeps: "m k = Some c \<Longrightarrow> added cs m k = Some c"
proof (induction cs arbitrary: m)
  case (Cons d cs)
  then have "m (key d) = None \<longrightarrow> k \<noteq> key d" by auto
  then show ?case using Cons by simp
qed simp

lemma added_new:
  "distinct (map key cs) \<Longrightarrow> \<forall>c\<in>set cs. m (key c) = None \<Longrightarrow> c \<in> set cs \<Longrightarrow> added cs m (key c) = Some (stamp c)"
proof (induction cs arbitrary: m)
  case (Cons d cs)
  show ?case
  proof (cases "c = d")
    case True
    then show ?thesis using Cons.prems(2) by (simp add: added_keeps)
  next
    case False
    then have "c \<in> set cs" using Cons.prems(3) by simp
    moreover from this have "\<forall>c\<in>set cs. (m(key d \<mapsto> stamp d)) (key c) = None"
      using Cons.prems(1,2) by (auto simp: image_iff)
    ultimately show ?thesis
      using Cons.IH [of "m(key d \<mapsto> stamp d)"] Cons.prems(1,2) by (simp del: fun_upd_apply)
  qed
qed simp

lemma added_dom: "added cs m k = None \<longleftrightarrow> m k = None \<and> k \<notin> key ` set cs"
  by (induction cs arbitrary: m) auto

lemma added_at: "added cs m k = (case m k of Some c \<Rightarrow> Some c | None \<Rightarrow> map_option stamp (find (\<lambda>c. key c = k) cs))"
  by (induction cs arbitrary: m) (auto split: option.split)

lemma taken_at_iff:
  "j \<in> set (taken_at i cs m) \<longleftrightarrow>
     i \<le> j \<and> j - i < length cs \<and> (m (key (cs ! (j - i))) \<noteq> None \<or> (\<exists>l<j - i. key (cs ! l) = key (cs ! (j - i))))"
proof (induction cs arbitrary: i m)
  case (Cons c cs)
  show ?case
  proof (cases "j \<le> i")
    case True
    then show ?thesis by (auto simp: Cons.IH)
  next
    case False
    then have j: "Suc i \<le> j" "j - i = Suc (j - Suc i)" by simp_all
    have "(\<exists>l<Suc d. key ((c # cs) ! l) = x) \<longleftrightarrow> key c = x \<or> (\<exists>l<d. key (cs ! l) = x)" for d x
      by (auto simp: less_Suc_eq_0_disj)
    then show ?thesis
      using j by (auto simp: Cons.IH)
  qed
qed simp

lemma taken_at_fresh:
  "distinct (map key cs) \<Longrightarrow> \<forall>c\<in>set cs. m (key c) = None \<Longrightarrow> taken_at i cs m = []"
proof (induction cs arbitrary: m i)
  case (Cons d cs)
  then have "\<forall>c\<in>set cs. (m(key d \<mapsto> stamp d)) (key c) = None" by (auto simp: image_iff)
  then show ?case using Cons by simp
qed simp

end

section \<open>The vault implements it\<close>

fun clean_content :: "vault_content \<Rightarrow> bool" where
  "clean_content (TotpContent r) \<longleftrightarrow>
     clean (tr_secret r) \<and> clean (tr_name r) \<and> clean (tr_notes r) \<and> tr_algorithm r \<noteq> NoAlgorithm"
| "clean_content (PasswordContent r) \<longleftrightarrow>
     clean (pr_description r) \<and> clean (pr_username r) \<and> clean (pr_password r) \<and> clean (pr_notes r)"

definition vault_holds ::
  "'p vault_db \<Rightarrow> ('p \<Rightarrow> string \<Rightarrow> string \<Rightarrow> bytes option) \<Rightarrow> content_kind \<Rightarrow> (string \<rightharpoonup> vault_content) \<Rightarrow> 'p \<Rightarrow> bool" where
  "vault_holds V view kind m p \<longleftrightarrow> vault_db_ok V view \<and>
     view p (dict_of kind) = (\<lambda>k. map_option content_to_vec (m k)) \<and>
     (\<forall>k c. m k = Some c \<longrightarrow> kind_of c = kind \<and> clean_content c)"

lemma set_ctime_simps [simp]:
  "kind_of (set_ctime t c) = kind_of c" "clean_content (set_ctime t c) = clean_content c"
  "content_key V (set_ctime t c) = content_key V c"
  by (cases c; simp add: content_key_def totp_hash_def password_hash_def)+

lemma content_round_trip: "clean_content c \<Longrightarrow> content_from_vec (kind_of c) (content_to_vec c) = Inr c"
  by (cases c) (simp_all add: totp_round_trip_ok password_round_trip_ok read_algorithm_def)

lemma vault_dictD:
  assumes "vault_db_ok V view"
  shows "\<exists>ks. list_keys (vdict V d b) p = Inr ks \<and> distinct ks \<and> set ks = dom (view p d)"
    and "open_key (vdict V d b) k p = (if view p d k = None then Inl NotFound else Inr ())"
    and "view p d k = Some v \<Longrightarrow> read_to_end (vdict V d b) k p = Inr v"
    and "\<exists>p'. create_key (vdict V d b) k p = (Inr (), p') \<and>
      view p' d = (if view p d k = None then (view p d)(k \<mapsto> []) else view p d)"
    and "view p d k = Some old \<Longrightarrow> \<exists>p'. write_all (vdict V d b) k v p = (Inr (), p') \<and>
      view p' d = (view p d)(k \<mapsto> v @ drop (length v) old)"
    and "\<exists>p'. delete_key (vdict V d b) k p = (if view p d k = None then Inl NotFound else Inr (), p') \<and>
      view p' d = (view p d)(k := None)"
    and "view p d k = Some old \<Longrightarrow> \<exists>p'. vwrite V d b k v p = (Inr (length v), p') \<and>
      view p' d = (view p d)(k \<mapsto> v @ drop (length v) old)"
proof -
  have m: "pddb_map (vdict V d b) (\<lambda>p. view p d)" using assms by (simp add: vault_db_ok_def)
  have "\<forall>p. \<exists>ks. list_keys (vdict V d b) p = Inr ks \<and> distinct ks \<and> set ks = dom (view p d)"
    using m unfolding pddb_map_def by (elim conjE)
  then show "\<exists>ks. list_keys (vdict V d b) p = Inr ks \<and> distinct ks \<and> set ks = dom (view p d)" by blast
  have "\<forall>p k. open_key (vdict V d b) k p = (if view p d k = None then Inl NotFound else Inr ())"
    using m unfolding pddb_map_def by (elim conjE)
  then show "open_key (vdict V d b) k p = (if view p d k = None then Inl NotFound else Inr ())" by blast
  have "\<forall>p k v. view p d k = Some v \<longrightarrow>
      read_to_end (vdict V d b) k p = Inr v \<and> attributes_len (vdict V d b) k p = Inr (length v)"
    using m unfolding pddb_map_def by (elim conjE)
  then show "view p d k = Some v \<Longrightarrow> read_to_end (vdict V d b) k p = Inr v" by blast
  have "\<forall>p k. \<exists>p'. create_key (vdict V d b) k p = (Inr (), p') \<and>
      view p' d = (if view p d k = None then (view p d)(k \<mapsto> []) else view p d)"
    using m unfolding pddb_map_def by (elim conjE)
  then show "\<exists>p'. create_key (vdict V d b) k p = (Inr (), p') \<and>
      view p' d = (if view p d k = None then (view p d)(k \<mapsto> []) else view p d)" by blast
  have "\<forall>p k v old. view p d k = Some old \<longrightarrow> (\<exists>p'. write_all (vdict V d b) k v p = (Inr (), p') \<and>
      view p' d = (view p d)(k \<mapsto> v @ drop (length v) old))"
    using m unfolding pddb_map_def by (elim conjE)
  then show "view p d k = Some old \<Longrightarrow> \<exists>p'. write_all (vdict V d b) k v p = (Inr (), p') \<and>
      view p' d = (view p d)(k \<mapsto> v @ drop (length v) old)" by blast
  have "\<forall>p k. \<exists>p'. delete_key (vdict V d b) k p = (if view p d k = None then Inl NotFound else Inr (), p') \<and>
      view p' d = (view p d)(k := None)"
    using m unfolding pddb_map_def by (elim conjE)
  then show "\<exists>p'. delete_key (vdict V d b) k p = (if view p d k = None then Inl NotFound else Inr (), p') \<and>
      view p' d = (view p d)(k := None)" by blast
  show "view p d k = Some old \<Longrightarrow> \<exists>p'. vwrite V d b k v p = (Inr (length v), p') \<and>
      view p' d = (view p d)(k \<mapsto> v @ drop (length v) old)"
    using assms unfolding vault_db_ok_def by (elim conjE) simp
qed

lemma pddb_store_ok:
  assumes V: "vault_db_ok V view" and free: "overwrite \<or> view p d k = None"
  shows "\<exists>p'. pddb_store V bs d k b overwrite p = (Inr (), p') \<and>
    view p' d = (view p d)(k \<mapsto> bs @ drop (length bs) (or_default [] (view p d k)))"
proof -
  obtain p1 where p1: "create_key (vdict V d b) k p = (Inr (), p1)"
    "view p1 d = (if view p d k = None then (view p d)(k \<mapsto> []) else view p d)"
    using vault_dictD(4) [OF V] by blast
  then have "view p1 d k = Some (or_default [] (view p d k))"
    by (cases "view p d k") (simp_all add: or_default_def)
  from vault_dictD(7) [OF V this] obtain p2 where "vwrite V d b k bs p1 = (Inr (length bs), p2)"
    "view p2 d = (view p1 d)(k \<mapsto> bs @ drop (length bs) (or_default [] (view p d k)))" by blast
  then show ?thesis
    using p1 free vault_dictD(2) [OF V, of d b k p]
    by (auto simp: pddb_store_def pddb_exists_def io_def)
qed

lemma pddb_get_ok: "vault_db_ok V view \<Longrightarrow> view p d k = Some v \<Longrightarrow> pddb_get V d k p = (Inr v, p)"
  by (simp add: pddb_get_def io_read_def sbind_def vault_dictD(2,3) [of V view])

lemma get_record_ok:
  assumes "vault_holds V view kind m p" "m k = Some c"
  shows "get_record V kind k p = (Inr c, p)"
proof -
  have "view p (dict_of kind) k = Some (content_to_vec c)" "kind_of c = kind" "clean_content c"
    using assms by (auto simp: vault_holds_def)
  moreover from this(2,3) have "content_from_vec kind (content_to_vec c) = Inr c"
    using content_round_trip [of c] by simp
  ultimately show ?thesis
    using assms(1) by (simp add: get_record_def sbind_def vault_holds_def pddb_get_ok [of V view])
qed

lemma get_records_ok:
  "vault_holds V view kind m p \<Longrightarrow> set ks \<subseteq> dom m \<Longrightarrow> get_records V kind ks p = (Inr (map (\<lambda>k. the (m k)) ks), p)"
  by (induction ks) (auto simp: sbind_def get_record_ok)

lemma new_record_ok:
  assumes h: "vault_holds V view kind m p" and c: "kind_of c = kind" "clean_content c" and free: "m (content_key V c) = None"
  shows "\<exists>p'. new_record V now c b overwrite p = (Inr (set_ctime now c), p') \<and>
    vault_holds V view kind (m(content_key V c \<mapsto> set_ctime now c)) p'"
proof -
  have V: "vault_db_ok V view" and none: "view p (dict_of kind) (content_key V c) = None"
    using h free by (simp_all add: vault_holds_def)
  then obtain p' where "pddb_store V (content_to_vec (set_ctime now c)) (dict_of kind) (content_key V c) b overwrite p = (Inr (), p')"
    "view p' (dict_of kind) = (view p (dict_of kind))(content_key V c \<mapsto> content_to_vec (set_ctime now c))"
    using pddb_store_ok [OF V, of overwrite p "dict_of kind" "content_key V c"] by (auto simp: or_default_def)
  then show ?thesis
    using h c by (intro exI [of _ p']) (auto simp: new_record_def Let_def sbind_def vault_holds_def fun_eq_iff)
qed

lemma new_record_exists:
  assumes "vault_holds V view (kind_of c) m p" "m (content_key V c) \<noteq> None"
  shows "new_record V now c b False p = (Inl KeyExists, p)"
proof -
  have "vault_db_ok V view" "view p (dict_of (kind_of c)) (content_key V c) \<noteq> None"
    using assms by (auto simp: vault_holds_def)
  then have "pddb_exists V (dict_of (kind_of c)) (content_key V c) b p"
    by (auto simp: pddb_exists_def vault_dictD(2) [of V view])
  then show ?thesis
    by (simp add: new_record_def Let_def pddb_store_def sbind_def)
qed

lemma all_records_ok:
  assumes "vault_holds V view kind m p"
  shows "\<exists>ks. distinct ks \<and> set ks = dom m \<and> all_records V kind p = (Inr (map (\<lambda>k. the (m k)) ks), p)"
proof -
  have V: "vault_db_ok V view" and "dom (view p (dict_of kind)) = dom m"
    using assms by (auto simp: vault_holds_def)
  then obtain ks where "list_keys (vdict V (dict_of kind) None) p = Inr ks" "distinct ks" "set ks = dom m"
    using vault_dictD(1) [OF V, of "dict_of kind" None p] by auto
  then show ?thesis
    using get_records_ok [OF assms, of ks] by (auto simp: all_records_def io_read_def sbind_def)
qed

interpretation vault: record_store "\<lambda>c. new_record V now c b False" "all_records V kind" "vault_holds V view kind"
  "content_key V" "set_ctime now" "\<lambda>c. kind_of c = kind \<and> clean_content c" KeyExists
  for V :: "'p vault_db" and now b kind view
  by unfold_locales (auto intro: new_record_ok new_record_exists all_records_ok)


section \<open>Updating and deleting\<close>

lemma basis_for_key_ok:
  "vault_holds V view kind m p \<Longrightarrow> m k = Some c \<Longrightarrow> basis_for_key V (dict_of kind) k p = (Inr (vbasis V (dict_of kind) k p), p)"
  by (simp add: basis_for_key_def io_read_def sbind_def vault_holds_def vault_dictD(2) [of V view])

lemma delete_ok:
  assumes h: "vault_holds V view kind m p" and k: "m k = Some c"
  shows "\<exists>p'. io (delete_key (vdict V (dict_of kind) b) k) p = (Inr (), p') \<and> vault_holds V view kind (m(k := None)) p'"
proof -
  have V: "vault_db_ok V view" and some: "view p (dict_of kind) k \<noteq> None"
    using h k by (auto simp: vault_holds_def)
  obtain p' where "delete_key (vdict V (dict_of kind) b) k p = (Inr (), p')" "view p' (dict_of kind) = (view p (dict_of kind))(k := None)"
    using vault_dictD(6) [OF V, of "dict_of kind" b k p] some by auto
  then show ?thesis using h by (intro exI [of _ p']) (auto simp: io_def vault_holds_def fun_eq_iff)
qed

lemma store_records_taken:
  assumes "vault_holds V view kind m p" "list_all (\<lambda>c. kind_of c = kind \<and> clean_content c) cs"
  shows "\<exists>p'. store_records V now cs b False i dupes p =
      (Inr (dupes @ record_store.taken_at (content_key V) (set_ctime now) i cs m), p') \<and>
    vault_holds V view kind (record_store.added (content_key V) (set_ctime now) cs m) p'"
  using assms
proof (induction cs arbitrary: i dupes m p)
  case (Cons c cs)
  show ?case
  proof (cases "m (content_key V c)")
    case None
    then obtain p1 where p1: "new_record V now c b False p = (Inr (set_ctime now c), p1)"
      "vault_holds V view kind (m(content_key V c \<mapsto> set_ctime now c)) p1"
      using new_record_ok [OF Cons.prems(1), of c now b False] Cons.prems(2) by auto
    then show ?thesis
      using Cons.IH [OF p1(2), of "Suc i" dupes] Cons.prems(2) None by (simp del: fun_upd_apply)
  next
    case (Some d)
    then have "new_record V now c b False p = (Inl KeyExists, p)"
      using new_record_exists [of V view c m p now b] Cons.prems by simp
    then show ?thesis
      using Cons.IH [OF Cons.prems(1), of "Suc i" "dupes @ [i]"] Cons.prems(2) Some by simp
  qed
qed simp

lemma new_records_taken:
  assumes "vault_holds V view kind m p" "list_all (\<lambda>c. kind_of c = kind \<and> clean_content c) cs"
  shows "\<exists>p' dupes. new_records V now cs b False p = (if dupes = [] then Inr () else Inl (DupesExist dupes), p') \<and>
    (\<forall>j. j \<in> set dupes \<longleftrightarrow> j < length cs \<and>
      (m (content_key V (cs ! j)) \<noteq> None \<or> (\<exists>l<j. content_key V (cs ! l) = content_key V (cs ! j)))) \<and>
    vault_holds V view kind (\<lambda>k. case m k of Some c \<Rightarrow> Some c
      | None \<Rightarrow> map_option (set_ctime now) (find (\<lambda>c. content_key V c = k) cs)) p'"
proof -
  let ?dupes = "record_store.taken_at (content_key V) (set_ctime now) 0 cs m"
  obtain p' where p': "store_records V now cs b False 0 [] p = (Inr ?dupes, p')"
    "vault_holds V view kind (record_store.added (content_key V) (set_ctime now) cs m) p'"
    using store_records_taken [OF assms, of now b 0 "[]"] by auto
  have run: "new_records V now cs b False p = (if ?dupes = [] then Inr () else Inl (DupesExist ?dupes), p')"
    using p'(1) by (simp add: new_records_def sbind_def)
  have "record_store.added (content_key V) (set_ctime now) cs m =
      (\<lambda>k. case m k of Some c \<Rightarrow> Some c | None \<Rightarrow> map_option (set_ctime now) (find (\<lambda>c. content_key V c = k) cs))"
    by (rule ext) (rule vault.added_at)
  then show ?thesis
    using run p'(2) vault.taken_at_iff [of _ V now 0 cs m] by (intro exI [of _ p'] exI [of _ ?dupes]) simp
qed

text \<open>C30: the vault keeps records under their keys. A record that is read is the one that was stored, and
  listing the records gives each of them once; deleting removes exactly one; updating replaces a record
  by its new version, under a new key when its name changed, with the time of the update; storing a list
  of records adds, with the time of the call, the first one for every key that was free, leaves all others
  as they are, and reports exactly the indices of the records that were not stored.\<close>

theorem vault_keeps_records:
  assumes h: "vault_holds V view kind m p" and k: "m k = Some old"
    and c: "kind_of c = kind" "clean_content c" and free: "content_key V c = k \<or> m (content_key V c) = None"
    and cs: "list_all (\<lambda>c. kind_of c = kind \<and> clean_content c) cs"
  shows "get_record V kind k p = (Inr old, p) \<and>
    (\<exists>ks. distinct ks \<and> set ks = dom m \<and> all_records V kind p = (Inr (map (\<lambda>k. the (m k)) ks), p)) \<and>
    (\<exists>p'. delete_record V kind k p = (Inr (), p') \<and> vault_holds V view kind (m(k := None)) p') \<and>
    (\<exists>p'. update_record V now kind k c p = (Inr (set_ctime now c), p') \<and>
      vault_holds V view kind (m(k := None, content_key V c \<mapsto> set_ctime now c)) p') \<and>
    (\<exists>p' dupes. new_records V now cs b False p = (if dupes = [] then Inr () else Inl (DupesExist dupes), p') \<and>
      (\<forall>j. j \<in> set dupes \<longleftrightarrow> j < length cs \<and>
        (m (content_key V (cs ! j)) \<noteq> None \<or> (\<exists>l<j. content_key V (cs ! l) = content_key V (cs ! j)))) \<and>
      vault_holds V view kind (\<lambda>k. case m k of Some c \<Rightarrow> Some c
        | None \<Rightarrow> map_option (set_ctime now) (find (\<lambda>c. content_key V c = k) cs)) p')"
proof (intro conjI)
  show "get_record V kind k p = (Inr old, p)" using get_record_ok [OF h k] .
  show "\<exists>ks. distinct ks \<and> set ks = dom m \<and> all_records V kind p = (Inr (map (\<lambda>k. the (m k)) ks), p)"
    by (rule all_records_ok [OF h])
  note b = basis_for_key_ok [OF h k]
  show "\<exists>p'. delete_record V kind k p = (Inr (), p') \<and> vault_holds V view kind (m(k := None)) p'"
    using delete_ok [OF h k] b by (auto simp: delete_record_def sbind_def)
  obtain p1 where p1: "io (delete_key (vdict V (dict_of kind) (Some (vbasis V (dict_of kind) k p))) k) p = (Inr (), p1)"
    "vault_holds V view kind (m(k := None)) p1"
    using delete_ok [OF h k] by blast
  have "(m(k := None)) (content_key V c) = None" using free by auto
  from new_record_ok [OF p1(2) c this] obtain p2 where
    "new_record V now c (Some (vbasis V (dict_of kind) k p)) True p1 = (Inr (set_ctime now c), p2)"
    "vault_holds V view kind (m(k := None, content_key V c \<mapsto> set_ctime now c)) p2" by blast
  then show "\<exists>p'. update_record V now kind k c p = (Inr (set_ctime now c), p') \<and>
      vault_holds V view kind (m(k := None, content_key V c \<mapsto> set_ctime now c)) p'"
    using b p1(1) by (intro exI [of _ p2]) (simp add: update_record_def sbind_def)
qed (rule new_records_taken [OF h cs])

section \<open>Overwriting\<close>

definition long_entry :: totp_record where
  "long_entry = \<lparr>tr_version = 2, tr_secret = utf8 ''AAAA'', tr_name = utf8 ''bank'', tr_algorithm = HmacSha1,
     tr_notes = replicate 36 120, tr_digits = 8, tr_timestep = 30, tr_ctime = 1, tr_hotp = False\<rparr>"

definition short_entry :: totp_record where
  "short_entry = long_entry\<lparr>tr_secret := utf8 ''BBBB'', tr_notes := [], tr_digits := 6\<rparr>"

lemma of_char_char_of: "(of_char (char_of (k :: nat)) :: u8) = of_nat k"
proof -
  have "(of_char (char_of k) :: u8) = of_nat (of_char (char_of k) :: nat)" by (simp only: of_nat_of_char)
  also have "\<dots> = of_nat (k mod 256)" by (simp only: of_char_of)
  also have "\<dots> = of_nat k" by (simp add: word_unat_eq_iff unat_of_nat)
  finally show ?thesis .
qed

lemma decimal_small: "n < 10 \<Longrightarrow> display n = [of_nat (48 + n)]" "display 30 = [51, 48]"
  by (simp_all add: display_def utf8_def decimal.simps of_char_char_of)

text \<open>C31: adding a record over an existing one, as the vault does for new records, writes over the beginning
  of the old text only: what is read back is the text of the new record followed by the part of the old
  text beyond its length. This is the new record when the old text was not longer; otherwise the remaining
  lines are read as fields too.\<close>

theorem overwriting_reads_tail:
  assumes V: "vault_db_ok V view" and old: "view p (dict_of (kind_of c)) (content_key V c) = Some old"
  shows "\<exists>p'. new_record V now c b True p = (Inr (set_ctime now c), p') \<and>
    get_record V (kind_of c) (content_key V c) p' =
      (content_from_vec (kind_of c) (content_to_vec (set_ctime now c) @ drop (length (content_to_vec (set_ctime now c))) old), p') \<and>
    (clean_content c \<and> length old \<le> length (content_to_vec (set_ctime now c)) \<longrightarrow>
      get_record V (kind_of c) (content_key V c) p' = (Inr (set_ctime now c), p'))"
proof -
  let ?new = "content_to_vec (set_ctime now c)"
  obtain p' where p': "pddb_store V ?new (dict_of (kind_of c)) (content_key V c) b True p = (Inr (), p')"
    "view p' (dict_of (kind_of c)) (content_key V c) = Some (?new @ drop (length ?new) old)"
    using pddb_store_ok [OF V, of True p "dict_of (kind_of c)" "content_key V c" ?new b] old by (auto simp: or_default_def)
  have get: "get_record V (kind_of c) (content_key V c) p' =
      (content_from_vec (kind_of c) (?new @ drop (length ?new) old), p')"
    using pddb_get_ok [OF V p'(2)] by (simp add: get_record_def sbind_def)
  have "new_record V now c b True p = (Inr (set_ctime now c), p')"
    using p'(1) by (simp add: new_record_def Let_def sbind_def)
  moreover have "clean_content c \<and> length old \<le> length ?new \<longrightarrow>
      get_record V (kind_of c) (content_key V c) p' = (Inr (set_ctime now c), p')"
    using get content_round_trip [of "set_ctime now c"] by simp
  ultimately show ?thesis using get by blast
qed

text \<open>An entry with shorter notes is read back with the digits of the entry it replaced: it is neither.\<close>

lemma mixed_text:
  "totp_from_vec (totp_to_vec short_entry @ drop (length (totp_to_vec short_entry)) (totp_to_vec long_entry)) =
     Inr (short_entry\<lparr>tr_digits := 8\<rparr>)"
proof -
  define tail where "tail = [tagged ''digits'' (display 8), tagged ''timestep'' (display 30), tagged ''hotp'' (display 0),
    tagged ''ctime'' (display 1)]"
  have drop: "drop (length (totp_to_vec short_entry)) (totp_to_vec long_entry) = lines_to_vec tail"
    by (simp add: totp_to_vec_def totp_lines_def lines_to_vec_def tagged_def utf8_def short_entry_def long_entry_def
        decimal_small tail_def)
  have "clean (tr_secret short_entry)" "clean (tr_name short_entry)" "clean (tr_notes short_entry)"
    by (simp_all add: short_entry_def long_entry_def clean_def utf8_def utf8_valid_def)
  then have "list_all clean (totp_lines short_entry @ tail)"
    by (simp add: totp_lines_def tail_def clean_tagged)
  note lines = clean_lines [OF this]
  have vec: "totp_to_vec short_entry @ lines_to_vec tail = lines_to_vec (totp_lines short_entry @ tail)"
    by (simp add: totp_to_vec_def lines_to_vec_def)
  show ?thesis
    using lines parse_words(1) [of 8] parse_words(2) [of 30] parse_words(2) [of 1] unfolding drop vec
    by (simp add: totp_from_vec_def fold_lines_vec fold_lines_append totp_lines_read)
       (simp add: tail_def on_line_tagged totp_fields short_entry_def long_entry_def read_algorithm_def)
qed

section \<open>A concrete vault\<close>

text \<open>An association list per dictionary.\<close>

type_synonym toy_state = "string \<Rightarrow> (string \<times> bytes) list"

definition at_dict :: "string \<Rightarrow> ((string \<times> bytes) list \<Rightarrow> 'r \<times> (string \<times> bytes) list) \<Rightarrow> toy_state \<Rightarrow> 'r \<times> toy_state" where
  "at_dict d f p = (let (r, q) = f (p d) in (r, p(d := q)))"

definition toy_dict :: "string \<Rightarrow> toy_state pddb" where
  "toy_dict d = \<lparr>list_keys = (\<lambda>p. list_keys alist_pddb (p d)), open_key = (\<lambda>k p. open_key alist_pddb k (p d)),
     read_to_end = (\<lambda>k p. read_to_end alist_pddb k (p d)), attributes_len = (\<lambda>k p. attributes_len alist_pddb k (p d)),
     create_key = (\<lambda>k. at_dict d (create_key alist_pddb k)), write_all = (\<lambda>k v. at_dict d (write_all alist_pddb k v)),
     delete_key = (\<lambda>k. at_dict d (delete_key alist_pddb k)), delete_key_list = (\<lambda>ks. at_dict d (delete_key_list alist_pddb ks))\<rparr>"

definition toy_vault :: "toy_state vault_db" where
  "toy_vault = \<lparr>vdict = (\<lambda>d b. toy_dict d),
     vwrite = (\<lambda>d b k v. at_dict d (\<lambda>q. (Inr (length v), snd (write_all alist_pddb k v q)))),
     vbasis = (\<lambda>d k p. ''system''), vsha = pad32\<rparr>"

definition toy_view :: "toy_state \<Rightarrow> string \<Rightarrow> string \<Rightarrow> bytes option" where
  "toy_view p d = map_of (p d)"

lemma map_of_delete: "map_of (filter (\<lambda>(j, _). j \<noteq> k) p) = (map_of p)(k := None)" for p :: "(string \<times> bytes) list"
  using map_of_filter_fst [of "{k}" p] by (auto simp: restrict_map_def fun_eq_iff)

lemma toy_vault_ok: "vault_db_ok toy_vault toy_view"
proof -
  have "pddb_map (toy_dict d) (\<lambda>p. toy_view p d)" for d
    by (auto simp: pddb_map_def toy_dict_def at_dict_def toy_view_def alist_pddb_def dom_map_of_conv_image_fst
        map_of_alist_write map_of_filter_fst map_of_delete)
  then show ?thesis
    by (auto simp: vault_db_ok_def toy_vault_def at_dict_def toy_view_def alist_pddb_def map_of_alist_write)
qed

lemma toy_vault_holds:
  "vault_holds toy_vault toy_view TotpKind [''K'' \<mapsto> TotpContent (toy_totp\<lparr>tr_algorithm := HmacSha1\<rparr>)]
     ((\<lambda>d. [])(vault_totp_dict := [(''K'', totp_to_vec (toy_totp\<lparr>tr_algorithm := HmacSha1\<rparr>))]))"
  using toy_clean by (auto simp: vault_holds_def toy_vault_ok toy_view_def fun_eq_iff)

lemma vault_keeps_records_witness:
  "\<exists>p p' p''. get_record toy_vault TotpKind ''K'' p = (Inr (TotpContent (toy_totp\<lparr>tr_algorithm := HmacSha1\<rparr>)), p) \<and>
     update_record toy_vault 7 TotpKind ''K'' (TotpContent (short_entry)) p = (Inr (TotpContent (short_entry\<lparr>tr_ctime := 7\<rparr>)), p') \<and>
     delete_record toy_vault TotpKind ''K'' p = (Inr (), p'')"
proof -
  have c: "kind_of (TotpContent short_entry) = TotpKind" "clean_content (TotpContent short_entry)"
    by (simp_all add: short_entry_def long_entry_def clean_def utf8_def utf8_valid_def)
  let ?m = "[''K'' \<mapsto> TotpContent (toy_totp\<lparr>tr_algorithm := HmacSha1\<rparr>)]"
  have "content_key toy_vault (TotpContent short_entry) \<noteq> ''K''"
    by (auto simp: content_key_def totp_hash_def hex_upper_def chars_of_def toy_vault_def pad32_def short_entry_def
        long_entry_def utf8_def dest: arg_cong [of _ _ length])
  then have free: "content_key toy_vault (TotpContent short_entry) = ''K'' \<or> ?m (content_key toy_vault (TotpContent short_entry)) = None"
    by simp
  have k: "?m ''K'' = Some (TotpContent (toy_totp\<lparr>tr_algorithm := HmacSha1\<rparr>))" by simp
  have cs: "list_all (\<lambda>c. kind_of c = TotpKind \<and> clean_content c) [TotpContent short_entry]" using c by simp
  have stamp: "set_ctime 7 (TotpContent short_entry) = TotpContent (short_entry\<lparr>tr_ctime := 7\<rparr>)" by simp
  let ?p = "(\<lambda>d. [])(vault_totp_dict := [(''K'', totp_to_vec (toy_totp\<lparr>tr_algorithm := HmacSha1\<rparr>))])"
  note t = vault_keeps_records [OF toy_vault_holds k c free cs, of 7 None]
  have "get_record toy_vault TotpKind ''K'' ?p = (Inr (TotpContent (toy_totp\<lparr>tr_algorithm := HmacSha1\<rparr>)), ?p)"
    by (rule conjunct1 [OF t])
  moreover obtain p'' where "delete_record toy_vault TotpKind ''K'' ?p = (Inr (), p'')"
    using conjunct1 [OF conjunct2 [OF conjunct2 [OF t]]] by blast
  moreover obtain p' where
    "update_record toy_vault 7 TotpKind ''K'' (TotpContent short_entry) ?p = (Inr (TotpContent (short_entry\<lparr>tr_ctime := 7\<rparr>)), p')"
    using conjunct1 [OF conjunct2 [OF conjunct2 [OF conjunct2 [OF t]]]] unfolding stamp by blast
  ultimately show ?thesis by blast
qed

lemma overwriting_reads_tail_witness:
  "\<exists>p'. new_record toy_vault 1 (TotpContent short_entry) None True
     ((\<lambda>d. [])(vault_totp_dict := [(content_key toy_vault (TotpContent long_entry), totp_to_vec long_entry)])) =
       (Inr (TotpContent short_entry), p') \<and>
     get_record toy_vault TotpKind (content_key toy_vault (TotpContent short_entry)) p' =
       (Inr (TotpContent (short_entry\<lparr>tr_digits := 8\<rparr>)), p')"
proof -
  let ?p = "(\<lambda>d. [])(vault_totp_dict := [(content_key toy_vault (TotpContent long_entry), totp_to_vec long_entry)])"
  have stamp: "set_ctime 1 (TotpContent short_entry) = TotpContent short_entry" by (simp add: short_entry_def long_entry_def)
  have "content_key toy_vault (TotpContent long_entry) = content_key toy_vault (TotpContent short_entry)"
    by (simp add: content_key_def totp_hash_def short_entry_def long_entry_def)
  then have "toy_view ?p (dict_of (kind_of (TotpContent short_entry))) (content_key toy_vault (TotpContent short_entry)) =
      Some (totp_to_vec long_entry)"
    by (simp add: toy_view_def)
  from overwriting_reads_tail [OF toy_vault_ok this, of 1 None] obtain p' where
    "new_record toy_vault 1 (TotpContent short_entry) None True ?p = (Inr (TotpContent short_entry), p')"
    "get_record toy_vault TotpKind (content_key toy_vault (TotpContent short_entry)) p' =
      (content_from_vec TotpKind (totp_to_vec short_entry @ drop (length (totp_to_vec short_entry)) (totp_to_vec long_entry)), p')"
    unfolding stamp kind_of.simps content_to_vec.simps by blast
  then show ?thesis by (auto simp: mixed_text)
qed

end
