(* ===== verification/Bookmark_Props.thy ===== *)
theory Bookmark_Props
  imports Vault_Props
begin

text \<open>
  Bookmarks: keys are never reused, so storing a bookmark changes no other, and a bookmark is read back
  as it was stored.
\<close>

section \<open>Hexadecimal numbers\<close>

lemma unat_lower_hex: "n < 16 \<Longrightarrow> unat (lower_hex n) = (if n < 10 then 48 + n else 87 + n)"
  by (simp only: lower_hex.simps unat_of_nat) simp

lemma lower_hex_value: "n < 16 \<Longrightarrow> hex_value (lower_hex n) = Some n"
  by (auto simp: hex_value_def word_le_nat_alt unat_lower_hex simp del: lower_hex.simps)

lemma lower_hex_range: "n < 16 \<Longrightarrow> unat (lower_hex n) \<in> {48..57} \<union> {97..102}"
  by (auto simp: unat_lower_hex simp del: lower_hex.simps)

declare lower_hex.simps [simp del]

lemma hex_digits_append:
  "hex_digits_value acc (xs @ ys) = (case hex_digits_value acc xs of None \<Rightarrow> None | Some v \<Rightarrow> hex_digits_value v ys)"
  by (induction acc xs rule: hex_digits_value.induct) (auto split: option.split)

lemma hex_lower_value: "hex_digits_value 0 (hex_lower n) = Some n"
proof (induction n rule: hex_lower.induct)
  case (1 n)
  have "n div 16 * 16 + n mod 16 = n" by simp
  then show ?case
    using 1 by (subst hex_lower.simps) (auto simp: hex_digits_append lower_hex_value)
qed

lemma hex_lower_not_Nil [simp]: "hex_lower n \<noteq> []"
  by (subst hex_lower.simps) simp

lemma hex_lower_range: "b \<in> set (hex_lower n) \<Longrightarrow> unat b \<in> {48..57} \<union> {97..102}"
proof (induction n rule: hex_lower.induct)
  case (1 n)
  then show ?case
    using "1.IH" "1.prems" [unfolded hex_lower.simps [of n]] lower_hex_range [of n] lower_hex_range [of "n mod 16"]
    by (auto split: if_splits)
qed

lemma length_hex_lower: "1 \<le> d \<Longrightarrow> n < 16 ^ d \<Longrightarrow> length (hex_lower n) \<le> d"
proof (induction d arbitrary: n)
  case (Suc d)
  show ?case
  proof (cases "n < 16")
    case True
    then show ?thesis by (subst hex_lower.simps) simp
  next
    case False
    then have "1 \<le> d" using Suc.prems(2) by (cases d) auto
    moreover have "n div 16 < 16 ^ d" using Suc.prems(2) by (simp add: less_mult_imp_div_less mult.commute)
    ultimately have "length (hex_lower (n div 16)) \<le> d" by (rule Suc.IH)
    then show ?thesis using False by (subst hex_lower.simps) simp
  qed
qed simp

lemma length_hex_lower_Suc: "length (hex_lower n) \<le> length (hex_lower (Suc n))"
proof (induction n rule: less_induct)
  case (less n)
  show ?case
  proof (cases "Suc n < 16")
    case True
    then show ?thesis by (simp add: hex_lower.simps [of n] hex_lower.simps [of "Suc n"])
  next
    case big: False
    show ?thesis
    proof (cases "n < 16")
      case True
      then show ?thesis
        using big by (simp add: hex_lower.simps [of n] hex_lower.simps [of "Suc n"])
    next
      case False
      have "length (hex_lower (n div 16)) \<le> length (hex_lower (Suc n div 16))"
      proof (cases "Suc n mod 16 = 0")
        case True
        then have "Suc n div 16 = Suc (n div 16)" by (simp add: div_Suc)
        then show ?thesis using less.IH [of "n div 16"] False by simp
      next
        case False
        then show ?thesis by (simp add: div_Suc)
      qed
      then show ?thesis
        using big False by (simp add: hex_lower.simps [of n] hex_lower.simps [of "Suc n"])
    qed
  qed
qed

lemma zeros_value: "hex_digits_value 0 (replicate k 48 @ bs) = hex_digits_value 0 bs"
  by (induction k) (simp_all add: hex_value_def)

section \<open>Trimming\<close>

lemma strip_one_None:
  assumes "s \<noteq> []" "\<forall>w\<in>set ws. w \<noteq> [] \<longrightarrow> hd w \<noteq> hd s"
  shows "strip_one ws s = None"
proof -
  have "\<not> (w \<noteq> [] \<and> take (length w) s = w)" if "w \<in> set ws" for w
    using assms that by (cases w; cases s) auto
  then show ?thesis by (auto simp: strip_one_def find_None_iff)
qed

lemma trim_word:
  assumes "s \<noteq> []" "\<forall>b\<in>set s. 48 \<le> unat b \<and> unat b < 128"
  shows "trim s = s"
proof -
  have hd: "48 \<le> unat (hd s)" "unat (hd s) < 128" "48 \<le> unat (last s)" "unat (last s) < 128"
    using assms by auto
  have "hd w \<noteq> hd s" if "w \<in> set whitespace" for w
  proof -
    have "unat (hd w) < 48 \<or> 128 \<le> unat (hd w)" using that by (auto simp: whitespace_def)
    then show ?thesis using hd by auto
  qed
  then have 1: "strip whitespace s = s"
    using strip_one_None [OF assms(1), of whitespace] by (subst strip.simps) simp
  have "hd (rev w) \<noteq> last s" if "w \<in> set whitespace" for w
  proof -
    have "unat (hd (rev w)) < 48 \<or> 128 \<le> unat (hd (rev w))" using that by (auto simp: whitespace_def)
    then show ?thesis using hd by auto
  qed
  then have "\<forall>w\<in>set (map rev whitespace). w \<noteq> [] \<longrightarrow> hd w \<noteq> hd (rev s)" by (simp add: hd_rev)
  then have "strip (map rev whitespace) (rev s) = rev s"
    using strip_one_None [of "rev s" "map rev whitespace"] assms(1) by (subst strip.simps) simp
  then show ?thesis by (simp add: trim_def 1)
qed

lemma trim_hex [simp]: "trim (hex_lower n) = hex_lower n"
  using hex_lower_range by (intro trim_word) fastforce+

lemma trim_display [simp]: "trim (display n) = display n"
  using display_digits [of _ n] by (intro trim_word) (fastforce simp: word_le_nat_alt display_def utf8_def)+

lemma parse_hex_lower: "n < 2 ^ 64 \<Longrightarrow> parse_hex_u64 (hex_lower n) = Some (of_nat n)"
proof -
  obtain b bs where h: "hex_lower n = b # bs" by (cases "hex_lower n") auto
  then have "b \<noteq> 43" using hex_lower_range [of b n] by auto
  then show "n < 2 ^ 64 \<Longrightarrow> parse_hex_u64 (hex_lower n) = Some (of_nat n)"
    using hex_lower_value [of n] by (simp add: parse_hex_u64_def h del: hex_digits_value.simps)
qed

lemma hex_lower_valid: "utf8_valid (hex_lower n)"
  by (rule utf8_valid_all_ascii) (auto simp: list_all_iff word_less_nat_alt dest!: hex_lower_range)

section \<open>Keys\<close>

lemma inj_chars_of: "inj chars_of"
proof -
  have "inj (\<lambda>b :: u8. char_of (unat b) :: char)"
  proof (rule injI)
    fix x y :: u8 assume "char_of (unat x) = (char_of (unat y) :: char)"
    then have "unat x mod 256 = unat y mod 256" by simp
    then show "x = y" using unat_u8_less [of x] unat_u8_less [of y] by (simp add: word_unat_eq_iff)
  qed
  then show ?thesis unfolding chars_of_def by simp
qed

lemma bookmark_key_inject: "bookmark_key m = bookmark_key n \<longleftrightarrow> m = n"
proof
  assume eq: "bookmark_key m = bookmark_key n"
  have "zero_padded 16 (hex_lower (unat m)) = zero_padded 16 (hex_lower (unat n))"
    using eq by (simp add: bookmark_key_def inj_eq [OF inj_chars_of])
  then have "hex_digits_value 0 (hex_lower (unat m)) = hex_digits_value 0 (hex_lower (unat n))"
    by (metis zero_padded_def zeros_value)
  then show "m = n" by (simp add: hex_lower_value word_unat_eq_iff)
qed simp

lemma bookmark_key_counter: "bookmark_key n \<noteq> counter_key"
proof
  assume "bookmark_key n = counter_key"
  then have "length (bookmark_key n) = length counter_key" by simp
  then show False by (simp add: bookmark_key_def chars_of_def zero_padded_def counter_key_def)
qed


section \<open>The bookmarks are a map that only grows\<close>

definition bookmark_body :: "bookmark \<Rightarrow> bytes" where
  "bookmark_body b = bm_url b @ 10 # bm_label b @ 10 # display (unat (bm_timestamp b))"

definition bookmark_clean :: "bookmark \<Rightarrow> bool" where
  "bookmark_clean b \<longleftrightarrow> clean (bm_url b) \<and> clean (bm_label b)"

text \<open>The counter and the bookmarks \<open>m\<close>, by number.\<close>

definition bookmarks_hold ::
  "'p vault_db \<Rightarrow> ('p \<Rightarrow> string \<Rightarrow> string \<Rightarrow> bytes option) \<Rightarrow> u64 \<Rightarrow> (u64 \<rightharpoonup> bookmark) \<Rightarrow> 'p \<Rightarrow> bool" where
  "bookmarks_hold V view c m p \<longleftrightarrow> vault_db_ok V view \<and>
     view p bookmarks_dict counter_key = (if c = 0 then None else Some (hex_lower (unat c))) \<and>
     (\<forall>n. view p bookmarks_dict (bookmark_key n) = map_option bookmark_body (m n)) \<and>
     (\<forall>n b. m n = Some b \<longrightarrow> n \<le> c \<and> n \<noteq> 0 \<and> bm_key b = bookmark_key n \<and> bookmark_clean b)"

lemma bookmark_parse: "bookmark_clean b \<Longrightarrow> parse_bookmark_body (bm_key b) (bookmark_body b) = Inr b"
proof -
  assume c: "bookmark_clean b"
  then have "utf8_valid (bookmark_body b)"
    by (simp add: bookmark_body_def bookmark_clean_def clean_def utf8_valid_append utf8_valid_ascii display_ascii)
  then show ?thesis
    using c by (simp add: parse_bookmark_body_def bookmark_body_def bookmark_clean_def clean_def split_once_part)
qed

lemma write_key_ok:
  assumes V: "vault_db_ok V view"
  shows "\<exists>p'. write_key V k bs p = (Inr (), p') \<and>
    view p' bookmarks_dict = (view p bookmarks_dict)(k \<mapsto> bs @ drop (length bs) (or_default [] (view p bookmarks_dict k)))"
proof -
  obtain p1 where p1: "create_key (vdict V bookmarks_dict None) k p = (Inr (), p1)"
    "view p1 bookmarks_dict = (if view p bookmarks_dict k = None then (view p bookmarks_dict)(k \<mapsto> []) else view p bookmarks_dict)"
    using vault_dictD(4) [OF V] by blast
  then have "view p1 bookmarks_dict k = Some (or_default [] (view p bookmarks_dict k))"
    by (cases "view p bookmarks_dict k") (simp_all add: or_default_def)
  from vault_dictD(5) [OF V this] obtain p2 where "write_all (vdict V bookmarks_dict None) k bs p1 = (Inr (), p2)"
    "view p2 bookmarks_dict = (view p1 bookmarks_dict)(k \<mapsto> bs @ drop (length bs) (or_default [] (view p bookmarks_dict k)))"
    by blast
  then show ?thesis using p1 by (auto simp: write_key_def bm_io_def Let_def sbind_def)
qed

lemma bookmark_counter_ok:
  assumes "bookmarks_hold V view c m p"
  shows "bookmark_counter V p = Inr c"
proof -
  have V: "vault_db_ok V view"
    and v: "view p bookmarks_dict counter_key = (if c = 0 then None else Some (hex_lower (unat c)))"
    using assms by (simp_all add: bookmarks_hold_def)
  have "unat c < 2 ^ 64" using unsigned_less [of c, where 'a = nat] by simp
  then show ?thesis
    using v vault_dictD(2) [OF V, of bookmarks_dict None counter_key p] vault_dictD(3) [OF V, of p bookmarks_dict counter_key]
    by (cases "c = 0") (simp_all add: bookmark_counter_def Let_def hex_lower_valid parse_hex_lower)
qed

lemma next_number:
  fixes c :: u64
  assumes "c \<noteq> - 1"
  shows "unat (c + 1) = Suc (unat c)" "c + 1 \<noteq> 0" "c \<le> c + 1"
proof -
  have ne: "c + 1 \<noteq> 0" using assms by (metis add.commute eq_neg_iff_add_eq_0)
  then show "c + 1 \<noteq> 0" .
  show "unat (c + 1) = Suc (unat c)" using unatSuc [of c] ne by (simp add: add.commute)
  then show "c \<le> c + 1" by (simp add: word_le_nat_alt)
qed

text \<open>C32: storing a bookmark takes a key never used before, even when bookmarks were deleted, keeps all
  others, and the bookmark is read back under that key with the URL, label and time it was stored with.\<close>

theorem bookmark_round_trip:
  fixes now :: u64
  assumes h: "bookmarks_hold V view c m p" and room: "c \<noteq> - 1" and clean: "clean url" "clean label"
  defines "b \<equiv> \<lparr>bm_key = bookmark_key (c + 1), bm_url = url, bm_label = label, bm_timestamp = now\<rparr>"
  shows "\<exists>p'. bookmark_store V now url label p = (Inr (bookmark_key (c + 1)), p') \<and>
    bookmarks_hold V view (c + 1) (m(c + 1 \<mapsto> b)) p' \<and>
    (\<forall>n b'. (m(c + 1 \<mapsto> b)) n = Some b' \<longrightarrow> bookmark_get V (bookmark_key n) p' = Inr b')"
proof -
  have V: "vault_db_ok V view" using h by (simp add: bookmarks_hold_def)
  have c1: "unat (c + 1) = Suc (unat c)" "c + 1 \<noteq> 0" "c \<le> c + 1"
    using next_number [OF room] by simp_all
  have fresh: "m (c + 1) = None"
  proof (cases "m (c + 1)")
    case (Some a)
    then have "unat (c + 1) \<le> unat c" using h unfolding bookmarks_hold_def word_le_nat_alt by blast
    then show ?thesis using c1(1) by simp
  qed
  have old: "drop (length (hex_lower (unat (c + 1)))) (or_default [] (view p bookmarks_dict counter_key)) = []"
    using h length_hex_lower_Suc [of "unat c"] by (auto simp: bookmarks_hold_def or_default_def c1(1))
  obtain p1 where p1: "write_key V counter_key (hex_lower (unat (c + 1))) p = (Inr (), p1)"
    "view p1 bookmarks_dict = (view p bookmarks_dict)(counter_key \<mapsto> hex_lower (unat (c + 1)))"
    using write_key_ok [OF V, of counter_key "hex_lower (unat (c + 1))" p] old by auto
  then have "view p1 bookmarks_dict (bookmark_key (c + 1)) = None"
    using h fresh by (simp add: bookmarks_hold_def bookmark_key_counter)
  then obtain p2 where p2: "write_key V (bookmark_key (c + 1)) (bookmark_body b) p1 = (Inr (), p2)"
    "view p2 bookmarks_dict = (view p1 bookmarks_dict)(bookmark_key (c + 1) \<mapsto> bookmark_body b)"
    using write_key_ok [OF V, of "bookmark_key (c + 1)" "bookmark_body b" p1] by (auto simp: or_default_def)
  have run: "bookmark_store V now url label p = (Inr (bookmark_key (c + 1)), p2)"
    using p1(1) p2(1) bookmark_counter_ok [OF h]
    by (simp add: bookmark_store_def bookmark_next_key_def sbind_def Let_def bookmark_body_def b_def)
  have b: "bookmark_clean b" "bm_key b = bookmark_key (c + 1)" using clean by (simp_all add: b_def bookmark_clean_def)
  have holds: "bookmarks_hold V view (c + 1) (m(c + 1 \<mapsto> b)) p2"
    using h b p1(2) p2(2) c1 bookmark_key_counter order.trans [of _ c "c + 1"]
    by (auto simp: bookmarks_hold_def bookmark_key_inject bookmark_key_counter [symmetric])
  have "bookmark_get V (bookmark_key n) p2 = Inr b'" if n: "(m(c + 1 \<mapsto> b)) n = Some b'" for n b'
  proof -
    have v: "view p2 bookmarks_dict (bookmark_key n) = Some (bookmark_body b')" "bookmark_clean b'" "bm_key b' = bookmark_key n"
      using holds n unfolding bookmarks_hold_def by (auto simp del: fun_upd_apply)
    then show ?thesis
      using bookmark_parse [OF v(2)] by (simp add: bookmark_get_def Let_def vault_dictD(2,3) [OF V])
  qed
  then show ?thesis using run holds by blast
qed

lemma bookmark_round_trip_witness:
  "\<exists>p'. bookmark_store toy_vault 5 (utf8 ''https://a.b'') (utf8 ''A'') (\<lambda>d. []) = (Inr (bookmark_key 1), p') \<and>
     bookmark_get toy_vault (bookmark_key 1) p' =
       Inr \<lparr>bm_key = bookmark_key 1, bm_url = utf8 ''https://a.b'', bm_label = utf8 ''A'', bm_timestamp = 5\<rparr>"
proof -
  have h: "bookmarks_hold toy_vault toy_view 0 Map.empty (\<lambda>d. [])"
    by (simp add: bookmarks_hold_def toy_vault_ok toy_view_def)
  have clean: "clean (utf8 ''https://a.b'')" "clean (utf8 ''A'')" by (simp_all add: clean_def utf8_def utf8_valid_def)
  show ?thesis using bookmark_round_trip [OF h _ clean, of 5] by auto
qed

end
