(* ===== verification/Backup.thy ===== *)
theory Backup
  imports Vault_Storage Fragment Cbor_Props
begin

text \<open>
  The backup format, \<open>libraries/backup/src/lib.rs\<close>: entries of one-time passwords and passwords as CBOR,
  packets of entries, and the wires a packet is cut into for the transport. The pointer width of the
  device is an argument where a length is cast to \<open>usize\<close>.
\<close>

section \<open>Conversions from CBOR\<close>

text \<open>\<open>ConversionPanic\<close> stands for the panic of an \<open>unwrap\<close>.\<close>

datatype conversion_error = BadCbor | UnknownHash u64 | UnknownPayloadType u8 | WrongPayloadSize | ConversionPanic

definition unwrap :: "'a option \<Rightarrow> conversion_error + 'a" where
  "unwrap x = ok_or x ConversionPanic"

definition backup_bool :: "cvalue \<Rightarrow> conversion_error + bool" where
  "backup_bool v = (case v of Simple FalseValue \<Rightarrow> Inr False | Simple TrueValue \<Rightarrow> Inr True | _ \<Rightarrow> Inl BadCbor)"

definition backup_unsigned :: "cvalue \<Rightarrow> conversion_error + u64" where
  "backup_unsigned v = (case v of Unsigned n \<Rightarrow> Inr n | _ \<Rightarrow> Inl BadCbor)"

definition backup_bytes :: "cvalue \<Rightarrow> conversion_error + bytes" where
  "backup_bytes v = (case v of ByteString b \<Rightarrow> Inr b | _ \<Rightarrow> Inl BadCbor)"

definition backup_array :: "cvalue \<Rightarrow> conversion_error + cvalue list" where
  "backup_array v = (case v of Array a \<Rightarrow> Inr a | _ \<Rightarrow> Inl BadCbor)"

definition backup_text :: "cvalue \<Rightarrow> conversion_error + bytes" where
  "backup_text v = (case v of TextString t \<Rightarrow> Inr t | _ \<Rightarrow> Inl BadCbor)"

definition backup_map :: "cvalue \<Rightarrow> conversion_error + (cvalue \<times> cvalue) list" where
  "backup_map v = (case v of Map m \<Rightarrow> Inr m | _ \<Rightarrow> Inl BadCbor)"

text \<open>\<open>e.try_into().unwrap()\<close> of every element\<close>

fun unwrap_all :: "(cvalue \<Rightarrow> conversion_error + 'a) \<Rightarrow> cvalue list \<Rightarrow> conversion_error + 'a list" where
  "unwrap_all f [] = Inr []"
| "unwrap_all f (v # vs) =
     (case f v of Inl _ \<Rightarrow> Inl ConversionPanic | Inr x \<Rightarrow> rbind (unwrap_all f vs) (\<lambda>xs. Inr (x # xs)))"

text \<open>\<open>cbor::write(v, &mut ret).ok()\<close>: on an error the bytes written so far are kept.\<close>

definition cbor_bytes :: "cvalue \<Rightarrow> bytes" where
  "cbor_bytes v = snd (cbor_write v [])"

section \<open>Entries\<close>

datatype hash_algorithm = SHA1 | SHA256 | SHA512

definition cbor_of_hash :: "hash_algorithm \<Rightarrow> cvalue" where
  "cbor_of_hash h = Unsigned (case h of SHA1 \<Rightarrow> 1 | SHA256 \<Rightarrow> 2 | SHA512 \<Rightarrow> 3)"

definition hash_of_cbor :: "cvalue \<Rightarrow> conversion_error + hash_algorithm" where
  "hash_of_cbor v =
     rbind (backup_unsigned v) (\<lambda>n.
       if n = 1 then Inr SHA1 else if n = 2 then Inr SHA256 else if n = 3 then Inr SHA512 else Inl (UnknownHash n))"

record backup_totp =
  bt_step_seconds :: u64
  bt_shared_secret :: bytes
  bt_digit_count :: u32
  bt_algorithm :: hash_algorithm
  bt_name :: bytes
  bt_hotp :: bool

definition cbor_of_totp :: "backup_totp \<Rightarrow> cvalue" where
  "cbor_of_totp e = Map
     [(Unsigned 1, integer_value (bt_step_seconds e)), (Unsigned 2, TextString (bt_shared_secret e)),
      (Unsigned 3, integer_value (ucast (bt_digit_count e))), (Unsigned 4, cbor_of_hash (bt_algorithm e)),
      (Unsigned 5, TextString (bt_name e))]"

definition totp_of_cbor :: "cvalue \<Rightarrow> conversion_error + backup_totp" where
  "totp_of_cbor v =
     rbind (backup_map v) (\<lambda>m.
       let fs = destructure (map Unsigned [1, 2, 3, 4, 5, 6]) m in
       rbind (rbind (unwrap (fs ! 0)) backup_unsigned) (\<lambda>step.
       rbind (rbind (unwrap (fs ! 1)) backup_text) (\<lambda>secret.
       rbind (rbind (unwrap (fs ! 2)) backup_unsigned) (\<lambda>digits.
       rbind (rbind (unwrap (fs ! 3)) hash_of_cbor) (\<lambda>algorithm.
       rbind (rbind (unwrap (fs ! 4)) backup_text) (\<lambda>name.
         let hotp = (case backup_bool (case fs ! 5 of Some x \<Rightarrow> x | None \<Rightarrow> Simple FalseValue) of
                       Inr b \<Rightarrow> b | Inl _ \<Rightarrow> False)
         in Inr \<lparr>bt_step_seconds = step, bt_shared_secret = secret, bt_digit_count = ucast digits,
                 bt_algorithm = algorithm, bt_name = name, bt_hotp = hotp\<rparr>))))))"

record backup_password =
  bp_description :: bytes
  bp_username :: bytes
  bp_password :: bytes
  bp_notes :: bytes

definition cbor_of_password :: "backup_password \<Rightarrow> cvalue" where
  "cbor_of_password e = Map
     [(Unsigned 1, TextString (bp_description e)), (Unsigned 2, TextString (bp_username e)),
      (Unsigned 3, TextString (bp_password e)), (Unsigned 4, TextString (bp_notes e))]"

definition password_of_cbor :: "cvalue \<Rightarrow> conversion_error + backup_password" where
  "password_of_cbor v =
     rbind (backup_map v) (\<lambda>m.
       let fs = destructure (map Unsigned [1, 2, 3, 4]) m in
       rbind (rbind (unwrap (fs ! 0)) backup_text) (\<lambda>description.
       rbind (rbind (unwrap (fs ! 1)) backup_text) (\<lambda>username.
       rbind (rbind (unwrap (fs ! 2)) backup_text) (\<lambda>password.
       rbind (rbind (unwrap (fs ! 3)) backup_text) (\<lambda>notes.
         Inr \<lparr>bp_description = description, bp_username = username, bp_password = password, bp_notes = notes\<rparr>)))))"

section \<open>Packets\<close>

datatype data_packet = PasswordPacket "backup_password list" | TotpPacket "backup_totp list"

fun packet_type :: "data_packet \<Rightarrow> u64" where
  "packet_type (PasswordPacket _) = 1"
| "packet_type (TotpPacket _) = 2"

fun packet_entries :: "data_packet \<Rightarrow> cvalue" where
  "packet_entries (PasswordPacket ps) = Array (map cbor_of_password ps)"
| "packet_entries (TotpPacket ts) = Array (map cbor_of_totp ts)"

definition cbor_of_packet :: "data_packet \<Rightarrow> cvalue" where
  "cbor_of_packet dp = Map [(Unsigned 1, Unsigned (packet_type dp)), (Unsigned 2, packet_entries dp)]"

definition packet_bytes :: "data_packet \<Rightarrow> bytes" where
  "packet_bytes dp = cbor_bytes (cbor_of_packet dp)"

definition packet_of_cbor :: "cvalue \<Rightarrow> conversion_error + data_packet" where
  "packet_of_cbor v =
     rbind (backup_map v) (\<lambda>m.
       let fs = destructure (map Unsigned [1, 2]) m in
       rbind (rbind (unwrap (fs ! 0)) backup_unsigned) (\<lambda>t.
       rbind (unwrap (fs ! 1)) (\<lambda>entries.
         if t = 1 then rbind (backup_array entries) (\<lambda>a. rbind (unwrap_all password_of_cbor a) (\<lambda>ps. Inr (PasswordPacket ps)))
         else if t = 2 then rbind (backup_array entries) (\<lambda>a. rbind (unwrap_all totp_of_cbor a) (\<lambda>ts. Inr (TotpPacket ts)))
         else Inl ConversionPanic)))"

datatype payload_type = TotpPayload | PasswordPayload

definition payload_type_code :: "payload_type \<Rightarrow> u8" where
  "payload_type_code t = (case t of TotpPayload \<Rightarrow> 1 | PasswordPayload \<Rightarrow> 2)"

definition payload_type_of :: "bytes \<Rightarrow> payload_type option" where
  "payload_type_of u =
     (case u of [] \<Rightarrow> None | b # _ \<Rightarrow> if b = 1 then Some TotpPayload else if b = 2 then Some PasswordPayload else None)"

definition payload_size_of_cbor :: "cvalue \<Rightarrow> conversion_error + u64" where
  "payload_size_of_cbor v = backup_unsigned v"

definition cbor_of_payload_size :: "u64 \<Rightarrow> cvalue" where
  "cbor_of_payload_size n = Map [(Unsigned 0, Unsigned n)]"

section \<open>Wires\<close>

record wire =
  w_index :: u64
  w_size :: u64
  w_more_data :: bool
  w_data :: bytes

definition max_data :: nat where "max_data = 7588"

definition wires_of_packet :: "data_packet \<Rightarrow> wire list" where
  "wires_of_packet dp =
     (let ws = map (\<lambda>(i, c). \<lparr>w_index = of_nat i, w_size = of_nat (length c), w_more_data = True, w_data = c\<rparr>)
                 (enumerate 0 (chunks max_data (packet_bytes dp)))
      in if ws = [] then [] else butlast ws @ [(last ws)\<lparr>w_more_data := False\<rparr>])"

text \<open>\<open>TryFrom<Vec<Wire>> for DataPacket\<close> takes one byte of every wire, at the index \<open>size\<close>.\<close>

fun wire_bytes :: "nat \<Rightarrow> wire list \<Rightarrow> conversion_error + bytes" where
  "wire_bytes ub [] = Inr []"
| "wire_bytes ub (w # ws) =
     (if usize_of_u64 ub (w_size w) < length (w_data w)
      then rbind (wire_bytes ub ws) (\<lambda>bs. Inr (w_data w ! usize_of_u64 ub (w_size w) # bs))
      else Inl ConversionPanic)"

definition packet_of_wires :: "nat \<Rightarrow> wire list \<Rightarrow> conversion_error + data_packet" where
  "packet_of_wires ub ws =
     rbind (wire_bytes ub ws) (\<lambda>bs.
       case cbor_read ub bs of Inl _ \<Rightarrow> Inl BadCbor | Inr v \<Rightarrow> packet_of_cbor v)"

definition cbor_of_wire :: "wire \<Rightarrow> cvalue" where
  "cbor_of_wire w = Map
     [(Unsigned 1, Unsigned (w_index w)), (Unsigned 2, Unsigned (w_size w)),
      (Unsigned 3, bool_value (w_more_data w)), (Unsigned 4, ByteString (w_data w))]"

definition wire_to_bytes :: "wire \<Rightarrow> bytes" where
  "wire_to_bytes w = cbor_bytes (cbor_of_wire w)"

definition wire_of_cbor :: "cvalue \<Rightarrow> conversion_error + wire" where
  "wire_of_cbor v =
     rbind (backup_map v) (\<lambda>m.
       let fs = destructure (map Unsigned [1, 2, 3, 4]) m in
       rbind (rbind (unwrap (fs ! 0)) backup_unsigned) (\<lambda>index.
       rbind (rbind (unwrap (fs ! 1)) backup_unsigned) (\<lambda>sz.
       rbind (rbind (unwrap (fs ! 3)) backup_bytes) (\<lambda>d.
       rbind (rbind (unwrap (fs ! 2)) backup_bool) (\<lambda>more.
         Inr \<lparr>w_index = index, w_size = sz, w_more_data = more, w_data = d\<rparr>)))))"

end
