(* ===== verification/Vendor.thy ===== *)
theory Vendor
  imports Backup Main_Hid
begin

text \<open>
  The vendor commands, \<open>src/vendor_commands.rs\<close>, and the part of the loop of \<open>src/fido2.rs\<close> that serves
  them: a session collects the wires of a restore, or hands out those of a backup. The state of an
  operation is the PDDB and the session. The flag by which the user allows the host, the clock and the
  text for the notes of restored entries are arguments.
\<close>

section \<open>Sessions\<close>

datatype session_error = WrongIndex | WrongCommand

record vendor_session =
  vs_data :: bytes
  vs_finished :: bool
  vs_command :: u8
  vs_channel :: channel_id
  vs_index :: u64
  vs_backup_kind :: "payload_type option"
  vs_is_backup :: bool
  vs_chunks :: "wire list option"

definition default_session :: vendor_session where
  "default_session = \<lparr>vs_data = [], vs_finished = False, vs_command = 0, vs_channel = [0, 0, 0, 0], vs_index = 0,
     vs_backup_kind = None, vs_is_backup = False, vs_chunks = None\<rparr>"

definition read_from_wire :: "wire \<Rightarrow> u8 \<Rightarrow> (vendor_session, session_error, unit) op" where
  "read_from_wire w command = (\<lambda>s.
     let s = s\<lparr>vs_data := vs_data s @ w_data w, vs_finished := \<not> w_more_data w\<rparr>
     in if vs_command s \<noteq> 0 \<and> vs_command s \<noteq> command then (Inl WrongCommand, s)
        else let s = s\<lparr>vs_command := command\<rparr>
             in if vs_index s \<noteq> 0 \<and> vs_index s \<le> w_index w then (Inl WrongIndex, s) else (Inr (), s))"

text \<open>The chunks are kept in reverse order, the next one last.\<close>

definition load_backup_data :: "data_packet \<Rightarrow> vendor_session \<Rightarrow> vendor_session" where
  "load_backup_data dp s = s\<lparr>vs_chunks := Some (rev (wires_of_packet dp))\<rparr>"

definition drain_backup :: "vendor_session \<Rightarrow> wire option \<times> vendor_session" where
  "drain_backup s =
     (case vs_chunks s of
        None \<Rightarrow> (None, s)
      | Some [] \<Rightarrow> (None, s)
      | Some ws \<Rightarrow> (Some (last ws), s\<lparr>vs_chunks := Some (butlast ws)\<rparr>))"

definition vendor_message :: "channel_id \<Rightarrow> u8 \<Rightarrow> bytes \<Rightarrow> message" where
  "vendor_message c command pl = \<lparr>m_cid = c, m_cmd = cmd_from command, m_payload = pl\<rparr>"

definition vendor_error :: "channel_id \<Rightarrow> u8 \<Rightarrow> message" where
  "vendor_error c code = \<lparr>m_cid = c, m_cmd = Error, m_payload = [code]\<rparr>"

definition okay_canary :: bytes where "okay_canary = [0xCA, 0xFE, 0xBA, 0xBE]"
definition continue_response :: bytes where "continue_response = [42, 43, 44, 45]"

section \<open>Receiving\<close>

text \<open>
  A result of \<open>None\<close> asks for \<open>handle_vendor_command\<close>. The session is kept as it is when an error is
  reported. A wire whose keys are missing panics. The packets of the short replies always exist.
\<close>

datatype vendor_failure = SessionFailure session_error | VendorPanic

definition handle_vendor_data ::
  "nat \<Rightarrow> u8 \<Rightarrow> channel_id \<Rightarrow> bytes \<Rightarrow> (vendor_session, vendor_failure, message option) op" where
  "handle_vendor_data ub command c pl = (\<lambda>s.
     if command = cmd_code ResetSession then (Inr (Some (vendor_message c command okay_canary)), default_session)
     else
       let s = s\<lparr>vs_command := command, vs_channel := c\<rparr>
       in case payload_type_of pl of
            Some t \<Rightarrow> (Inr None, s\<lparr>vs_is_backup := True, vs_backup_kind := Some t\<rparr>)
          | None \<Rightarrow>
              (case cbor_read ub pl of
                 Inl _ \<Rightarrow> (Inr (Some (vendor_error c 0x35)), s)
               | Inr v \<Rightarrow>
                   (case wire_of_cbor v of
                      Inl ConversionPanic \<Rightarrow> (Inl VendorPanic, s)
                    | Inl _ \<Rightarrow> (Inr (Some (vendor_error c 0x35)), s)
                    | Inr w \<Rightarrow>
                        (case read_from_wire w command s of
                           (Inl e, s) \<Rightarrow> (Inl (SessionFailure e), s)
                         | (Inr _, s) \<Rightarrow>
                             (Inr (if vs_finished s then None else Some (vendor_message c command continue_response)), s)))))"

section \<open>Restore\<close>

datatype backup_error = BackupCbor decoder_error | BackupConversion conversion_error | BackupPddb io_kind
  | BackupStorage vault_error | NoMoreChunks | BackupPanic

definition error_of_storage :: "vault_error \<Rightarrow> backup_error" where
  "error_of_storage e = (case e of IoError k \<Rightarrow> BackupPddb k | _ \<Rightarrow> BackupStorage e)"

definition error_of_conversion :: "conversion_error \<Rightarrow> backup_error" where
  "error_of_conversion e = (if e = ConversionPanic then BackupPanic else BackupConversion e)"

definition algorithm_of_hash :: "hash_algorithm \<Rightarrow> totp_algorithm" where
  "algorithm_of_hash h = (case h of SHA1 \<Rightarrow> HmacSha1 | SHA256 \<Rightarrow> HmacSha256 | SHA512 \<Rightarrow> HmacSha512)"

definition restored_totp :: "bytes \<Rightarrow> backup_totp \<Rightarrow> totp_record" where
  "restored_totp notes e = \<lparr>tr_version = 1, tr_secret = bt_shared_secret e, tr_name = bt_name e,
     tr_algorithm = algorithm_of_hash (bt_algorithm e), tr_notes = notes, tr_digits = bt_digit_count e,
     tr_timestep = bt_step_seconds e, tr_ctime = 0, tr_hotp = False\<rparr>"

definition restored_password :: "backup_password \<Rightarrow> password_record" where
  "restored_password e = \<lparr>pr_version = 1, pr_description = bp_description e, pr_username = bp_username e,
     pr_password = bp_password e, pr_notes = bp_notes e, pr_ctime = 0, pr_atime = 0, pr_count = 0\<rparr>"

fun restored :: "bytes \<Rightarrow> data_packet \<Rightarrow> vault_content list" where
  "restored notes (TotpPacket ts) = map (\<lambda>e. TotpContent (restored_totp notes e)) ts"
| "restored notes (PasswordPacket ps) = map (\<lambda>e. PasswordContent (restored_password e)) ps"

text \<open>Entries that exist are not an error.\<close>

definition handle_restore :: "'p vault_db \<Rightarrow> u64 \<Rightarrow> bytes \<Rightarrow> nat \<Rightarrow> bytes \<Rightarrow> ('p, backup_error, bytes) op" where
  "handle_restore V now notes ub bs =
     sbind (slift (\<lambda>_. map_sum BackupCbor id (cbor_read ub bs))) (\<lambda>v.
     sbind (slift (\<lambda>_. map_sum error_of_conversion id (packet_of_cbor v))) (\<lambda>dp p.
       case new_records V now (restored notes dp) None False p of
         (Inl e, p) \<Rightarrow> (case e of DupesExist _ \<Rightarrow> Inr okay_canary | _ \<Rightarrow> Inl (error_of_storage e), p)
       | (Inr _, p) \<Rightarrow> (Inr okay_canary, p)))"

section \<open>Backup\<close>

definition hash_of_algorithm :: "totp_algorithm \<Rightarrow> backup_error + hash_algorithm" where
  "hash_of_algorithm a =
     (case a of HmacSha1 \<Rightarrow> Inr SHA1 | HmacSha256 \<Rightarrow> Inr SHA256 | HmacSha512 \<Rightarrow> Inr SHA512 | NoAlgorithm \<Rightarrow> Inl BackupPanic)"

definition saved_totp :: "totp_record \<Rightarrow> backup_error + backup_totp" where
  "saved_totp r = rbind (hash_of_algorithm (tr_algorithm r)) (\<lambda>h.
     Inr \<lparr>bt_step_seconds = tr_timestep r, bt_shared_secret = tr_secret r, bt_digit_count = tr_digits r,
          bt_algorithm = h, bt_name = tr_name r, bt_hotp = tr_hotp r\<rparr>)"

definition saved_password :: "password_record \<Rightarrow> backup_password" where
  "saved_password r = \<lparr>bp_description = pr_description r, bp_username = pr_username r, bp_password = pr_password r,
     bp_notes = pr_notes r\<rparr>"

fun saved_totps :: "vault_content list \<Rightarrow> backup_error + backup_totp list" where
  "saved_totps [] = Inr []"
| "saved_totps (TotpContent r # cs) = rbind (saved_totp r) (\<lambda>e. rbind (saved_totps cs) (\<lambda>es. Inr (e # es)))"
| "saved_totps (_ # cs) = saved_totps cs"

fun saved_passwords :: "vault_content list \<Rightarrow> backup_password list" where
  "saved_passwords [] = []"
| "saved_passwords (PasswordContent r # cs) = saved_password r # saved_passwords cs"
| "saved_passwords (_ # cs) = saved_passwords cs"

text \<open>The records \<open>all\<close> reads are of the kind it was asked for.\<close>

definition saved :: "payload_type \<Rightarrow> vault_content list \<Rightarrow> backup_error + data_packet" where
  "saved t cs =
     (case t of TotpPayload \<Rightarrow> rbind (saved_totps cs) (\<lambda>es. Inr (TotpPacket es))
      | PasswordPayload \<Rightarrow> Inr (PasswordPacket (saved_passwords cs)))"

fun kind_of_payload :: "payload_type \<Rightarrow> content_kind" where
  "kind_of_payload TotpPayload = TotpKind"
| "kind_of_payload PasswordPayload = PasswordKind"

definition next_wire :: "(vendor_session, backup_error, bytes) op" where
  "next_wire = (\<lambda>s. case drain_backup s of (None, s) \<Rightarrow> (Inl NoMoreChunks, s) | (Some w, s) \<Rightarrow> (Inr (wire_to_bytes w), s))"

definition handle_backup :: "'p vault_db \<Rightarrow> ('p \<times> vendor_session, backup_error, bytes) op" where
  "handle_backup V = (\<lambda>(p, s).
     if vs_is_backup s \<and> vs_chunks s \<noteq> None then (let (r, s) = next_wire s in (r, p, s))
     else case vs_backup_kind s of
            None \<Rightarrow> (Inl BackupPanic, p, s)
          | Some t \<Rightarrow>
              (case all_records V (kind_of_payload t) p of
                 (Inl e, p) \<Rightarrow> (Inl (error_of_storage e), p, s)
               | (Inr cs, p) \<Rightarrow>
                   (case saved t cs of
                      Inl e \<Rightarrow> (Inl e, p, s)
                    | Inr dp \<Rightarrow> (let (r, s) = next_wire (load_backup_data dp s) in (r, p, s)))))"

section \<open>Commands\<close>

text \<open>The reply of a finished operation; \<open>None\<close> is a panic.\<close>

definition vendor_result :: "channel_id \<Rightarrow> u8 \<Rightarrow> u8 \<Rightarrow> backup_error + bytes \<Rightarrow> message option" where
  "vendor_result c command code r =
     (case r of
        Inr pl \<Rightarrow> Some (vendor_message c command pl)
      | Inl BackupPanic \<Rightarrow> None
      | Inl NoMoreChunks \<Rightarrow> Some (vendor_error c (if command = cmd_code BackupTotpCodes then 88 else code))
      | Inl _ \<Rightarrow> Some (vendor_error c code))"

definition handle_vendor_command ::
  "'p vault_db \<Rightarrow> u64 \<Rightarrow> bytes \<Rightarrow> nat \<Rightarrow> bool \<Rightarrow> 'p \<times> vendor_session \<Rightarrow> message option \<times> 'p \<times> vendor_session" where
  "handle_vendor_command V now notes ub allow_host = (\<lambda>(p, s).
     let command = vs_command s; c = vs_channel s
     in if \<not> allow_host then (Some (vendor_error c 44), p, s)
        else if command = cmd_code RestoreTotpCodes then
          (let (r, p) = handle_restore V now notes ub (vs_data s) p in (vendor_result c command 41 r, p, s))
        else if command = cmd_code BackupTotpCodes then
          (let (r, p, s) = handle_backup V (p, s) in (vendor_result c command 42 r, p, s))
        else (Some (vendor_error c 0x33), p, s))"

text \<open>
  The \<open>Vendor\<close> arm of the loop: the packets of the reply and the session after it; \<open>None\<close> is a panic of
  the thread, also when the reply is too long for its packets.
\<close>

definition vendor_step ::
  "'p vault_db \<Rightarrow> u64 \<Rightarrow> bytes \<Rightarrow> nat \<Rightarrow> bool \<Rightarrow> message \<Rightarrow> 'p \<times> vendor_session \<Rightarrow>
     message_splitter option \<times> 'p \<times> vendor_session" where
  "vendor_step V now notes ub allow_host m = (\<lambda>(p, s).
     case handle_vendor_data ub (cmd_code (m_cmd m)) (m_cid m) (m_payload m) s of
       (Inl VendorPanic, s) \<Rightarrow> (None, p, s)
     | (Inl (SessionFailure _), _) \<Rightarrow> (new_splitter (vendor_error (m_cid m) 0x36), p, default_session)
     | (Inr (Some r), s) \<Rightarrow> (new_splitter r, p, s)
     | (Inr None, s) \<Rightarrow>
         (case handle_vendor_command V now notes ub allow_host (p, s) of
            (None, p, s) \<Rightarrow> (None, p, s)
          | (Some r, p, s) \<Rightarrow>
              (new_splitter r, p, if vs_is_backup s \<and> vs_chunks s \<noteq> None then s else default_session)))"

end
