(* ===== verification/Backup_Props.thy ===== *)
theory Backup_Props
  imports Backup
begin

text \<open>
  Round trips of the backup format, and the bound on the length of a wire: a wire fills the longest
  message of the transport exactly when its index needs all eight bytes.
\<close>

section \<open>Writing and reading\<close>

lemma cbor_bytes_enc: "canonical v \<Longrightarrow> nest v \<le> 127 \<Longrightarrow> cbor_bytes v = enc v"
proof -
  assume "canonical v" "nest v \<le> 127"
  then have "cbor_write v [] = (Inr (), enc v)"
    by (simp add: cbor_write_iff sort_maps_canonical canonical_unique_keys)
  then show ?thesis by (simp add: cbor_bytes_def)
qed

lemma cbor_read_bytes:
  assumes "wf_value ub v" "canonical v" "nest v \<le> 127"
  shows "cbor_read ub (cbor_bytes v) = Inr v"
  using decode_enc [of ub v "Some 127" "[]"] assms
  by (simp add: cbor_bytes_enc cbor_read_def read_nested_def fits_127)

lemma length_head: "length (head l n) = Suc (shift_of n)"
  by (simp add: head_eq)

section \<open>Wires\<close>

lemma cbor_of_wire_wf:
  "length (w_data w) < 2 ^ ub \<Longrightarrow> length (w_data w) < 2 ^ 64 \<Longrightarrow> wf_value ub (cbor_of_wire w)"
  "canonical (cbor_of_wire w)" "nest (cbor_of_wire w) \<le> 127"
  by (simp_all add: cbor_of_wire_def bool_value_def)

lemma wire_of_cbor_of_wire [simp]: "wire_of_cbor (cbor_of_wire w) = Inr w"
  by (cases "w_more_data w")
     (simp_all add: cbor_of_wire_def wire_of_cbor_def backup_map_def unwrap_def backup_unsigned_def backup_bytes_def
       backup_bool_def bool_value_def cmp_of_def Let_def)

definition wire_ok :: "wire \<Rightarrow> bool" where
  "wire_ok w \<longleftrightarrow> length (w_data w) \<le> max_data \<and> w_size w = of_nat (length (w_data w))"

lemma wire_read:
  assumes "wire_ok w" "13 \<le> ub"
  shows "cbor_read ub (wire_to_bytes w) = Inr (cbor_of_wire w)"
proof -
  have "(2 :: nat) ^ 13 \<le> 2 ^ ub" using assms(2) by (intro power_increasing) auto
  then have "length (w_data w) < 2 ^ ub" "length (w_data w) < 2 ^ 64"
    using assms(1) by (simp_all add: wire_ok_def max_data_def)
  then show ?thesis
    unfolding wire_to_bytes_def by (intro cbor_read_bytes cbor_of_wire_wf)
qed

lemma wire_fits: "wire_ok w \<Longrightarrow> length (wire_to_bytes w) \<le> 7609"
proof -
  assume w: "wire_ok w"
  then have n: "length (w_data w) \<le> 7588" by (simp add: wire_ok_def max_data_def)
  have "unat (of_nat (length (w_data w)) :: u64) = length (w_data w)"
    using n by (intro unat_of_nat_u64) simp
  then have sz: "shift_of (of_nat (length (w_data w))) \<le> 2"
    using n by (simp add: shift_of_def word_le_nat_alt)
  have ix: "shift_of (w_index w) \<le> 8" by (simp add: shift_of_def)
  show ?thesis
    unfolding wire_to_bytes_def cbor_bytes_enc [OF cbor_of_wire_wf(2,3)]
    using w n sz ix
    by (cases "w_more_data w")
       (simp_all add: cbor_of_wire_def length_head wire_ok_def bool_value_def simple_code_def shift_of_def [of 4]
         shift_of_def [of 1] shift_of_def [of 2] shift_of_def [of 3] shift_of_def [of 20] shift_of_def [of 21])
qed

lemma wire_first_byte: "payload_type_of (wire_to_bytes w) = None"
proof -
  have "\<exists>r. wire_to_bytes w = 0xA4 # r"
    unfolding wire_to_bytes_def cbor_bytes_enc [OF cbor_of_wire_wf(2,3)]
    unfolding cbor_of_wire_def enc.simps head_eq [of 5]
    by (simp add: info_of_def push_bit_eq_mult)
  then obtain r where "wire_to_bytes w = 0xA4 # r" by blast
  then show ?thesis by (simp add: payload_type_of_def)
qed

section \<open>Packets\<close>

fun forget_hotp :: "data_packet \<Rightarrow> data_packet" where
  "forget_hotp (TotpPacket ts) = TotpPacket (map (\<lambda>e. e\<lparr>bt_hotp := False\<rparr>) ts)"
| "forget_hotp (PasswordPacket ps) = PasswordPacket ps"

definition string_ok :: "nat \<Rightarrow> bytes \<Rightarrow> bool" where
  "string_ok ub s \<longleftrightarrow> utf8_valid s \<and> length s < 2 ^ ub"

definition totp_portable :: "nat \<Rightarrow> backup_totp \<Rightarrow> bool" where
  "totp_portable ub e \<longleftrightarrow> string_ok ub (bt_shared_secret e) \<and> string_ok ub (bt_name e) \<and> 0 \<le> sint (bt_step_seconds e)"

definition password_portable :: "nat \<Rightarrow> backup_password \<Rightarrow> bool" where
  "password_portable ub e \<longleftrightarrow> string_ok ub (bp_description e) \<and> string_ok ub (bp_username e) \<and>
     string_ok ub (bp_password e) \<and> string_ok ub (bp_notes e)"

fun packet_ok :: "nat \<Rightarrow> data_packet \<Rightarrow> bool" where
  "packet_ok ub (TotpPacket ts) \<longleftrightarrow> list_all (totp_portable ub) ts \<and> length ts < 2 ^ 64"
| "packet_ok ub (PasswordPacket ps) \<longleftrightarrow> list_all (password_portable ub) ps \<and> length ps < 2 ^ 64"

lemma string_ok_64: "string_ok ub s \<Longrightarrow> ub \<le> 64 \<Longrightarrow> length s < 2 ^ 64"
  using power_increasing [of ub 64 "2 :: nat"] by (auto simp: string_ok_def)

lemma digit_count_value: "integer_value (ucast (d :: u32)) = Unsigned (ucast d)"
proof -
  have d: "0 \<le> uint d" "uint d < 2 ^ 32" using uint_bounded [of d] by simp_all
  then have "signed_take_bit 63 (uint d) = uint d" 
    by (intro signed_take_bit_int_eq_self order.trans [OF _ d(1)] less_trans [OF d(2)]) simp_all
  then have "sint (ucast d :: u64) = uint d"
    using d by (simp add: sint_uint unsigned_ucast_eq take_bit_int_eq_self)
  then show ?thesis by (simp add: integer_value_def)
qed

lemma hash_of_cbor_of_hash [simp]: "hash_of_cbor (cbor_of_hash h) = Inr h"
  by (cases h) (simp_all add: hash_of_cbor_def cbor_of_hash_def backup_unsigned_def)

lemma totp_of_cbor_of_totp:
  "0 \<le> sint (bt_step_seconds e) \<Longrightarrow> totp_of_cbor (cbor_of_totp e) = Inr (e\<lparr>bt_hotp := False\<rparr>)"
  by (simp add: cbor_of_totp_def totp_of_cbor_def backup_map_def unwrap_def backup_unsigned_def backup_text_def
      backup_bool_def cmp_of_def Let_def digit_count_value integer_value_def [of "bt_step_seconds e"]
      unsigned_ucast_eq take_bit_word_eq_self)

lemma password_of_cbor_of_password: "password_of_cbor (cbor_of_password e) = Inr e"
  by (simp add: cbor_of_password_def password_of_cbor_def backup_map_def unwrap_def backup_text_def cmp_of_def Let_def)

lemma unwrap_all_map:
  "(\<And>x. x \<in> set xs \<Longrightarrow> f (g x) = Inr (h x)) \<Longrightarrow> unwrap_all f (map g xs) = Inr (map h xs)"
  by (induction xs) auto

lemma packet_of_cbor_of_packet: "packet_ok ub dp \<Longrightarrow> packet_of_cbor (cbor_of_packet dp) = Inr (forget_hotp dp)"
proof (cases dp)
  case (PasswordPacket ps)
  have "unwrap_all password_of_cbor (map cbor_of_password ps) = Inr (map (\<lambda>x. x) ps)"
    by (intro unwrap_all_map) (rule password_of_cbor_of_password)
  then show ?thesis
    by (simp add: PasswordPacket packet_of_cbor_def cbor_of_packet_def backup_map_def unwrap_def backup_unsigned_def
        backup_array_def cmp_of_def Let_def)
next
  case (TotpPacket ts)
  assume "packet_ok ub dp"
  then have "unwrap_all totp_of_cbor (map cbor_of_totp ts) = Inr (map (\<lambda>e. e\<lparr>bt_hotp := False\<rparr>) ts)"
    by (intro unwrap_all_map totp_of_cbor_of_totp) (auto simp: TotpPacket list_all_iff totp_portable_def)
  then show ?thesis
    by (simp add: TotpPacket packet_of_cbor_def cbor_of_packet_def backup_map_def unwrap_def backup_unsigned_def
        backup_array_def cmp_of_def Let_def)
qed

lemma cbor_of_packet_wf:
  assumes "packet_ok ub dp" "ub \<le> 64"
  shows "wf_value ub (cbor_of_packet dp)" "canonical (cbor_of_packet dp)" "nest (cbor_of_packet dp) \<le> 127"
proof -
  have totp: "wf_value ub (cbor_of_totp e) \<and> canonical (cbor_of_totp e) \<and> fits (Some 2) (nest (cbor_of_totp e))"
    if "totp_portable ub e" for e
    using that string_ok_64 [OF _ assms(2)]
    by (auto simp: totp_portable_def cbor_of_totp_def cbor_of_hash_def integer_value_def string_ok_def fits_def
        split: hash_algorithm.split)
  have password: "wf_value ub (cbor_of_password e) \<and> canonical (cbor_of_password e) \<and> fits (Some 2) (nest (cbor_of_password e))"
    if "password_portable ub e" for e
    using that string_ok_64 [OF _ assms(2)]
    by (auto simp: password_portable_def cbor_of_password_def string_ok_def fits_def)
  show "wf_value ub (cbor_of_packet dp)" "canonical (cbor_of_packet dp)"
    using assms(1) totp password by (cases dp; auto simp: cbor_of_packet_def list_all_iff)+
  have "fits (Some 4) (nest (cbor_of_packet dp))"
    using assms(1) totp password
    by (cases dp) (auto simp: cbor_of_packet_def list_all_iff fits_foldr_max depth_exhausted_def deeper_def)
  then show "nest (cbor_of_packet dp) \<le> 127" by (simp add: fits_def)
qed

lemma packet_read: "packet_ok ub dp \<Longrightarrow> ub \<le> 64 \<Longrightarrow> cbor_read ub (packet_bytes dp) = Inr (cbor_of_packet dp)"
  unfolding packet_bytes_def by (intro cbor_read_bytes cbor_of_packet_wf)

section \<open>The wires of a packet\<close>

lemma chunks_bound: "0 < n \<Longrightarrow> c \<in> set (chunks n xs) \<Longrightarrow> length c \<le> n"
  by (induction n xs rule: chunks.induct) (subst (asm) (2) chunks.simps, auto split: if_splits)

lemma packet_bytes_not_Nil: "packet_ok ub dp \<Longrightarrow> ub \<le> 64 \<Longrightarrow> packet_bytes dp \<noteq> []"
  by (simp add: packet_bytes_def cbor_bytes_enc cbor_of_packet_wf) (simp add: cbor_of_packet_def head_eq)

text \<open>All wires but the last announce more data, and their data is the packet.\<close>

lemma wires_of_packet_spec:
  assumes "packet_ok ub dp" "ub \<le> 64"
  shows "\<exists>ws w. wires_of_packet dp = ws @ [w] \<and> list_all w_more_data ws \<and> \<not> w_more_data w \<and>
    list_all wire_ok (ws @ [w]) \<and> concat (map w_data (ws @ [w])) = packet_bytes dp"
proof -
  define f :: "nat \<times> bytes \<Rightarrow> wire" where
    "f = (\<lambda>(i, c). \<lparr>w_index = of_nat i, w_size = of_nat (length c), w_more_data = True, w_data = c\<rparr>)"
  define us where "us = map f (enumerate 0 (chunks max_data (packet_bytes dp)))"
  have f: "w_data (f ic) = snd ic" "w_more_data (f ic)" "w_size (f ic) = of_nat (length (snd ic))" for ic
    by (simp_all add: f_def split: prod.split)
  have us: "us \<noteq> []"
    using packet_bytes_not_Nil [OF assms] by (simp add: us_def chunks_Nil_iff max_data_def enumerate_eq_zip)
  have data: "map w_data us = chunks max_data (packet_bytes dp)"
  proof -
    have "map w_data us = map snd (enumerate 0 (chunks max_data (packet_bytes dp)))"
      by (simp add: us_def comp_def f)
    then show ?thesis by simp
  qed
  have ok: "wire_ok u" if u: "u \<in> set us" for u
  proof -
    have "w_data u \<in> set (map w_data us)" using u by simp
    then have "length (w_data u) \<le> max_data"
      unfolding data by (rule chunks_bound [rotated]) (simp add: max_data_def)
    then show ?thesis using u by (auto simp: us_def wire_ok_def f)
  qed
  let ?w = "(last us)\<lparr>w_more_data := False\<rparr>"
  have "wires_of_packet dp = butlast us @ [?w]"
    using us by (simp add: wires_of_packet_def us_def f_def Let_def)
  moreover have "list_all w_more_data (butlast us)"
    by (auto simp: list_all_iff us_def f dest!: in_set_butlastD)
  moreover have "list_all wire_ok (butlast us @ [?w])"
    using ok us by (auto simp: list_all_iff wire_ok_def dest: in_set_butlastD)
  moreover have "concat (map w_data (butlast us @ [?w])) = packet_bytes dp"
  proof -
    have "map w_data (butlast us @ [?w]) = map w_data (butlast us @ [last us])" by simp
    also have "\<dots> = chunks max_data (packet_bytes dp)" using us data by simp
    finally show ?thesis by (simp only: chunks_concat max_data_def zero_less_numeral)
  qed
  ultimately show ?thesis by (intro exI [of _ "butlast us"] exI [of _ ?w]) simp
qed

section \<open>Reading the wires back\<close>

text \<open>
  The conversion of wires back to a packet, which the restore command does not use, panics on the wires
  of every packet: the index it reads is the length of the data.
\<close>

lemma packet_of_wires_panics:
  assumes "packet_ok ub dp" "ub \<le> 64" "13 \<le> ub"
  shows "packet_of_wires ub (wires_of_packet dp) = Inl ConversionPanic"
proof -
  obtain ws w where ws: "wires_of_packet dp = ws @ [w]" "list_all wire_ok (ws @ [w])"
    using wires_of_packet_spec [OF assms(1,2)] by blast
  obtain u us where u: "wires_of_packet dp = u # us" "wire_ok u" using ws by (cases ws) auto
  have "(2 :: nat) ^ 13 \<le> 2 ^ ub" using assms(3) by (intro power_increasing) auto
  then have "length (w_data u) < 2 ^ ub" "length (w_data u) < 2 ^ 64"
    using u(2) by (simp_all add: wire_ok_def max_data_def)
  then have "usize_of_u64 ub (w_size u) = length (w_data u)"
    using u(2) by (simp add: usize_of_u64_def wire_ok_def unat_of_nat_u64)
  then show ?thesis by (simp add: packet_of_wires_def u(1))
qed

text \<open>The size of a payload is written as a map and read as a number.\<close>

lemma payload_size_unreadable: "payload_size_of_cbor (cbor_of_payload_size n) = Inl BadCbor"
  by (simp add: payload_size_of_cbor_def cbor_of_payload_size_def backup_unsigned_def)

end
