(* ===== verification/Vendor_Props.thy ===== *)
theory Vendor_Props
  imports Vendor Backup_Props Vault_Props
begin

text \<open>
  A backup moves the records of one vault to another; nothing is read or written before the user allows
  the host.
\<close>

section \<open>Storing many records\<close>

context record_store
begin

lemma added_free: "distinct (map key cs) \<Longrightarrow> c \<in> set cs \<Longrightarrow> m (key c) = None \<Longrightarrow> added cs m (key c) = Some (stamp c)"
proof (induction cs arbitrary: m)
  case (Cons d cs)
  show ?case
  proof (cases "c = d")
    case True
    then show ?thesis using Cons.prems(3) by (simp add: added_keeps)
  next
    case False
    then have "c \<in> set cs" "key d \<noteq> key c" using Cons.prems(1,2) by (auto simp: image_iff)
    then show ?thesis using Cons.IH [of "if m (key d) = None then m(key d \<mapsto> stamp d) else m"] Cons.prems by simp
  qed
qed simp

end

lemma store_records_ok:
  assumes "vault_holds V view kind m p" "\<forall>c\<in>set cs. kind_of c = kind \<and> clean_content c"
  shows "\<exists>p' dupes'. store_records V now cs b False i dupes p = (Inr dupes', p') \<and>
    vault_holds V view kind (record_store.added (content_key V) (set_ctime now) cs m) p'"
  using assms
proof (induction cs arbitrary: m p i dupes)
  case (Cons c cs)
  show ?case
  proof (cases "m (content_key V c) = None")
    case True
    obtain p1 where p1: "new_record V now c b False p = (Inr (set_ctime now c), p1)"
      "vault_holds V view kind (m(content_key V c \<mapsto> set_ctime now c)) p1"
      using vault.new [OF Cons.prems(1) _ True, of now b] Cons.prems(2) by auto
    then show ?thesis using Cons.IH [OF p1(2), of "Suc i" dupes] Cons.prems(2) True
      by (simp del: fun_upd_apply)
  next
    case False
    then have "new_record V now c b False p = (Inl KeyExists, p)"
      using vault.exists [OF Cons.prems(1), of c now b] Cons.prems(2) by simp
    then show ?thesis using Cons.IH [OF Cons.prems(1), of "Suc i" "dupes @ [i]"] Cons.prems(2) False
      by (auto simp del: fun_upd_apply)
  qed
qed auto

lemma new_records_ok:
  assumes "vault_holds V view kind m p" "\<forall>c\<in>set cs. kind_of c = kind \<and> clean_content c"
  shows "\<exists>p' r. new_records V now cs b False p = (r, p') \<and> (\<forall>e. r = Inl e \<longrightarrow> (\<exists>is. e = DupesExist is)) \<and>
    vault_holds V view kind (record_store.added (content_key V) (set_ctime now) cs m) p'"
proof -
  obtain p' dupes where "store_records V now cs b False 0 [] p = (Inr dupes, p')"
    "vault_holds V view kind (record_store.added (content_key V) (set_ctime now) cs m) p'"
    using store_records_ok [OF assms] by blast
  then show ?thesis by (cases "dupes = []") (auto simp: new_records_def)
qed

section \<open>Saving and restoring records\<close>

text \<open>What a backup does not keep: a HOTP entry comes back as a TOTP entry, and notes, versions and times are new.\<close>

fun after_restore :: "bytes \<Rightarrow> vault_content \<Rightarrow> vault_content" where
  "after_restore notes (TotpContent r) =
     TotpContent (r\<lparr>tr_version := 1, tr_notes := notes, tr_ctime := 0, tr_hotp := False\<rparr>)"
| "after_restore notes (PasswordContent r) =
     PasswordContent (r\<lparr>pr_version := 1, pr_ctime := 0, pr_atime := 0, pr_count := 0\<rparr>)"

fun portable :: "nat \<Rightarrow> vault_content \<Rightarrow> bool" where
  "portable ub (TotpContent r) \<longleftrightarrow> length (tr_secret r) < 2 ^ ub \<and> length (tr_name r) < 2 ^ ub \<and> 0 \<le> sint (tr_timestep r)"
| "portable ub (PasswordContent r) \<longleftrightarrow> length (pr_description r) < 2 ^ ub \<and> length (pr_username r) < 2 ^ ub \<and>
     length (pr_password r) < 2 ^ ub \<and> length (pr_notes r) < 2 ^ ub"

lemma after_restore_simps [simp]:
  "kind_of (after_restore notes c) = kind_of c"
  "content_key V (after_restore notes c) = content_key V c"
  "clean notes \<Longrightarrow> clean_content c \<Longrightarrow> clean_content (after_restore notes c)"
  by (cases c; simp add: content_key_def totp_hash_def password_hash_def)+

lemma saved_totps_ok:
  "\<forall>c\<in>set cs. kind_of c = TotpKind \<and> clean_content c \<and> portable ub c \<Longrightarrow>
     \<exists>es. saved_totps cs = Inr es \<and> list_all (totp_portable ub) es \<and> length es = length cs \<and>
       map (\<lambda>e. TotpContent (restored_totp notes (e\<lparr>bt_hotp := False\<rparr>))) es = map (after_restore notes) cs"
proof (induction cs)
  case (Cons c cs)
  then obtain r where r: "c = TotpContent r" by (cases c) auto
  then have "clean_content (TotpContent r)" "portable ub (TotpContent r)" using Cons.prems by auto
  moreover from this obtain h where "hash_of_algorithm (tr_algorithm r) = Inr h" "algorithm_of_hash h = tr_algorithm r"
    by (cases "tr_algorithm r") (auto simp: hash_of_algorithm_def algorithm_of_hash_def)
  ultimately show ?case
    using Cons.IH Cons.prems
    by (auto simp: r saved_totp_def totp_portable_def string_ok_def clean_def restored_totp_def)
qed simp

lemma saved_passwords_ok:
  "\<forall>c\<in>set cs. kind_of c = PasswordKind \<and> clean_content c \<and> portable ub c \<Longrightarrow>
     list_all (password_portable ub) (saved_passwords cs) \<and> length (saved_passwords cs) = length cs \<and>
       map (\<lambda>e. PasswordContent (restored_password e)) (saved_passwords cs) = map (after_restore notes) cs"
proof (induction cs)
  case (Cons c cs)
  then obtain r where r: "c = PasswordContent r" by (cases c) auto
  then have "clean_content (PasswordContent r)" "portable ub (PasswordContent r)" using Cons.prems by auto
  then show ?case
    using Cons.IH Cons.prems
    by (auto simp: r saved_password_def password_portable_def string_ok_def clean_def restored_password_def)
qed simp

lemma saved_ok:
  assumes "\<forall>c\<in>set cs. kind_of c = kind_of_payload t \<and> clean_content c \<and> portable ub c" "length cs < 2 ^ 64"
  shows "\<exists>dp. saved t cs = Inr dp \<and> packet_ok ub dp \<and> restored notes (forget_hotp dp) = map (after_restore notes) cs"
  using assms saved_totps_ok [of cs ub "notes"] saved_passwords_ok [of cs ub "notes"]
  by (cases t) (auto simp: saved_def comp_def)

lemma handle_restore_ok:
  assumes h: "vault_holds V view kind m p" and dp: "packet_ok ub dp" "ub \<le> 64"
    and cs: "restored notes (forget_hotp dp) = cs" "\<forall>c\<in>set cs. kind_of c = kind \<and> clean_content c"
  shows "\<exists>p'. handle_restore V now notes ub (packet_bytes dp) p = (Inr okay_canary, p') \<and>
    vault_holds V view kind (record_store.added (content_key V) (set_ctime now) cs m) p'"
proof -
  obtain p' r where "new_records V now cs None False p = (r, p')" "\<forall>e. r = Inl e \<longrightarrow> (\<exists>is. e = DupesExist is)"
    "vault_holds V view kind (record_store.added (content_key V) (set_ctime now) cs m) p'"
    using new_records_ok [OF h cs(2)] by blast
  then show ?thesis
    using cs(1) by (intro exI [of _ p']) (cases r; auto simp: handle_restore_def packet_read [OF dp]
        packet_of_cbor_of_packet [OF dp(1)] sbind_def)
qed

section \<open>The two sessions\<close>

definition backup_request :: "channel_id \<Rightarrow> payload_type \<Rightarrow> message" where
  "backup_request c t = \<lparr>m_cid = c, m_cmd = BackupTotpCodes, m_payload = [payload_type_code t]\<rparr>"

definition restore_request :: "channel_id \<Rightarrow> wire \<Rightarrow> message" where
  "restore_request c w = \<lparr>m_cid = c, m_cmd = RestoreTotpCodes, m_payload = wire_to_bytes w\<rparr>"

definition backup_reply :: "channel_id \<Rightarrow> wire \<Rightarrow> message" where
  "backup_reply c w = \<lparr>m_cid = c, m_cmd = BackupTotpCodes, m_payload = wire_to_bytes w\<rparr>"

definition restore_reply :: "channel_id \<Rightarrow> bytes \<Rightarrow> message" where
  "restore_reply c pl = \<lparr>m_cid = c, m_cmd = RestoreTotpCodes, m_payload = pl\<rparr>"

lemma vendor_message_code: "vendor_message c (cmd_code x) pl = \<lparr>m_cid = c, m_cmd = x, m_payload = pl\<rparr>"
  by (simp add: vendor_message_def)

lemma payload_type_of_code: "payload_type_of [payload_type_code t] = Some t"
  by (cases t) (simp_all add: payload_type_of_def payload_type_code_def)

definition serving :: "wire list \<Rightarrow> vendor_session \<Rightarrow> bool" where
  "serving ws s \<longleftrightarrow> vs_is_backup s \<and> vs_chunks s = Some (rev ws)"

lemma next_wire_rev:
  "vs_chunks s = Some (rev (w # ws)) \<Longrightarrow> next_wire s = (Inr (wire_to_bytes w), s\<lparr>vs_chunks := Some (rev ws)\<rparr>)"
  by (cases "rev ws") (simp_all add: next_wire_def drain_backup_def)

lemma request_data:
  "handle_vendor_data ub (cmd_code BackupTotpCodes) c [payload_type_code t] s =
     (Inr None, s\<lparr>vs_command := cmd_code BackupTotpCodes, vs_channel := c, vs_is_backup := True, vs_backup_kind := Some t\<rparr>)"
  by (simp add: handle_vendor_data_def Let_def payload_type_of_code)

lemma serve_next:
  assumes "serving (w # ws) s"
  shows "\<exists>s'. vendor_step V now notes ub True (backup_request c t) (p, s) = (new_splitter (backup_reply c w), p, s') \<and>
    serving ws s'"
proof -
  let ?s = "s\<lparr>vs_command := cmd_code BackupTotpCodes, vs_channel := c, vs_is_backup := True, vs_backup_kind := Some t\<rparr>"
  have "vs_chunks ?s = Some (rev (w # ws))" using assms by (simp add: serving_def)
  note n = next_wire_rev [OF this]
  have "handle_backup V (p, ?s) = (Inr (wire_to_bytes w), p, ?s\<lparr>vs_chunks := Some (rev ws)\<rparr>)"
    using assms n unfolding handle_backup_def by (simp add: serving_def)
  then have "handle_vendor_command V now notes ub True (p, ?s) =
      (Some (backup_reply c w), p, ?s\<lparr>vs_chunks := Some (rev ws)\<rparr>)"
    unfolding handle_vendor_command_def Let_def
    by (simp add: vendor_result_def vendor_message_code [where x = BackupTotpCodes, simplified] backup_reply_def)
  then show ?thesis
    using request_data [of ub c t s]
    by (simp add: vendor_step_def backup_request_def serving_def)
qed

lemma serve_first:
  assumes "all_records V (kind_of_payload t) p = (Inr cs, p)" "saved t cs = Inr dp" "wires_of_packet dp = w # ws"
  shows "\<exists>s'. vendor_step V now notes ub True (backup_request c t) (p, default_session) =
      (new_splitter (backup_reply c w), p, s') \<and> serving ws s'"
proof -
  let ?s = "default_session\<lparr>vs_command := cmd_code BackupTotpCodes, vs_channel := c, vs_is_backup := True, vs_backup_kind := Some t\<rparr>"
  have "vs_chunks (load_backup_data dp ?s) = Some (rev (w # ws))" using assms(3) by (simp add: load_backup_data_def)
  note n = next_wire_rev [OF this]
  have "handle_backup V (p, ?s) = (Inr (wire_to_bytes w), p, (load_backup_data dp ?s)\<lparr>vs_chunks := Some (rev ws)\<rparr>)"
    using assms(1,2) n unfolding handle_backup_def by (simp add: default_session_def)
  then have "handle_vendor_command V now notes ub True (p, ?s) =
      (Some (backup_reply c w), p, (load_backup_data dp ?s)\<lparr>vs_chunks := Some (rev ws)\<rparr>)"
    unfolding handle_vendor_command_def Let_def
    by (simp add: vendor_result_def vendor_message_code [where x = BackupTotpCodes, simplified] backup_reply_def)
  then show ?thesis
    using request_data [of ub c t default_session]
    by (simp add: vendor_step_def backup_request_def serving_def load_backup_data_def)
qed

lemma serve_rest:
  "serving ws s \<Longrightarrow> \<exists>s'. run (vendor_step V now notes ub True) (replicate (length ws) (backup_request c t)) (p, s) =
     (map (\<lambda>w. new_splitter (backup_reply c w)) ws, p, s') \<and> serving [] s'"
proof (induction ws arbitrary: s)
  case (Cons w ws)
  obtain s1 where s1: "vendor_step V now notes ub True (backup_request c t) (p, s) = (new_splitter (backup_reply c w), p, s1)"
    "serving ws s1" using serve_next [OF Cons.prems, of V now "notes" ub c t p] by blast
  then show ?case using Cons.IH [OF s1(2)] by auto
qed simp

lemma restore_data:
  assumes "wire_ok w" "13 \<le> ub" "vs_index s = 0"
  shows "handle_vendor_data ub (cmd_code RestoreTotpCodes) c (wire_to_bytes w) s =
    (Inr (if w_more_data w then Some (restore_reply c continue_response) else None),
     s\<lparr>vs_command := cmd_code RestoreTotpCodes, vs_channel := c, vs_data := vs_data s @ w_data w,
       vs_finished := \<not> w_more_data w\<rparr>)"
  using assms
  by (simp add: handle_vendor_data_def Let_def wire_first_byte wire_read read_from_wire_def
      vendor_message_code [where x = RestoreTotpCodes, simplified] restore_reply_def)

lemma restore_all:
  assumes "list_all w_more_data ws" "\<not> w_more_data w" "list_all wire_ok (ws @ [w])" "13 \<le> ub"
    and "vs_index s = 0" "vs_chunks s = None"
    and "handle_restore V now notes ub (vs_data s @ concat (map w_data (ws @ [w]))) p = (Inr okay_canary, p')"
  shows "run (vendor_step V now notes ub True) (map (restore_request c) (ws @ [w])) (p, s) =
    (replicate (length ws) (new_splitter (restore_reply c continue_response)) @ [new_splitter (restore_reply c okay_canary)],
     p', default_session)"
  using assms
proof (induction ws arbitrary: s)
  case Nil
  then show ?case
    by (simp add: vendor_step_def restore_request_def restore_data [of w ub s c, simplified] handle_vendor_command_def
        Let_def vendor_result_def vendor_message_code [where x = RestoreTotpCodes, simplified] restore_reply_def)
next
  case (Cons u us)
  let ?s = "s\<lparr>vs_command := cmd_code RestoreTotpCodes, vs_channel := c, vs_data := vs_data s @ w_data u, vs_finished := \<not> w_more_data u\<rparr>"
  have "vendor_step V now notes ub True (restore_request c u) (p, s) =
      (new_splitter (restore_reply c continue_response), p, ?s)"
    using Cons.prems restore_data [of u ub s c] by (simp add: vendor_step_def restore_request_def)
  then show ?case using Cons.IH [of ?s] Cons.prems by simp
qed

section \<open>The transfer\<close>

lemma added_merge:
  assumes cs: "cs = map (\<lambda>k. f (the (m k))) ks" and ks: "distinct ks" "set ks = dom m"
    and key: "\<forall>k c. m k = Some c \<longrightarrow> content_key V (f c) = k"
  shows "record_store.added (content_key V) (set_ctime now) cs m' =
    (\<lambda>k. case m' k of Some c \<Rightarrow> Some c | None \<Rightarrow> map_option (\<lambda>c. set_ctime now (f c)) (m k))"
proof
  fix k
  have keys: "map (content_key V) cs = ks"
    using ks(2) key by (auto simp: cs comp_def intro!: map_idI)
  show "record_store.added (content_key V) (set_ctime now) cs m' k =
    (case m' k of Some c \<Rightarrow> Some c | None \<Rightarrow> map_option (\<lambda>c. set_ctime now (f c)) (m k))"
  proof (cases "m' k")
    case (Some c)
    then show ?thesis using vault.added_keeps [of m' k c V now cs] by simp
  next
    case free: None
    show ?thesis
    proof (cases "m k")
      case None
      then have "k \<notin> content_key V ` set cs" using keys ks(2) by (metis domIff image_set)
      then show ?thesis using free None vault.added_dom [of V now cs m' k] by simp
    next
      case (Some c)
      then have "f c \<in> set cs" "content_key V (f c) = k" using ks(2) key by (force simp: cs)+
      then show ?thesis
        using vault.added_free [of V cs "f c" m' now] keys ks(1) free Some by simp
    qed
  qed
qed

text \<open>C33: a host that requests a backup until its last wire and sends the wires to another badge moves
  the records: every reply fits one message of the transport, the first vault is unchanged, and the
  second has all records of the first whose keys were free, up to what a backup does not keep.\<close>

theorem backup_moves_records:
  assumes A: "vault_holds VA viewA (kind_of_payload t) m pA" and B: "vault_holds VB viewB (kind_of_payload t) m' pB"
    and keys: "\<forall>k c. m k = Some c \<longrightarrow> k = content_key VB c \<and> portable ub c"
    and few: "card (dom m) < 2 ^ 64" and ub: "13 \<le> ub" "ub \<le> 64" and clean: "clean notes"
  shows "\<exists>ws sA pB'. (\<forall>w\<in>set ws. length (wire_to_bytes w) \<le> 7609) \<and>
    run (vendor_step VA nowA notesA ub True) (replicate (length ws) (backup_request c t)) (pA, default_session) =
      (map (\<lambda>w. new_splitter (backup_reply c w)) ws, pA, sA) \<and>
    run (vendor_step VB now notes ub True) (map (restore_request c') ws) (pB, default_session) =
      (replicate (length ws - 1) (new_splitter (restore_reply c' continue_response)) @
       [new_splitter (restore_reply c' okay_canary)], pB', default_session) \<and>
    vault_holds VB viewB (kind_of_payload t)
      (\<lambda>k. case m' k of Some c \<Rightarrow> Some c | None \<Rightarrow> map_option (\<lambda>c. set_ctime now (after_restore notes c)) (m k)) pB'"
proof -
  obtain ks where ks: "distinct ks" "set ks = dom m"
    "all_records VA (kind_of_payload t) pA = (Inr (map (\<lambda>k. the (m k)) ks), pA)"
    using all_records_ok [OF A] by blast
  define cs where "cs = map (\<lambda>k. the (m k)) ks"
  have "length cs < 2 ^ 64" using few ks(1,2) by (simp add: cs_def flip: distinct_card)
  moreover have good: "\<forall>c\<in>set cs. kind_of c = kind_of_payload t \<and> clean_content c \<and> portable ub c"
    using A keys ks(2) by (force simp: cs_def vault_holds_def)
  ultimately obtain dp where dp: "saved t cs = Inr dp" "packet_ok ub dp"
    "restored notes (forget_hotp dp) = map (after_restore notes) cs"
    using saved_ok [of cs t ub "notes"] by blast
  obtain ws w where ws: "wires_of_packet dp = ws @ [w]" "list_all w_more_data ws" "\<not> w_more_data w"
    "list_all wire_ok (ws @ [w])" "concat (map w_data (ws @ [w])) = packet_bytes dp"
    using wires_of_packet_spec [OF dp(2) ub(2)] by blast
  have fits: "\<forall>u\<in>set (ws @ [w]). length (wire_to_bytes u) \<le> 7609"
    using ws(4) wire_fits by (simp add: list_all_iff)
  obtain u us where us: "ws @ [w] = u # us" by (cases ws) auto
  obtain s1 where s1: "vendor_step VA nowA notesA ub True (backup_request c t) (pA, default_session) =
      (new_splitter (backup_reply c u), pA, s1)" "serving us s1"
    using serve_first [OF ks(3) [folded cs_def] dp(1) ws(1) [unfolded us], of nowA notesA ub c] by blast
  then obtain sA where serve: "run (vendor_step VA nowA notesA ub True) (replicate (length (u # us)) (backup_request c t)) (pA, default_session) =
      (map (\<lambda>w. new_splitter (backup_reply c w)) (u # us), pA, sA)"
    using serve_rest [OF s1(2), of VA nowA notesA ub c t pA] by auto
  have "\<forall>d\<in>set (map (after_restore notes) cs). kind_of d = kind_of_payload t \<and> clean_content d"
    using good clean by simp
  from handle_restore_ok [OF B dp(2) ub(2) dp(3) this, of now] obtain pB' where pB':
    "handle_restore VB now notes ub (packet_bytes dp) pB = (Inr okay_canary, pB')"
    "vault_holds VB viewB (kind_of_payload t)
       (record_store.added (content_key VB) (set_ctime now) (map (after_restore notes) cs) m') pB'" by blast
  have merge: "record_store.added (content_key VB) (set_ctime now) (map (after_restore notes) cs) m' =
      (\<lambda>k. case m' k of Some c \<Rightarrow> Some c | None \<Rightarrow> map_option (\<lambda>c. set_ctime now (after_restore notes c)) (m k))"
    using keys by (intro added_merge [OF _ ks(1,2)]) (auto simp: cs_def)
  have "run (vendor_step VB now notes ub True) (map (restore_request c') (ws @ [w])) (pB, default_session) =
      (replicate (length ws) (new_splitter (restore_reply c' continue_response)) @
       [new_splitter (restore_reply c' okay_canary)], pB', default_session)"
    using pB'(1) ws(5) by (intro restore_all [OF ws(2-4) ub(1)]) (simp_all add: default_session_def)
  then show ?thesis
    using fits serve pB'(2) unfolding us [symmetric] merge
    by (intro exI [of _ "ws @ [w]"] exI [of _ sA] exI [of _ pB']) simp
qed

section \<open>Consent\<close>

text \<open>C34: until the user allows the host, a vendor command reads and writes nothing: the database is as it
  was, and every reply is one of five fixed ones.\<close>

theorem vendor_needs_consent:
  "case vendor_step V now notes ub False m (p, s) of
     (r, p', s') \<Rightarrow> p' = p \<and>
       (case r of None \<Rightarrow> True
        | Some sp \<Rightarrow> m_payload (sp_message sp) \<in> {okay_canary, continue_response, [0x35], [0x36], [44]})"
  by (auto simp: vendor_step_def handle_vendor_data_def handle_vendor_command_def read_from_wire_def Let_def
      vendor_message_def vendor_error_def new_splitter_def okay_canary_def continue_response_def
      split: option.split sum.split prod.split conversion_error.split if_splits)

section \<open>Unexpected requests\<close>

text \<open>A wire sent with the backup command panics: there is no kind of records to back up.\<close>

lemma backup_of_wire_panics:
  assumes "wire_ok w" "13 \<le> ub" "\<not> w_more_data w"
  shows "fst (vendor_step V now notes ub True \<lparr>m_cid = c, m_cmd = BackupTotpCodes, m_payload = wire_to_bytes w\<rparr>
    (p, default_session)) = None"
  using assms
  by (simp add: vendor_step_def handle_vendor_data_def Let_def wire_first_byte wire_read read_from_wire_def
      default_session_def handle_vendor_command_def handle_backup_def vendor_result_def)

section \<open>Example\<close>

lemma backup_moves_records_witness:
  "let e = toy_totp\<lparr>tr_algorithm := HmacSha1\<rparr>; k = content_key toy_vault (TotpContent e)
   in \<exists>ws replies sA replies' pB'.
        run (vendor_step toy_vault 3 [] 32 True) (replicate (length ws) (backup_request [1, 2, 3, 4] TotpPayload))
          ((\<lambda>d. [])(vault_totp_dict := [(k, totp_to_vec e)]), default_session) =
          (replies, (\<lambda>d. [])(vault_totp_dict := [(k, totp_to_vec e)]), sA) \<and>
        run (vendor_step toy_vault 7 (utf8 ''n'') 32 True) (map (restore_request [1, 2, 3, 4]) ws) (\<lambda>d. [], default_session) =
          (replies', pB', default_session) \<and>
        vault_holds toy_vault toy_view TotpKind
          [k \<mapsto> TotpContent (e\<lparr>tr_version := 1, tr_notes := utf8 ''n'', tr_ctime := 7, tr_hotp := False\<rparr>)] pB'"
proof -
  define e where "e = toy_totp\<lparr>tr_algorithm := HmacSha1\<rparr>"
  define k where "k = content_key toy_vault (TotpContent e)"
  have e: "clean (tr_secret e)" "clean (tr_name e)" "clean (tr_notes e)" "tr_algorithm e = HmacSha1"
    using toy_clean by (simp_all add: e_def)
  have A: "vault_holds toy_vault toy_view (kind_of_payload TotpPayload) [k \<mapsto> TotpContent e]
      ((\<lambda>d. [])(vault_totp_dict := [(k, totp_to_vec e)]))"
    using e by (auto simp: vault_holds_def toy_vault_ok toy_view_def fun_eq_iff)
  have B: "vault_holds toy_vault toy_view (kind_of_payload TotpPayload) Map.empty (\<lambda>d. [])"
    by (auto simp: vault_holds_def toy_vault_ok toy_view_def)
  have p: "portable 32 (TotpContent e)" by (simp add: e_def toy_totp_def default_totp_record_def utf8_def)
  then have keys: "\<forall>j c. [k \<mapsto> TotpContent e] j = Some c \<longrightarrow> j = content_key toy_vault c \<and> portable 32 c"
    by (simp add: k_def)
  have n: "clean (utf8 ''n'')" by (simp add: clean_def utf8_def utf8_valid_def)
  have merged: "(\<lambda>j. case None of Some c \<Rightarrow> Some c
      | None \<Rightarrow> map_option (\<lambda>c. set_ctime 7 (after_restore (utf8 ''n'') c)) ([k \<mapsto> TotpContent e] j)) =
      [k \<mapsto> TotpContent (e\<lparr>tr_version := 1, tr_notes := utf8 ''n'', tr_ctime := 7, tr_hotp := False\<rparr>)]"
    by (auto simp: fun_eq_iff)
  have "card (dom [k \<mapsto> TotpContent e]) < 2 ^ 64" by simp
  from backup_moves_records [OF A B keys this _ _ n, of 3 "[]" "[1, 2, 3, 4]" 7 "[1, 2, 3, 4]", unfolded merged]
  show ?thesis
    unfolding Let_def e_def [symmetric] k_def [symmetric] kind_of_payload.simps by fastforce
qed

end
