(* ===== verification/Item_Cache.thy ===== *)
theory Item_Cache
  imports Vault_Text "HOL-Library.List_Lexorder" "HOL-Library.Product_Lexorder"
begin

text \<open>
  The lists of entries the vault shows, \<open>src/itemcache.rs\<close>. Strings compare by their bytes. The Unicode
  tables of \<open>to_lowercase\<close> and the choice \<open>binary_search_by\<close> makes among equal elements, which its
  documentation leaves open, are parameters.
\<close>

section \<open>Entries and keys\<close>

record list_key =
  lk_name :: bytes
  lk_guid :: bytes

definition key_from_parts :: "(bytes \<Rightarrow> bytes) \<Rightarrow> bytes \<Rightarrow> bytes \<Rightarrow> list_key" where
  "key_from_parts lower name guid = \<lparr>lk_name = lower name, lk_guid = guid\<rparr>"

record list_item =
  li_name :: bytes
  li_sortable :: bytes
  li_extra :: bytes
  li_guid :: bytes
  li_atime :: u64
  li_count :: u64

definition new_item :: "(bytes \<Rightarrow> bytes) \<Rightarrow> bytes \<Rightarrow> bytes \<Rightarrow> bytes \<Rightarrow> u64 \<Rightarrow> u64 \<Rightarrow> list_item" where
  "new_item lower name extra guid atime n =
     \<lparr>li_name = name, li_sortable = lower name, li_extra = extra, li_guid = guid, li_atime = atime, li_count = n\<rparr>"

definition item_key :: "list_item \<Rightarrow> bytes \<times> bytes" where
  "item_key i = (li_sortable i, li_guid i)"

definition name_clear :: "list_item \<Rightarrow> list_item" where
  "name_clear i = i\<lparr>li_name := [], li_sortable := []\<rparr>"

definition name_push_str :: "(bytes \<Rightarrow> bytes) \<Rightarrow> bytes \<Rightarrow> list_item \<Rightarrow> list_item" where
  "name_push_str lower s i = i\<lparr>li_name := li_name i @ s, li_sortable := li_sortable i @ lower s\<rparr>"

text \<open>\<open>Ord for ListItem\<close>, and the comparison of an entry with a key\<close>

definition key_cmp :: "bytes \<times> bytes \<Rightarrow> list_item \<Rightarrow> ordering" where
  "key_cmp k i =
     (case cmp_of (li_sortable i) (fst k) of Equal \<Rightarrow> cmp_of (li_guid i) (snd k) | Greater \<Rightarrow> Greater | Less \<Rightarrow> Less)"

lemma key_cmp_item_key: "key_cmp k i = cmp_of (item_key i) k"
  by (cases k) (auto simp: key_cmp_def item_key_def cmp_of_def less_prod_def split: ordering.splits if_splits)

section \<open>Binary search\<close>

type_synonym list_search = "(list_item \<Rightarrow> ordering) \<Rightarrow> list_item list \<Rightarrow> nat + nat"

text \<open>The contract of \<open>binary_search_by\<close>: an index of an equal element, or else the place to insert one.\<close>

definition ascending :: "(list_item \<Rightarrow> ordering) \<Rightarrow> list_item list \<Rightarrow> bool" where
  "ascending f xs \<longleftrightarrow> sorted_wrt (\<lambda>x y. (f y = Less \<longrightarrow> f x = Less) \<and> (f x = Greater \<longrightarrow> f y = Greater)) xs"

definition search_ok :: "list_search \<Rightarrow> bool" where
  "search_ok F \<longleftrightarrow> (\<forall>f xs. ascending f xs \<longrightarrow>
     (case F f xs of
        Inr i \<Rightarrow> i < length xs \<and> f (xs ! i) = Equal
      | Inl i \<Rightarrow> i \<le> length xs \<and> (\<forall>x\<in>set (take i xs). f x = Less) \<and> (\<forall>x\<in>set (drop i xs). f x = Greater)))"

section \<open>A filtered list\<close>

record list_view =
  lv_list :: "list_item list"
  lv_sorted :: bool
  lv_items_per_screen :: nat
  lv_range :: "(nat \<times> nat) option"

definition new_view :: list_view where
  "new_view = \<lparr>lv_list = [], lv_sorted = False, lv_items_per_screen = 1, lv_range = None\<rparr>"

definition find_by_name :: "bytes \<Rightarrow> list_view \<Rightarrow> list_item list" where
  "find_by_name name v = filter (\<lambda>i. li_name i = name) (lv_list v)"

definition push_item :: "list_item \<Rightarrow> list_view \<Rightarrow> list_view" where
  "push_item i v = v\<lparr>lv_list := lv_list v @ [i], lv_sorted := False\<rparr>"

definition clear_view :: "list_view \<Rightarrow> list_view" where
  "clear_view v = v\<lparr>lv_list := [], lv_sorted := False, lv_range := None\<rparr>"

definition set_items_per_screen :: "nat \<Rightarrow> list_view \<Rightarrow> list_view" where
  "set_items_per_screen n v = v\<lparr>lv_items_per_screen := (if n = 0 then 1 else n)\<rparr>"

text \<open>\<open>list.sort()\<close> is stable.\<close>

definition sort_view :: "list_view \<Rightarrow> list_view" where
  "sort_view v = (if lv_sorted v then v else v\<lparr>lv_list := sort_key item_key (lv_list v), lv_sorted := True\<rparr>)"

definition insert_unique :: "list_search \<Rightarrow> list_item \<Rightarrow> list_view \<Rightarrow> list_item option \<times> list_view" where
  "insert_unique F i v =
     (let v = (sort_view v)\<lparr>lv_range := None\<rparr>; xs = lv_list v
      in case F (key_cmp (item_key i)) xs of
           Inr n \<Rightarrow> (Some (xs ! n), v\<lparr>lv_list := xs[n := i]\<rparr>)
         | Inl n \<Rightarrow> (None, v\<lparr>lv_list := take n xs @ i # drop n xs\<rparr>))"

definition remove_item :: "list_search \<Rightarrow> list_key \<Rightarrow> list_view \<Rightarrow> list_item option \<times> list_view" where
  "remove_item F k v =
     (let v = (sort_view v)\<lparr>lv_range := None\<rparr>; xs = lv_list v
      in case F (key_cmp (lk_name k, lk_guid k)) xs of
           Inr n \<Rightarrow> (Some (xs ! n), v\<lparr>lv_list := take n xs @ drop (Suc n) xs\<rparr>)
         | Inl n \<Rightarrow> (None, v))"

text \<open>\<open>get\<close> returns a mutable reference: \<open>f\<close> is what the caller makes of the entry.\<close>

definition get_item :: "list_search \<Rightarrow> list_key \<Rightarrow> (list_item \<Rightarrow> list_item) \<Rightarrow> list_view \<Rightarrow> list_item option \<times> list_view" where
  "get_item F k f v =
     (let v = sort_view v; xs = lv_list v
      in case F (key_cmp (lk_name k, lk_guid k)) xs of
           Inr n \<Rightarrow> (Some (xs ! n), v\<lparr>lv_list := xs[n := f (xs ! n)]\<rparr>)
         | Inl n \<Rightarrow> (None, v))"

section \<open>Filtering\<close>

definition starts_with :: "bytes \<Rightarrow> bytes \<Rightarrow> bool" where
  "starts_with s c \<longleftrightarrow> take (length c) s = c"

text \<open>The two linear searches: backwards while the entry before matches, and forwards to the end of the matches.\<close>

fun first_match :: "(nat \<Rightarrow> bool) \<Rightarrow> nat \<Rightarrow> nat" where
  "first_match matches 0 = 0"
| "first_match matches (Suc i) = (if i > 0 \<and> matches i then first_match matches i else Suc i)"

function end_of_matches :: "(nat \<Rightarrow> bool) \<Rightarrow> nat \<Rightarrow> nat \<Rightarrow> nat" where
  "end_of_matches matches n e = (if e < n \<and> matches e then end_of_matches matches n (Suc e) else e)"
  by pat_completeness auto
termination end_of_matches
  by (relation "measure (\<lambda>(matches, n, e). n - e)") auto

declare end_of_matches.simps [simp del]

definition filter_reset :: "list_view \<Rightarrow> list_view" where
  "filter_reset v = v\<lparr>lv_range := Some (0, length (lv_list v))\<rparr>"

definition filter_view :: "(bytes \<Rightarrow> bytes) \<Rightarrow> list_search \<Rightarrow> bytes \<Rightarrow> list_view \<Rightarrow> list_view" where
  "filter_view lower F criteria v =
     (let v = sort_view v; xs = lv_list v
      in if criteria = [] then filter_reset v
         else if xs = [] then v
         else let matches = (\<lambda>i. starts_with (lower (li_name (xs ! i))) criteria);
                  index = (case F (\<lambda>p. cmp_of (li_sortable p) criteria) xs of Inr i \<Rightarrow> i | Inl i \<Rightarrow> i)
              in if \<not> matches (min index (length xs - 1)) then v\<lparr>lv_range := None\<rparr>
                 else let start = first_match matches index
                      in v\<lparr>lv_range := Some (start, end_of_matches matches (length xs) (Suc start))\<rparr>)"

definition filter_len :: "list_view \<Rightarrow> nat" where
  "filter_len v = (case lv_range v of Some (a, b) \<Rightarrow> b - a | None \<Rightarrow> 0)"

definition filter_start :: "list_view \<Rightarrow> nat" where
  "filter_start v = (case lv_range v of Some (a, b) \<Rightarrow> a | None \<Rightarrow> 0)"

text \<open>A range that is not one of the list panics: \<open>None\<close>.\<close>

definition filtered_list :: "list_view \<Rightarrow> list_item list option" where
  "filtered_list v =
     (case lv_range v of
        Some (a, b) \<Rightarrow> if a \<le> b \<and> b \<le> length (lv_list v) then Some (drop a (take b (lv_list v))) else None
      | None \<Rightarrow> Some (lv_list v))"

section \<open>The lists of the vault\<close>

datatype list_mode = TotpMode | PasswordMode | OtherMode

record item_lists =
  il_totp :: list_view
  il_pw :: list_view
  il_idle :: list_view

definition new_item_lists :: item_lists where
  "new_item_lists = \<lparr>il_totp = new_view, il_pw = new_view, il_idle = new_view\<rparr>"

fun list_of_mode :: "list_mode \<Rightarrow> item_lists \<Rightarrow> list_view" where
  "list_of_mode TotpMode l = il_totp l"
| "list_of_mode PasswordMode l = il_pw l"
| "list_of_mode OtherMode l = il_idle l"

fun on_list_of_mode :: "list_mode \<Rightarrow> (list_view \<Rightarrow> 'a \<times> list_view) \<Rightarrow> item_lists \<Rightarrow> 'a \<times> item_lists" where
  "on_list_of_mode TotpMode f l = (let (r, v) = f (il_totp l) in (r, l\<lparr>il_totp := v\<rparr>))"
| "on_list_of_mode PasswordMode f l = (let (r, v) = f (il_pw l) in (r, l\<lparr>il_pw := v\<rparr>))"
| "on_list_of_mode OtherMode f l = (let (r, v) = f (il_idle l) in (r, l\<lparr>il_idle := v\<rparr>))"

definition clear_all_lists :: "item_lists \<Rightarrow> item_lists" where
  "clear_all_lists l = l\<lparr>il_pw := clear_view (il_pw l), il_totp := clear_view (il_totp l)\<rparr>"

definition set_all_items_per_screen :: "nat \<Rightarrow> item_lists \<Rightarrow> item_lists" where
  "set_all_items_per_screen n l =
     l\<lparr>il_totp := set_items_per_screen n (il_totp l), il_pw := set_items_per_screen n (il_pw l)\<rparr>"

text \<open>\<open>VaultUi::filter\<close> of \<open>ux.rs\<close>: only the passwords are filtered.\<close>

definition ui_filter :: "(bytes \<Rightarrow> bytes) \<Rightarrow> list_search \<Rightarrow> bytes \<Rightarrow> item_lists \<Rightarrow> item_lists" where
  "ui_filter lower F criteria l =
     (let v = filter_reset (il_pw l)
      in l\<lparr>il_pw := (if criteria = [] then v else filter_view lower F criteria v)\<rparr>)"

end
