(* ===== verification/Item_Cache_Props.thy ===== *)
theory Item_Cache_Props
  imports Item_Cache
begin

text \<open>
  A list of entries is a map from keys to entries whatever the order it was filled in, and a filter shows
  the entries whose names start with the criteria, except for one case.
\<close>

section \<open>Searching a sorted list\<close>

lemma ascending_key:
  assumes "sorted (map g xs)"
  shows "ascending (\<lambda>i. cmp_of (g i) k) xs"
  using assms unfolding ascending_def sorted_map
  by (rule sorted_wrt_mono_rel [rotated]) (auto simp: cmp_of_def split: if_splits)

lemma search_key:
  assumes F: "search_ok F" and s: "sorted (map item_key xs)"
  obtains (found) n where "F (key_cmp k) xs = Inr n" "n < length xs" "item_key (xs ! n) = k"
  | (missing) n where "F (key_cmp k) xs = Inl n" "n \<le> length xs" "\<forall>x\<in>set (take n xs). item_key x < k"
      "\<forall>x\<in>set (drop n xs). k < item_key x"
proof -
  have "ascending (\<lambda>i. cmp_of (item_key i) k) xs" using s by (rule ascending_key)
  then have asc: "ascending (key_cmp k) xs" unfolding key_cmp_item_key [abs_def] .
  have "case F (key_cmp k) xs of Inr i \<Rightarrow> i < length xs \<and> key_cmp k (xs ! i) = Equal
      | Inl i \<Rightarrow> i \<le> length xs \<and> (\<forall>x\<in>set (take i xs). key_cmp k x = Less) \<and> (\<forall>x\<in>set (drop i xs). key_cmp k x = Greater)"
    using F asc unfolding search_ok_def by blast
  then show thesis
    by (cases "F (key_cmp k) xs") (auto simp: key_cmp_item_key intro: found missing)
qed

section \<open>The list as a map\<close>

definition entries_of :: "list_item list \<Rightarrow> bytes \<times> bytes \<Rightarrow> list_item option" where
  "entries_of xs = map_of (map (\<lambda>i. (item_key i, i)) xs)"

abbreviation entries :: "list_view \<Rightarrow> bytes \<times> bytes \<Rightarrow> list_item option" where
  "entries v \<equiv> entries_of (lv_list v)"

definition view_inv :: "(bytes \<Rightarrow> bytes) \<Rightarrow> list_view \<Rightarrow> bool" where
  "view_inv lower v \<longleftrightarrow> (lv_sorted v \<longrightarrow> sorted (map item_key (lv_list v))) \<and>
     distinct (map item_key (lv_list v)) \<and> (\<forall>i\<in>set (lv_list v). li_sortable i = lower (li_name i)) \<and>
     filtered_list v \<noteq> None"

lemma entries_iff: "distinct (map item_key xs) \<Longrightarrow> entries_of xs k = Some i \<longleftrightarrow> i \<in> set xs \<and> item_key i = k"
  unfolding entries_of_def by (subst map_of_eq_Some_iff) (auto simp: comp_def)

lemma entries_None: "entries_of xs k = None \<longleftrightarrow> k \<notin> item_key ` set xs"
  by (auto simp: entries_of_def map_of_eq_None_iff image_iff)

lemma entries_perm:
  assumes "distinct (map item_key xs)" "mset xs = mset ys"
  shows "entries_of xs = entries_of ys"
proof -
  have "distinct (map item_key ys)" "set xs = set ys"
    using assms by (metis mset_eq_imp_distinct_iff mset_map, metis set_mset_mset)
  then show ?thesis
    using assms(1) by (intro ext) (metis entries_iff not_None_eq option.inject)
qed

lemma sort_view_inv:
  assumes "view_inv lower v"
  shows "sorted (map item_key (lv_list (sort_view v)))" "view_inv lower (sort_view v)" "entries (sort_view v) = entries v"
proof -
  have p: "mset (lv_list (sort_view v)) = mset (lv_list v)" by (simp add: sort_view_def)
  have d: "distinct (map item_key (lv_list v))" using assms by (simp add: view_inv_def)
  then have d': "distinct (map item_key (lv_list (sort_view v)))"
    using p by (metis mset_eq_imp_distinct_iff mset_map)
  show "entries (sort_view v) = entries v" using entries_perm [OF d p [symmetric]] by simp
  show s: "sorted (map item_key (lv_list (sort_view v)))" using assms by (auto simp: sort_view_def view_inv_def)
  have "filtered_list (sort_view v) \<noteq> None"
    using assms by (auto simp: view_inv_def filtered_list_def sort_view_def split: option.splits prod.splits if_splits)
  then show "view_inv lower (sort_view v)"
    using assms s d' by (auto simp: view_inv_def sort_view_def)
qed

lemma map_key_update: "n < length xs \<Longrightarrow> item_key i = item_key (xs ! n) \<Longrightarrow> map item_key (xs[n := i]) = map item_key xs"
  by (simp add: map_update list_update_same_conv)

lemma entries_update:
  assumes "distinct (map item_key xs)" "n < length xs" "item_key i = item_key (xs ! n)"
  shows "entries_of (xs[n := i]) = (entries_of xs)(item_key i \<mapsto> i)"
proof
  fix k
  have d: "distinct (map item_key (xs[n := i]))" using assms by (simp add: map_key_update)
  have at: "xs[n := i] = take n xs @ i # drop (Suc n) xs" "xs = take n xs @ xs ! n # drop (Suc n) xs"
    using assms(2) by (simp_all add: upd_conv_take_nth_drop id_take_nth_drop)
  show "entries_of (xs[n := i]) k = ((entries_of xs)(item_key i \<mapsto> i)) k"
  proof (cases "k = item_key i")
    case True
    then show ?thesis using entries_iff [OF d, of k i] at(1) by simp
  next
    case False
    then have "i' \<in> set (xs[n := i]) \<and> item_key i' = k \<longleftrightarrow> i' \<in> set xs \<and> item_key i' = k" for i'
      using assms(3) by (subst at(2), subst at(1)) auto
    then have "entries_of (xs[n := i]) k = Some i' \<longleftrightarrow> entries_of xs k = Some i'" for i'
      using entries_iff [OF d] entries_iff [OF assms(1)] by metis
    then show ?thesis using False by (metis fun_upd_other not_None_eq)
  qed
qed

lemma entries_insert:
  assumes "distinct (map item_key (xs @ ys))" "entries_of (xs @ ys) (item_key i) = None"
  shows "entries_of (xs @ i # ys) = (entries_of (xs @ ys))(item_key i \<mapsto> i)"
proof -
  have d: "distinct (map item_key (xs @ i # ys))" using assms by (auto simp: entries_None)
  have "entries_of (xs @ i # ys) = entries_of (i # xs @ ys)"
    using d by (intro entries_perm) simp_all
  then show ?thesis by (simp add: entries_of_def)
qed

lemma entries_remove:
  assumes "distinct (map item_key (xs @ i # ys))"
  shows "entries_of (xs @ ys) = (entries_of (xs @ i # ys))(item_key i := None)"
proof -
  have "entries_of (xs @ i # ys) = entries_of (i # xs @ ys)"
    using assms by (intro entries_perm) simp_all
  moreover have "entries_of (xs @ ys) (item_key i) = None" using assms by (auto simp: entries_None)
  ultimately show ?thesis by (auto simp: entries_of_def fun_eq_iff)
qed

lemma missing_None:
  assumes "\<forall>x\<in>set (take n xs). item_key x < k" "\<forall>x\<in>set (drop n xs). k < item_key x"
  shows "entries_of xs k = None"
proof -
  have "k \<notin> item_key ` set (take n xs @ drop n xs)"
    using assms by (auto simp del: append_take_drop_id)
  then show ?thesis by (simp add: entries_None)
qed

lemma insert_unique_ok:
  assumes F: "search_ok F" and v: "view_inv lower v" and i: "li_sortable i = lower (li_name i)"
  shows "case insert_unique F i v of (old, v') \<Rightarrow>
    old = entries v (item_key i) \<and> view_inv lower v' \<and> entries v' = (entries v)(item_key i \<mapsto> i)"
proof -
  define xs where "xs = lv_list (sort_view v)"
  note s = sort_view_inv [OF v, folded xs_def]
  have d: "distinct (map item_key xs)" and low: "\<forall>i\<in>set xs. li_sortable i = lower (li_name i)"
    using s(2) by (simp_all add: view_inv_def xs_def)
  show ?thesis
  proof (cases rule: search_key [OF F s(1), of "item_key i", case_names found missing])
    case (found n)
    then have "entries_of xs (item_key i) = Some (xs ! n)" using entries_iff [OF d] by simp
    then show ?thesis
      using found s d low i entries_update [OF d found(2), of i]
      by (auto simp: insert_unique_def Let_def xs_def [symmetric] view_inv_def filtered_list_def map_key_update
          dest!: set_update_subset_insert [THEN subsetD])
  next
    case (missing n)
    note none = missing_None [OF missing(3,4)]
    have "entries_of (take n xs @ i # drop n xs) = (entries_of xs)(item_key i \<mapsto> i)"
      using entries_insert [of "take n xs" "drop n xs" i] d none by simp
    moreover have "distinct (map item_key (take n xs @ i # drop n xs))"
    proof -
      have "item_key i \<notin> set (map item_key (take n xs @ drop n xs))" using none by (simp add: entries_None)
      moreover have "distinct (map item_key (take n xs @ drop n xs))" using d by simp
      ultimately show ?thesis unfolding map_append list.map set_append distinct_append by auto
    qed
    moreover have "sorted (map item_key (take n xs @ i # drop n xs))"
    proof -
      have "sorted (map item_key (take n xs @ drop n xs))" using s(1) by simp
      then show ?thesis
        using missing(3,4) unfolding map_append list.map sorted_append sorted_simps by (auto intro: less_imp_le)
    qed
    ultimately show ?thesis
      using missing none s low i
      by (auto simp: insert_unique_def Let_def xs_def [symmetric] view_inv_def filtered_list_def
          dest: in_set_takeD in_set_dropD)
  qed
qed

lemma remove_item_ok:
  assumes F: "search_ok F" and v: "view_inv lower v"
  shows "case remove_item F k v of (old, v') \<Rightarrow>
    old = entries v (lk_name k, lk_guid k) \<and> view_inv lower v' \<and> entries v' = (entries v)((lk_name k, lk_guid k) := None)"
proof -
  define xs where "xs = lv_list (sort_view v)"
  note s = sort_view_inv [OF v, folded xs_def]
  have d: "distinct (map item_key xs)" and low: "\<forall>i\<in>set xs. li_sortable i = lower (li_name i)"
    using s(2) by (simp_all add: view_inv_def xs_def)
  show ?thesis
  proof (cases rule: search_key [OF F s(1), of "(lk_name k, lk_guid k)", case_names found missing])
    case (found n)
    then have old: "entries_of xs (lk_name k, lk_guid k) = Some (xs ! n)" using entries_iff [OF d] by simp
    have xs: "xs = take n xs @ xs ! n # drop (Suc n) xs" using found(2) by (simp add: id_take_nth_drop)
    then have "distinct (map item_key (take n xs @ xs ! n # drop (Suc n) xs))"
      "sorted (map item_key (take n xs @ xs ! n # drop (Suc n) xs))" using d s(1) by simp_all
    moreover from entries_remove [OF this(1)]
    have "entries_of (take n xs @ drop (Suc n) xs) = (entries_of xs)((lk_name k, lk_guid k) := None)"
      using found(3) xs by simp
    ultimately show ?thesis
      using found old s low
      by (auto simp: remove_item_def Let_def xs_def [symmetric] view_inv_def filtered_list_def sorted_append
          dest: in_set_takeD in_set_dropD)
  next
    case (missing n)
    note none = missing_None [OF missing(3,4)]
    have "(entries_of xs)((lk_name k, lk_guid k) := None) = entries_of xs" using none by (simp add: fun_upd_idem)
    then show ?thesis
      using missing none s d low
      by (auto simp: remove_item_def Let_def xs_def [symmetric] view_inv_def filtered_list_def)
  qed
qed

lemma get_item_ok:
  assumes F: "search_ok F" and v: "view_inv lower v"
    and f: "\<And>i. item_key (f i) = item_key i" "\<And>i. li_name (f i) = li_name i"
  shows "case get_item F k f v of (old, v') \<Rightarrow>
    old = entries v (lk_name k, lk_guid k) \<and> view_inv lower v' \<and>
    entries v' = (case old of None \<Rightarrow> entries v | Some i \<Rightarrow> (entries v)((lk_name k, lk_guid k) \<mapsto> f i))"
proof -
  define xs where "xs = lv_list (sort_view v)"
  note s = sort_view_inv [OF v, folded xs_def]
  have d: "distinct (map item_key xs)" and low: "\<forall>i\<in>set xs. li_sortable i = lower (li_name i)"
    using s(2) by (simp_all add: view_inv_def xs_def)
  show ?thesis
  proof (cases rule: search_key [OF F s(1), of "(lk_name k, lk_guid k)", case_names found missing])
    case (found n)
    then have "entries_of xs (lk_name k, lk_guid k) = Some (xs ! n)" using entries_iff [OF d] by simp
    moreover have "li_sortable (f i) = li_sortable i" for i using f(1) [of i] by (simp add: item_key_def)
    moreover have "filtered_list ((sort_view v)\<lparr>lv_list := xs[n := f (xs ! n)]\<rparr>) \<noteq> None"
      using s(2) by (auto simp: view_inv_def filtered_list_def xs_def split: option.splits prod.splits if_splits)
    ultimately show ?thesis
      using found s d low f entries_update [OF d found(2), of "f (xs ! n)"]
      by (auto simp: get_item_def Let_def xs_def [symmetric] view_inv_def map_key_update
          dest!: set_update_subset_insert [THEN subsetD])
  next
    case (missing n)
    note none = missing_None [OF missing(3,4)]
    show ?thesis
      using none missing s by (simp add: get_item_def Let_def xs_def [symmetric])
  qed
qed

text \<open>C35: as long as entries are only added by \<open>insert_unique\<close>, a list is a map from names and identifiers
  to entries: adding replaces or inserts one, removing and reading act on one, each returns what was
  there, and the list stays free of duplicates with a filter range inside it.\<close>

theorem list_view_refines_map:
  assumes "search_ok F" "view_inv lower v" "li_sortable i = lower (li_name i)"
    and "\<And>i. item_key (f i) = item_key i" "\<And>i. li_name (f i) = li_name i"
  shows "(case insert_unique F i v of (old, v') \<Rightarrow>
      old = entries v (item_key i) \<and> view_inv lower v' \<and> entries v' = (entries v)(item_key i \<mapsto> i)) \<and>
    (case remove_item F k v of (old, v') \<Rightarrow>
      old = entries v (lk_name k, lk_guid k) \<and> view_inv lower v' \<and> entries v' = (entries v)((lk_name k, lk_guid k) := None)) \<and>
    (case get_item F k f v of (old, v') \<Rightarrow>
      old = entries v (lk_name k, lk_guid k) \<and> view_inv lower v' \<and>
      entries v' = (case old of None \<Rightarrow> entries v | Some i \<Rightarrow> (entries v)((lk_name k, lk_guid k) \<mapsto> f i)))"
  using insert_unique_ok [OF assms(1-3)] remove_item_ok [OF assms(1,2), of k] get_item_ok [OF assms(1,2,4,5), of k]
  by blast

section \<open>Filtering\<close>

lemma starts_with_simps [simp]:
  "starts_with s []" "\<not> starts_with [] (a # c)" "starts_with (b # s) (a # c) \<longleftrightarrow> b = a \<and> starts_with s c"
  by (auto simp: starts_with_def)

lemma starts_with_le: "starts_with s c \<Longrightarrow> c \<le> s"
proof (induction c arbitrary: s)
  case (Cons a c)
  then show ?case by (cases s) (auto simp: Cons_le_Cons)
qed simp

lemma starts_with_between: "c \<le> s \<Longrightarrow> s \<le> t \<Longrightarrow> starts_with t c \<Longrightarrow> starts_with s c"
proof (induction c arbitrary: s t)
  case (Cons a c)
  then obtain s' t' where "s = a # s'" "t = a # t'" by (cases s; cases t) (auto simp: Cons_le_Cons)
  then show ?case using Cons by (simp add: Cons_le_Cons)
qed simp

lemma first_match_spec:
  "first_match M n \<le> n" "first_match M n \<le> j \<Longrightarrow> j < n \<Longrightarrow> M j" "first_match M n = 0 \<longleftrightarrow> n = 0"
  "first_match M n \<le> 1 \<or> \<not> M (first_match M n - 1)"
  by (induction n) (auto simp: less_Suc_eq split: if_splits)

lemma end_of_matches_spec:
  assumes "e \<le> n"
  shows "e \<le> end_of_matches M n e \<and> end_of_matches M n e \<le> n \<and>
    (\<forall>j. e \<le> j \<longrightarrow> j < end_of_matches M n e \<longrightarrow> M j) \<and> (end_of_matches M n e < n \<longrightarrow> \<not> M (end_of_matches M n e))"
  using assms
proof (induction M n e rule: end_of_matches.induct)
  case (1 M n e)
  show ?case
  proof (cases "e < n \<and> M e")
    case True
    then have "end_of_matches M n e = end_of_matches M n (Suc e)" by (subst end_of_matches.simps) simp
    moreover have IH: "Suc e \<le> end_of_matches M n (Suc e) \<and> end_of_matches M n (Suc e) \<le> n \<and>
        (\<forall>j. Suc e \<le> j \<longrightarrow> j < end_of_matches M n (Suc e) \<longrightarrow> M j) \<and>
        (end_of_matches M n (Suc e) < n \<longrightarrow> \<not> M (end_of_matches M n (Suc e)))"
      using 1(1) True by simp
    moreover have "M j" if "e \<le> j" "j < end_of_matches M n (Suc e)" for j
      using IH that True by (cases "j = e") auto
    ultimately show ?thesis by simp
  next
    case False
    then have "end_of_matches M n e = e" by (subst end_of_matches.simps) auto
    then show ?thesis using 1(2) False by auto
  qed
qed

text \<open>In a list where the matches are contiguous, the two searches delimit all of them, or all but the first.\<close>

lemma matches_range:
  assumes n: "n < length xs" "P (xs ! n)"
    and contiguous: "\<And>i j k. i \<le> j \<Longrightarrow> j \<le> k \<Longrightarrow> k < length xs \<Longrightarrow> P (xs ! i) \<Longrightarrow> P (xs ! k) \<Longrightarrow> P (xs ! j)"
  defines "a \<equiv> first_match (\<lambda>i. P (xs ! i)) n"
  defines "b \<equiv> end_of_matches (\<lambda>i. P (xs ! i)) (length xs) (Suc a)"
  shows "a < b \<and> b \<le> length xs \<and>
    filter P xs = (if a = 1 \<and> P (xs ! 0) then [xs ! 0] else []) @ drop a (take b xs)"
proof -
  note f = first_match_spec [of "\<lambda>i. P (xs ! i)" n, folded a_def]
  have "Suc a \<le> length xs" using f(1) n(1) by simp
  note e = end_of_matches_spec [OF this, of "\<lambda>i. P (xs ! i)", folded b_def]
  have Pa: "P (xs ! a)" using f(1) f(2) [of a] n(2) by (cases "a = n") auto
  have mid: "P (xs ! j)" if "a \<le> j" "j < b" for j using e Pa that by (cases "a = j") auto
  have right: "\<not> P (xs ! j)" if "b \<le> j" "j < length xs" for j
    using contiguous [of a b j] Pa e that by auto
  have left: "\<not> P (xs ! j)" if "j < a" "\<not> (a = 1 \<and> P (xs ! 0))" for j
  proof
    assume "P (xs ! j)"
    then have "P (xs ! (a - 1))" using contiguous [of j "a - 1" a] Pa e that(1) by auto
    then show False using f(4) that by (auto simp: le_Suc_eq)
  qed
  have "xs = take a xs @ drop a (take b xs) @ drop b xs"
    using e by (metis (no_types, lifting) append_assoc append_take_drop_id drop_take le_add_diff_inverse
        Suc_leD take_add take_drop)
  then have "filter P xs = filter P (take a xs) @ filter P (drop a (take b xs)) @ filter P (drop b xs)"
    by (metis filter_append)
  moreover have "filter P (drop a (take b xs)) = drop a (take b xs)"
    using mid e by (intro filter_True) (auto simp: in_set_conv_nth)
  moreover have "filter P (drop b xs) = []"
    using right by (auto simp: filter_empty_conv in_set_conv_nth)
  moreover have "filter P (take a xs) = (if a = 1 \<and> P (xs ! 0) then [xs ! 0] else [])"
  proof (cases "a = 1 \<and> P (xs ! 0)")
    case True
    then show ?thesis using n(1) by (cases xs) auto
  next
    case False
    then show ?thesis using left e by (auto simp: filter_empty_conv in_set_conv_nth)
  qed
  ultimately show ?thesis using e by simp
qed

lemma filter_view_cases:
  assumes F: "search_ok F" and v: "view_inv lower v" and c: "c \<noteq> []"
  defines "xs \<equiv> lv_list (sort_view v)"
  defines "P \<equiv> \<lambda>i. starts_with (lower (li_name i)) c"
  obtains (empty) "xs = []" "filter_view lower F c v = sort_view v"
  | (none) "filter P xs = []" "filter_view lower F c v = (sort_view v)\<lparr>lv_range := None\<rparr>"
  | (some) a b where "filter_view lower F c v = (sort_view v)\<lparr>lv_range := Some (a, b)\<rparr>" "a < b" "b \<le> length xs"
      "filter P xs = (if a = 1 \<and> P (xs ! 0) then [xs ! 0] else []) @ drop a (take b xs)"
      "a = 1 \<and> P (xs ! 0) \<longrightarrow> 2 \<le> length (filter (\<lambda>i. lower (li_name i) = c) xs)"
proof (cases "xs = []")
  case True
  then show thesis using c by (intro empty) (simp_all add: filter_view_def Let_def xs_def)
next
  case ne: False
  note s = sort_view_inv [OF v, folded xs_def]
  have low: "lower (li_name (xs ! i)) = li_sortable (xs ! i)" if "i < length xs" for i
    using s(2) that by (auto simp: view_inv_def xs_def)
  have "sorted (map li_sortable xs)"
    using s(1) unfolding sorted_map by (rule sorted_wrt_mono_rel [rotated]) (auto simp: item_key_def less_eq_prod_def)
  then have mono: "li_sortable (xs ! i) \<le> li_sortable (xs ! j)" if "i \<le> j" "j < length xs" for i j
    using that by (auto simp: sorted_iff_nth_mono)
  have P: "P (xs ! i) \<longleftrightarrow> starts_with (li_sortable (xs ! i)) c" if "i < length xs" for i
    by (simp add: P_def low that)
  have up: "P (xs ! j)" if "c \<le> li_sortable (xs ! j)" "j \<le> k" "k < length xs" "P (xs ! k)" for j k
    using that starts_with_between [OF that(1) mono [OF that(2,3)]] by (simp add: P)
  have above: "c \<le> li_sortable (xs ! j)" if "P (xs ! j)" "j < length xs" for j
    using that starts_with_le by (simp add: P)
  have contiguous: "P (xs ! j)" if "i \<le> j" "j \<le> k" "k < length xs" "P (xs ! i)" "P (xs ! k)" for i j k
    using up [of j k] above [of i] mono [of i j] that by auto
  have asc: "ascending (\<lambda>p. cmp_of (li_sortable p) c) xs" using \<open>sorted (map li_sortable xs)\<close> by (rule ascending_key)
  define index where "index = (case F (\<lambda>p. cmp_of (li_sortable p) c) xs of Inr i \<Rightarrow> i | Inl i \<Rightarrow> i)"
  have view: "filter_view lower F c v = (if \<not> P (xs ! min index (length xs - 1)) then (sort_view v)\<lparr>lv_range := None\<rparr>
      else let start = first_match (\<lambda>i. P (xs ! i)) index
           in (sort_view v)\<lparr>lv_range := Some (start, end_of_matches (\<lambda>i. P (xs ! i)) (length xs) (Suc start))\<rparr>)"
    using c ne by (simp add: filter_view_def Let_def xs_def [symmetric] P_def index_def)
  have found: "case F (\<lambda>p. cmp_of (li_sortable p) c) xs of
      Inr i \<Rightarrow> i < length xs \<and> li_sortable (xs ! i) = c
    | Inl i \<Rightarrow> i \<le> length xs \<and> (\<forall>x\<in>set (take i xs). li_sortable x < c) \<and> (\<forall>x\<in>set (drop i xs). c < li_sortable x)"
    using F [unfolded search_ok_def, rule_format, OF asc] by (auto split: sum.splits)
  show thesis
  proof (cases "F (\<lambda>p. cmp_of (li_sortable p) c) xs")
    case (Inr n)
    then have n: "index = n" "n < length xs" "li_sortable (xs ! n) = c" using found by (simp_all add: index_def)
    then have Pn: "P (xs ! n)" by (simp add: P starts_with_def)
    have two: "2 \<le> length (filter (\<lambda>i. lower (li_name i) = c) xs)"
      if a: "first_match (\<lambda>i. P (xs ! i)) n = 1" "P (xs ! 0)"
    proof -
      have "n > 0" using a(1) first_match_spec(3) [of "\<lambda>i. P (xs ! i)" n] by auto
      then have "li_sortable (xs ! 0) = c" using above [OF a(2)] mono [of 0 n] n(2,3) ne by auto
      then have "{0, n} \<subseteq> {i. i < length xs \<and> lower (li_name (xs ! i)) = c}"
        using n(2,3) low low [of 0] ne by auto
      then have "card {0, n} \<le> card {i. i < length xs \<and> lower (li_name (xs ! i)) = c}" by (intro card_mono) auto
      then show ?thesis using \<open>n > 0\<close> by (simp add: length_filter_conv_card)
    qed
    note r = matches_range [of n xs P, OF n(2) Pn contiguous]
    have "filter_view lower F c v = (sort_view v)\<lparr>lv_range := Some (first_match (\<lambda>i. P (xs ! i)) n,
        end_of_matches (\<lambda>i. P (xs ! i)) (length xs) (Suc (first_match (\<lambda>i. P (xs ! i)) n)))\<rparr>"
      using view Pn n(1,2) by (simp add: Let_def min_absorb1)
    then show thesis using r two by (intro some) auto
  next
    case (Inl n)
    then have n: "index = n" "n \<le> length xs" "\<forall>x\<in>set (take n xs). li_sortable x < c"
      using found by (simp_all add: index_def)
    have below: "\<not> P (xs ! j)" if "j < n" for j
    proof
      assume "P (xs ! j)"
      moreover have "xs ! j \<in> set (take n xs)" using that n(2) by (auto simp: in_set_conv_nth intro!: exI [of _ j])
      ultimately show False using above [of j] n(2,3) that by auto
    qed
    show thesis
    proof (cases "n < length xs \<and> P (xs ! n)")
      case True
      have a: "first_match (\<lambda>i. P (xs ! i)) n = n" using below by (cases n) auto
      note r = matches_range [of n xs P, OF _ _ contiguous, unfolded a]
      have "filter_view lower F c v = (sort_view v)\<lparr>lv_range := Some (n,
          end_of_matches (\<lambda>i. P (xs ! i)) (length xs) (Suc n))\<rparr>"
        using view True n(1) a min_absorb1 [of n "length xs - Suc 0"] by (auto simp: Let_def)
      then show thesis using r True below by (intro some) auto
    next
      case False
      have none': "\<not> P (xs ! j)" if "j < length xs" for j
      proof
        assume Pj: "P (xs ! j)"
        then have "n \<le> j" using below [of j] by (cases "j < n") auto
        moreover have "xs ! n \<in> set (drop n xs)" using that \<open>n \<le> j\<close> by (auto simp: in_set_conv_nth intro!: exI [of _ 0])
        then have "c \<le> li_sortable (xs ! n)" using found Inl by (auto intro: less_imp_le)
        ultimately show False using up [of n j] Pj that False by auto
      qed
      then have "filter P xs = []" by (auto simp: filter_empty_conv in_set_conv_nth)
      moreover have "\<not> P (xs ! min index (length xs - 1))" using ne by (intro none') (cases xs, auto)
      ultimately show thesis using view by (intro none) auto
    qed
  qed
qed

text \<open>C36: filtering keeps the entries and shows exactly those whose names start with the criteria, in
  order, except that the first of them is missed when two entries are named exactly as the criteria;
  without a match the length of the filter is zero.\<close>

theorem filter_shows_matches:
  assumes "search_ok F" "view_inv lower v" "criteria \<noteq> []"
  shows "\<exists>v' ms missed shown. filter_view lower F criteria v = v' \<and> view_inv lower v' \<and> entries v' = entries v \<and>
    ms = filter (\<lambda>i. starts_with (lower (li_name i)) criteria) (lv_list v') \<and>
    filtered_list v' = Some shown \<and>
    (if ms = [] then filter_len v' = 0 else ms = missed @ shown \<and> filter_len v' = length shown) \<and>
    (missed = [] \<or> (\<exists>i. missed = [i] \<and> 2 \<le> length (filter (\<lambda>i. lower (li_name i) = criteria) (lv_list v'))))"
proof (cases rule: filter_view_cases [OF assms, case_names empty none some])
  case empty
  note s = sort_view_inv [OF assms(2)]
  have "filtered_list (sort_view v) = Some []" "filter_len (sort_view v) = 0"
    using s(2) empty(1) by (auto simp: view_inv_def filtered_list_def filter_len_def split: option.splits prod.splits if_splits)
  then show ?thesis
    using empty s by (intro exI [of _ "sort_view v"] exI [of _ "[]"]) auto
next
  case none
  note s = sort_view_inv [OF assms(2)]
  show ?thesis
    using none s
    by (intro exI [of _ "(sort_view v)\<lparr>lv_range := None\<rparr>"] exI [of _ "[]"] exI [of _ "[]"] exI [of _ "lv_list (sort_view v)"])
       (auto simp: view_inv_def filtered_list_def filter_len_def)
next
  case (some a b)
  note s = sort_view_inv [OF assms(2)]
  let ?v = "(sort_view v)\<lparr>lv_range := Some (a, b)\<rparr>" and ?xs = "lv_list (sort_view v)"
  let ?missed = "if a = 1 \<and> starts_with (lower (li_name (?xs ! 0))) criteria then [?xs ! 0] else []"
  have shown: "filtered_list ?v = Some (drop a (take b ?xs))" "filter_len ?v = length (drop a (take b ?xs))" "drop a (take b ?xs) \<noteq> []"
    using some(2,3) by (simp_all add: filtered_list_def filter_len_def)
  have "view_inv lower ?v" using s(1,2) shown(1) by (simp add: view_inv_def)
  then show ?thesis
    using some s shown
    by (intro exI [of _ ?v] exI [of _ "?missed @ drop a (take b ?xs)"] exI [of _ ?missed] exI [of _ "drop a (take b ?xs)"])
       (auto split: if_splits)
qed

section \<open>Examples\<close>

text \<open>A linear search that returns the last of equal elements.\<close>

definition last_search :: list_search where
  "last_search f xs =
     (let n = length (takeWhile (\<lambda>x. f x \<noteq> Greater) xs)
      in if n > 0 \<and> f (xs ! (n - 1)) = Equal then Inr (n - 1) else Inl n)"

lemma last_search_ok: "search_ok last_search"
proof -
  have "case last_search f xs of Inr i \<Rightarrow> i < length xs \<and> f (xs ! i) = Equal
      | Inl i \<Rightarrow> i \<le> length xs \<and> (\<forall>x\<in>set (take i xs). f x = Less) \<and> (\<forall>x\<in>set (drop i xs). f x = Greater)"
    if asc: "ascending f xs" for f xs
  proof -
    define n where "n = length (takeWhile (\<lambda>x. f x \<noteq> Greater) xs)"
    have n: "n \<le> length xs" by (simp add: n_def length_takeWhile_le)
    have pre: "f (xs ! j) \<noteq> Greater" if "j < n" for j
      using that nth_mem [of j "takeWhile (\<lambda>x. f x \<noteq> Greater) xs"] takeWhile_nth [of j "\<lambda>x. f x \<noteq> Greater" xs]
      by (auto simp: n_def dest: set_takeWhileD)
    have post: "f (xs ! j) = Greater" if "n \<le> j" "j < length xs" for j
    proof -
      have g: "f (xs ! n) = Greater" using nth_length_takeWhile [of "\<lambda>x. f x \<noteq> Greater" xs] that by (simp add: n_def)
      show ?thesis
      proof (cases "j = n")
        case False
        then have "n < j" using that(1) by simp
        then show ?thesis using asc that(2) g unfolding ascending_def sorted_wrt_iff_nth_less by blast
      qed (simp add: g)
    qed
    show ?thesis
    proof (cases "n > 0 \<and> f (xs ! (n - 1)) = Equal")
      case True
      then have "n - 1 < length xs" using n by auto
      then show ?thesis using True by (simp add: last_search_def n_def [symmetric] Let_def)
    next
      case False
      have "f (xs ! j) = Less" if "j < n" for j
      proof -
        have "f (xs ! (n - 1)) = Less" using False pre [of "n - 1"] that by (cases "f (xs ! (n - 1))") auto
        moreover have "j < n - 1 \<longrightarrow> f (xs ! (n - 1)) = Less \<longrightarrow> f (xs ! j) = Less"
          using asc n that unfolding ascending_def sorted_wrt_iff_nth_less by simp
        ultimately show ?thesis using that by (cases "j = n - 1") auto
      qed
      then show ?thesis
        using False post n by (auto simp: last_search_def n_def [symmetric] Let_def in_set_conv_nth)
    qed
  qed
  then show ?thesis by (simp add: search_ok_def)
qed

definition twin :: "u8 \<Rightarrow> list_item" where
  "twin g = new_item id [97] [] [g] 0 0"

definition twin_view :: list_view where
  "twin_view = \<lparr>lv_list = [twin 1, twin 2], lv_sorted = True, lv_items_per_screen = 1, lv_range = None\<rparr>"

lemma twin_view_inv: "view_inv id twin_view"
  by (simp add: view_inv_def twin_view_def twin_def new_item_def item_key_def filtered_list_def)

lemma list_view_refines_map_witness:
  "case insert_unique last_search (twin 3) twin_view of (old, v') \<Rightarrow> old = None \<and> entries v' = (entries twin_view)(item_key (twin 3) \<mapsto> twin 3)"
proof -
  have "entries twin_view (item_key (twin 3)) = None"
    by (simp add: entries_None twin_view_def twin_def new_item_def item_key_def)
  then show ?thesis
    using list_view_refines_map [OF last_search_ok twin_view_inv, of "twin 3" "\<lambda>i. i"]
    by (auto simp: twin_def new_item_def)
qed

text \<open>The missed entry occurs.\<close>

lemma filter_shows_matches_witness:
  "filtered_list (filter_view id last_search [97] twin_view) = Some [twin 2] \<and>
   filter (\<lambda>i. starts_with (id (li_name i)) [97]) (lv_list (filter_view id last_search [97] twin_view)) = [twin 1, twin 2] \<and>
   view_inv id (filter_view id last_search [97] twin_view)"
proof (intro conjI)
  have v: "filter_view id last_search [97] twin_view = twin_view\<lparr>lv_range := Some (1, 2)\<rparr>"
    by (simp add: filter_view_def twin_view_def sort_view_def last_search_def Let_def twin_def new_item_def cmp_of_def
        starts_with_def end_of_matches.simps)
  show "filtered_list (filter_view id last_search [97] twin_view) = Some [twin 2]"
    by (simp add: v) (simp add: twin_view_def filtered_list_def)
  show "filter (\<lambda>i. starts_with (id (li_name i)) [97]) (lv_list (filter_view id last_search [97] twin_view)) = [twin 1, twin 2]"
    by (simp add: v) (simp add: twin_view_def twin_def new_item_def starts_with_def)
  show "view_inv id (filter_view id last_search [97] twin_view)"
    using filter_shows_matches [OF last_search_ok twin_view_inv, of "[97]"] by auto
qed

end
