(* ===== verification/Generator.thy ===== *)
theory Generator
  imports Vault_Text
begin

text \<open>
  The password generator, \<open>src/generator.rs\<close>, with the dialogue of \<open>src/actions.rs\<close> that changes its
  configuration. Characters are ASCII. The drawn of the crate \<open>random_pick\<close> are a parameter, a stream: the
  strict generator drawn until a password has a character of every pool.
\<close>

section \<open>Configuration\<close>

definition default_length :: nat where "default_length = 18"

definition number_chars :: bytes where "number_chars = utf8 ''0123456789''"
definition lowercase_letters :: bytes where "lowercase_letters = utf8 ''abcdefghijklmnopqrstuvwxyz''"
definition uppercase_letters :: bytes where "uppercase_letters = utf8 ''ABCDEFGHIJKLMNOPQRSTUVWXYZ''"

definition symbols_all :: bytes where
  "symbols_all = utf8 ''!@#$%^&*()-_+=?,.:;[]{|}/'' @ [39, 34, 92] @ utf8 ''<>`~''"

definition symbols_default_allow :: "bool list" where
  "symbols_default_allow = replicate 8 True @ replicate 24 False"

record generator_config =
  gc_length :: nat
  gc_numbers :: bool
  gc_upper :: bool
  gc_lower :: bool
  gc_use_symbols :: bool
  gc_symbols :: "bool list"

definition default_generator_config :: generator_config where
  "default_generator_config = \<lparr>gc_length = default_length, gc_numbers = True, gc_upper = True, gc_lower = True,
     gc_use_symbols = True, gc_symbols = symbols_default_allow\<rparr>"

definition allowed_symbols :: "bool list \<Rightarrow> bytes" where
  "allowed_symbols allow = map snd (filter fst (zip allow symbols_all))"

definition to_pools :: "generator_config \<Rightarrow> bytes list" where
  "to_pools c =
     (if gc_lower c then [lowercase_letters] else []) @ (if gc_upper c then [uppercase_letters] else []) @
     (if gc_numbers c then [number_chars] else []) @
     (if gc_use_symbols c \<and> allowed_symbols (gc_symbols c) \<noteq> [] then [allowed_symbols (gc_symbols c)] else [])"

section \<open>The stored form\<close>

definition display_bool :: "bool \<Rightarrow> bytes" where
  "display_bool b = (if b then utf8 ''true'' else utf8 ''false'')"

definition parse_bool :: "bytes \<Rightarrow> bool option" where
  "parse_bool s = (if s = utf8 ''true'' then Some True else if s = utf8 ''false'' then Some False else None)"

definition serialize_config :: "generator_config \<Rightarrow> bytes" where
  "serialize_config c = concat (map (\<lambda>l. l @ [10])
     [display (gc_length c), display_bool (gc_numbers c), display_bool (gc_upper c), display_bool (gc_lower c),
      display_bool (gc_use_symbols c), map (\<lambda>b. if b then 49 else 48) (gc_symbols c)])"

text \<open>
  \<open>BufRead::lines\<close>: the last line may lack its line break, a carriage return before it is dropped, and
  a line that is not UTF-8 is an error, which is \<open>None\<close> here.
\<close>

definition strip_cr :: "bytes \<Rightarrow> bytes" where
  "strip_cr l = (if l \<noteq> [] \<and> last l = 13 then butlast l else l)"

definition buf_lines :: "bytes \<Rightarrow> bytes option list" where
  "buf_lines s =
     (let parts = split_on 10 s; ended = map strip_cr (butlast parts); tail = last parts
      in map (\<lambda>l. if utf8_valid l then Some l else None) (ended @ (if tail = [] then [] else [tail])))"

definition line_or :: "(bytes \<Rightarrow> 'a option) \<Rightarrow> 'a \<Rightarrow> bytes option list \<Rightarrow> nat \<Rightarrow> 'a" where
  "line_or parse d ls i =
     (if i < length ls then case ls ! i of Some l \<Rightarrow> (case parse l of Some x \<Rightarrow> x | None \<Rightarrow> d) | None \<Rightarrow> d else d)"

text \<open>One flag per character: the bytes that do not begin a character are skipped.\<close>

definition symbol_flags :: "bytes \<Rightarrow> bool list" where
  "symbol_flags l =
     (let flags = map (\<lambda>b. b = 49) (filter (\<lambda>b. b AND 0xC0 \<noteq> 0x80) l) in take 32 (flags @ replicate 32 False))"

definition deserialize_config :: "nat \<Rightarrow> bytes \<Rightarrow> generator_config" where
  "deserialize_config ub s =
     (let ls = buf_lines s
      in \<lparr>gc_length = line_or (parse_dec ub) 18 ls 0, gc_numbers = line_or parse_bool True ls 1,
          gc_upper = line_or parse_bool True ls 2, gc_lower = line_or parse_bool True ls 3,
          gc_use_symbols = line_or parse_bool True ls 4,
          gc_symbols = line_or (\<lambda>l. Some (symbol_flags l)) (replicate 32 False) ls 5\<rparr>)"

section \<open>Generating\<close>

text \<open>
  The closure \<open>handle\<close>: which pools the characters drawn so far cover, as the bits of an \<open>i32\<close>, until
  all do.
\<close>

definition pool_bits :: "bytes list \<Rightarrow> u8 \<Rightarrow> u32" where
  "pool_bits pools c =
     foldl (\<lambda>bits (i, pool). if c \<in> set pool then bits OR push_bit i 1 else bits) 0 (enumerate 0 pools)"

definition covers_step :: "bytes list \<Rightarrow> u32 \<times> bool \<Rightarrow> u8 \<Rightarrow> u32 \<times> bool" where
  "covers_step pools st c =
     (let (bits, m) = st
      in if m then (bits, m)
         else let bits = bits OR pool_bits pools c in (bits, bits = push_bit (length pools) 1 - 1))"

definition covers :: "bytes list \<Rightarrow> bytes \<Rightarrow> bool" where
  "covers pools pw = snd (foldl (covers_step pools) (0, False) pw)"

partial_function (option) draw_until :: "bytes list \<Rightarrow> (nat \<Rightarrow> bytes) \<Rightarrow> nat \<Rightarrow> bytes option" where
  "draw_until pools drawn n = (if covers pools (drawn n) then Some (drawn n) else draw_until pools drawn (Suc n))"

text \<open>\<open>pick pool len n\<close> is the \<open>n\<close>-th draw of \<open>len\<close> characters from a pool.\<close>

definition generate ::
  "(bytes \<Rightarrow> nat \<Rightarrow> nat \<Rightarrow> bytes) \<Rightarrow> bytes list \<Rightarrow> nat \<Rightarrow> bool \<Rightarrow> bytes option" where
  "generate pick pools len strict =
     (let drawn = pick (concat pools) len
      in if strict then draw_until pools drawn 0 else Some (drawn 0))"

section \<open>The dialogue\<close>

text \<open>
  One pass through \<open>configure\<close>: the length the user enters, the sets of the list that are ticked, and the
  symbols if those are customized. The result is the new configuration and the flag that it is saved.
\<close>

record generator_choice =
  ch_length :: nat
  ch_lower :: bool
  ch_upper :: bool
  ch_numbers :: bool
  ch_symbols :: bool
  ch_custom :: "bool list option"

definition configure_generator :: "generator_choice \<Rightarrow> generator_config \<Rightarrow> generator_config \<times> bool" where
  "configure_generator ch c =
     (let modified = c\<lparr>gc_lower := gc_lower c \<or> ch_lower ch, gc_upper := gc_upper c \<or> ch_upper ch,
                gc_numbers := gc_numbers c \<or> ch_numbers ch, gc_use_symbols := gc_use_symbols c \<or> ch_symbols ch,
                gc_symbols := (case ch_custom ch of Some states \<Rightarrow> states | None \<Rightarrow> gc_symbols c)\<rparr>;
          c = c\<lparr>gc_length := ch_length ch\<rparr>
      in if \<not> gc_lower modified \<and> \<not> gc_upper modified \<and> \<not> gc_numbers modified \<and> \<not> gc_use_symbols modified
         then (c, False) else (modified, True))"

section \<open>What a strict password covers\<close>

lemma bit_pool_fold:
  "bit (foldl (\<lambda>bits (i, pool). if c \<in> set pool then bits OR push_bit i 1 else bits) b (enumerate n pools) :: u32) j \<longleftrightarrow>
     bit b j \<or> (n \<le> j \<and> j < n + length pools \<and> j < 32 \<and> c \<in> set (pools ! (j - n)))"
proof (induction pools arbitrary: b n)
  case (Cons p ps)
  have "bit (push_bit n 1 :: u32) j \<longleftrightarrow> j = n \<and> j < 32"
    by (auto simp: bit_simps)
  then show ?case
    using Cons.IH [of "if c \<in> set p then b OR push_bit n 1 else b" "Suc n"]
    by (cases "j = n") (auto simp: bit_or_iff nth_Cons' Suc_diff_Suc)
qed auto

lemma bit_pool_bits: "length pools < 32 \<Longrightarrow> bit (pool_bits pools c) j \<longleftrightarrow> j < length pools \<and> c \<in> set (pools ! j)"
  using bit_pool_fold [of c 0 0 pools j] by (auto simp: pool_bits_def)

lemma bit_target: "n < 32 \<Longrightarrow> bit (push_bit n 1 - 1 :: u32) j \<longleftrightarrow> j < n"
  by (auto simp: push_bit_eq_mult bit_mask_iff [unfolded mask_eq_exp_minus_1])

text \<open>After every character the bits are the pools met so far.\<close>

lemma covers_fold:
  assumes "length pools < 32"
  shows "\<exists>bits. foldl (covers_step pools) (0, False) pw =
      (bits, pw \<noteq> [] \<and> (\<forall>p\<in>set pools. set p \<inter> set pw \<noteq> {})) \<and>
    (\<not> (pw \<noteq> [] \<and> (\<forall>p\<in>set pools. set p \<inter> set pw \<noteq> {})) \<longrightarrow>
      (\<forall>j. bit bits j \<longleftrightarrow> j < length pools \<and> set (pools ! j) \<inter> set pw \<noteq> {}))"
proof (induction pw rule: rev_induct)
  case (snoc c pw)
  obtain bits where bits: "foldl (covers_step pools) (0, False) pw = (bits, pw \<noteq> [] \<and> (\<forall>p\<in>set pools. set p \<inter> set pw \<noteq> {}))"
    "\<not> (pw \<noteq> [] \<and> (\<forall>p\<in>set pools. set p \<inter> set pw \<noteq> {})) \<longrightarrow>
      (\<forall>j. bit bits j \<longleftrightarrow> j < length pools \<and> set (pools ! j) \<inter> set pw \<noteq> {})"
    using snoc by blast
  show ?case
  proof (cases "pw \<noteq> [] \<and> (\<forall>p\<in>set pools. set p \<inter> set pw \<noteq> {})")
    case True
    then have "\<forall>p\<in>set pools. set p \<inter> set (pw @ [c]) \<noteq> {}" by auto
    moreover have "foldl (covers_step pools) (0, False) (pw @ [c]) = (bits, True)"
      using bits(1) True by (simp add: covers_step_def)
    ultimately show ?thesis by auto
  next
    case False
    let ?b = "bits OR pool_bits pools c"
    have b: "bit ?b j \<longleftrightarrow> j < length pools \<and> set (pools ! j) \<inter> set (pw @ [c]) \<noteq> {}" for j
      using bits(2) False bit_pool_bits [OF assms] by (auto simp: bit_or_iff)
    have "?b = push_bit (length pools) 1 - 1 \<longleftrightarrow> (\<forall>p\<in>set pools. set p \<inter> set (pw @ [c]) \<noteq> {})"
    proof -
      have "?b = push_bit (length pools) 1 - 1 \<longleftrightarrow> (\<forall>j. bit ?b j \<longleftrightarrow> j < length pools)"
        using bit_target [OF assms] by (metis bit_eqI)
      also have "\<dots> \<longleftrightarrow> (\<forall>j<length pools. set (pools ! j) \<inter> set (pw @ [c]) \<noteq> {})"
        using b by blast
      also have "\<dots> \<longleftrightarrow> (\<forall>p\<in>set pools. set p \<inter> set (pw @ [c]) \<noteq> {})" by (metis in_set_conv_nth)
      finally show ?thesis .
    qed
    moreover have "foldl (covers_step pools) (0, False) (pw @ [c]) = (?b, ?b = push_bit (length pools) 1 - 1)"
      using bits(1) False by (simp add: covers_step_def Let_def)
    ultimately show ?thesis using b by (intro exI [of _ ?b]) simp
  qed
qed simp

lemma covers_iff:
  "length pools < 32 \<Longrightarrow> covers pools pw \<longleftrightarrow> pw \<noteq> [] \<and> (\<forall>p\<in>set pools. set p \<inter> set pw \<noteq> {})"
  using covers_fold [of pools pw] by (auto simp: covers_def)

end
