(* ===== verification/Generator_Props.thy ===== *)
theory Generator_Props
  imports Generator
begin

text \<open>
  When the strict generator returns, what it returns, and its stored configuration.
\<close>

section \<open>Drawing until all pools are covered\<close>

lemma draw_until_Some:
  assumes "draw_until pools drawn n = Some pw"
  shows "\<exists>k\<ge>n. covers pools (drawn k) \<and> pw = drawn k"
proof (rule draw_until.raw_induct [of "\<lambda>pools drawn n pw. \<exists>k\<ge>n. covers pools (drawn k) \<and> pw = drawn k", OF _ assms])
  fix rec :: "bytes list \<Rightarrow> (nat \<Rightarrow> bytes) \<Rightarrow> nat \<Rightarrow> bytes option" and pools drawn n pw
  assume "\<And>pools drawn n pw. rec pools drawn n = Some pw \<Longrightarrow> \<exists>k\<ge>n. covers pools (drawn k) \<and> pw = drawn k"
    and "(if covers pools (drawn n) then Some (drawn n) else rec pools drawn (Suc n)) = Some pw"
  then show "\<exists>k\<ge>n. covers pools (drawn k) \<and> pw = drawn k"
    by (metis Suc_leD le_refl option.inject)
qed

lemma draw_until_hit:
  "n \<le> k \<Longrightarrow> covers pools (drawn k) \<Longrightarrow> \<forall>j. n \<le> j \<longrightarrow> j < k \<longrightarrow> \<not> covers pools (drawn j) \<Longrightarrow>
     draw_until pools drawn n = Some (drawn k)"
proof (induction "k - n" arbitrary: n)
  case 0
  then show ?case by (subst draw_until.simps) simp
next
  case (Suc d)
  then have "\<not> covers pools (drawn n)" by auto
  then have "draw_until pools drawn n = draw_until pools drawn (Suc n)" by (subst draw_until.simps) simp
  then show ?case using Suc by auto
qed

lemma draw_until_least:
  "draw_until pools drawn 0 =
     (if \<exists>n. covers pools (drawn n) then Some (drawn (LEAST n. covers pools (drawn n))) else None)"
proof (cases "\<exists>n. covers pools (drawn n)")
  case True
  then show ?thesis
    using LeastI_ex [OF True] not_less_Least by (auto intro!: draw_until_hit)
next
  case False
  then show ?thesis using draw_until_Some [of pools drawn 0] by (cases "draw_until pools drawn 0") auto
qed

section \<open>The pools of a configuration\<close>

lemma symbols_all_length: "length symbols_all = 32"
  by (simp add: symbols_all_def utf8_def)

lemma allowed_symbols_subset: "set (allowed_symbols allow) \<subseteq> set symbols_all"
  by (auto simp: allowed_symbols_def dest: set_zip_rightD)

definition char_class :: "u8 \<Rightarrow> nat" where
  "char_class b = (if 97 \<le> b \<and> b \<le> 122 then 0 else if 65 \<le> b \<and> b \<le> 90 then 1 else if 48 \<le> b \<and> b \<le> 57 then 2 else 3)"

lemma char_classes:
  "list_all (\<lambda>b. char_class b = 0) lowercase_letters" "list_all (\<lambda>b. char_class b = 1) uppercase_letters"
  "list_all (\<lambda>b. char_class b = 2) number_chars" "list_all (\<lambda>b. char_class b = 3) symbols_all"
  by code_simp+

text \<open>The pools are told apart by the class of their characters.\<close>

lemma pools_disjoint:
  assumes "i < length (to_pools c)" "j < length (to_pools c)" "b \<in> set (to_pools c ! i)" "b \<in> set (to_pools c ! j)"
  shows "i = j"
proof -
  have "\<exists>f. (\<forall>i<length (to_pools c). \<forall>b\<in>set (to_pools c ! i). char_class b = f i) \<and>
      inj_on f {..<length (to_pools c)}"
  proof -
    define cl where "cl = (if gc_lower c then [0] else []) @ (if gc_upper c then [1 :: nat] else []) @
      (if gc_numbers c then [2] else []) @ (if gc_use_symbols c \<and> allowed_symbols (gc_symbols c) \<noteq> [] then [3] else [])"
    have len: "length cl = length (to_pools c)" by (simp add: cl_def to_pools_def)
    have "list_all2 (\<lambda>p k. \<forall>b\<in>set p. char_class b = k) (to_pools c) cl"
      unfolding cl_def to_pools_def
      using char_classes allowed_symbols_subset [of "gc_symbols c"]
      by (intro list_all2_appendI) (auto simp: list_all_iff)
    then have "\<forall>i<length (to_pools c). \<forall>b\<in>set (to_pools c ! i). char_class b = cl ! i"
      by (auto simp: list_all2_conv_all_nth)
    moreover have "distinct cl" by (simp add: cl_def)
    then have "inj_on (\<lambda>i. cl ! i) {..<length (to_pools c)}" by (auto simp: inj_on_def nth_eq_iff_index_eq len)
    ultimately show ?thesis by blast
  qed
  then show ?thesis using assms by (metis inj_on_def lessThan_iff)
qed

lemma length_to_pools: "length (to_pools c) \<le> 4"
  by (simp add: to_pools_def)

lemma cover_needs_length:
  assumes "\<forall>p\<in>set (to_pools c). set p \<inter> set pw \<noteq> {}"
  shows "length (to_pools c) \<le> length pw"
proof -
  have "\<forall>i. \<exists>b. i < length (to_pools c) \<longrightarrow> b \<in> set (to_pools c ! i) \<and> b \<in> set pw"
    using assms by (metis disjoint_iff nth_mem)
  then obtain f where f: "\<And>i. i < length (to_pools c) \<Longrightarrow> f i \<in> set (to_pools c ! i) \<and> f i \<in> set pw" by metis
  have "inj_on f {..<length (to_pools c)}"
    using f pools_disjoint by (metis (no_types, lifting) inj_onI lessThan_iff)
  then have "length (to_pools c) = card (f ` {..<length (to_pools c)})" by (simp add: card_image)
  also have "\<dots> \<le> card (set pw)" using f by (intro card_mono) auto
  also have "\<dots> \<le> length pw" by (rule card_length)
  finally show ?thesis .
qed

text \<open>C37: strict generation returns exactly when some draw has a character of every enabled set, and then
  returns the first such draw; with fewer characters than enabled sets it never returns.\<close>

theorem strict_generation_returns:
  assumes "\<forall>n. length (pick (concat (to_pools c)) len n) = len"
  shows "let drawn = pick (concat (to_pools c)) len;
      good = (\<lambda>n. len \<noteq> 0 \<and> (\<forall>p\<in>set (to_pools c). set p \<inter> set (drawn n) \<noteq> {}))
    in generate pick (to_pools c) len True = (if \<exists>n. good n then Some (drawn (LEAST n. good n)) else None) \<and>
       (len < length (to_pools c) \<longrightarrow> generate pick (to_pools c) len True = None)"
proof -
  define drawn where "drawn = pick (concat (to_pools c)) len"
  have len: "drawn n = [] \<longleftrightarrow> len = 0" for n using assms by (auto simp: drawn_def simp flip: length_0_conv)
  have good: "covers (to_pools c) (drawn n) \<longleftrightarrow> len \<noteq> 0 \<and> (\<forall>p\<in>set (to_pools c). set p \<inter> set (drawn n) \<noteq> {})" for n
    using length_to_pools [of c] by (simp add: covers_iff len)
  have gen: "generate pick (to_pools c) len True = draw_until (to_pools c) drawn 0"
    by (simp add: generate_def drawn_def)
  have "\<not> covers (to_pools c) (drawn n)" if "len < length (to_pools c)" for n
  proof
    assume "covers (to_pools c) (drawn n)"
    then have "length (to_pools c) \<le> length (drawn n)" using good cover_needs_length by blast
    then show False using that assms by (simp add: drawn_def)
  qed
  then show ?thesis
    unfolding Let_def drawn_def [symmetric] gen draw_until_least good by auto
qed

lemma strict_generation_returns_witness:
  "generate (\<lambda>pool n k. replicate n 97) [lowercase_letters] 3 True = Some [97, 97, 97] \<and>
   generate (\<lambda>pool n k. replicate n 97) (to_pools default_generator_config) 3 True = None"
proof
  let ?c = "\<lparr>gc_length = 3, gc_numbers = False, gc_upper = False, gc_lower = True, gc_use_symbols = False, gc_symbols = []\<rparr>"
  have p: "to_pools ?c = [lowercase_letters]" by (simp add: to_pools_def)
  have "97 \<in> set lowercase_letters" by (simp add: lowercase_letters_def utf8_def)
  then have g: "\<exists>n :: nat. (3 :: nat) \<noteq> 0 \<and> (\<forall>p\<in>set [lowercase_letters]. set p \<inter> set (replicate 3 97) \<noteq> {})" by auto
  have l: "\<forall>n :: nat. length ((\<lambda>pool n k. replicate n 97) (concat (to_pools ?c)) (3 :: nat) n :: bytes) = 3" by simp
  show "generate (\<lambda>pool n k. replicate n 97) [lowercase_letters] 3 True = Some [97, 97, 97]"
    using strict_generation_returns [of "\<lambda>pool n k. replicate n 97" ?c 3, OF l] g
    unfolding p Let_def by (simp add: numeral_3_eq_3)
  have "length (to_pools default_generator_config) = 4"
    by code_simp
  moreover have l: "\<forall>n :: nat. length ((\<lambda>pool n k. replicate n 97) (concat (to_pools default_generator_config)) (3 :: nat) n :: bytes) = 3"
    by simp
  ultimately show "generate (\<lambda>pool n k. replicate n 97) (to_pools default_generator_config) 3 True = None"
    using strict_generation_returns [of "\<lambda>pool n k. replicate n 97" default_generator_config 3, OF l] unfolding Let_def by (elim conjE) (erule mp, simp)
qed

section \<open>The configuration\<close>

lemma strip_cr_display: "strip_cr (display n) = display n"
proof -
  have "last (display n) \<noteq> 13" if "display n \<noteq> []"
    using display_digits [OF last_in_set [OF that]] by (auto simp: word_le_nat_alt)
  then show ?thesis by (auto simp: strip_cr_def)
qed

lemma config_round_trip:
  assumes "gc_length c < 2 ^ ub" "length (gc_symbols c) = 32"
  shows "deserialize_config ub (serialize_config c) = c"
proof -
  define l where "l = [display (gc_length c), display_bool (gc_numbers c), display_bool (gc_upper c),
    display_bool (gc_lower c), display_bool (gc_use_symbols c), map (\<lambda>b. if b then 49 else 48) (gc_symbols c) :: bytes]"
  have nl: "list_all (\<lambda>l. 10 \<notin> set l) l"
    by (auto simp: l_def display_bool_def utf8_def)
  have valid: "utf8_valid x" if "x \<in> set l" for x
  proof -
    have "utf8_valid (display_bool b)" for b by (simp add: display_bool_def utf8_def utf8_valid_ascii)
    moreover have "utf8_valid (map (\<lambda>b. if b then 49 else 48) (gc_symbols c) :: bytes)"
      by (intro utf8_valid_all_ascii) (auto simp: list_all_iff)
    ultimately show ?thesis using that display_ascii by (auto simp: l_def)
  qed
  have cr: "strip_cr x = x" if "x \<in> set l" for x
  proof -
    have "last (map (\<lambda>b. if b then 49 else 48) (gc_symbols c) :: bytes) \<noteq> 13"
      using assms(2) by (cases "gc_symbols c" rule: rev_cases) auto
    then have "strip_cr (map (\<lambda>b. if b then 49 else 48) (gc_symbols c)) = (map (\<lambda>b. if b then 49 else 48) (gc_symbols c) :: bytes)"
      by (simp add: strip_cr_def)
    moreover have "strip_cr (display_bool b) = display_bool b" for b by (simp add: display_bool_def utf8_def strip_cr_def)
    ultimately show ?thesis using that strip_cr_display by (auto simp: l_def)
  qed
  have "buf_lines (serialize_config c) = map Some l"
    using split_on_lines [OF nl, of "[]"] valid cr
    by (simp add: buf_lines_def serialize_config_def l_def [symmetric] Let_def map_idI)
  moreover have "parse_bool (display_bool b) = Some b" for b by (simp add: parse_bool_def display_bool_def utf8_def)
  moreover have "symbol_flags (map (\<lambda>b. if b then 49 else 48) (gc_symbols c)) = gc_symbols c"
  proof -
    have "filter (\<lambda>b. b AND 0xC0 \<noteq> 0x80) (map (\<lambda>b. if b then 49 else 48) (gc_symbols c)) =
        (map (\<lambda>b. if b then 49 else 48) (gc_symbols c) :: bytes)"
      by (intro filter_True) auto
    then show ?thesis using assms(2) by (simp add: symbol_flags_def Let_def comp_def map_idI)
  qed
  ultimately show ?thesis
    using assms(1) parse_dec_display [of "gc_length c" ub]
    by (simp add: deserialize_config_def Let_def line_or_def l_def)
qed

text \<open>
  The dialogue saves the old length: the new one is written to the configuration that is then replaced.
  It can only add sets, never remove one.
\<close>

lemma configure_ignores_choice:
  assumes "configure_generator ch c = (c', True)"
  shows "gc_length c' = gc_length c" "gc_lower c \<longrightarrow> gc_lower c'" "gc_upper c \<longrightarrow> gc_upper c'"
    "gc_numbers c \<longrightarrow> gc_numbers c'" "gc_use_symbols c \<longrightarrow> gc_use_symbols c'"
  using assms by (auto simp: configure_generator_def Let_def split: if_splits)

end
