(* ===== verification/User_Presence.thy ===== *)
theory User_Presence
  imports Hid_Channel Hid_Transport Status
begin

text \<open>
  The prompts of \<open>src/env/xous/mod.rs\<close>: the wait for a CTAP2 confirmation, and the server that keeps the
  dialog of a CTAP1 request between the polls of the host. The keys a listener thread stores, the clock
  and the USB endpoint are arguments; a sequence of events is one interleaving of the threads.
\<close>

section \<open>Keys\<close>

definition down_key :: u32 where "down_key = 0x2193"

text \<open>therefore sign, fire, up, left, right and y\<close>

definition approve_keys :: "u32 list" where
  "approve_keys = [0x2234, 0x1F525, 0x2191, 0x2190, 0x2192, 0x79]"

section \<open>Keepalive packets\<close>

datatype send_status = SendTimeout | Sent | Received hid_packet

text \<open>\<open>None\<close> is an error of the connection, on which the caller panics.\<close>

type_synonym 'e hid_connection = "hid_packet \<Rightarrow> 'e \<Rightarrow> send_status option \<times> 'e"

definition badge_connection :: "(hid_packet \<Rightarrow> 'e \<Rightarrow> bool \<times> 'e) \<Rightarrow> 'e hid_connection" where
  "badge_connection u2f_send p e = (let (ok, e) = u2f_send p e in (if ok then Some Sent else None, e))"

fun send_keepalive_packets ::
  "'e hid_connection \<Rightarrow> channel_id \<Rightarrow> hid_packet list \<Rightarrow> 'e \<Rightarrow> (user_presence_error + unit) option \<times> 'e" where
  "send_keepalive_packets conn c [] e = (Some (Inr ()), e)"
| "send_keepalive_packets conn c (p # ps) e =
     (case conn p e of
        (None, e) \<Rightarrow> (None, e)
      | (Some (Received q), e) \<Rightarrow>
          (let (received, processed) = process_single_packet q
           in if received \<noteq> c then (Some (Inr ()), e)
              else case processed of
                     InitPacket command _ _ \<Rightarrow>
                       if command = cmd_code Cancel then (Some (Inl Canceled), e) else send_keepalive_packets conn c ps e
                   | ContinuationPacket _ _ \<Rightarrow> send_keepalive_packets conn c ps e)
      | (Some _, e) \<Rightarrow> send_keepalive_packets conn c ps e)"

text \<open>The iterator of a message ends after at most 129 packets.\<close>

definition send_keepalive_up_needed :: "'e hid_connection \<Rightarrow> channel_id \<Rightarrow> 'e \<Rightarrow> (user_presence_error + unit) option \<times> 'e" where
  "send_keepalive_up_needed conn c = send_keepalive_packets conn c (fst (take_packets 130 (keepalive c UpNeeded)))"

section \<open>Waiting for a confirmation\<close>

definition whole_seconds :: "nat \<Rightarrow> nat" where
  "whole_seconds t = t div 1000000000"

text \<open>
  \<open>seen i\<close> is the time and the stored key in round \<open>i\<close> of the loop. The value \<open>None\<close> of the loop is that
  it does not return; a \<open>None\<close> inside is a panic.
\<close>

partial_function (option) wait_loop ::
  "'e hid_connection \<Rightarrow> channel_id \<Rightarrow> instant \<Rightarrow> (nat \<Rightarrow> instant \<times> u32) \<Rightarrow> nat \<Rightarrow> 'e \<Rightarrow>
     ((user_presence_error + unit) option \<times> 'e) option" where
  "wait_loop conn c expiration seen i e =
     (if whole_seconds (expiration - fst (seen i)) = 0 then Some (Some (Inl Timeout), e)
      else if snd (seen i) \<in> set approve_keys then Some (Some (Inr ()), e)
      else if snd (seen i) = down_key then Some (Some (Inl Declined), e)
      else case send_keepalive_up_needed conn c e of
             (Some (Inr _), e) \<Rightarrow> wait_loop conn c expiration seen (Suc i) e
           | (r, e) \<Rightarrow> Some (r, e))"

definition wait_with_timeout ::
  "'e hid_connection \<Rightarrow> channel_id \<Rightarrow> instant \<Rightarrow> nat \<Rightarrow> (nat \<Rightarrow> instant \<times> u32) \<Rightarrow> 'e \<Rightarrow>
     ((user_presence_error + unit) option \<times> 'e) option" where
  "wait_with_timeout conn c now timeout seen e = wait_loop conn c (now + timeout) seen 0 e"

section \<open>The CTAP1 dialog\<close>

definition prompt_timeout_ms :: nat where "prompt_timeout_ms = 10000"

record ctap1_server =
  ap_current :: "bytes option"
  ap_denied :: "bytes option"
  ap_start :: nat
  ap_remaining :: nat
  ap_key :: u32

definition new_ctap1_server :: ctap1_server where
  "new_ctap1_server = \<lparr>ap_current = None, ap_denied = None, ap_start = 0, ap_remaining = 0, ap_key = 0\<rparr>"

definition poll_permission :: "bytes \<Rightarrow> nat \<Rightarrow> ctap1_server \<Rightarrow> bool \<times> ctap1_server" where
  "poll_permission app_id now s =
     (case ap_current s of
        Some i \<Rightarrow>
          if i \<noteq> app_id then (False, s\<lparr>ap_current := None\<rparr>)
          else if ap_key s \<noteq> 0 \<and> ap_key s \<noteq> down_key then (True, s\<lparr>ap_current := None\<rparr>)
          else if ap_key s = down_key then (False, s\<lparr>ap_denied := Some i, ap_current := None\<rparr>)
          else if prompt_timeout_ms > now - ap_start s then
            (False, s\<lparr>ap_remaining := (prompt_timeout_ms - (now - ap_start s)) div 1000\<rparr>)
          else (False, s\<lparr>ap_current := None, ap_denied := None\<rparr>)
      | None \<Rightarrow>
          if ap_denied s = Some app_id \<and> now - ap_start s < prompt_timeout_ms then (False, s)
          else (False, s\<lparr>ap_current := Some app_id, ap_denied := None, ap_start := now,
                         ap_remaining := prompt_timeout_ms div 1000, ap_key := 0\<rparr>))"

text \<open>
  The listener of a dialog stores the key that was hit, or zero when the dialog is closed; the watchdog
  ends a dialog the host no longer polls.
\<close>

datatype ctap1_event = PollPermission bytes nat | KeyStored u32 | ListenerClosed | ForceTimeout

fun ctap1_step :: "ctap1_event \<Rightarrow> ctap1_server \<Rightarrow> bool \<times> ctap1_server" where
  "ctap1_step (PollPermission i now) s = poll_permission i now s"
| "ctap1_step (KeyStored k) s = (False, s\<lparr>ap_key := k\<rparr>)"
| "ctap1_step ListenerClosed s = (False, s\<lparr>ap_key := 0\<rparr>)"
| "ctap1_step ForceTimeout s = (False, s\<lparr>ap_current := None\<rparr>)"

text \<open>The watchdog: its state, the time, and the messages it sends.\<close>

datatype watchdog_op = WatchRun | WatchPump | WatchStop

datatype watchdog_message = SendPump | SendForceTimeout

record watchdog =
  wd_start :: nat
  wd_run :: bool

definition watchdog_margin_ms :: nat where "watchdog_margin_ms = 2000"

fun watchdog_step :: "watchdog_op \<Rightarrow> nat \<Rightarrow> watchdog \<Rightarrow> watchdog_message list \<times> watchdog" where
  "watchdog_step WatchRun now w = (if wd_run w then ([], w) else ([SendPump], w\<lparr>wd_start := now, wd_run := True\<rparr>))"
| "watchdog_step WatchPump now w =
     (if \<not> wd_run w then ([], w)
      else if now - wd_start w > prompt_timeout_ms + watchdog_margin_ms then ([SendForceTimeout], w\<lparr>wd_run := False\<rparr>)
      else ([SendPump], w))"
| "watchdog_step WatchStop now w = ([], w\<lparr>wd_run := False\<rparr>)"

text \<open>\<open>recently_requested\<close>, in milliseconds\<close>

definition recently_requested :: "nat option \<Rightarrow> nat \<Rightarrow> bool" where
  "recently_requested last_request now = (case last_request of Some t \<Rightarrow> now - t < prompt_timeout_ms | None \<Rightarrow> False)"

section \<open>The confirmation ends\<close>

text \<open>A round that decides: the time is up, or a key that approves or denies was hit.\<close>

definition decides :: "instant \<Rightarrow> instant \<times> u32 \<Rightarrow> bool" where
  "decides expiration s \<longleftrightarrow>
     whole_seconds (expiration - fst s) = 0 \<or> snd s \<in> set approve_keys \<or> snd s = down_key"

definition decision :: "instant \<Rightarrow> instant \<times> u32 \<Rightarrow> user_presence_error + unit" where
  "decision expiration s =
     (if whole_seconds (expiration - fst s) = 0 then Inl Timeout
      else if snd s \<in> set approve_keys then Inr () else Inl Declined)"

lemma send_badge:
  "\<exists>e'. send_keepalive_packets (badge_connection tx) c ps e = (Some (Inr ()), e') \<or>
        send_keepalive_packets (badge_connection tx) c ps e = (None, e')"
proof (induction ps arbitrary: e)
  case (Cons p ps)
  then show ?case by (cases "tx p e") (auto simp: badge_connection_def)
qed simp

lemma send_badge_ok:
  assumes "\<And>p e. fst (tx p e)"
  shows "\<exists>e'. send_keepalive_packets (badge_connection tx) c ps e = (Some (Inr ()), e')"
proof (induction ps arbitrary: e)
  case (Cons p ps)
  then show ?case using assms [of p e] by (cases "tx p e") (auto simp: badge_connection_def)
qed simp

lemma wait_loop_decides:
  assumes tx: "\<And>p e. fst (tx p e)"
    and k: "i \<le> k" "decides expiration (seen k)" "\<forall>j. i \<le> j \<longrightarrow> j < k \<longrightarrow> \<not> decides expiration (seen j)"
  shows "\<exists>e'. wait_loop (badge_connection tx) c expiration seen i e = Some (Some (decision expiration (seen k)), e')"
  using k
proof (induction "k - i" arbitrary: i e)
  case 0
  then have "k = i" by simp
  then show ?case using 0 by (subst wait_loop.simps) (auto simp: decides_def decision_def)
next
  case (Suc d)
  then have "\<not> decides expiration (seen i)" by auto
  moreover obtain e1 where "send_keepalive_up_needed (badge_connection tx) c e = (Some (Inr ()), e1)"
    using send_badge_ok [of tx, OF tx] unfolding send_keepalive_up_needed_def by blast
  ultimately have "wait_loop (badge_connection tx) c expiration seen i e =
      wait_loop (badge_connection tx) c expiration seen (Suc i) e1"
    by (subst wait_loop.simps) (simp add: decides_def)
  then show ?case using Suc by auto
qed

text \<open>C38: on the badge a prompt whose packets can be sent always ends once the time has passed, with the
  first deciding observation: the user is present only if an approving key was seen before the last
  second, and before any denial. In particular the host can never cancel the prompt.\<close>

theorem presence_prompt_decides:
  assumes "\<And>p e. fst (tx p e)" "whole_seconds (now + timeout - fst (seen n)) = 0"
  shows "\<exists>k\<le>n. \<exists>e'. wait_with_timeout (badge_connection tx) c now timeout seen e =
      Some (Some (decision (now + timeout) (seen k)), e') \<and>
    decides (now + timeout) (seen k) \<and> (\<forall>j<k. \<not> decides (now + timeout) (seen j))"
proof -
  let ?P = "\<lambda>k. decides (now + timeout) (seen k)"
  have n: "?P n" using assms(2) by (simp add: decides_def)
  from exists_least_iff [of ?P] n obtain k where k: "?P k" "\<forall>j<k. \<not> ?P j" by blast
  then have "k \<le> n" using n by (meson not_le)
  moreover obtain e' where "wait_with_timeout (badge_connection tx) c now timeout seen e =
      Some (Some (decision (now + timeout) (seen k)), e')"
    using wait_loop_decides [of tx 0 k "now + timeout" seen c e, OF assms(1)] k
    unfolding wait_with_timeout_def by blast
  ultimately show ?thesis using k by blast
qed

text \<open>a clock of one round a second, and a key after the first\<close>

definition y_after_a_second :: "nat \<Rightarrow> instant \<times> u32" where
  "y_after_a_second i = (i * 1000000000, if i = 0 then 0x78 else 0x79)"

definition counted_send :: "hid_packet \<Rightarrow> nat \<Rightarrow> bool \<times> nat" where
  "counted_send p e = (True, e + 1)"

lemma presence_prompt_decides_witness:
  "\<exists>r e'. wait_with_timeout (badge_connection counted_send) [1, 2, 3, 4] 0 2000000000 y_after_a_second 0 =
     Some (Some r, e') \<and> r \<in> {Inl Timeout, Inr ()}"
proof -
  have "fst (counted_send p e)" for p e by (simp add: counted_send_def)
  moreover have "whole_seconds (0 + 2000000000 - fst (y_after_a_second 2)) = 0"
    by (simp add: whole_seconds_def y_after_a_second_def)
  ultimately obtain k e' where k: "decides (0 + 2000000000) (y_after_a_second k)"
    "wait_with_timeout (badge_connection counted_send) [1, 2, 3, 4] 0 2000000000 y_after_a_second 0 =
     Some (Some (decision (0 + 2000000000) (y_after_a_second k)), e')"
    using presence_prompt_decides [of counted_send 0 2000000000 y_after_a_second 2 "[1, 2, 3, 4]" 0] by blast
  have "\<not> decides (0 + 2000000000) (y_after_a_second 0)"
    by (simp add: decides_def whole_seconds_def approve_keys_def down_key_def y_after_a_second_def)
  then have "k \<noteq> 0" using k(1) by metis
  then have "snd (y_after_a_second k) \<in> set approve_keys"
    by (simp add: y_after_a_second_def approve_keys_def)
  then have "decision (0 + 2000000000) (y_after_a_second k) \<in> {Inl Timeout, Inr ()}"
    by (simp add: decision_def)
  then show ?thesis using k(2) by blast
qed

section \<open>A CTAP1 approval has a key\<close>

text \<open>The key that is stored after some events, and the events that leave the dialog of an application open: a
  poll of the same application that finds no key before the timeout, and what a listener does.\<close>

fun stored_key :: "u32 \<Rightarrow> ctap1_event list \<Rightarrow> u32" where
  "stored_key k [] = k"
| "stored_key k (KeyStored c # es) = stored_key c es"
| "stored_key k (ListenerClosed # es) = stored_key 0 es"
| "stored_key k (PollPermission i t # es) = stored_key k es"
| "stored_key k (ForceTimeout # es) = stored_key k es"

fun stays_open :: "bytes \<Rightarrow> nat \<Rightarrow> u32 \<Rightarrow> ctap1_event list \<Rightarrow> bool" where
  "stays_open i start k [] = True"
| "stays_open i start k (PollPermission i' t # es) \<longleftrightarrow>
     i' = i \<and> k = 0 \<and> t - start < prompt_timeout_ms \<and> stays_open i start k es"
| "stays_open i start k (KeyStored c # es) \<longleftrightarrow> stays_open i start c es"
| "stays_open i start k (ListenerClosed # es) \<longleftrightarrow> stays_open i start 0 es"
| "stays_open i start k (ForceTimeout # es) \<longleftrightarrow> False"

lemma stored_key_append: "stored_key k (xs @ ys) = stored_key (stored_key k xs) ys"
  by (induction k xs rule: stored_key.induct) simp_all

lemma stays_open_append:
  "stays_open i start k (xs @ ys) \<longleftrightarrow> stays_open i start k xs \<and> stays_open i start (stored_key k xs) ys"
  by (induction i start k xs rule: stays_open.induct) auto

text \<open>The dialog that is open was opened by a poll, has stayed open since, and has the key stored since.\<close>

definition dialog_inv :: "ctap1_event list \<Rightarrow> ctap1_server \<Rightarrow> bool" where
  "dialog_inv es s \<longleftrightarrow> (\<forall>i. ap_current s = Some i \<longrightarrow>
     (\<exists>es1 es2. es = es1 @ PollPermission i (ap_start s) # es2 \<and> stays_open i (ap_start s) 0 es2 \<and>
        ap_key s = stored_key 0 es2))"

lemma dialog_inv_closed [simp]: "ap_current s = None \<Longrightarrow> dialog_inv es s"
  by (simp add: dialog_inv_def)

lemma dialog_inv_open:
  assumes "dialog_inv es s" "ap_current s' = ap_current s" "ap_start s' = ap_start s"
    and "\<And>i. ap_current s = Some i \<Longrightarrow> stays_open i (ap_start s) (ap_key s) [x] \<and> ap_key s' = stored_key (ap_key s) [x]"
  shows "dialog_inv (es @ [x]) s'"
  unfolding dialog_inv_def
proof (intro allI impI)
  fix i assume "ap_current s' = Some i"
  then have i: "ap_current s = Some i" using assms(2) by simp
  then obtain es1 es2 where "es = es1 @ PollPermission i (ap_start s) # es2" "stays_open i (ap_start s) 0 es2"
    "ap_key s = stored_key 0 es2"
    using assms(1) by (auto simp: dialog_inv_def)
  then show "\<exists>es1 es2. es @ [x] = es1 @ PollPermission i (ap_start s') # es2 \<and> stays_open i (ap_start s') 0 es2 \<and>
      ap_key s' = stored_key 0 es2"
    using assms(3,4) i by (intro exI [of _ es1] exI [of _ "es2 @ [x]"]) (simp add: stored_key_append stays_open_append)
qed

lemma dialog_inv_poll:
  assumes inv: "dialog_inv es s" and step: "poll_permission i now s = (r, s')"
  shows "dialog_inv (es @ [PollPermission i now]) s'"
proof (cases "ap_current s")
  case None
  show ?thesis
  proof (cases "ap_denied s = Some i \<and> now - ap_start s < prompt_timeout_ms")
    case True
    then show ?thesis using step None by (auto simp: poll_permission_def)
  next
    case False
    then have "ap_current s' = Some i" "ap_start s' = now" "ap_key s' = 0"
      using step None by (auto simp: poll_permission_def)
    then show ?thesis unfolding dialog_inv_def by (intro allI impI exI [of _ es] exI [of _ "[]"]) simp
  qed
next
  case (Some c)
  then consider "ap_current s' = None"
    | "c = i" "ap_key s = 0" "now - ap_start s < prompt_timeout_ms" "s' = s\<lparr>ap_remaining := (prompt_timeout_ms - (now - ap_start s)) div 1000\<rparr>"
    using step by (auto simp: poll_permission_def down_key_def split: if_splits)
  then show ?thesis
  proof cases
    case 2
    then show ?thesis using Some by (intro dialog_inv_open [OF inv]) auto
  qed simp
qed

lemma dialog_inv_step: "dialog_inv es s \<Longrightarrow> ctap1_step x s = (r, s') \<Longrightarrow> dialog_inv (es @ [x]) s'"
  by (cases x) (auto intro: dialog_inv_poll dialog_inv_open)

lemma dialog_inv_run: "run ctap1_step es new_ctap1_server = (outs, s) \<Longrightarrow> dialog_inv es s \<and> length outs = length es"
proof (induction es arbitrary: outs s rule: rev_induct)
  case (snoc x es)
  obtain o1 s1 where r: "run ctap1_step es new_ctap1_server = (o1, s1)" by fastforce
  obtain o2 where "ctap1_step x s1 = (o2, s)" "outs = o1 @ [o2]"
    using snoc.prems r by (auto simp: run_append Let_def split: prod.splits)
  then show ?case using snoc.IH [OF r] dialog_inv_step by auto
qed (simp add: new_ctap1_server_def)

text \<open>C39: a CTAP1 poll is approved only while a dialog of its application is open that an earlier poll opened
  and that has stayed open since (no poll of another application, no forced timeout, no poll that found a
  key or the time up, so in particular no earlier approval), and only when the key stored since then is
  one other than the one that denies.\<close>

theorem ctap1_approval_needs_key:
  assumes "run ctap1_step es new_ctap1_server = (outs, s)" "n < length es" "outs ! n"
  shows "\<exists>i now t es1 es2. es ! n = PollPermission i now \<and> take n es = es1 @ PollPermission i t # es2 \<and>
    stays_open i t 0 es2 \<and> stored_key 0 es2 \<noteq> 0 \<and> stored_key 0 es2 \<noteq> down_key"
proof -
  obtain o1 s1 where r: "run ctap1_step (take n es) new_ctap1_server = (o1, s1)" by fastforce
  note inv = dialog_inv_run [OF r]
  have es: "es = take n es @ es ! n # drop (Suc n) es" using assms(2) by (simp add: id_take_nth_drop)
  obtain o2 s2 where step: "ctap1_step (es ! n) s1 = (o2, s2)" by fastforce
  then have "outs = o1 @ o2 # fst (run ctap1_step (drop (Suc n) es) s2)"
    using assms(1) r by (subst (asm) es) (auto simp: run_append Let_def split: prod.splits)
  then have "o2" using assms(2,3) inv by (simp add: nth_append)
  then obtain i now where p: "es ! n = PollPermission i now" using step by (cases "es ! n") auto
  then have c: "ap_current s1 = Some i" "ap_key s1 \<noteq> 0" "ap_key s1 \<noteq> down_key"
    using step \<open>o2\<close> by (auto simp: poll_permission_def split: option.splits if_splits)
  then obtain es1 es2 where "take n es = es1 @ PollPermission i (ap_start s1) # es2" "stays_open i (ap_start s1) 0 es2"
    "ap_key s1 = stored_key 0 es2"
    using inv unfolding dialog_inv_def by blast
  then show ?thesis
    using p c by (intro exI [of _ i] exI [of _ now] exI [of _ "ap_start s1"] exI [of _ es1] exI [of _ es2]) simp
qed

text \<open>Any other key approves, such as the code of an event that is not a key of the user.\<close>

lemma ctap1_approval_needs_key_witness:
  "\<exists>i now t es1 es2. [PollPermission [7] 0, KeyStored 1, PollPermission [7] 5] ! 2 = PollPermission i now \<and>
     take 2 [PollPermission [7] 0, KeyStored 1, PollPermission [7] 5] = es1 @ PollPermission i t # es2 \<and>
     stays_open i t 0 es2 \<and> stored_key 0 es2 \<noteq> 0 \<and> stored_key 0 es2 \<noteq> down_key"
proof -
  have "run ctap1_step [PollPermission [7] 0, KeyStored 1, PollPermission [7] 5] new_ctap1_server =
      ([False, False, True], \<lparr>ap_current = None, ap_denied = None, ap_start = 0, ap_remaining = 10, ap_key = 1\<rparr>)"
    by (simp add: poll_permission_def new_ctap1_server_def prompt_timeout_ms_def down_key_def)
  from ctap1_approval_needs_key [OF this, of 2] show ?thesis by simp
qed

text \<open>The key is used up by the approval: the next poll opens a new dialog.\<close>

lemma approval_is_used_up:
  "poll_permission i now s = (True, s') \<Longrightarrow> fst (poll_permission j later s') = False"
  by (auto simp: poll_permission_def split: option.splits if_splits)

text \<open>A denied application is refused without a dialog until the timeout of its prompt.\<close>

lemma denied_stays_denied:
  assumes "ap_current s = Some i" "ap_key s = down_key" "t - ap_start s < prompt_timeout_ms"
  shows "\<exists>s'. poll_permission i now s = (False, s') \<and> poll_permission i t s' = (False, s')"
  using assms by (simp add: poll_permission_def down_key_def)

text \<open>The watchdog ends every dialog: once the time has passed, the next pump asks for the timeout.\<close>

lemma watchdog_ends:
  "wd_run w \<Longrightarrow> now - wd_start w > prompt_timeout_ms + watchdog_margin_ms \<Longrightarrow>
     watchdog_step WatchPump now w = ([SendForceTimeout], w\<lparr>wd_run := False\<rparr>)"
  by simp

end
