(* ===== verification/App_Info.thy ===== *)
theory App_Info
  imports Vault_Storage Item_Cache
begin

text \<open>
  What the vault remembers of the applications that use CTAP1: \<open>AppInfo\<close> of \<open>src/vault_api.rs\<close> and its
  text form, the update after an approval (\<open>src/env/xous/mod.rs\<close>) and the list of passkeys
  (\<open>src/storage.rs\<close>). The crate hex is a parameter, as are the user's answers and the clock.
\<close>

section \<open>The text form\<close>

record app_info =
  ai_name :: bytes
  ai_id :: bytes
  ai_notes :: bytes
  ai_ctime :: u64
  ai_atime :: u64
  ai_count :: u64

record hex_codec =
  hx_encode :: "bytes \<Rightarrow> bytes"
  hx_decode :: "bytes \<Rightarrow> bytes option"

text \<open>The documentation of hex: two lower-case digits for every byte, which it reads back.\<close>

definition hex_codec_ok :: "hex_codec \<Rightarrow> bool" where
  "hex_codec_ok H \<longleftrightarrow> (\<forall>bs. hx_decode H (hx_encode H bs) = Some bs \<and>
     set (hx_encode H bs) \<subseteq> {48..57} \<union> {97..102})"

text \<open>Reading stops when a line is malformed, or panics on an identifier of another length.\<close>

datatype app_info_stop = NoAppInfo | AppInfoPanic

definition default_app_info :: app_info where
  "default_app_info = \<lparr>ai_name = [], ai_id = replicate 32 0, ai_notes = [], ai_ctime = 0, ai_atime = 0, ai_count = 0\<rparr>"

definition app_info_field :: "hex_codec \<Rightarrow> app_info \<Rightarrow> bytes \<Rightarrow> bytes \<Rightarrow> app_info_stop + app_info" where
  "app_info_field H a tag d =
     (if tag = utf8 ''name'' then Inr (a\<lparr>ai_name := ai_name a @ d\<rparr>)
      else if tag = utf8 ''notes'' then Inr (a\<lparr>ai_notes := ai_notes a @ d\<rparr>)
      else if tag = utf8 ''id'' then
        rbind (ok_or (hx_decode H d) NoAppInfo) (\<lambda>i. if length i = 32 then Inr (a\<lparr>ai_id := i\<rparr>) else Inl AppInfoPanic)
      else if tag = utf8 ''ctime'' then rbind (ok_or (parse_u64 d) NoAppInfo) (\<lambda>v. Inr (a\<lparr>ai_ctime := v\<rparr>))
      else if tag = utf8 ''atime'' then rbind (ok_or (parse_u64 d) NoAppInfo) (\<lambda>v. Inr (a\<lparr>ai_atime := v\<rparr>))
      else if tag = utf8 ''count'' then Inr (case parse_u64 d of Some v \<Rightarrow> a\<lparr>ai_count := v\<rparr> | None \<Rightarrow> a)
      else Inl NoAppInfo)"

definition deserialize_app_info :: "hex_codec \<Rightarrow> bytes \<Rightarrow> app_info_stop + app_info" where
  "deserialize_app_info H bs =
     (if \<not> utf8_valid bs then Inl NoAppInfo
      else rbind (fold_lines (on_line (app_info_field H)) (split_on 10 bs) default_app_info) (\<lambda>a.
        if ai_name a \<noteq> [] \<and> ai_id a \<noteq> replicate 32 0 then Inr a else Inl NoAppInfo))"

definition app_info_lines :: "hex_codec \<Rightarrow> app_info \<Rightarrow> bytes list" where
  "app_info_lines H a =
     [tagged ''name'' (ai_name a), tagged ''id'' (hx_encode H (ai_id a)), tagged ''ctime'' (display (unat (ai_ctime a))),
      tagged ''atime'' (display (unat (ai_atime a))), tagged ''count'' (display (unat (ai_count a)))]"

definition serialize_app_info :: "hex_codec \<Rightarrow> app_info \<Rightarrow> bytes" where
  "serialize_app_info H a = lines_to_vec (app_info_lines H a)"

section \<open>The update after an approval\<close>

definition u2f_app_dict :: string where "u2f_app_dict = ''fido.u2fapps''"

definition app_key :: "hex_codec \<Rightarrow> bytes \<Rightarrow> string" where
  "app_key H i = chars_of (hx_encode H i)"

text \<open>The query creates the dictionary but no key. \<open>None\<close> is a panic.\<close>

definition stored_app_info :: "'p vault_db \<Rightarrow> hex_codec \<Rightarrow> bytes \<Rightarrow> 'p \<Rightarrow> app_info option option" where
  "stored_app_info V H i p =
     (let D = vdict V u2f_app_dict None
      in case open_key D (app_key H i) p of
           Inl _ \<Rightarrow> Some None
         | Inr _ \<Rightarrow>
             (case attributes_len D (app_key H i) p of
                Inl _ \<Rightarrow> None
              | Inr n \<Rightarrow>
                  if n = 0 then Some None
                  else case read_to_end D (app_key H i) p of
                         Inl _ \<Rightarrow> Some None
                       | Inr bs \<Rightarrow>
                           (case deserialize_app_info H bs of
                              Inr a \<Rightarrow> Some (Some a) | Inl NoAppInfo \<Rightarrow> Some None | Inl AppInfoPanic \<Rightarrow> None)))"

definition new_app_info :: "bytes \<Rightarrow> bytes \<Rightarrow> bytes \<Rightarrow> u64 \<Rightarrow> app_info" where
  "new_app_info name notes i now =
     \<lparr>ai_name = name, ai_id = i, ai_notes = notes, ai_ctime = now, ai_atime = 0, ai_count = 0\<rparr>"

definition note_use :: "u64 \<Rightarrow> app_info \<Rightarrow> app_info" where
  "note_use now a = a\<lparr>ai_atime := now, ai_count := (if ai_count a = - 1 then - 1 else ai_count a + 1)\<rparr>"

definition update_app_info ::
  "'p vault_db \<Rightarrow> hex_codec \<Rightarrow> bytes option \<Rightarrow> bytes \<Rightarrow> u64 \<Rightarrow> bytes \<Rightarrow> 'p \<Rightarrow> unit option \<times> 'p" where
  "update_app_info V H entered notes now i p =
     (if i = replicate 32 0 then (Some (), p)
      else case stored_app_info V H i p of
             None \<Rightarrow> (None, p)
           | Some stored \<Rightarrow>
               (case (case stored of Some a \<Rightarrow> Some a | None \<Rightarrow> map_option (\<lambda>name. new_app_info name notes i now) entered) of
                  None \<Rightarrow> (None, p)
                | Some a \<Rightarrow>
                    (let D = vdict V u2f_app_dict None;
                         p = snd (delete_key D (app_key H i) p)
                     in case create_key D (app_key H i) p of
                          (Inl _, p) \<Rightarrow> (Some (), p)
                        | (Inr _, p) \<Rightarrow>
                            (case vwrite V u2f_app_dict None (app_key H i) (serialize_app_info H (note_use now a)) p of
                               (Inl _, p) \<Rightarrow> (None, p)
                             | (Inr _, p) \<Rightarrow> (Some (), p)))))"

section \<open>The list of passkeys\<close>

record passkey =
  pk_key :: string
  pk_name :: bytes

fun skip_chars :: "nat \<Rightarrow> bytes \<Rightarrow> bytes" where
  "skip_chars 0 s = s"
| "skip_chars (Suc n) s = skip_chars n (drop (length (next_char s)) s)"

definition first_chars :: "nat \<Rightarrow> bytes \<Rightarrow> bytes" where
  "first_chars n s = take (length s - length (skip_chars n s)) s"

definition short_label :: "string \<Rightarrow> bytes" where
  "short_label k = 40 # first_chars 8 (utf8 k) @ [0xE2, 0x80, 0xA6, 41]"

definition read_passkey_name :: "'p vault_db \<Rightarrow> hex_codec \<Rightarrow> string \<Rightarrow> 'p \<Rightarrow> bytes option option" where
  "read_passkey_name V H k p =
     (let D = vdict V u2f_app_dict None
      in case open_key D k p of
           Inl _ \<Rightarrow> Some None
         | Inr _ \<Rightarrow>
             (case read_to_end D k p of
                Inl _ \<Rightarrow> Some None
              | Inr bs \<Rightarrow>
                  (case deserialize_app_info H bs of
                     Inr a \<Rightarrow> Some (if trim (ai_name a) = [] then None else Some (ai_name a))
                   | Inl NoAppInfo \<Rightarrow> Some None
                   | Inl AppInfoPanic \<Rightarrow> None)))"

definition passkey_of :: "'p vault_db \<Rightarrow> hex_codec \<Rightarrow> 'p \<Rightarrow> string \<Rightarrow> passkey option" where
  "passkey_of V H p k =
     map_option (\<lambda>n. \<lparr>pk_key = k, pk_name = or_default (short_label k) n\<rparr>) (read_passkey_name V H k p)"

text \<open>The tables of \<open>to_lowercase\<close> are a parameter; \<open>sort_by\<close> is stable.\<close>

definition passkey_list :: "(bytes \<Rightarrow> bytes) \<Rightarrow> 'p vault_db \<Rightarrow> hex_codec \<Rightarrow> 'p \<Rightarrow> passkey list option" where
  "passkey_list lower V H p =
     (case list_keys (vdict V u2f_app_dict None) p of
        Inl _ \<Rightarrow> Some []
      | Inr ks \<Rightarrow> map_option (sort_key (\<lambda>k. lower (pk_name k))) (those (map (passkey_of V H p) ks)))"

end
