(* ===== verification/App_Info_Props.thy ===== *)
theory App_Info_Props
  imports App_Info Bookmark_Props
begin

text \<open>
  An approval is counted and its time noted, without touching another application, although the notes
  are lost; and what makes a stored entry unreadable.
\<close>

section \<open>Round trip\<close>

definition app_info_clean :: "app_info \<Rightarrow> bool" where
  "app_info_clean a \<longleftrightarrow> clean (ai_name a) \<and> ai_name a \<noteq> [] \<and> length (ai_id a) = 32 \<and> ai_id a \<noteq> replicate 32 0"

lemma app_info_fields:
  "app_info_field H a (utf8 ''name'') d = Inr (a\<lparr>ai_name := ai_name a @ d\<rparr>)"
  "app_info_field H a (utf8 ''id'') d =
     rbind (ok_or (hx_decode H d) NoAppInfo) (\<lambda>i. if length i = 32 then Inr (a\<lparr>ai_id := i\<rparr>) else Inl AppInfoPanic)"
  "app_info_field H a (utf8 ''ctime'') d = rbind (ok_or (parse_u64 d) NoAppInfo) (\<lambda>v. Inr (a\<lparr>ai_ctime := v\<rparr>))"
  "app_info_field H a (utf8 ''atime'') d = rbind (ok_or (parse_u64 d) NoAppInfo) (\<lambda>v. Inr (a\<lparr>ai_atime := v\<rparr>))"
  "app_info_field H a (utf8 ''count'') d = Inr (case parse_u64 d of Some v \<Rightarrow> a\<lparr>ai_count := v\<rparr> | None \<Rightarrow> a)"
  by (simp_all add: app_info_field_def utf8_def)

lemma utf8_tag_id [simp]: "58 \<notin> set (utf8 ''id'')" "clean (utf8 ''id'')"
  by (simp_all add: utf8_def clean_def utf8_valid_def)

lemma hex_clean: "hex_codec_ok H \<Longrightarrow> clean (hx_encode H bs)"
  unfolding hex_codec_ok_def clean_def
  by (intro conjI utf8_valid_all_ascii) (fastforce simp: list_all_iff word_le_nat_alt word_less_nat_alt)+

lemma hex_decode [simp]: "hex_codec_ok H \<Longrightarrow> hx_decode H (hx_encode H bs) = Some bs"
  by (simp add: hex_codec_ok_def)

lemma app_info_round_trip:
  assumes H: "hex_codec_ok H" and a: "app_info_clean a"
  shows "deserialize_app_info H (serialize_app_info H a) = Inr (a\<lparr>ai_notes := []\<rparr>)"
proof -
  have "list_all clean (app_info_lines H a)"
    using a hex_clean [OF H] by (simp add: app_info_lines_def app_info_clean_def clean_tagged)
  note clean_lines [OF this]
  moreover have "fold_lines (on_line (app_info_field H)) (app_info_lines H a) default_app_info = Inr (a\<lparr>ai_notes := []\<rparr>)"
    using a H by (simp add: app_info_lines_def on_line_tagged app_info_fields default_app_info_def app_info_clean_def)
  ultimately show ?thesis
    using a by (simp add: deserialize_app_info_def serialize_app_info_def fold_lines_vec app_info_clean_def)
qed

lemma serialize_not_Nil [simp]: "serialize_app_info H a \<noteq> []"
  by (simp add: serialize_app_info_def app_info_lines_def lines_to_vec_def tagged_def)

text \<open>A nameless entry is never read again: the user is asked anew and the count restarts.\<close>

lemma nameless_app_info_unreadable:
  assumes "hex_codec_ok H" "ai_name a = []" "length (ai_id a) = 32"
  shows "deserialize_app_info H (serialize_app_info H a) = Inl NoAppInfo"
proof -
  have "list_all clean (app_info_lines H a)"
    using assms hex_clean [OF assms(1)] by (simp add: app_info_lines_def clean_tagged clean_def [of "[]"])
  note clean_lines [OF this]
  moreover have "fold_lines (on_line (app_info_field H)) (app_info_lines H a) default_app_info = Inr (a\<lparr>ai_notes := []\<rparr>)"
    using assms by (simp add: app_info_lines_def on_line_tagged app_info_fields default_app_info_def)
  ultimately show ?thesis
    using assms by (simp add: deserialize_app_info_def serialize_app_info_def fold_lines_vec)
qed

text \<open>An identifier of another length panics instead of being rejected.\<close>

lemma app_info_id_panics:
  assumes "hx_decode H d = Some i" "length i \<noteq> 32" "10 \<notin> set d" "utf8_valid d"
  shows "deserialize_app_info H (tagged ''id'' d) = Inl AppInfoPanic"
proof -
  have "clean (tagged ''id'' d)" using assms by (intro clean_tagged) (simp, simp add: clean_def)
  then show ?thesis
    using assms by (simp add: deserialize_app_info_def clean_def split_on_whole on_line_tagged app_info_fields )
qed

section \<open>Approvals are counted\<close>

lemma stored_app_info_ok:
  assumes V: "vault_db_ok V view" and H: "hex_codec_ok H" and a: "app_info_clean a"
    and v: "view p u2f_app_dict (app_key H i) = Some (serialize_app_info H a)"
  shows "stored_app_info V H i p = Some (Some (a\<lparr>ai_notes := []\<rparr>))"
proof -
  have "pddb_map (vdict V u2f_app_dict None) (\<lambda>p. view p u2f_app_dict)" using V by (simp add: vault_db_ok_def)
  then have "attributes_len (vdict V u2f_app_dict None) (app_key H i) p = Inr (length (serialize_app_info H a))"
    using v unfolding pddb_map_def by blast
  then show ?thesis
    using v app_info_round_trip [OF H a]
    by (simp add: stored_app_info_def Let_def vault_dictD(2) [OF V] vault_dictD(3) [OF V v])
qed

lemma rewrite_key:
  assumes V: "vault_db_ok V view"
  shows "\<exists>p1 p2. create_key (vdict V d None) k (snd (delete_key (vdict V d None) k p)) = (Inr (), p1) \<and>
    vwrite V d None k bs p1 = (Inr (length bs), p2) \<and> view p2 d = (view p d)(k \<mapsto> bs)"
proof -
  obtain p0 where p0: "snd (delete_key (vdict V d None) k p) = p0" "view p0 d = (view p d)(k := None)"
    using vault_dictD(6) [OF V, of d None k p] by (metis snd_conv)
  obtain p1 where p1: "create_key (vdict V d None) k p0 = (Inr (), p1)" "view p1 d = (view p0 d)(k \<mapsto> [])"
    using vault_dictD(4) [OF V, of d None k p0] p0(2) by auto
  have "view p1 d k = Some []" using p1(2) by simp
  from vault_dictD(7) [OF V this, of None bs] obtain p2 where "vwrite V d None k bs p1 = (Inr (length bs), p2)" "view p2 d = (view p1 d)(k \<mapsto> bs)"
    by auto
  then show ?thesis using p0 p1 by auto
qed

text \<open>C40: after the approval of an application the vault knows, its entry has the time of the approval and
  a count that is one larger, or still the largest, with the same name; the notes are gone, and the entry
  of no other application changes.\<close>

theorem approval_is_counted:
  assumes V: "vault_db_ok V view" and H: "hex_codec_ok H" and a: "app_info_clean a" and i: "ai_id a = i"
    and v: "view p u2f_app_dict (app_key H i) = Some (serialize_app_info H a)"
  shows "\<exists>p'. update_app_info V H entered ns now i p = (Some (), p') \<and>
    stored_app_info V H i p' = Some (Some (a\<lparr>ai_notes := [], ai_atime := now,
      ai_count := (if ai_count a = - 1 then - 1 else ai_count a + 1)\<rparr>)) \<and>
    (\<forall>j. j \<noteq> i \<longrightarrow> view p' u2f_app_dict (app_key H j) = view p u2f_app_dict (app_key H j))"
proof -
  let ?a = "note_use now (a\<lparr>ai_notes := []\<rparr>)"
  obtain p1 p2 where p: "create_key (vdict V u2f_app_dict None) (app_key H i)
       (snd (delete_key (vdict V u2f_app_dict None) (app_key H i) p)) = (Inr (), p1)"
    "vwrite V u2f_app_dict None (app_key H i) (serialize_app_info H ?a) p1 = (Inr (length (serialize_app_info H ?a)), p2)"
    "view p2 u2f_app_dict = (view p u2f_app_dict)(app_key H i \<mapsto> serialize_app_info H ?a)"
    using rewrite_key [OF V] by blast
  have run: "update_app_info V H entered ns now i p = (Some (), p2)"
    using a i p(1,2) stored_app_info_ok [OF V H a v] by (simp add: update_app_info_def app_info_clean_def Let_def)
  have a': "app_info_clean ?a" using a by (simp add: note_use_def app_info_clean_def)
  have "stored_app_info V H i p2 = Some (Some (?a\<lparr>ai_notes := []\<rparr>))"
    by (rule stored_app_info_ok [OF V H a']) (simp add: p(3))
  then have stored: "stored_app_info V H i p2 = Some (Some (a\<lparr>ai_notes := [], ai_atime := now,
      ai_count := (if ai_count a = - 1 then - 1 else ai_count a + 1)\<rparr>))"
    by (simp add: note_use_def)
  have "app_key H j \<noteq> app_key H i" if "j \<noteq> i" for j
  proof
    assume "app_key H j = app_key H i"
    then have "hx_encode H j = hx_encode H i"
      using inj_chars_of by (simp add: app_key_def inj_eq)
    then show False using that hex_decode [OF H] by (metis option.inject)
  qed
  then show ?thesis using run stored p(3) by auto
qed

section \<open>The list shows every key\<close>

lemma those_map_Some: "those (map f xs) = Some ys \<Longrightarrow> list_all2 (\<lambda>x y. f x = Some y) xs ys"
  by (induction xs arbitrary: ys) (auto split: option.splits)

lemma passkey_list_complete:
  assumes V: "vault_db_ok V view" and l: "passkey_list lower V H p = Some xs"
  shows "distinct (map pk_key xs) \<and> set (map pk_key xs) = dom (view p u2f_app_dict) \<and>
    sorted (map (\<lambda>x. lower (pk_name x)) xs)"
proof -
  obtain ks where ks: "list_keys (vdict V u2f_app_dict None) p = Inr ks" "distinct ks" "set ks = dom (view p u2f_app_dict)"
    using vault_dictD(1) [OF V] by blast
  then obtain ys where ys: "those (map (passkey_of V H p) ks) = Some ys" "xs = sort_key (\<lambda>k. lower (pk_name k)) ys"
    using l by (auto simp: passkey_list_def)
  have "map pk_key ys = ks"
    using those_map_Some [OF ys(1)] by (induction rule: list_all2_induct) (auto simp: passkey_of_def)
  moreover have "mset (map pk_key xs) = mset (map pk_key ys)" by (simp add: ys(2))
  ultimately show ?thesis
    using ks ys(2) mset_eq_imp_distinct_iff mset_eq_setD by (metis sorted_sort_key)
qed

section \<open>Witness\<close>

fun toy_pairs :: "bytes \<Rightarrow> bytes option" where
  "toy_pairs [] = Some []"
| "toy_pairs (x # y # r) =
     (case (hex_value x, hex_value y, toy_pairs r) of
        (Some a, Some b, Some bs) \<Rightarrow> Some (of_nat (a * 16 + b) # bs)
      | _ \<Rightarrow> None)"
| "toy_pairs [x] = None"

definition toy_hex :: hex_codec where
  "toy_hex = \<lparr>hx_encode = concat \<circ> map (\<lambda>b. [lower_hex (unat b div 16), lower_hex (unat b mod 16)]), hx_decode = toy_pairs\<rparr>"

lemma toy_hex_ok: "hex_codec_ok toy_hex"
  unfolding hex_codec_ok_def
proof (intro allI conjI)
  fix bs
  have b: "unat b div 16 < 16" "unat b mod 16 < 16" for b :: u8 using unat_u8_less [of b] by simp_all
  have "toy_pairs (concat (map (\<lambda>b. [lower_hex (unat b div 16), lower_hex (unat b mod 16)]) bs)) = Some bs"
    by (induction bs) (simp_all add: lower_hex_value [OF b(1)] lower_hex_value [OF b(2)] del: lower_hex.simps of_nat_add)
  then show "hx_decode toy_hex (hx_encode toy_hex bs) = Some bs" by (simp add: toy_hex_def)
  have "x \<in> {48..57} \<union> {97..102}" if "x = lower_hex n" "n < 16" for x :: u8 and n
    using lower_hex_range [OF that(2)] that(1) by (auto simp: word_le_nat_alt simp del: lower_hex.simps)
  then show "set (hx_encode toy_hex bs) \<subseteq> {48..57} \<union> {97..102}"
    using b by (induction bs) (simp_all add: toy_hex_def del: lower_hex.simps)
qed

definition toy_app :: app_info where
  "toy_app = \<lparr>ai_name = utf8 ''git'', ai_id = replicate 32 7, ai_notes = [], ai_ctime = 1, ai_atime = 2, ai_count = 3\<rparr>"

lemma approval_is_counted_witness:
  "\<exists>p p'. update_app_info toy_vault toy_hex None [] 9 (replicate 32 7) p = (Some (), p') \<and>
     stored_app_info toy_vault toy_hex (replicate 32 7) p' = Some (Some (toy_app\<lparr>ai_atime := 9, ai_count := 4\<rparr>))"
proof -
  let ?p = "(\<lambda>d. [])(u2f_app_dict := [(app_key toy_hex (replicate 32 7), serialize_app_info toy_hex toy_app)])"
  have a: "app_info_clean toy_app"
    by (simp add: app_info_clean_def toy_app_def clean_def utf8_def utf8_valid_def)
  have i: "ai_id toy_app = replicate 32 7" by (simp add: toy_app_def)
  have "toy_view ?p u2f_app_dict (app_key toy_hex (replicate 32 7)) = Some (serialize_app_info toy_hex toy_app)"
    by (simp add: toy_view_def)
  from approval_is_counted [where p = ?p and entered = None and now = 9 and ns = "[]", OF toy_vault_ok toy_hex_ok a i this] obtain p' where
    p': "update_app_info toy_vault toy_hex None [] 9 (replicate 32 7) ?p = (Some (), p')"
    "stored_app_info toy_vault toy_hex (replicate 32 7) p' = Some (Some (toy_app\<lparr>ai_notes := [], ai_atime := 9,
      ai_count := (if ai_count toy_app = - 1 then - 1 else ai_count toy_app + 1)\<rparr>))"
    by blast
  have "toy_app\<lparr>ai_notes := [], ai_atime := 9, ai_count := (if ai_count toy_app = - 1 then - 1 else ai_count toy_app + 1)\<rparr> =
      toy_app\<lparr>ai_atime := 9, ai_count := 4\<rparr>"
    by (simp add: toy_app_def)
  then show ?thesis using p' by metis
qed

end
