(* ===== verification/Spec2Isabelle.thy ===== *)
theory Spec2Isabelle
  imports Cbor_Props Hid_Props Main_Hid Store_Props Fragment Data_Props Credential_Props Storage_Props
    Client_Pin_Props Responses Large_Blob_Props Config_Props Credential_Id_Props Ctap Assertion_Props
    Presence_Props Registered U2f_Props Bookmark_Props Vendor_Props Item_Cache_Props Generator_Props
    User_Presence App_Info_Props
begin

text \<open>
  This development models the authenticator and vault firmware of the badge (\<open>src/\<close>, a CTAP2 / U2F
  security key derived from OpenSK with a password and one-time-password vault on Xous) and proves
  what makes its parts correct. It follows the code function by function; every definition names the
  file it translates in the text of its theory, and strings, maps and integers have the representation
  of the code: byte strings are lists of 8-bit words, Rust strings are their UTF-8 bytes, fixed width
  integers are words, \<open>usize\<close> values are natural numbers with the width of the target
  (\<open>usize_bits\<close>) where the code wraps or narrows, \<open>Instant\<close> is a number of nanoseconds.

  How the program fits together. USB HID packets are assembled into messages per channel
  (\<open>src/ctap/hid\<close>), a dispatcher (\<open>main_hid.rs\<close>) hands complete messages to CTAP1 (\<open>ctap1.rs\<close>, over
  APDU frames) or to CTAP2 (\<open>ctap/mod.rs\<close>), whose requests and responses are CBOR
  (\<open>libraries/cbor\<close>). The CTAP2 handlers share the state of the authenticator (PIN and token state,
  the command in progress, a pending large blob) and an environment: the key-value store over the PDDB
  (\<open>libraries/persistent_store\<close>), random numbers, and the prompts to the user. The vault keeps its
  records in PDDB dictionaries of its own and is reached by vendor messages for backup and restore.

  Layers and theories, from the bottom:

  \<^item> Prelude: words, results (\<open>rbind\<close>), state-and-error operations (\<open>sbind\<close>), big-endian numbers, UTF-8
    validation, and the locale \<open>prefix_codec\<close> of self-delimiting formats.
  \<^item> Cbor_Values, Cbor_Writer, Cbor_Reader (\<open>libraries/cbor/src\<close>): values and their canonical order,
    encoder, decoder. Cbor_Codec, Cbor_Order and Cbor_Props show that they are inverse (an
    interpretation of \<open>prefix_codec\<close>), that only canonical input is accepted and that the order is the
    one of the encodings.
  \<^item> Hid, Hid_Transport, Hid_Channel, Hid_Props (\<open>src/ctap/hid\<close>): packets, assembler with its timeout,
    channels; delivery of split messages, isolation of channels, bounded memory.
  \<^item> Timed and Main_Hid (\<open>timed_permission.rs\<close>, \<open>main_hid.rs\<close>): timed permissions and the dispatcher,
    generic in the two protocol handlers.
  \<^item> Store, Store_Spec, Store_Props, Fragment (\<open>libraries/persistent_store/src/store.rs\<close>,
    \<open>fragment.rs\<close>): the store over a PDDB given as a record of functions. Store_Spec states what the PDDB
    has to provide as a locale, interpreted on an association list, and the store as a map from keys to
    byte strings, which the operations refine.
  \<^item> Status, Crypto, Pin_Protocol, Token_State, Customization (\<open>status_code.rs\<close>, \<open>libraries/crypto/src\<close>,
    \<open>crypto_wrapper.rs\<close>, \<open>pin_protocol.rs\<close>, \<open>token_state.rs\<close>, \<open>api/customization.rs\<close>).
  \<^item> Data_Formats, Data_Requests, Data_Props (\<open>data_formats.rs\<close>), Commands (\<open>command.rs\<close>), Responses
    (\<open>response.rs\<close>): the CTAP2 structures and their CBOR.
  \<^item> Ctap_Storage, Credential_Store, Credential_Props, Storage_Props (\<open>storage.rs\<close>, \<open>storage/key.rs\<close>,
    \<open>api/key_store.rs\<close>, \<open>api/attestation_store.rs\<close>): persistent entries and resident credentials, with
    the store of credentials refined to a map from slots to credentials.
  \<^item> Client_Pin, Client_Pin_Props (\<open>client_pin.rs\<close>); Large_Blobs, Large_Blob_Props (\<open>large_blobs.rs\<close>);
    Config_Command, Config_Props (\<open>config_command.rs\<close>); Credential_Management
    (\<open>credential_management.rs\<close>); Credential_Id, Credential_Id_Props (\<open>credential_id.rs\<close>,
    \<open>crypto_wrapper.rs\<close>); Stateful (the command in progress, \<open>mod.rs\<close>).
  \<^item> Ctap_State, Make_Credential, Get_Assertion, Ctap (\<open>mod.rs\<close>): the state of the authenticator and the
    handlers of its commands, up to \<open>process_command\<close> on bytes. Effects and Frames say which entries an
    operation can change; Ctap_Runs has the step relation of a device since power-up, in which CTAP1 and
    CTAP2 messages interleave, and its invariant;
    Assertion_Props, Presence_Props, Text_Props, Registration_Props and Registered hold the properties
    that span several components.
  \<^item> Apdu, Ctap1, U2f_Props (\<open>apdu.rs\<close>, \<open>ctap1.rs\<close>): the U2F commands, and the APDU parser compared with
    the encodings of ISO 7816-4.

  \<^item> Vault_Text, Totp, Records, Record_Props (\<open>src/totp.rs\<close>, \<open>src/storage.rs\<close>): the text form of the records
    of the vault, the import of URIs and the one-time codes. Vault_Storage, Vault_Props, Bookmark_Props
    (\<open>src/storage.rs\<close>): the vault database over the PDDB, with the locale record_store of what a map of
    records promises, and the bookmarks.
  \<^item> Backup, Backup_Props (\<open>libraries/backup\<close>), Vendor, Vendor_Props (\<open>src/vendor_commands.rs\<close>,
    \<open>src/fido2.rs\<close>): backup and restore over USB, on the records of record_store.
  \<^item> Item_Cache, Item_Cache_Props (\<open>src/itemcache.rs\<close>): the lists of entries the screens show. Generator,
    Generator_Props (\<open>src/generator.rs\<close>): the password generator.
  \<^item> User_Presence (\<open>src/env/xous/mod.rs\<close>): the prompts for confirmation and their timeouts. App_Info,
    App_Info_Props (\<open>src/vault_api.rs\<close>, \<open>src/env/xous/mod.rs\<close>, \<open>src/storage.rs\<close>): what is remembered of
    applications, and the list of passkeys.

  What the groups of lemmas show. Round trips and canonicity of every format (CBOR, packets, credentials and entities, fragments, large blobs, credential IDs); the store and the
  credential store refine maps; the PIN is needed for a token, wrong PINs change the key agreement key,
  count down and lock out; tokens carry permissions and expire; the user has to confirm what the
  specification says, resets are possible only after power-up, a getNextAssertion continues a
  getAssertion, while U2F messages interrupt neither; a registered credential, CTAP2 or U2F, signs afterwards and for its relying party only.

  Parameters. Code outside the repository is an argument: the PDDB (record \<open>pddb\<close>, with the locale of its
  laws), SHA-256, AES, the curves, the signature schemes and the random number generators (record
  \<open>crypto\<close>, with \<open>crypto_ok\<close> for their documented behaviour), the user's answers and the locale texts
  (record \<open>platform\<close>). Toy instances (an association list, a trivial cipher) witness that the hypotheses
  can hold. The build is the one of the badge: features \<open>with_ctap1\<close>, \<open>ed25519\<close>, \<open>xous\<close>.

  Bounds. CBOR nesting is limited to four levels as in \<open>cbor_read\<close> of the code; keys of the store fit in
  \<open>usize\<close> when it has at least 11 bits; a credential store has at most 300 slots; five attempts to
  initialize the storage are modelled as a recursion of depth five. All other loops are structural or
  have a termination proof; no fuel is used.

  Not modelled: the screens, menus and camera of the badge (\<open>ux.rs\<close>, \<open>actions.rs\<close>, \<open>main.rs\<close> and their
  helpers), which draw and wait for messages of other services; the legacy flash file system of
  \<open>persistent_store\<close> (\<open>format.rs\<close>, \<open>driver.rs\<close>, \<open>buffer.rs\<close> and others), which the PDDB store replaced and
  only its own tests use; the Tock and test environments; the arithmetic of the curves and ciphers, which
  other crates do; the second HID interface of the feature \<open>vendor_hid\<close> and the firmware upgrade storage,
  which this build does not have.
\<close>

end
